(* ===== verification/Prelude.thy ===== *)
theory Prelude
  imports Main "HOL-Library.Multiset" "HOL-Library.AList"
begin

text \<open>
  The vocabulary the components of the development share: the collections of rewrite rules,
  the JavaScript values the TypeScript sources compute with (strings, arrays, objects used as
  dictionaries, the sort keys of lodash), and the interfaces (locales) that several slices of
  the Redux store and several list-valued components implement.

  A string is a list of code units below 256 (\<open>char list\<close>). An array is a list. A dictionary
  whose key order the code never observes is a map; one whose entries are listed
  (\<open>Object.entries\<close>, \<open>Object.values\<close>) is an association list in insertion order.
\<close>

section \<open>Collections\<close>

named_theorems slice_simps \<open>the equations of the slices of the store\<close>
named_theorems inv_intros \<open>preservation lemmas of the invariants\<close>

section \<open>Errors\<close>

text \<open>
  A thrown \<open>Error\<close> carries its message; reading a property of \<open>undefined\<close> is a
  \<open>TypeError\<close>, reading beyond the end of a buffer a \<open>RangeError\<close>. A computation that may throw returns \<open>js_error + 'a\<close>.
\<close>

datatype js_error = Error string | TypeError | RangeError

text \<open>A step after one that may throw.\<close>

fun and_then :: "'e + 'a \<Rightarrow> ('a \<Rightarrow> 'e + 'b) \<Rightarrow> 'e + 'b" where
  "and_then (Inl e) f = Inl e"
| "and_then (Inr x) f = f x"

section \<open>Truthiness\<close>

text \<open>\<open>!!s\<close> for a string that may be \<open>null\<close> or \<open>undefined\<close>: neither absent nor empty.\<close>

definition truthy_str :: "string option \<Rightarrow> bool" where
  "truthy_str s = (case s of None \<Rightarrow> False | Some t \<Rightarrow> t \<noteq> [])"

text \<open>\<open>s || t\<close> on optional strings.\<close>

definition or_str :: "string option \<Rightarrow> string option \<Rightarrow> string option" where
  "or_str s t = (if truthy_str s then s else t)"

text \<open>\<open>n || 0\<close> for an optional whole number.\<close>

definition or_zero :: "int option \<Rightarrow> int" where
  "or_zero n = (case n of None \<Rightarrow> 0 | Some k \<Rightarrow> k)"

text \<open>\<open>!!n\<close> for an optional whole number: neither absent nor zero.\<close>

definition truthy_int :: "int option \<Rightarrow> bool" where
  "truthy_int n = (or_zero n \<noteq> 0)"

text \<open>\<open>a ?? b\<close>.\<close>

definition nullish :: "'a option \<Rightarrow> 'a option \<Rightarrow> 'a option" where
  "nullish a b = (case a of None \<Rightarrow> b | Some x \<Rightarrow> Some x)"

lemma truthy_str_simps [simp]:
  "truthy_str None = False" "truthy_str (Some t) = (t \<noteq> [])"
  by (simp_all add: truthy_str_def)

lemma or_str_simps [simp]:
  "or_str None t = t" "or_str (Some s) t = (if s = [] then t else Some s)"
  by (simp_all add: or_str_def)

lemma or_zero_simps [simp]: "or_zero None = 0" "or_zero (Some k) = k"
  by (simp_all add: or_zero_def)

lemma truthy_int_simps [simp]: "truthy_int None = False" "truthy_int (Some k) = (k \<noteq> 0)"
  by (simp_all add: truthy_int_def)

lemma nullish_simps [simp]: "nullish None b = b" "nullish (Some x) b = Some x"
  by (simp_all add: nullish_def)

lemma nullish_same [simp]: "nullish a a = a"
  by (cases a) simp_all

section \<open>Arrays\<close>

text \<open>\<open>xs.slice(-k)\<close> for a positive \<open>k\<close>: the last \<open>k\<close> elements.\<close>

definition slice_last :: "nat \<Rightarrow> 'a list \<Rightarrow> 'a list" where
  "slice_last k xs = drop (length xs - k) xs"

lemma length_slice_last [simp]: "length (slice_last k xs) = min k (length xs)"
  by (simp add: slice_last_def)

lemma set_slice_last: "set (slice_last k xs) \<subseteq> set xs"
  by (simp add: slice_last_def set_drop_subset)

lemma distinct_map_slice_last: "distinct (map f xs) \<Longrightarrow> distinct (map f (slice_last k xs))"
  by (simp add: slice_last_def drop_map [symmetric])

lemma sorted_slice_last: "sorted (map f xs) \<Longrightarrow> sorted (map f (slice_last k xs))"
  by (simp add: slice_last_def drop_map [symmetric] sorted_wrt_drop)

text \<open>
  lodash \<open>orderBy(xs, key, 'asc')\<close> and \<open>orderBy(xs, key, 'desc')\<close>. Both are stable: lodash
  breaks ties by the original index in either direction, so descending order is not the
  reverse of ascending order.
\<close>

text \<open>\<open>xs.findIndex(p)\<close> where an element is known to satisfy \<open>p\<close>: the length when none does.\<close>

fun find_index :: "('a \<Rightarrow> bool) \<Rightarrow> 'a list \<Rightarrow> nat" where
  "find_index p [] = 0"
| "find_index p (x # xs) = (if p x then 0 else Suc (find_index p xs))"

definition order_asc :: "('a \<Rightarrow> int) \<Rightarrow> 'a list \<Rightarrow> 'a list" where
  "order_asc key xs = sort_key key xs"

definition order_desc :: "('a \<Rightarrow> int) \<Rightarrow> 'a list \<Rightarrow> 'a list" where
  "order_desc key xs = sort_key (\<lambda>x. - key x) xs"

lemma mset_order [simp]:
  "mset (order_asc key xs) = mset xs" "mset (order_desc key xs) = mset xs"
  by (simp_all add: order_asc_def order_desc_def)

lemma set_order [simp]: "set (order_asc key xs) = set xs" "set (order_desc key xs) = set xs"
  by (simp_all add: order_asc_def order_desc_def)

lemma length_order [simp]:
  "length (order_asc key xs) = length xs" "length (order_desc key xs) = length xs"
  by (simp_all add: order_asc_def order_desc_def)

lemma distinct_map_order [simp]:
  "distinct (map f (order_asc key xs)) = distinct (map f xs)"
  "distinct (map f (order_desc key xs)) = distinct (map f xs)"
  by (metis mset_order mset_map mset_eq_imp_distinct_iff)+

lemma sorted_order_asc [simp]: "sorted (map key (order_asc key xs))"
  by (simp add: order_asc_def)

lemma sorted_order_desc [simp]: "sorted_wrt (\<ge>) (map key (order_desc key xs))"
proof -
  have "sorted (map (\<lambda>x. - key x) (order_desc key xs))"
    by (simp add: order_desc_def)
  then show ?thesis by (simp add: sorted_wrt_map)
qed

lemma order_desc_stable:
  "filter (\<lambda>y. key y = k) (order_desc key xs) = filter (\<lambda>y. key y = k) xs"
proof -
  have "filter (\<lambda>y. - key y = - k) (sort_key (\<lambda>x. - key x) xs) = filter (\<lambda>y. - key y = - k) xs"
    by (rule sort_key_stable)
  then show ?thesis by (simp add: order_desc_def)
qed

lemma order_asc_sorted: "sorted (map key xs) \<Longrightarrow> order_asc key xs = xs"
  by (simp add: order_asc_def sort_key_id_if_sorted)

text \<open>Sorting a sorted list with one more element at the end inserts the element after its equals.\<close>

lemma order_asc_snoc:
  assumes "sorted (map key xs)"
  shows "order_asc key (xs @ [x]) =
    takeWhile (\<lambda>y. key y \<le> key x) xs @ x # dropWhile (\<lambda>y. key y \<le> key x) xs"
proof -
  let ?l = "takeWhile (\<lambda>y. key y \<le> key x) xs" and ?r = "dropWhile (\<lambda>y. key y \<le> key x) xs"
  have l: "key y \<le> key x" if "y \<in> set ?l" for y using that by (auto dest: set_takeWhileD)
  have sr: "sorted (map key ?l)" "sorted (map key ?r)"
    using assms by (metis map_append sorted_append takeWhile_dropWhile_id)+
  have r: "key x < key y" if "y \<in> set ?r" for y
  proof -
    have "?r \<noteq> []" using that by (metis empty_iff empty_set)
    then have "\<not> key (hd ?r) \<le> key x" by (rule hd_dropWhile)
    moreover have "key (hd ?r) \<le> key y"
      using sr(2) that by (cases ?r) (auto simp: sorted_append)
    ultimately show ?thesis by simp
  qed
  have "sort_key key (xs @ [x]) = ?l @ x # ?r"
  proof (rule properties_for_sort_key)
    have "mset ?l + mset ?r = mset xs" by (metis mset_append takeWhile_dropWhile_id)
    then show "mset (?l @ x # ?r) = mset (xs @ [x])" by simp
    fix k assume "k \<in> set (?l @ x # ?r)"
    have "filter (\<lambda>y. key k = key y) ?r = []" if "key k = key x"
      using r that unfolding filter_empty_conv by (metis order_less_irrefl)
    moreover have "filter (\<lambda>y. key k = key y) ?l @ filter (\<lambda>y. key k = key y) ?r =
        filter (\<lambda>y. key k = key y) xs"
      by (metis filter_append takeWhile_dropWhile_id)
    ultimately show "filter (\<lambda>y. key k = key y) (?l @ x # ?r) = filter (\<lambda>y. key k = key y) (xs @ [x])"
      by (cases "key k = key x") simp_all
  next
    show "sorted (map key (?l @ x # ?r))"
      using sr l r by (fastforce simp: sorted_append)
  qed
  then show ?thesis by (simp add: order_asc_def)
qed

text \<open>Keeping the last \<open>k\<close> after every insertion is keeping the last \<open>k\<close> once.\<close>

lemma slice_last_order_asc_snoc:
  assumes "sorted (map key xs)"
  shows "slice_last k (order_asc key (slice_last k xs @ [x])) = slice_last k (order_asc key (xs @ [x]))"
proof -
  let ?a = "take (length xs - k) xs" and ?b = "slice_last k xs"
  have xs: "xs = ?a @ ?b" by (simp add: slice_last_def)
  have sb: "sorted (map key ?b)" using assms by (rule sorted_slice_last)
  show ?thesis
  proof (cases "list_all (\<lambda>y. key y \<le> key x) ?a")
    case True
    then have tw: "takeWhile (\<lambda>y. key y \<le> key x) xs = ?a @ takeWhile (\<lambda>y. key y \<le> key x) ?b"
      "dropWhile (\<lambda>y. key y \<le> key x) xs = dropWhile (\<lambda>y. key y \<le> key x) ?b"
      by (subst (1) xs, simp add: list_all_iff)+
    have eq: "order_asc key (xs @ [x]) = ?a @ order_asc key (?b @ [x])"
      unfolding order_asc_snoc [OF assms] order_asc_snoc [OF sb] tw by simp
    have "length (order_asc key (?b @ [x])) = min k (length xs) + 1" by simp
    then show ?thesis unfolding eq by (auto simp: slice_last_def min_def)
  next
    case False
    then obtain y where y: "y \<in> set ?a" "key x < key y" by (auto simp: list_all_iff)
    have "sorted (map key (?a @ ?b))" using assms xs by simp
    then have b: "key x < key z" if "z \<in> set ?b" for z
      using y that by (fastforce simp: sorted_append)
    have tb: "takeWhile (\<lambda>y. key y \<le> key x) ?b = []" "dropWhile (\<lambda>y. key y \<le> key x) ?b = ?b"
      using b by (cases ?b; fastforce)+
    have ta: "dropWhile (\<lambda>y. key y \<le> key x) xs = dropWhile (\<lambda>y. key y \<le> key x) ?a @ ?b"
      using y by (subst (1) xs, subst dropWhile_append1) auto
    have len: "length ?b = k \<or> ?a = []" by auto
    have "?a \<noteq> []" using y by auto
    then have k: "length ?b = k" using len by blast
    have "order_asc key (?b @ [x]) = x # ?b" using tb by (simp add: order_asc_snoc [OF sb])
    moreover have "order_asc key (xs @ [x]) =
        (takeWhile (\<lambda>y. key y \<le> key x) xs @ x # dropWhile (\<lambda>y. key y \<le> key x) ?a) @ ?b"
      by (simp add: order_asc_snoc [OF assms] ta)
    moreover have "slice_last k (zs @ ?b) = ?b" for zs
      unfolding slice_last_def [of k "zs @ ?b"] using k by simp
    from this [of "[x]"] this have "slice_last k (x # ?b) = ?b" "\<And>zs. slice_last k (zs @ ?b) = ?b" by simp_all
    ultimately show ?thesis by (simp only:)
  qed
qed

section \<open>Sort keys that may be missing\<close>

text \<open>
  The value lodash compares when a key function returns a number or \<open>undefined\<close>: numbers by
  size, and \<open>undefined\<close> after every number in ascending order.
\<close>

datatype lodash_key = Num int | Undefined

instantiation lodash_key :: linorder
begin

fun less_eq_lodash_key :: "lodash_key \<Rightarrow> lodash_key \<Rightarrow> bool" where
  "less_eq_lodash_key (Num a) (Num b) = (a \<le> b)"
| "less_eq_lodash_key (Num a) Undefined = True"
| "less_eq_lodash_key Undefined (Num b) = False"
| "less_eq_lodash_key Undefined Undefined = True"

definition less_lodash_key :: "lodash_key \<Rightarrow> lodash_key \<Rightarrow> bool" where
  "less_lodash_key a b = (a \<le> b \<and> \<not> b \<le> a)"

instance
proof
  fix x y z :: lodash_key
  show "(x < y) = (x \<le> y \<and> \<not> y \<le> x)" by (simp add: less_lodash_key_def)
  show "x \<le> x" by (cases x) auto
  show "x \<le> y \<Longrightarrow> y \<le> z \<Longrightarrow> x \<le> z" by (cases x; cases y; cases z) auto
  show "x \<le> y \<Longrightarrow> y \<le> x \<Longrightarrow> x = y" by (cases x; cases y) auto
  show "x \<le> y \<or> y \<le> x" by (cases x; cases y) auto
qed

end

text \<open>
  \<open>orderBy(xs, [key], ['desc'])\<close> with such keys: the entries without a key come first, then
  the numbers from the largest down, each group in its original order.
\<close>

definition lodash_key_of :: "int option \<Rightarrow> lodash_key" where
  "lodash_key_of k = (case k of None \<Rightarrow> Undefined | Some n \<Rightarrow> Num n)"

definition order_desc_opt :: "('a \<Rightarrow> int option) \<Rightarrow> 'a list \<Rightarrow> 'a list" where
  "order_desc_opt key xs =
     filter (\<lambda>x. key x = None) xs @ order_desc (\<lambda>x. or_zero (key x)) (filter (\<lambda>x. key x \<noteq> None) xs)"

lemma order_desc_opt_sorted:
  "sorted_wrt (\<ge>) (map (\<lambda>x. lodash_key_of (key x)) (order_desc_opt key xs))"
proof -
  let ?ys = "order_desc (\<lambda>x. or_zero (key x)) (filter (\<lambda>x. key x \<noteq> None) xs)"
  have num: "lodash_key_of (key x) = Num (or_zero (key x))" if "x \<in> set ?ys" for x
    using that by (auto simp: lodash_key_of_def)
  have "sorted_wrt (\<lambda>x y. lodash_key_of (key y) \<le> lodash_key_of (key x)) ?ys"
  proof (rule sorted_wrt_mono_rel)
    show "sorted_wrt (\<lambda>x y. or_zero (key y) \<le> or_zero (key x)) ?ys"
      using sorted_order_desc [of "\<lambda>x. or_zero (key x)"] by (simp add: sorted_wrt_map)
    fix x y assume "x \<in> set ?ys" "y \<in> set ?ys" "or_zero (key y) \<le> or_zero (key x)"
    then show "lodash_key_of (key y) \<le> lodash_key_of (key x)" by (simp add: num)
  qed
  moreover have "lodash_key_of k \<le> Undefined" for k
    by (cases k) (auto simp: lodash_key_of_def)
  ultimately show ?thesis
    by (auto simp: order_desc_opt_def sorted_wrt_append sorted_wrt_map lodash_key_of_def
        intro: sorted_wrt_mono_rel [where P = "\<lambda>_ _. True"] sorted_wrt_true)
qed

lemma mset_order_desc_opt [simp]: "mset (order_desc_opt key xs) = mset xs"
  by (simp add: order_desc_opt_def)

section \<open>Objects used as dictionaries\<close>

text \<open>
  An object is its list of own properties in insertion order: assignment to a key that exists
  keeps its place, a new key goes to the end, \<open>delete\<close> removes it. Listing an object
  (\<open>Object.keys\<close>, \<open>Object.values\<close>, \<open>Object.entries\<close>) gives the keys that are array indices
  first, in numeric order, then the others in insertion order.
\<close>

type_synonym 'v jsobj = "(string \<times> 'v) list"

definition obj_get :: "'v jsobj \<Rightarrow> string \<Rightarrow> 'v option" where
  "obj_get ob k = map_of ob k"

definition obj_set :: "string \<Rightarrow> 'v \<Rightarrow> 'v jsobj \<Rightarrow> 'v jsobj" where
  "obj_set k v ob = AList.update k v ob"

definition obj_omit :: "string \<Rightarrow> 'v jsobj \<Rightarrow> 'v jsobj" where
  "obj_omit k ob = AList.delete k ob"

definition is_digit_char :: "char \<Rightarrow> bool" where
  "is_digit_char c = (48 \<le> (of_char c :: nat) \<and> (of_char c :: nat) \<le> 57)"

definition digits_value :: "string \<Rightarrow> nat" where
  "digits_value s = foldl (\<lambda>n c. 10 * n + (of_char c - 48)) 0 s"

definition is_array_index :: "string \<Rightarrow> bool" where
  "is_array_index k =
     (k \<noteq> [] \<and> list_all is_digit_char k \<and> (k = ''0'' \<or> hd k \<noteq> CHR ''0'') \<and>
      digits_value k < 4294967295)"

definition obj_entries :: "'v jsobj \<Rightarrow> (string \<times> 'v) list" where
  "obj_entries ob =
     sort_key (\<lambda>e. digits_value (fst e)) (filter (\<lambda>e. is_array_index (fst e)) ob) @
     filter (\<lambda>e. \<not> is_array_index (fst e)) ob"

definition obj_keys :: "'v jsobj \<Rightarrow> string list" where
  "obj_keys ob = map fst (obj_entries ob)"

definition obj_values :: "'v jsobj \<Rightarrow> 'v list" where
  "obj_values ob = map snd (obj_entries ob)"

lemma obj_get_set [simp]: "obj_get (obj_set k v ob) k' = (if k' = k then Some v else obj_get ob k')"
  by (simp add: obj_get_def obj_set_def update_conv')

lemma obj_get_empty [simp]: "obj_get [] k = None"
  by (simp add: obj_get_def)

lemma obj_get_omit [simp]: "obj_get (obj_omit k ob) k' = (if k' = k then None else obj_get ob k')"
  by (simp add: obj_get_def obj_omit_def delete_conv')

lemma distinct_obj_set [simp]:
  "distinct (map fst ob) \<Longrightarrow> distinct (map fst (obj_set k v ob))"
  by (simp add: obj_set_def distinct_update)

lemma distinct_obj_omit [simp]: "distinct (map fst ob) \<Longrightarrow> distinct (map fst (obj_omit k ob))"
  by (simp add: obj_omit_def distinct_delete)

lemma keys_obj_set [simp]: "fst ` set (obj_set k v ob) = insert k (fst ` set ob)"
  by (simp add: obj_set_def dom_update)

lemma mset_obj_entries [simp]: "mset (obj_entries ob) = mset ob"
  by (simp add: obj_entries_def)

lemma set_obj_entries [simp]: "set (obj_entries ob) = set ob"
  by (metis mset_obj_entries set_mset_mset)

lemma distinct_obj_entries [simp]: "distinct (map fst (obj_entries ob)) = distinct (map fst ob)"
  by (metis mset_eq_imp_distinct_iff mset_map mset_obj_entries)

lemma in_obj_values: "v \<in> set (obj_values ob) \<longleftrightarrow> (\<exists>k. (k, v) \<in> set ob)"
  by (force simp: obj_values_def)

lemma obj_get_in: "obj_get ob k = Some v \<Longrightarrow> (k, v) \<in> set ob"
  by (simp add: obj_get_def map_of_SomeD)

lemma in_obj_get: "distinct (map fst ob) \<Longrightarrow> (k, v) \<in> set ob \<Longrightarrow> obj_get ob k = Some v"
  by (simp add: obj_get_def)

text \<open>A dictionary whose values are stored under their own ids.\<close>

definition keyed_by :: "('v \<Rightarrow> string) \<Rightarrow> 'v jsobj \<Rightarrow> bool" where
  "keyed_by ident ob = (distinct (map fst ob) \<and> list_all (\<lambda>(k, v). ident v = k) ob)"

lemma list_all_obj_set:
  assumes "distinct (map fst ob)"
  shows "list_all P ob \<Longrightarrow> P (k, v) \<Longrightarrow> list_all P (obj_set k v ob)"
proof -
  assume *: "list_all P ob" "P (k, v)"
  have "P (k', v')" if "(k', v') \<in> set (obj_set k v ob)" for k' v'
  proof -
    have "obj_get (obj_set k v ob) k' = Some v'" using that assms by (intro in_obj_get) simp_all
    then show ?thesis using * obj_get_in [of ob k' v'] by (auto simp: list_all_iff split: if_splits)
  qed
  then show ?thesis by (auto simp: list_all_iff)
qed

lemma keyed_by_empty [simp]: "keyed_by ident []"
  by (simp add: keyed_by_def)

lemma keyed_by_set: "keyed_by ident ob \<Longrightarrow> ident v = k \<Longrightarrow> keyed_by ident (obj_set k v ob)"
  by (simp add: keyed_by_def list_all_obj_set)

lemma keyed_by_get: "keyed_by ident ob \<Longrightarrow> obj_get ob k = Some v \<Longrightarrow> ident v = k"
  by (auto simp: keyed_by_def list_all_iff dest: obj_get_in)

lemma keyed_by_foldl:
  "keyed_by ident ob \<Longrightarrow> (\<And>v. ident (g v) = f v) \<Longrightarrow> keyed_by ident (foldl (\<lambda>acc v. obj_set (f v) (g v) acc) ob vs)"
  by (induction vs arbitrary: ob) (auto intro: keyed_by_set)

lemma keyed_by_values: "keyed_by ident ob \<Longrightarrow> distinct (map ident (obj_values ob))"
proof -
  assume k: "keyed_by ident ob"
  then have "map ident (obj_values ob) = map fst (obj_entries ob)"
    by (auto simp: obj_values_def keyed_by_def list_all_iff)
  then show ?thesis using k by (simp add: keyed_by_def)
qed

section \<open>Interfaces\<close>

text \<open>
  A slice of the store: an initial state and a reducer. If the invariant holds at the start and
  every action with a well-formed payload keeps it, it holds after every sequence of such actions.
\<close>

locale reducer =
  fixes init :: "'s"
    and step :: "'a \<Rightarrow> 's \<Rightarrow> 's"
    and ok :: "'a \<Rightarrow> bool"
    and invar :: "'s \<Rightarrow> bool"
  assumes init_invar: "invar init"
    and step_invar: "invar s \<Longrightarrow> ok a \<Longrightarrow> invar (step a s)"
begin

lemma run_from_invar: "invar s \<Longrightarrow> list_all ok as \<Longrightarrow> invar (fold step as s)"
  by (induction as arbitrary: s) (auto intro: step_invar)

lemma run_invar: "list_all ok as \<Longrightarrow> invar (fold step as init)"
  by (rule run_from_invar [OF init_invar])

end

text \<open>
  A slice keyed by the federation: reading an entry that was never written gives the initial
  state of a federation, writing one entry leaves the others alone.
\<close>

locale keyed_slice =
  fixes get :: "'st \<Rightarrow> string \<Rightarrow> 'v"
    and put :: "string \<Rightarrow> 'v \<Rightarrow> 'st \<Rightarrow> 'st"
  assumes get_put: "get (put k v s) k' = (if k' = k then v else get s k')"
begin

lemma get_put_same: "get (put k v s) k = v"
  by (simp add: get_put)

lemma get_modify: "get (put k (f (get s k)) s) k' = (if k' = k then f (get s k') else get s k')"
  by (simp add: get_put)

text \<open>The entry of one federation after a run is the run of its own actions on it.\<close>

lemma run_local:
  "get (fold (\<lambda>(k, f) s. put k (f (get s k)) s) ops s) k' =
     fold (\<lambda>f v. f v) (map snd (filter (\<lambda>(k, f). k = k') ops)) (get s k')"
  by (induction ops arbitrary: s) (auto simp: get_put)

lemma run_frame:
  "k' \<notin> fst ` set ops \<Longrightarrow> get (fold (\<lambda>(k, f) s. put k (f (get s k)) s) ops s) k' = get s k'"
  by (induction ops arbitrary: s) (auto simp: get_put)

end

text \<open>
  A list whose elements carry an id, and an operation that inserts an element or replaces the
  one with its id.
\<close>

locale list_upsert =
  fixes ident :: "'a \<Rightarrow> 'k"
    and ups :: "'a \<Rightarrow> 'a list \<Rightarrow> 'a list"
  assumes ups_ids: "ident ` set (ups x xs) = insert (ident x) (ident ` set xs)"
    and ups_distinct: "distinct (map ident xs) \<Longrightarrow> distinct (map ident (ups x xs))"
begin

lemma fold_ids: "ident ` set (fold ups xs ys) = ident ` set xs \<union> ident ` set ys"
  by (induction xs arbitrary: ys) (auto simp: ups_ids)

lemma fold_distinct: "distinct (map ident ys) \<Longrightarrow> distinct (map ident (fold ups xs ys))"
  by (induction xs arbitrary: ys) (auto intro: ups_distinct)

text \<open>The length of the list is the number of ids ever inserted.\<close>

lemma fold_length:
  assumes "distinct (map ident ys)"
  shows "length (fold ups xs ys) = card (ident ` set xs \<union> ident ` set ys)"
proof -
  have "length (fold ups xs ys) = card (set (map ident (fold ups xs ys)))"
    using fold_distinct [OF assms] by (metis distinct_card length_map)
  then show ?thesis by (simp add: fold_ids)
qed

end

text \<open>
  The same with a law for what the operation stores: the element itself is found under its id,
  and elements with other ids are the ones that were there.
\<close>

locale list_upsert_new = list_upsert ident ups
  for ident :: "'a \<Rightarrow> 'k" and ups :: "'a \<Rightarrow> 'a list \<Rightarrow> 'a list" +
  assumes ups_set:
    "distinct (map ident xs) \<Longrightarrow> set (ups x xs) = insert x {y \<in> set xs. ident y \<noteq> ident x}"
begin

lemma ups_mem: "distinct (map ident xs) \<Longrightarrow> x \<in> set (ups x xs)"
  by (simp add: ups_set)

lemma ups_other:
  "distinct (map ident xs) \<Longrightarrow> ident y \<noteq> ident x \<Longrightarrow> y \<in> set (ups x xs) \<longleftrightarrow> y \<in> set xs"
  by (auto simp: ups_set)

lemma ups_find:
  assumes "distinct (map ident xs)"
  shows "find (\<lambda>y. ident y = ident x) (ups x xs) = Some x"
proof -
  have "inj_on ident (set (ups x xs))"
    using ups_distinct [OF assms] by (simp add: distinct_map)
  moreover obtain y where y: "find (\<lambda>y. ident y = ident x) (ups x xs) = Some y"
    using ups_mem [OF assms, of x] by (cases "find (\<lambda>y. ident y = ident x) (ups x xs)") (auto simp: find_None_iff)
  moreover have "y \<in> set (ups x xs)" "ident y = ident x"
    using y by (auto simp: find_Some_iff)
  ultimately show ?thesis
    using ups_mem [OF assms, of x] by (auto dest: inj_onD)
qed

end

end
