(* ===== verification/JsNumber.thy ===== *)
theory JsNumber
  imports Prelude Complex_Main "HOL-Library.Log_Nat"
begin

text \<open>
  The numbers of JavaScript: IEEE 754 binary64 with round to nearest, ties to even, as the
  arithmetic of the amount conversions and of the wallet uses them. A finite value is the
  rational number it stands for; the two zeros are one value (no code modelled here divides by
  a zero whose sign matters). \<open>rnd\<close> rounds an exact result to a double, overflow included;
  the operations are the exact ones followed by \<open>rnd\<close>. \<open>to_fixed n\<close> is
  \<open>Number(x.toFixed(n))\<close>, the way the sources round to a number of decimals.
\<close>

datatype jsnum = NaN | PInf | NInf | Fin rat

section \<open>Rounding\<close>

text \<open>The exponent of a positive number: the \<open>e\<close> with \<open>2^e \<le> x < 2^(e+1)\<close>.\<close>

definition exponent :: "rat \<Rightarrow> int" where
  "exponent x =
     (let (p, q) = quotient_of x; e = bitlen p - bitlen q
      in if 2 powi e \<le> x then e else e - 1)"

text \<open>The distance of neighbouring doubles at the magnitude of \<open>x\<close>, subnormals included.\<close>

definition quantum :: "rat \<Rightarrow> rat" where
  "quantum x = 2 powi (max (exponent \<bar>x\<bar> - 52) (- 1074))"

definition round_half_even :: "rat \<Rightarrow> int" where
  "round_half_even r =
     (let f = \<lfloor>r\<rfloor>; d = r - of_int f
      in if d < 1 / 2 then f else if d > 1 / 2 then f + 1 else if even f then f else f + 1)"

definition rnd :: "rat \<Rightarrow> jsnum" where
  "rnd x =
     (if x = 0 then Fin 0
      else let y = of_int (round_half_even (x / quantum x)) * quantum x
           in if 2 ^ 1024 \<le> \<bar>y\<bar> then (if 0 < x then PInf else NInf) else Fin y)"

section \<open>Operations\<close>

fun js_neg :: "jsnum \<Rightarrow> jsnum" where
  "js_neg NaN = NaN"
| "js_neg PInf = NInf"
| "js_neg NInf = PInf"
| "js_neg (Fin x) = Fin (- x)"

fun js_add :: "jsnum \<Rightarrow> jsnum \<Rightarrow> jsnum" where
  "js_add (Fin x) (Fin y) = rnd (x + y)"
| "js_add NaN _ = NaN"
| "js_add _ NaN = NaN"
| "js_add PInf NInf = NaN"
| "js_add NInf PInf = NaN"
| "js_add PInf _ = PInf"
| "js_add _ PInf = PInf"
| "js_add NInf _ = NInf"
| "js_add _ NInf = NInf"

definition js_sub :: "jsnum \<Rightarrow> jsnum \<Rightarrow> jsnum" where
  "js_sub a b = js_add a (js_neg b)"

text \<open>An infinity with the sign of the product or quotient.\<close>

definition inf_of_sign :: "rat \<Rightarrow> jsnum" where
  "inf_of_sign s = (if s = 0 then NaN else if 0 < s then PInf else NInf)"

fun sign_of :: "jsnum \<Rightarrow> rat" where
  "sign_of NaN = 0"
| "sign_of PInf = 1"
| "sign_of NInf = - 1"
| "sign_of (Fin x) = sgn x"

fun js_mul :: "jsnum \<Rightarrow> jsnum \<Rightarrow> jsnum" where
  "js_mul (Fin x) (Fin y) = rnd (x * y)"
| "js_mul NaN _ = NaN"
| "js_mul _ NaN = NaN"
| "js_mul a b = inf_of_sign (sign_of a * sign_of b)"

fun js_div :: "jsnum \<Rightarrow> jsnum \<Rightarrow> jsnum" where
  "js_div (Fin x) (Fin y) = (if y = 0 then inf_of_sign (sgn x) else rnd (x / y))"
| "js_div NaN _ = NaN"
| "js_div _ NaN = NaN"
| "js_div (Fin x) _ = Fin 0"
| "js_div a (Fin y) = inf_of_sign (sign_of a * (if y = 0 then 1 else sgn y))"
| "js_div _ _ = NaN"

fun js_lt :: "jsnum \<Rightarrow> jsnum \<Rightarrow> bool" where
  "js_lt (Fin x) (Fin y) = (x < y)"
| "js_lt NInf (Fin _) = True"
| "js_lt NInf PInf = True"
| "js_lt (Fin _) PInf = True"
| "js_lt _ _ = False"

definition js_eq :: "jsnum \<Rightarrow> jsnum \<Rightarrow> bool" where
  "js_eq a b = (a \<noteq> NaN \<and> a = b)"

definition js_le :: "jsnum \<Rightarrow> jsnum \<Rightarrow> bool" where
  "js_le a b = (js_lt a b \<or> js_eq a b)"

definition js_max :: "jsnum \<Rightarrow> jsnum \<Rightarrow> jsnum" where
  "js_max a b = (if a = NaN \<or> b = NaN then NaN else if js_lt a b then b else a)"

definition js_min :: "jsnum \<Rightarrow> jsnum \<Rightarrow> jsnum" where
  "js_min a b = (if a = NaN \<or> b = NaN then NaN else if js_lt b a then b else a)"

definition js_truthy :: "jsnum \<Rightarrow> bool" where
  "js_truthy a = (a \<noteq> NaN \<and> a \<noteq> Fin 0)"

definition js_or :: "jsnum \<Rightarrow> jsnum \<Rightarrow> jsnum" where
  "js_or a b = (if js_truthy a then a else b)"

text \<open>\<open>Math.floor\<close> and \<open>Math.round\<close>; whole results of this size are doubles.\<close>

fun js_floor :: "jsnum \<Rightarrow> jsnum" where
  "js_floor (Fin x) = Fin (of_int \<lfloor>x\<rfloor>)"
| "js_floor a = a"

fun js_round :: "jsnum \<Rightarrow> jsnum" where
  "js_round (Fin x) = Fin (of_int \<lfloor>x + 1 / 2\<rfloor>)"
| "js_round a = a"

text \<open>
  \<open>toFixed\<close> takes the decimal nearest to the exact value, the larger one in magnitude on a
  tie, and leaves values of \<open>10^21\<close> and more as they are; \<open>Number\<close> rounds it to a double.
\<close>

definition nearest_decimal :: "nat \<Rightarrow> rat \<Rightarrow> rat" where
  "nearest_decimal n x = sgn x * of_int \<lfloor>\<bar>x\<bar> * 10 ^ n + 1 / 2\<rfloor> / 10 ^ n"

fun to_fixed :: "nat \<Rightarrow> jsnum \<Rightarrow> jsnum" where
  "to_fixed n (Fin x) = (if 10 ^ 21 \<le> \<bar>x\<bar> then Fin x else rnd (nearest_decimal n x))"
| "to_fixed n a = a"

section \<open>Facts about rounding\<close>

lemma powi2_pos [simp]: "(0::rat) < 2 powi e"
  by (simp add: zero_less_power_int)

lemma powi2_mono: "a \<le> b \<Longrightarrow> (2::rat) powi a \<le> 2 powi b"
  by (simp add: power_int_increasing)

lemma powi2_less_cancel: "(2::rat) powi a < 2 powi b \<Longrightarrow> a < b"
  by (metis linorder_not_le powi2_mono)

lemma bitlen_powi:
  assumes "0 < p"
  shows "2 powi (bitlen p - 1) \<le> (of_int p :: rat)" and "(of_int p :: rat) < 2 powi (bitlen p)"
proof -
  have b: "2 ^ nat (bitlen p - 1) \<le> p" "p < 2 ^ nat (bitlen p)"
    using bitlen_bounds [OF assms] by auto
  have "1 \<le> bitlen p" using assms by (simp add: bitlen_ge_iff_power)
  then have e: "(2::rat) powi (bitlen p - 1) = of_int (2 ^ nat (bitlen p - 1))"
    "(2::rat) powi (bitlen p) = of_int (2 ^ nat (bitlen p))"
    by (simp_all add: power_int_def)
  show "2 powi (bitlen p - 1) \<le> (of_int p :: rat)" using b(1) unfolding e(1) by (rule of_int_le_iff [THEN iffD2])
  show "(of_int p :: rat) < 2 powi (bitlen p)" using b(2) unfolding e(2) by (rule of_int_less_iff [THEN iffD2])
qed

lemma exponent_bounds:
  assumes "0 < x"
  shows "2 powi exponent x \<le> x" and "x < 2 powi (exponent x + 1)"
proof -
  obtain p q where pq: "quotient_of x = (p, q)" by force
  have q: "0 < q" by (rule quotient_of_denom_pos [OF pq])
  have x: "x = of_int p / of_int q" by (rule quotient_of_div [OF pq])
  have p: "0 < p" using assms q x by (simp add: zero_less_divide_iff)
  let ?e = "bitlen p - bitlen q"
  have up: "x < 2 powi (?e + 1)"
  proof -
    have "of_int p < (2::rat) powi (?e + 1) * 2 powi (bitlen q - 1)"
      using bitlen_powi(2) [OF p] by (simp flip: power_int_add)
    also have "\<dots> \<le> 2 powi (?e + 1) * of_int q"
      using bitlen_powi(1) [OF q] by (simp add: mult_left_mono)
    finally show ?thesis using q by (simp add: x divide_less_eq)
  qed
  have lo: "2 powi (?e - 1) \<le> x"
  proof -
    have "(2::rat) powi (?e - 1) * of_int q \<le> 2 powi (?e - 1) * 2 powi (bitlen q)"
      using bitlen_powi(2) [OF q] by (simp add: mult_left_mono less_imp_le)
    also have "\<dots> = 2 powi (bitlen p - 1)"
      by (simp flip: power_int_add)
    also have "\<dots> \<le> of_int p" by (rule bitlen_powi(1) [OF p])
    finally show ?thesis using q by (simp add: x le_divide_eq)
  qed
  show "2 powi exponent x \<le> x" using lo by (simp add: exponent_def pq Let_def)
  show "x < 2 powi (exponent x + 1)" using up by (simp add: exponent_def pq Let_def)
qed

lemma exponent_less: "0 < x \<Longrightarrow> x < 2 powi k \<Longrightarrow> exponent x < k"
  by (meson exponent_bounds(1) le_less_trans powi2_less_cancel)

lemma quantum_pos [simp]: "0 < quantum x"
  by (simp add: quantum_def)

lemma round_half_even_error: "\<bar>of_int (round_half_even r) - r\<bar> \<le> (1 / 2 :: rat)"
proof -
  have "of_int \<lfloor>r\<rfloor> \<le> r" "r < of_int \<lfloor>r\<rfloor> + 1"
    using floor_correct [of r] by auto
  then show ?thesis
    by (auto simp: round_half_even_def Let_def abs_le_iff field_simps)
qed

lemma round_half_even_of_int [simp]: "round_half_even (of_int n) = n"
  by (simp add: round_half_even_def)

lemma abs_scale:
  fixes a x q :: rat
  assumes "0 < q"
  shows "\<bar>a * q - x\<bar> = \<bar>a - x / q\<bar> * q"
proof -
  have "a * q - x = (a - x / q) * q" using assms by (simp add: left_diff_distrib)
  then show ?thesis using assms by (simp add: abs_mult)
qed

text \<open>The rounded value, before the test for overflow, is within half a quantum.\<close>

lemma rnd_error_quantum:
  assumes "rnd x = Fin y"
  shows "\<bar>y - x\<bar> \<le> quantum x / 2"
proof (cases "x = 0")
  case True
  then show ?thesis using assms by (simp add: rnd_def less_imp_le)
next
  case False
  let ?q = "quantum x"
  have y: "y = of_int (round_half_even (x / ?q)) * ?q"
    using assms False by (auto simp: rnd_def Let_def split: if_splits)
  have "\<bar>y - x\<bar> = \<bar>of_int (round_half_even (x / ?q)) - x / ?q\<bar> * ?q"
    unfolding y by (rule abs_scale) simp
  also have "\<dots> \<le> 1 / 2 * ?q"
    by (rule mult_right_mono [OF round_half_even_error]) (simp add: less_imp_le)
  finally show ?thesis by simp
qed

text \<open>
  The error bound the conversions use: below \<open>2^k\<close> rounding moves a value by at most
  \<open>2^(k-54)\<close>, and does not overflow.
\<close>

lemma rnd_error:
  assumes "\<bar>x\<bar> < 2 powi k" and "- 1021 \<le> k" and "k \<le> 1023"
  obtains y where "rnd x = Fin y" and "\<bar>y - x\<bar> \<le> 2 powi (k - 54)"
proof -
  have q: "quantum x \<le> 2 powi (k - 53)" if "x \<noteq> 0"
  proof -
    have "exponent \<bar>x\<bar> < k" using that assms(1) by (intro exponent_less) auto
    then show ?thesis using assms(2) by (simp add: quantum_def powi2_mono)
  qed
  have half: "(2::rat) powi (k - 53) / 2 = 2 powi (k - 54)"
    using power_int_add [of "2::rat" "k - 54" 1] by simp
  show ?thesis
  proof (cases "x = 0")
    case True
    then show ?thesis using that [of 0] by (simp add: rnd_def less_imp_le)
  next
    case False
    let ?y = "of_int (round_half_even (x / quantum x)) * quantum x"
    have "\<bar>of_int (round_half_even (x / quantum x)) - x / quantum x\<bar> * quantum x \<le> 1 / 2 * quantum x"
      by (rule mult_right_mono [OF round_half_even_error]) (simp add: less_imp_le)
    moreover have "\<bar>?y - x\<bar> = \<bar>of_int (round_half_even (x / quantum x)) - x / quantum x\<bar> * quantum x"
      by (rule abs_scale) simp
    ultimately have err: "\<bar>?y - x\<bar> \<le> 2 powi (k - 54)"
      using q [OF False] half by linarith
    have "(2::rat) powi (k - 54) \<le> 2 powi k" by (rule powi2_mono) simp
    then have "\<bar>?y\<bar> < 2 powi k + 2 powi k" using err assms(1) by linarith
    also have "\<dots> = (2::rat) powi (k + 1)" by (simp add: power_int_add)
    also have "\<dots> \<le> 2 powi 1024" using assms(3) by (intro powi2_mono) simp
    finally have "\<not> 2 ^ 1024 \<le> \<bar>?y\<bar>" by (simp add: power_int_def)
    then have "rnd x = Fin ?y" using False by (simp add: rnd_def Let_def)
    then show ?thesis using err by (rule that)
  qed
qed

text \<open>Whole numbers up to \<open>Number.MAX_SAFE_INTEGER\<close> are doubles.\<close>

lemma rnd_int:
  assumes "\<bar>n\<bar> < 2 ^ 53"
  shows "rnd (of_int n) = Fin (of_int n)"
proof (cases "n = 0")
  case True
  then show ?thesis by (simp add: rnd_def)
next
  case False
  let ?x = "of_int n :: rat"
  let ?d = "max (exponent \<bar>?x\<bar> - 52) (- 1074)"
  have "\<bar>?x\<bar> < 2 powi 53"
    using assms by (metis of_int_abs of_int_less_iff of_int_numeral of_int_power power_int_numeral)
  then have "exponent \<bar>?x\<bar> < 53" using False by (intro exponent_less) auto
  then have d: "?d \<le> 0" by simp
  have "?x / quantum ?x = ?x * 2 powi (- ?d)"
    by (simp add: quantum_def power_int_minus divide_inverse)
  also have "\<dots> = of_int (n * 2 ^ nat (- ?d))"
    using d by (simp add: power_int_def)
  finally have r: "?x / quantum ?x = of_int (n * 2 ^ nat (- ?d))" .
  then have "of_int (round_half_even (?x / quantum ?x)) * quantum ?x = ?x"
    by (metis nonzero_divide_eq_eq order_less_irrefl quantum_pos round_half_even_of_int)
  moreover have "\<bar>?x\<bar> < 2 ^ 1024"
  proof -
    have "\<bar>?x\<bar> < 2 powi 53" by fact
    also have "\<dots> \<le> (2::rat) powi 1024" by (rule powi2_mono) simp
    finally show ?thesis by (simp add: power_int_def)
  qed
  ultimately show ?thesis using False by (simp add: rnd_def Let_def)
qed

text \<open>
  The value of \<open>rnd\<close> on a given rational below \<open>2^53\<close>: scale it into the range of the
  significand and take the nearest whole number.
\<close>

lemma exponent_unique:
  assumes "2 powi e \<le> x" and "x < 2 powi (e + 1)"
  shows "exponent x = e"
proof -
  have x: "0 < x" using assms(1) powi2_pos [of e] by linarith
  have "exponent x < e + 1" using assms(2) x by (rule exponent_less [rotated])
  moreover have "e < exponent x + 1"
    using exponent_bounds(2) [OF x] assms(1) by (meson le_less_trans powi2_less_cancel)
  ultimately show ?thesis by simp
qed

lemma rnd_scaled:
  assumes "2 ^ 52 \<le> \<bar>x\<bar> * 2 ^ k" and "\<bar>x\<bar> * 2 ^ k < 2 ^ 53" and "k \<le> 1074"
    and "\<bar>x * 2 ^ k - of_int n\<bar> < 1 / 2"
  shows "rnd x = Fin (of_int n / 2 ^ k)"
proof -
  have pk: "(2::rat) ^ k * 2 powi (- int k) = 1" by (simp add: power_int_minus)
  have "(2::rat) ^ k * 2 powi (52 - int k) = 2 ^ 52" "(2::rat) ^ k * 2 powi (52 - int k + 1) = 2 ^ 53"
    using pk power_int_add [of "2::rat" 52 "- int k"] power_int_add [of "2::rat" 53 "- int k"]
    by simp_all
  then have "(2::rat) ^ k * 2 powi (52 - int k) \<le> 2 ^ k * \<bar>x\<bar>"
    "(2::rat) ^ k * \<bar>x\<bar> < 2 ^ k * 2 powi (52 - int k + 1)"
    using assms(1,2) by (simp_all only: mult.commute)
  then have e: "exponent \<bar>x\<bar> = 52 - int k"
    by (intro exponent_unique) simp_all
  have q: "quantum x = 1 / 2 ^ k"
    using assms(3) by (simp add: quantum_def e power_int_minus inverse_eq_divide)
  have "x * 2 ^ k - of_int n < 1 / 2" "of_int n - x * 2 ^ k < 1 / 2"
    using assms(4) by linarith+
  then have r: "round_half_even (x * 2 ^ k) = n"
  proof (cases "of_int n \<le> x * 2 ^ k")
    case True
    then have "\<lfloor>x * 2 ^ k\<rfloor> = n"
      using \<open>x * 2 ^ k - of_int n < 1 / 2\<close> by (intro floor_unique) linarith+
    then show ?thesis using \<open>x * 2 ^ k - of_int n < 1 / 2\<close> by (simp add: round_half_even_def)
  next
    case False
    then have "\<lfloor>x * 2 ^ k\<rfloor> = n - 1"
      using \<open>of_int n - x * 2 ^ k < 1 / 2\<close> by (intro floor_unique) (simp_all; linarith)+
    then show ?thesis using \<open>of_int n - x * 2 ^ k < 1 / 2\<close> by (simp add: round_half_even_def)
  qed
  have x0: "x \<noteq> 0" using assms(1) by auto
  have "\<bar>x\<bar> * 1 \<le> \<bar>x\<bar> * 2 ^ k" by (rule mult_left_mono) simp_all
  have small: "\<not> 2 ^ 1024 \<le> \<bar>of_int n / 2 ^ k :: rat\<bar>"
  proof -
    have "\<bar>x * 2 ^ k\<bar> = \<bar>x\<bar> * 2 ^ k" by (simp add: abs_mult)
    then have "\<bar>of_int n :: rat\<bar> < 2 ^ 53 + 1"
      using assms(2,4) by linarith
    moreover have "\<bar>of_int n / 2 ^ k :: rat\<bar> \<le> \<bar>of_int n\<bar>"
      by (simp add: abs_divide divide_le_eq_1 mult_le_cancel_left1 field_simps)
    moreover have "(2::rat) ^ 53 + 1 \<le> 2 ^ 1024"
      using power_increasing [of 54 1024 "2::rat"] by simp
    ultimately show ?thesis by linarith
  qed
  show ?thesis using x0 small by (simp add: rnd_def Let_def q r)
qed

section \<open>Arithmetic on whole numbers\<close>

definition safe :: "int \<Rightarrow> bool" where
  "safe n = (\<bar>n\<bar> < 2 ^ 53)"

abbreviation FinI :: "int \<Rightarrow> jsnum" where
  "FinI n \<equiv> Fin (of_int n)"

lemma js_add_int [simp]: "safe (a + b) \<Longrightarrow> js_add (FinI a) (FinI b) = FinI (a + b)"
  using rnd_int [of "a + b"] by (simp add: safe_def)

lemma js_sub_int [simp]: "safe (a - b) \<Longrightarrow> js_sub (FinI a) (FinI b) = FinI (a - b)"
  using rnd_int [of "a - b"] by (simp add: safe_def js_sub_def)

lemma js_mul_int [simp]: "safe (a * b) \<Longrightarrow> js_mul (FinI a) (FinI b) = FinI (a * b)"
  using rnd_int [of "a * b"] by (simp add: safe_def)

lemma js_lt_int [simp]: "js_lt (FinI a) (FinI b) = (a < b)"
  by simp

lemma js_le_int [simp]: "js_le (FinI a) (FinI b) = (a \<le> b)"
  by (auto simp: js_le_def js_eq_def)

lemma js_min_int [simp]: "js_min (FinI a) (FinI b) = FinI (min a b)"
  by (simp add: js_min_def min_def)

lemma js_max_int [simp]: "js_max (FinI a) (FinI b) = FinI (max a b)"
  by (simp add: js_max_def max_def)

lemma js_truthy_int [simp]: "js_truthy (FinI n) = (n \<noteq> 0)"
  by (simp add: js_truthy_def)

lemma nearest_decimal_int [simp]: "nearest_decimal n (of_int k) = of_int k"
proof -
  have "\<bar>of_int k :: rat\<bar> * 10 ^ n + 1 / 2 = of_int (\<bar>k\<bar> * 10 ^ n) + 1 / 2" by simp
  moreover have "\<lfloor>of_int (\<bar>k\<bar> * 10 ^ n) + (1 / 2 :: rat)\<rfloor> = \<bar>k\<bar> * 10 ^ n"
    by (rule floor_unique) auto
  ultimately show ?thesis by (simp add: nearest_decimal_def sgn_if)
qed

lemma to_fixed_int [simp]:
  assumes "safe k"
  shows "to_fixed n (FinI k) = FinI k"
proof -
  have "\<not> (10 ^ 21 :: rat) \<le> \<bar>of_int k\<bar>"
  proof -
    have "\<bar>of_int k :: rat\<bar> < of_int (2 ^ 53)"
      using assms unfolding safe_def by (metis of_int_abs of_int_less_iff)
    then show ?thesis by simp
  qed
  then show ?thesis using rnd_int [of k] assms by (simp add: safe_def)
qed

text \<open>\<open>toFixed(n)\<close> of a value closer than half a unit of the last place to such a decimal is it.\<close>

lemma nearest_decimal_close:
  assumes "\<bar>x - of_int k / 10 ^ n\<bar> < 1 / (2 * 10 ^ n)"
  shows "nearest_decimal n x = of_int k / 10 ^ n"
proof -
  have ten: "(0::rat) < 10 ^ n" by simp
  have b: "\<bar>x * 10 ^ n - of_int k\<bar> < 1 / 2"
  proof -
    have "\<bar>x * 10 ^ n - of_int k\<bar> = \<bar>x - of_int k / 10 ^ n\<bar> * 10 ^ n"
      using ten by (rule abs_scale)
    also have "\<dots> < 1 / (2 * 10 ^ n) * 10 ^ n"
      using assms ten by (rule mult_strict_right_mono)
    finally show ?thesis by simp
  qed
  then have b': "x * 10 ^ n - of_int k < 1 / 2" "of_int k - x * 10 ^ n < 1 / 2"
    by linarith+
  have "sgn x * of_int \<lfloor>\<bar>x\<bar> * 10 ^ n + 1 / 2\<rfloor> = (of_int k :: rat)"
  proof (cases "0 \<le> x")
    case True
    then have "\<lfloor>\<bar>x\<bar> * 10 ^ n + 1 / 2\<rfloor> = k"
      using b' by (intro floor_unique) linarith+
    then show ?thesis using b' True by (cases "x = 0") auto
  next
    case False
    then have "\<bar>x\<bar> * 10 ^ n + 1 / 2 = - (x * 10 ^ n) + 1 / 2" by simp
    then have "\<lfloor>\<bar>x\<bar> * 10 ^ n + 1 / 2\<rfloor> = - k"
      using b' by (intro floor_unique) (simp_all; linarith)+
    then show ?thesis using False by simp
  qed
  then show ?thesis by (simp add: nearest_decimal_def)
qed

end
