(* ===== verification/AmountUtils.thy ===== *)
theory AmountUtils
  imports JsNumber
begin

text \<open>
  \<open>ui/common/utils/AmountUtils.ts\<close>: the conversions between millisatoshis, satoshis, bitcoin
  and fiat amounts, on the doubles of \<open>JsNumber\<close>, in the order of the source. The functions
  that format or parse with \<open>Intl\<close> are not modelled. The lemmas bound the rounding: whole
  satoshis are exact in both directions, and the way through bitcoin is exact up to \<open>2^25\<close>
  satoshis and not beyond.
\<close>

section \<open>Conversions\<close>

definition SATS_PER_BTC :: jsnum where "SATS_PER_BTC = FinI 100000000"
definition MSATS_PER_SAT :: jsnum where "MSATS_PER_SAT = FinI 1000"
definition BTC_MAX_DECIMAL_PLACES :: nat where "BTC_MAX_DECIMAL_PLACES = 8"
definition FIAT_MAX_DECIMAL_PLACES :: nat where "FIAT_MAX_DECIMAL_PLACES = 2"

definition btcToFiat :: "jsnum \<Rightarrow> jsnum \<Rightarrow> jsnum" where
  "btcToFiat btc rate = to_fixed FIAT_MAX_DECIMAL_PLACES (js_mul btc rate)"

definition msatToSat :: "jsnum \<Rightarrow> jsnum" where
  "msatToSat msats = js_floor (js_div msats MSATS_PER_SAT)"

definition satToMsat :: "jsnum \<Rightarrow> jsnum" where
  "satToMsat sats = js_mul sats MSATS_PER_SAT"

definition satToBtc :: "jsnum \<Rightarrow> jsnum" where
  "satToBtc sats = to_fixed BTC_MAX_DECIMAL_PLACES (js_div sats SATS_PER_BTC)"

definition btcToSat :: "jsnum \<Rightarrow> jsnum" where
  "btcToSat btc = to_fixed BTC_MAX_DECIMAL_PLACES (js_mul btc SATS_PER_BTC)"

definition btcToMsat :: "jsnum \<Rightarrow> jsnum" where
  "btcToMsat btc = satToMsat (btcToSat btc)"

definition msatToBtc :: "jsnum \<Rightarrow> jsnum" where
  "msatToBtc msats = satToBtc (msatToSat msats)"

definition msatToFiat :: "jsnum \<Rightarrow> jsnum \<Rightarrow> jsnum" where
  "msatToFiat msats rate = btcToFiat (msatToBtc msats) rate"

definition satToFiat :: "jsnum \<Rightarrow> jsnum \<Rightarrow> jsnum" where
  "satToFiat sats rate = btcToFiat (satToBtc sats) rate"

definition fiatToBtc :: "jsnum \<Rightarrow> jsnum \<Rightarrow> jsnum" where
  "fiatToBtc fiat rate = to_fixed BTC_MAX_DECIMAL_PLACES (js_div fiat rate)"

definition fiatToMsat :: "jsnum \<Rightarrow> jsnum \<Rightarrow> jsnum" where
  "fiatToMsat fiat rate = btcToMsat (fiatToBtc fiat rate)"

definition fiatToSat :: "jsnum \<Rightarrow> jsnum \<Rightarrow> jsnum" where
  "fiatToSat fiat rate = btcToSat (fiatToBtc fiat rate)"

definition convertCentsToOtherFiat :: "jsnum \<Rightarrow> jsnum \<Rightarrow> jsnum \<Rightarrow> jsnum" where
  "convertCentsToOtherFiat cents btcUsdRate btcFiatRate =
     (let usd = to_fixed FIAT_MAX_DECIMAL_PLACES (js_div cents (FinI 100));
          btc = to_fixed BTC_MAX_DECIMAL_PLACES (js_div usd btcUsdRate)
      in to_fixed FIAT_MAX_DECIMAL_PLACES (js_mul btc btcFiatRate))"

section \<open>Millisatoshis and satoshis\<close>

text \<open>Rounding the quotient never reaches the next whole satoshi.\<close>

lemma floor_near:
  fixes y v :: rat
  assumes "\<bar>y - v\<bar> \<le> 2 powi (44 - 54)" and "of_int q + 1 / 1000 \<le> v" and "v \<le> of_int q + 999 / 1000"
  shows "\<lfloor>y\<rfloor> = q"
proof -
  have "(2::rat) powi (44 - 54) = 1 / 1024" by code_simp
  then show ?thesis using assms by (intro floor_unique) linarith+
qed

lemma msatToSat_int:
  assumes "safe m"
  shows "msatToSat (FinI m) = FinI (m div 1000)"
proof -
  have "\<bar>of_int m / 1000 :: rat\<bar> < 2 powi 44"
  proof -
    have "\<bar>of_int m :: rat\<bar> < of_int (2 ^ 53)"
      using assms unfolding safe_def by (metis of_int_abs of_int_less_iff)
    then show ?thesis by (simp add: power_int_def)
  qed
  then obtain y where y: "rnd (of_int m / 1000) = Fin y" "\<bar>y - of_int m / 1000\<bar> \<le> 2 powi (44 - 54)"
    by (rule rnd_error) auto
  have "\<lfloor>y\<rfloor> = m div 1000"
  proof (cases "m mod 1000 = 0")
    case True
    then obtain q where m: "m = 1000 * q" by auto
    have "\<bar>q\<bar> < 2 ^ 53" using assms by (auto simp: safe_def m)
    then have "rnd (of_int q) = Fin (of_int q)" by (rule rnd_int)
    then have "y = of_int q" using y(1) by (simp add: m)
    then show ?thesis by (simp add: m)
  next
    case False
    have "of_int (m div 1000) + 1 / 1000 \<le> (of_int m / 1000 :: rat)"
      "of_int m / 1000 \<le> (of_int (m div 1000) + 999 / 1000 :: rat)"
    proof -
      have "1000 * (m div 1000) + 1 \<le> m" "m \<le> 1000 * (m div 1000) + 999"
        using False div_mult_mod_eq [of m 1000] pos_mod_sign [of 1000 m] pos_mod_bound [of 1000 m]
        by linarith+
      then have "(of_int (1000 * (m div 1000) + 1) :: rat) \<le> of_int m"
        "(of_int m :: rat) \<le> of_int (1000 * (m div 1000) + 999)"
        by (simp_all only: of_int_le_iff)
      then show "of_int (m div 1000) + 1 / 1000 \<le> (of_int m / 1000 :: rat)"
        "of_int m / 1000 \<le> (of_int (m div 1000) + 999 / 1000 :: rat)"
        by simp_all
    qed
    then show ?thesis by (rule floor_near [OF y(2)])
  qed
  then show ?thesis using y(1) by (simp add: msatToSat_def MSATS_PER_SAT_def)
qed

lemma satToMsat_int: "safe (s * 1000) \<Longrightarrow> satToMsat (FinI s) = FinI (s * 1000)"
  using js_mul_int [of s 1000] by (simp add: satToMsat_def MSATS_PER_SAT_def)

section \<open>Satoshis and bitcoin\<close>

lemma satToBtc_int:
  assumes "\<bar>s\<bar> \<le> 2100000000000000"
  shows "satToBtc (FinI s) = rnd (of_int s / 100000000)"
proof -
  have s: "\<bar>of_int s :: rat\<bar> \<le> 2100000000000000"
    using assms by (simp flip: of_int_abs)
  then have "\<bar>of_int s / 100000000 :: rat\<bar> < 2 powi 25" by (simp add: power_int_def)
  then obtain y where y: "rnd (of_int s / 100000000) = Fin y"
    "\<bar>y - of_int s / 100000000\<bar> \<le> 2 powi (25 - 54)"
    by (rule rnd_error) auto
  have "(2::rat) powi (25 - 54) = 1 / 536870912" by code_simp
  then have err: "\<bar>y - of_int s / 100000000\<bar> \<le> 1 / 536870912"
    using y(2) by simp
  then have "\<bar>y - of_int s / 10 ^ 8\<bar> < 1 / (2 * 10 ^ 8)" by simp
  then have "nearest_decimal 8 y = of_int s / 10 ^ 8" by (rule nearest_decimal_close)
  then have "nearest_decimal 8 y = of_int s / 100000000" by simp
  then have "rnd (nearest_decimal 8 y) = Fin y" using y(1) by (simp only:)
  moreover have "\<bar>y\<bar> \<le> 21000001" using err s by linarith
  then have "\<not> 10 ^ 21 \<le> \<bar>y\<bar>" by simp
  ultimately show ?thesis using y(1)
    by (simp add: satToBtc_def SATS_PER_BTC_def BTC_MAX_DECIMAL_PLACES_def)
qed

lemma btcToSat_satToBtc_int:
  assumes "0 \<le> s" and "s < 2 ^ 25"
  shows "btcToSat (satToBtc (FinI s)) = FinI s"
proof -
  have s: "(0::rat) \<le> of_int s" "(of_int s :: rat) \<le> 33554431"
    using assms by simp_all
  then have "\<bar>of_int s / 100000000 :: rat\<bar> < 2 powi (- 1)" by (simp add: power_int_def)
  then obtain y where y: "rnd (of_int s / 100000000) = Fin y"
    "\<bar>y - of_int s / 100000000\<bar> \<le> 2 powi (- 1 - 54)"
    by (rule rnd_error) auto
  have "(2::rat) powi (- 1 - 54) = 1 / 36028797018963968"
    by code_simp
  then have scaled: "\<bar>y * 100000000 - of_int s\<bar> \<le> 100000000 / 36028797018963968"
    using y(2) by linarith
  then have "\<bar>y * 100000000\<bar> < 33554432" using s by linarith
  then have "\<bar>y * 100000000\<bar> < 2 powi 25" by (simp add: power_int_def)
  then obtain z where z: "rnd (y * 100000000) = Fin z"
    "\<bar>z - y * 100000000\<bar> \<le> 2 powi (25 - 54)"
    by (rule rnd_error) auto
  have "(2::rat) powi (25 - 54) = 1 / 536870912" by code_simp
  then have zs': "\<bar>z - of_int s\<bar> < 1 / 200000000" using z(2) scaled by linarith
  then have zs: "\<bar>z - of_int s\<bar> < 1 / (2 * 10 ^ 8)" by simp
  then have "\<bar>z - of_int (s * 10 ^ 8) / 10 ^ 8\<bar> < 1 / (2 * 10 ^ 8)" by simp
  then have "nearest_decimal 8 z = of_int (s * 10 ^ 8) / 10 ^ 8" by (rule nearest_decimal_close)
  then have n: "nearest_decimal 8 z = of_int s" by simp
  have "\<bar>z\<bar> \<le> 33554432" using zs' s by linarith
  then have "\<not> 10 ^ 21 \<le> \<bar>z\<bar>" by simp
  moreover have "rnd (of_int s) = FinI s" using assms by (intro rnd_int) auto
  moreover have "satToBtc (FinI s) = Fin y" using assms y(1) by (simp add: satToBtc_int)
  ultimately show ?thesis using z(1) n
    by (simp add: btcToSat_def SATS_PER_BTC_def BTC_MAX_DECIMAL_PLACES_def)
qed

text \<open>
  Beyond that the way back can miss: \<open>btcToSat\<close> rounds its product to eight decimals instead
  of none, so the rounding error of the product stays in the result.
\<close>

lemma btcToSat_satToBtc_51920788: "btcToSat (satToBtc (FinI 51920788)) = Fin (6968690201329663 / 2 ^ 27)"
proof -
  have b: "satToBtc (FinI 51920788) = Fin (4676608829791650 / 2 ^ 53)"
    using rnd_scaled [of "51920788 / 100000000" 53 4676608829791650] satToBtc_int [of 51920788]
    by simp
  have p: "rnd (4676608829791650 / 2 ^ 53 * 100000000) = Fin (6968690201329663 / 2 ^ 27)"
    using rnd_scaled [of "4676608829791650 / 2 ^ 53 * 100000000" 27 6968690201329663] by simp
  have "nearest_decimal 8 (6968690201329663 / 2 ^ 27) = of_int 5192078799999999 / 10 ^ 8"
    by (rule nearest_decimal_close) simp
  moreover have "rnd (of_int 5192078799999999 / 10 ^ 8) = Fin (6968690201329663 / 2 ^ 27)"
    using rnd_scaled [of "5192078799999999 / 100000000" 27 6968690201329663] by simp
  ultimately have n: "rnd (nearest_decimal 8 (6968690201329663 / 2 ^ 27)) = Fin (6968690201329663 / 2 ^ 27)"
    by (simp only:)
  show ?thesis
    using b p n by (simp add: btcToSat_def SATS_PER_BTC_def BTC_MAX_DECIMAL_PLACES_def)
qed

section \<open>Properties\<close>

text \<open>
  Rounding millisatoshis down to satoshis is exact on every safe integer: the result is the
  whole number of satoshis that the amount contains, so what is shown never exceeds what is owned,
  although the quotient is rounded to a double before \<open>Math.floor\<close>.
\<close>

theorem msatToSat_never_more:
  assumes "safe m"
  shows "\<exists>s. msatToSat (FinI m) = FinI s \<and> s * 1000 \<le> m \<and> m < (s + 1) * 1000"
  using msatToSat_int [OF assms] by (intro exI [of _ "m div 1000"]) auto

theorem msatToSat_never_more_witness:
  "\<exists>s. msatToSat (FinI 1999) = FinI s \<and> s * 1000 \<le> 1999 \<and> 1999 < (s + 1) * (1000 :: int)"
  by (rule msatToSat_never_more) (simp add: safe_def)

text \<open>
  An amount of satoshis survives the conversion to bitcoin and back exactly when it is below
  \<open>2^25\<close> satoshis (about a third of a bitcoin), and above that bound there is an amount
  for which \<open>btcToSat\<close> returns a number that is not a whole number of satoshis.
\<close>

theorem satToBtc_roundtrip_bound:
  "(\<forall>s. 0 \<le> s \<and> s < 2 ^ 25 \<longrightarrow> btcToSat (satToBtc (FinI s)) = FinI s) \<and>
   (\<exists>s > 2 ^ 25. \<forall>n. btcToSat (satToBtc (FinI s)) \<noteq> FinI n)"
proof -
  have "btcToSat (satToBtc (FinI 51920788)) \<noteq> FinI n" for n
  proof
    assume "btcToSat (satToBtc (FinI 51920788)) = FinI n"
    then have "(6968690201329663 :: rat) = of_int n * 2 ^ 27"
      unfolding btcToSat_satToBtc_51920788 by (simp add: field_simps)
    then have "(of_int 6968690201329663 :: rat) = of_int (n * 2 ^ 27)" by simp
    then have "6968690201329663 = n * 2 ^ 27" by (simp only: of_int_eq_iff)
    then have "(6968690201329663 :: int) mod 2 ^ 27 = 0" by (simp only: mod_mult_self2_is_0)
    then show False by simp
  qed
  then show ?thesis using btcToSat_satToBtc_int
    by (intro conjI exI [of _ 51920788]) simp_all
qed

theorem satToBtc_roundtrip_bound_witness:
  "btcToSat (satToBtc (FinI 33554431)) = FinI 33554431"
  using satToBtc_roundtrip_bound [THEN conjunct1, rule_format, of 33554431] by simp

end
