(* ===== verification/Observable.thy ===== *)
theory Observable
  imports Prelude
begin

text \<open>
  \<open>ui/common/utils/observable.ts\<close>: the diffs of the bridge's observable vectors and their
  application to a list. Indices are the unsigned numbers of the bridge; an index past the end
  does what \<open>slice\<close> does. A diff of a kind the code does not know carries its JSON text and makes
  the functions throw. The lemmas compare the slices with the list operations the diffs stand
  for, show that mapping a diff and mapping the list commute, and that no element appears in a
  list whose id the collected ids do not contain.
\<close>

section \<open>Diffs\<close>

datatype 'a diff =
    Append "'a list"
  | Clear
  | Insert nat 'a
  | Remove nat
  | PopBack
  | PopFront
  | PushBack 'a
  | PushFront 'a
  | Reset "'a list"
  | Set nat 'a
  | Truncate nat
  | OtherKind string

definition unknown_kind :: "string \<Rightarrow> js_error" where
  "unknown_kind json = Error (''Unknown update kind: '' @ json)"

fun applyObservableUpdate :: "'a list \<Rightarrow> 'a diff \<Rightarrow> js_error + 'a list" where
  "applyObservableUpdate prev (Append vs) = Inr (prev @ vs)"
| "applyObservableUpdate prev Clear = Inr []"
| "applyObservableUpdate prev (Insert i v) = Inr (take i prev @ [v] @ drop i prev)"
| "applyObservableUpdate prev (Remove i) = Inr (take i prev @ drop (i + 1) prev)"
| "applyObservableUpdate prev PopBack = Inr (take (length prev - 1) prev)"
| "applyObservableUpdate prev PopFront = Inr (drop 1 prev)"
| "applyObservableUpdate prev (PushBack v) = Inr (prev @ [v])"
| "applyObservableUpdate prev (PushFront v) = Inr (v # prev)"
| "applyObservableUpdate prev (Reset vs) = Inr vs"
| "applyObservableUpdate prev (Set i v) = Inr (take i prev @ [v] @ drop (i + 1) prev)"
| "applyObservableUpdate prev (Truncate n) = Inr (take n prev)"
| "applyObservableUpdate prev (OtherKind json) = Inl (unknown_kind json)"

text \<open>The fold over the updates stops at the first one that throws.\<close>

fun applyObservableUpdates :: "'a list \<Rightarrow> 'a diff list \<Rightarrow> js_error + 'a list" where
  "applyObservableUpdates original [] = Inr original"
| "applyObservableUpdates original (u # us) =
     (case applyObservableUpdate original u of
        Inl e \<Rightarrow> Inl e
      | Inr xs \<Rightarrow> applyObservableUpdates xs us)"

fun mapObservableUpdate :: "('a \<Rightarrow> 'b) \<Rightarrow> 'a diff \<Rightarrow> js_error + 'b diff" where
  "mapObservableUpdate f Clear = Inr Clear"
| "mapObservableUpdate f (Remove i) = Inr (Remove i)"
| "mapObservableUpdate f PopBack = Inr PopBack"
| "mapObservableUpdate f PopFront = Inr PopFront"
| "mapObservableUpdate f (Truncate n) = Inr (Truncate n)"
| "mapObservableUpdate f (Insert i v) = Inr (Insert i (f v))"
| "mapObservableUpdate f (PushFront v) = Inr (PushFront (f v))"
| "mapObservableUpdate f (PushBack v) = Inr (PushBack (f v))"
| "mapObservableUpdate f (Set i v) = Inr (Set i (f v))"
| "mapObservableUpdate f (Append vs) = Inr (Append (map f vs))"
| "mapObservableUpdate f (Reset vs) = Inr (Reset (map f vs))"
| "mapObservableUpdate f (OtherKind json) = Inl (unknown_kind json)"

fun mapObservableUpdates :: "('a \<Rightarrow> 'b) \<Rightarrow> 'a diff list \<Rightarrow> js_error + 'b diff list" where
  "mapObservableUpdates f [] = Inr []"
| "mapObservableUpdates f (u # us) =
     (case mapObservableUpdate f u of
        Inl e \<Rightarrow> Inl e
      | Inr v \<Rightarrow> (case mapObservableUpdates f us of Inl e \<Rightarrow> Inl e | Inr vs \<Rightarrow> Inr (v # vs)))"

definition makeInitialResetUpdate :: "'a list \<Rightarrow> 'a diff list" where
  "makeInitialResetUpdate vs = [Reset vs]"

text \<open>A \<open>Set\<close> of strings in insertion order; \<open>getId\<close> gives \<open>None\<close> for a falsy non-string.\<close>

definition set_add :: "string \<Rightarrow> string list \<Rightarrow> string list" where
  "set_add x xs = (if x \<in> set xs then xs else xs @ [x])"

definition add_id :: "string option \<Rightarrow> string list \<Rightarrow> string list" where
  "add_id i ids = (case i of None \<Rightarrow> ids | Some s \<Rightarrow> if s = [] then ids else set_add s ids)"

fun update_values :: "'a diff \<Rightarrow> 'a list" where
  "update_values (Insert i v) = [v]"
| "update_values (PushFront v) = [v]"
| "update_values (PushBack v) = [v]"
| "update_values (Set i v) = [v]"
| "update_values (Append vs) = vs"
| "update_values (Reset vs) = vs"
| "update_values _ = []"

definition getNewObservableIds :: "('a \<Rightarrow> string option) \<Rightarrow> 'a diff list \<Rightarrow> string list" where
  "getNewObservableIds getId updates =
     fold (\<lambda>u ids. fold (\<lambda>v. add_id (getId v)) (update_values u) ids) updates []"

section \<open>Lemmas\<close>

fun_cases apply_errorE: "applyObservableUpdate prev u = Inl e"

lemma set_drop_take_subset: "set (take i xs @ drop j xs) \<subseteq> set xs"
  by (auto dest: in_set_takeD in_set_dropD)

text \<open>In range, the slices are the list operations the diffs stand for.\<close>

lemma apply_set_in_range: "i < length xs \<Longrightarrow> applyObservableUpdate xs (Set i v) = Inr (xs[i := v])"
  by (simp add: upd_conv_take_nth_drop)

lemma apply_set_past_end: "length xs \<le> i \<Longrightarrow> applyObservableUpdate xs (Set i v) = Inr (xs @ [v])"
  by simp

lemma apply_insert_remove:
  "i \<le> length xs \<Longrightarrow> applyObservableUpdates xs [Insert i v, Remove i] = Inr xs"
  by (simp add: min_def)

lemma apply_error_iff: "(\<exists>e. applyObservableUpdate xs u = Inl e) \<longleftrightarrow> (\<exists>json. u = OtherKind json)"
  by (cases u) auto

lemma apply_elements:
  "applyObservableUpdate xs u = Inr ys \<Longrightarrow> set ys \<subseteq> set xs \<union> set (update_values u)"
  by (cases u) (auto dest: in_set_takeD in_set_dropD)

lemma applys_elements:
  "applyObservableUpdates xs us = Inr ys \<Longrightarrow> set ys \<subseteq> set xs \<union> (\<Union>u\<in>set us. set (update_values u))"
proof (induction us arbitrary: xs)
  case (Cons u us)
  obtain zs where zs: "applyObservableUpdate xs u = Inr zs" "applyObservableUpdates zs us = Inr ys"
    using Cons.prems by (auto split: sum.splits)
  show ?case using apply_elements [OF zs(1)] Cons.IH [OF zs(2)] by auto
qed simp

lemma map_apply:
  "map_sum id (map f) (applyObservableUpdate xs u) =
     (case mapObservableUpdate f u of Inl e \<Rightarrow> Inl e | Inr v \<Rightarrow> applyObservableUpdate (map f xs) v)"
  by (cases u) (simp_all add: take_map drop_map)

lemma map_applys:
  "mapObservableUpdates f us = Inr vs \<Longrightarrow>
     applyObservableUpdates (map f xs) vs = map_sum id (map f) (applyObservableUpdates xs us)"
proof (induction us arbitrary: xs vs)
  case (Cons u us)
  obtain v ws where v: "mapObservableUpdate f u = Inr v" "mapObservableUpdates f us = Inr ws" "vs = v # ws"
    using Cons.prems by (auto split: sum.splits)
  have "applyObservableUpdate (map f xs) v = map_sum id (map f) (applyObservableUpdate xs u)"
    using map_apply [of f xs u] v(1) by simp
  then show ?case using Cons.IH [OF v(2)] v(3) by (auto split: sum.splits)
qed simp

lemma set_set_add [simp]: "set (set_add x xs) = insert x (set xs)"
  by (auto simp: set_add_def)

lemma distinct_set_add [simp]: "distinct xs \<Longrightarrow> distinct (set_add x xs)"
  by (simp add: set_add_def)

lemma set_add_id: "set (add_id i ids) = set ids \<union> {s. i = Some s \<and> s \<noteq> []}"
  by (auto simp: add_id_def split: option.splits)

lemma distinct_add_id: "distinct ids \<Longrightarrow> distinct (add_id i ids)"
  by (auto simp: add_id_def split: option.splits)

lemma set_fold_add_id:
  "set (fold (\<lambda>v. add_id (getId v)) vs ids) = set ids \<union> {s. s \<noteq> [] \<and> (\<exists>v\<in>set vs. getId v = Some s)}"
  by (induction vs arbitrary: ids) (auto simp: set_add_id)

lemma set_new_ids_fold:
  "set (fold (\<lambda>u ids. fold (\<lambda>v. add_id (getId v)) (update_values u) ids) us ids) =
     set ids \<union> {s. s \<noteq> [] \<and> (\<exists>u\<in>set us. \<exists>v\<in>set (update_values u). getId v = Some s)}"
  by (induction us arbitrary: ids) (auto simp: set_fold_add_id)

lemma set_getNewObservableIds:
  "set (getNewObservableIds getId us) =
     {s. s \<noteq> [] \<and> (\<exists>u\<in>set us. \<exists>v\<in>set (update_values u). getId v = Some s)}"
  by (simp add: getNewObservableIds_def set_new_ids_fold)

lemma distinct_fold_add_id: "distinct ids \<Longrightarrow> distinct (fold (\<lambda>v. add_id (getId v)) vs ids)"
  by (induction vs arbitrary: ids) (auto intro: distinct_add_id)

lemma distinct_getNewObservableIds: "distinct (getNewObservableIds getId us)"
proof -
  have "distinct ids \<Longrightarrow>
    distinct (fold (\<lambda>u ids. fold (\<lambda>v. add_id (getId v)) (update_values u) ids) us ids)" for ids
    by (induction us arbitrary: ids) (auto intro: distinct_fold_add_id)
  then show ?thesis by (simp add: getNewObservableIds_def)
qed

section \<open>Properties\<close>

text \<open>
  C6: mapping the diffs with \<open>mapObservableUpdates\<close> and applying them to the mapped list
  gives the mapped result of applying the original diffs, errors included, for every list of
  diffs; the client may therefore convert the bridge's events before or after it applies them.
\<close>

theorem observable_map_commutes:
  "(case mapObservableUpdates f us of Inl e \<Rightarrow> Inl e | Inr vs \<Rightarrow> applyObservableUpdates (map f xs) vs) =
     map_sum id (map f) (applyObservableUpdates xs us)"
proof (induction us arbitrary: xs)
  case (Cons u us)
  show ?case
  proof (cases "mapObservableUpdate f u")
    case (Inl e)
    then show ?thesis using map_apply [of f xs u] by (auto split: sum.splits)
  next
    case (Inr v)
    then have "applyObservableUpdate (map f xs) v = map_sum id (map f) (applyObservableUpdate xs u)"
      using map_apply [of f xs u] by simp
    moreover have "\<exists>ys. applyObservableUpdate xs u = Inr ys"
      using Inr by (cases u) auto
    ultimately show ?thesis using Inr Cons.IH by (auto split: sum.splits)
  qed
qed simp

text \<open>
  After a list of diffs, every element of the list was there before or has its
  (non-empty) id among the ids that \<open>getNewObservableIds\<close> collects, without repetitions.
\<close>

theorem observable_new_ids_complete:
  assumes "applyObservableUpdates xs us = Inr ys" and "y \<in> set ys" and "y \<notin> set xs"
    and "getId y = Some s" and "s \<noteq> []"
  shows "s \<in> set (getNewObservableIds getId us) \<and> distinct (getNewObservableIds getId us)"
proof -
  obtain u where "u \<in> set us" "y \<in> set (update_values u)"
    using applys_elements [OF assms(1)] assms(2,3) by blast
  then show ?thesis
    using assms(4,5) by (auto simp: set_getNewObservableIds distinct_getNewObservableIds)
qed

theorem observable_new_ids_complete_witness:
  "''b'' \<in> set (getNewObservableIds Some [Set 0 ''b'', PopFront, Append [''b'']]) \<and>
   distinct (getNewObservableIds Some [Set 0 ''b'', PopFront, Append [''b'']])"
  by (rule observable_new_ids_complete [where xs = "[''a'']" and ys = "[''b'']" and y = "''b''"])
    simp_all

end
