(* ===== verification/JsString.thy ===== *)
theory JsString
  imports Prelude "HOL-Library.Sublist" "HOL-Library.Char_ord"
begin

text \<open>
  The string functions of JavaScript the sources call, on code units below 256: \<open>trim\<close>,
  \<open>toLowerCase\<close>, \<open>includes\<close>, \<open>startsWith\<close>, \<open>endsWith\<close>, \<open>split\<close> and \<open>join\<close> with a
  one-character separator, \<open>slice\<close>, \<open>replace\<close> of a substring and the decimal notation of whole
  numbers.
\<close>

section \<open>Characters\<close>

definition char_code :: "char \<Rightarrow> nat" where
  "char_code c = of_char c"

definition is_space :: "char \<Rightarrow> bool" where
  "is_space c = (char_code c \<in> {9, 10, 11, 12, 13, 32, 160})"

definition is_upper :: "char \<Rightarrow> bool" where
  "is_upper c = (65 \<le> char_code c \<and> char_code c \<le> 90)"

definition is_lower :: "char \<Rightarrow> bool" where
  "is_lower c = (97 \<le> char_code c \<and> char_code c \<le> 122)"

definition is_hex_digit :: "char \<Rightarrow> bool" where
  "is_hex_digit c = (is_digit_char c \<or> 97 \<le> char_code c \<and> char_code c \<le> 102 \<or> 65 \<le> char_code c \<and> char_code c \<le> 70)"

text \<open>The capital letters of Latin-1 are 32 below their lower case, 215 (the times sign) apart.\<close>

definition to_lower_char :: "char \<Rightarrow> char" where
  "to_lower_char c =
     (if is_upper c \<or> 192 \<le> char_code c \<and> char_code c \<le> 222 \<and> char_code c \<noteq> 215 then char_of (char_code c + 32) else c)"

section \<open>Functions on strings\<close>

definition js_trim_start :: "string \<Rightarrow> string" where
  "js_trim_start = dropWhile is_space"

definition js_trim :: "string \<Rightarrow> string" where
  "js_trim s = rev (dropWhile is_space (rev (dropWhile is_space s)))"

definition js_lower :: "string \<Rightarrow> string" where
  "js_lower = map to_lower_char"

definition js_starts_with :: "string \<Rightarrow> string \<Rightarrow> bool" where
  "js_starts_with s p = prefix p s"

definition js_ends_with :: "string \<Rightarrow> string \<Rightarrow> bool" where
  "js_ends_with s p = suffix p s"

fun js_includes :: "string \<Rightarrow> string \<Rightarrow> bool" where
  "js_includes [] p = (p = [])"
| "js_includes (c # s) p = (prefix p (c # s) \<or> js_includes s p)"

text \<open>\<open>s.split(c)\<close> and \<open>parts.join(c)\<close>.\<close>

fun js_split :: "char \<Rightarrow> string \<Rightarrow> string list" where
  "js_split c [] = [[]]"
| "js_split c (x # s) =
     (if x = c then [] # js_split c s
      else case js_split c s of [] \<Rightarrow> [[x]] | p # ps \<Rightarrow> (x # p) # ps)"

fun js_join :: "string \<Rightarrow> string list \<Rightarrow> string" where
  "js_join sep [] = []"
| "js_join sep [p] = p"
| "js_join sep (p # q # ps) = p @ sep @ js_join sep (q # ps)"

text \<open>\<open>s.split(c)[0]\<close>.\<close>

definition before_char :: "char \<Rightarrow> string \<Rightarrow> string" where
  "before_char c s = takeWhile (\<lambda>x. x \<noteq> c) s"

text \<open>\<open>s.replace(p, q)\<close> with a string pattern: the first occurrence.\<close>

fun js_replace :: "string \<Rightarrow> string \<Rightarrow> string \<Rightarrow> string" where
  "js_replace [] p q = (if p = [] then q else [])"
| "js_replace (c # s) p q =
     (if prefix p (c # s) then q @ drop (length p) (c # s) else c # js_replace s p q)"

fun nat_digits :: "nat \<Rightarrow> string" where
  "nat_digits n = (if n < 10 then [char_of (n + 48)] else nat_digits (n div 10) @ [char_of (n mod 10 + 48)])"

declare nat_digits.simps [simp del]

definition int_digits :: "int \<Rightarrow> string" where
  "int_digits i = (if i < 0 then ''-'' @ nat_digits (nat (- i)) else nat_digits (nat i))"

section \<open>Lemmas\<close>

lemma js_includes_sublist: "js_includes s p = sublist p s"
  by (induction s) (auto simp: sublist_Cons_right)

lemma js_split_not_Nil [simp]: "js_split c s \<noteq> []"
  by (induction s) (auto split: list.splits)

lemma js_join_split: "js_join [c] (js_split c s) = s"
proof (induction s)
  case (Cons x s)
  obtain p ps where p: "js_split c s = p # ps" by (cases "js_split c s") auto
  then show ?case using Cons by (cases ps) auto
qed simp

lemma js_split_no_sep: "c \<notin> set p \<Longrightarrow> js_split c p = [p]"
  by (induction p) auto

lemma js_split_append: "c \<notin> set p \<Longrightarrow> js_split c (p @ c # s) = p # js_split c s"
  by (induction p) auto

lemma js_split_parts: "p \<in> set (js_split c s) \<Longrightarrow> c \<notin> set p"
  by (induction s arbitrary: p) (auto split: if_splits list.splits)

lemma js_split_join:
  assumes "ps \<noteq> []" and "\<forall>p\<in>set ps. c \<notin> set p"
  shows "js_split c (js_join [c] ps) = ps"
  using assms by (induction "[c]" ps rule: js_join.induct) (auto simp: js_split_no_sep js_split_append)

lemma hd_js_split: "hd (js_split c s) = before_char c s"
  by (induction s) (auto simp: before_char_def split: list.splits)

lemma before_char_append [simp]: "c \<notin> set p \<Longrightarrow> before_char c (p @ c # s) = p"
  by (induction p) (auto simp: before_char_def)

lemma before_char_id [simp]: "c \<notin> set p \<Longrightarrow> before_char c p = p"
  by (simp add: before_char_def takeWhile_eq_all_conv) metis

lemma before_char_notin: "c \<notin> set (before_char c s)"
  by (auto simp: before_char_def dest: set_takeWhileD)

lemma before_char_idem [simp]: "before_char c (before_char c s) = before_char c s"
  by (simp add: before_char_notin)

text \<open>Trimming removes exactly the white space at both ends.\<close>

lemma js_trim_decompose:
  "\<exists>l r. s = l @ js_trim s @ r \<and> list_all is_space l \<and> list_all is_space r"
proof -
  let ?m = "dropWhile is_space s"
  have "?m = rev (dropWhile is_space (rev ?m)) @ rev (takeWhile is_space (rev ?m))"
    by (metis rev_append rev_rev_ident takeWhile_dropWhile_id)
  then have "s = takeWhile is_space s @ js_trim s @ rev (takeWhile is_space (rev ?m))"
    by (metis js_trim_def takeWhile_dropWhile_id)
  moreover have "list_all is_space (takeWhile is_space s)" "list_all is_space (rev (takeWhile is_space (rev ?m)))"
    by (auto simp: list_all_iff dest: set_takeWhileD)
  ultimately show ?thesis by blast
qed

lemma js_trim_ends: "js_trim s \<noteq> [] \<Longrightarrow> \<not> is_space (hd (js_trim s)) \<and> \<not> is_space (last (js_trim s))"
proof -
  assume ne: "js_trim s \<noteq> []"
  let ?m = "dropWhile is_space s"
  have nl: "dropWhile is_space (rev ?m) \<noteq> []" using ne by (simp add: js_trim_def)
  then have "\<not> is_space (hd (dropWhile is_space (rev ?m)))" by (rule hd_dropWhile)
  then have l: "\<not> is_space (last (js_trim s))" using nl by (simp add: js_trim_def last_rev)
  have "?m \<noteq> []" using nl by (metis dropWhile.simps(1) rev.simps(1))
  then have h: "\<not> is_space (hd ?m)" by (rule hd_dropWhile)
  have "?m = js_trim s @ rev (takeWhile is_space (rev ?m))"
    unfolding js_trim_def by (metis rev_append rev_rev_ident takeWhile_dropWhile_id)
  then have "hd ?m = hd (js_trim s)" using ne by (metis hd_append2)
  then show ?thesis using h l by simp
qed

lemma nat_digits_not_Nil [simp]: "nat_digits n \<noteq> []"
  by (subst nat_digits.simps) simp

lemma digits_value_snoc: "digits_value (s @ [c]) = 10 * digits_value s + (of_char c - 48)"
  by (simp add: digits_value_def)

lemma digits_value_nat_digits [simp]: "digits_value (nat_digits n) = n"
proof (induction n rule: nat_digits.induct)
  case (1 n)
  show ?case
  proof (cases "n < 10")
    case True
    then show ?thesis by (subst nat_digits.simps) (simp add: digits_value_def)
  next
    case False
    have "n mod 10 + 48 < 256" by (rule less_le_trans [of _ 58]) simp_all
    then show ?thesis using False 1 by (subst nat_digits.simps) (simp add: digits_value_snoc)
  qed
qed

lemma nat_digits_inj: "nat_digits m = nat_digits n \<Longrightarrow> m = n"
  by (metis digits_value_nat_digits)

lemma nat_digits_chars: "list_all is_digit_char (nat_digits n)"
proof (induction n rule: nat_digits.induct)
  case (1 n)
  have c: "is_digit_char (char_of (k + 48))" if "k < 10" for k :: nat
    using that by (simp add: is_digit_char_def)
  show ?case
  proof (cases "n < 10")
    case True
    then show ?thesis using c by (subst nat_digits.simps) simp
  next
    case False
    then show ?thesis using 1 c [of "n mod 10"] by (subst nat_digits.simps) simp
  qed
qed

end
