(* ===== verification/Grouping.thy ===== *)
theory Grouping
  imports Prelude
begin

text \<open>
  The grouping of messages that \<open>makeMessageGroups\<close> of \<open>ui/common/utils/chat.ts\<close> and
  \<open>makeMatrixEventGroups\<close> of \<open>ui/common/utils/matrix.ts\<close> write out twice: the loop over the sorted
  messages, for a test that two neighbours are in the same time frame and the sender of a message. The
  lemmas show that the groups partition the messages and are split exactly where they should be.
\<close>

section \<open>The loop\<close>

text \<open>
  One pass of the loop. \<open>currentTimeGroup\<close> is the last of \<open>messageGroups\<close>, which the code
  extends in place.
\<close>

definition group_step ::
  "('a \<Rightarrow> 'a \<Rightarrow> bool) \<Rightarrow> ('a \<Rightarrow> 'b) \<Rightarrow> 'a list list list \<Rightarrow> 'a option \<Rightarrow> 'a \<Rightarrow> 'a list list list"
where
  "group_step frame sender messageGroups lastMessage message =
     (case lastMessage of
        None \<Rightarrow> messageGroups @ [[[message]]]
      | Some l \<Rightarrow>
          if frame l message
          then let currentTimeGroup = last messageGroups
               in if sender l = sender message
                  then butlast messageGroups @ [butlast currentTimeGroup @ [last currentTimeGroup @ [message]]]
                  else butlast messageGroups @ [currentTimeGroup @ [[message]]]
          else messageGroups @ [[[message]]])"

fun group_loop ::
  "('a \<Rightarrow> 'a \<Rightarrow> bool) \<Rightarrow> ('a \<Rightarrow> 'b) \<Rightarrow> 'a list list list \<Rightarrow> 'a option \<Rightarrow> 'a list \<Rightarrow> 'a list list list"
where
  "group_loop frame sender messageGroups lastMessage [] = messageGroups"
| "group_loop frame sender messageGroups lastMessage (message # rest) =
     group_loop frame sender (group_step frame sender messageGroups lastMessage message) (Some message) rest"

datatype sort_order = asc | desc

definition order_by :: "('a \<Rightarrow> int) \<Rightarrow> sort_order \<Rightarrow> 'a list \<Rightarrow> 'a list" where
  "order_by key sortOrder xs = (case sortOrder of asc \<Rightarrow> order_asc key xs | desc \<Rightarrow> order_desc key xs)"

section \<open>Message groups are a partition of the sorted messages\<close>

text \<open>
  What the grouping promises: groups are not empty, a sender group has one sender, neighbouring
  sender groups of a time group have different senders, neighbouring messages of a time group are
  in the same time frame and the boundaries between time groups are not.
\<close>

definition one_sender :: "('a \<Rightarrow> 'b) \<Rightarrow> 'a list \<Rightarrow> bool" where
  "one_sender sender sg = (sg \<noteq> [] \<and> list_all (\<lambda>m. sender m = sender (hd sg)) sg)"

definition well_grouped_time :: "('a \<Rightarrow> 'a \<Rightarrow> bool) \<Rightarrow> ('a \<Rightarrow> 'b) \<Rightarrow> 'a list list \<Rightarrow> bool" where
  "well_grouped_time frame sender tg =
     (tg \<noteq> [] \<and> list_all (one_sender sender) tg \<and>
      successively (\<lambda>a b. sender (last a) \<noteq> sender (hd b)) tg \<and>
      successively frame (concat tg))"

definition well_grouped :: "('a \<Rightarrow> 'a \<Rightarrow> bool) \<Rightarrow> ('a \<Rightarrow> 'b) \<Rightarrow> 'a list list list \<Rightarrow> bool" where
  "well_grouped frame sender gs =
     (list_all (well_grouped_time frame sender) gs \<and>
      successively (\<lambda>a b. \<not> frame (last (concat a)) (hd (concat b))) gs)"

lemma one_sender_snoc:
  "one_sender sender sg \<Longrightarrow> one_sender sender (sg @ [m]) = (sender m = sender (last sg))"
  by (cases sg) (auto simp: one_sender_def list_all_iff)

lemma well_grouped_time_singleton: "well_grouped_time frame sender [[m]]"
  by (simp add: well_grouped_time_def one_sender_def)

lemma well_grouped_time_same_sender:
  assumes "well_grouped_time frame sender (ts @ [sg])" and "frame (last sg) m" and "sender (last sg) = sender m"
  shows "well_grouped_time frame sender (ts @ [sg @ [m]])"
proof -
  have sg: "one_sender sender sg" using assms(1) by (simp add: well_grouped_time_def)
  then have ne: "sg \<noteq> []" by (simp add: one_sender_def)
  then show ?thesis
    using assms sg one_sender_snoc [OF sg, of m]
    by (auto simp: well_grouped_time_def successively_append_iff)
qed

lemma well_grouped_time_new_sender:
  assumes "well_grouped_time frame sender (ts @ [sg])" and "frame (last sg) m" and "sender (last sg) \<noteq> sender m"
  shows "well_grouped_time frame sender ((ts @ [sg]) @ [[m]])"
proof -
  have "sg \<noteq> []" using assms(1) by (simp add: well_grouped_time_def one_sender_def)
  then show ?thesis
    using assms by (auto simp: well_grouped_time_def successively_append_iff one_sender_def)
qed

lemma well_grouped_replace_last:
  assumes "well_grouped frame sender (xs @ [tg])" and "well_grouped_time frame sender tg'" and "hd (concat tg') = hd (concat tg)"
  shows "well_grouped frame sender (xs @ [tg'])"
  using assms by (auto simp: well_grouped_def successively_append_iff)

lemma well_grouped_new:
  assumes "well_grouped frame sender gs" and "gs \<noteq> [] \<Longrightarrow> \<not> frame (last (concat (last gs))) m"
  shows "well_grouped frame sender (gs @ [[[m]]])"
  using assms by (auto simp: well_grouped_def successively_append_iff well_grouped_time_singleton)

lemma group_step_well_grouped:
  assumes "well_grouped frame sender gs" and "lastm = (if gs = [] then None else Some (last (concat (concat gs))))"
  shows "well_grouped frame sender (group_step frame sender gs lastm m)"
    and "concat (concat (group_step frame sender gs lastm m)) = concat (concat gs) @ [m]"
    and "group_step frame sender gs lastm m \<noteq> []"
proof -
  have "well_grouped frame sender (group_step frame sender gs lastm m) \<and>
    concat (concat (group_step frame sender gs lastm m)) = concat (concat gs) @ [m] \<and> group_step frame sender gs lastm m \<noteq> []"
  proof (cases "gs = []")
    case True
    then show ?thesis
      using assms(2) by (simp add: group_step_def well_grouped_def well_grouped_time_singleton)
  next
    case False
    then obtain xs tg where gs: "gs = xs @ [tg]" by (metis rev_exhaust)
    have tg: "well_grouped_time frame sender tg" using assms(1) by (simp add: well_grouped_def gs)
    then obtain ts sg where tgs: "tg = ts @ [sg]" by (metis rev_exhaust well_grouped_time_def)
    have sg: "sg \<noteq> []" using tg by (simp add: well_grouped_time_def one_sender_def tgs)
    have l: "lastm = Some (last sg)" using assms(2) False sg by (simp add: gs tgs)
    show ?thesis
    proof (cases "frame (last sg) m")
      case True
      show ?thesis
      proof (cases "sender (last sg) = sender m")
        case same: True
        have "hd (concat (ts @ [sg @ [m]])) = hd (concat (ts @ [sg]))"
          using sg by (simp add: hd_append)
        then have "well_grouped frame sender (xs @ [ts @ [sg @ [m]]])"
          by (rule well_grouped_replace_last [OF assms(1) [unfolded gs tgs]
                well_grouped_time_same_sender [OF tg [unfolded tgs] True same]])
        then show ?thesis using True same by (simp add: group_step_def l gs tgs)
      next
        case other: False
        have "hd (concat ((ts @ [sg]) @ [[m]])) = hd (concat (ts @ [sg]))"
          using sg by (simp add: hd_append)
        then have "well_grouped frame sender (xs @ [(ts @ [sg]) @ [[m]]])"
          by (rule well_grouped_replace_last [OF assms(1) [unfolded gs tgs]
                well_grouped_time_new_sender [OF tg [unfolded tgs] True other]])
        then show ?thesis using True other by (simp add: group_step_def l gs tgs)
      qed
    next
      case False
      have "well_grouped frame sender (gs @ [[[m]]])"
        using assms(1) False sg by (intro well_grouped_new) (simp_all add: gs tgs)
      then show ?thesis using False by (simp add: group_step_def l)
    qed
  qed
  then show "well_grouped frame sender (group_step frame sender gs lastm m)"
    and "concat (concat (group_step frame sender gs lastm m)) = concat (concat gs) @ [m]"
    and "group_step frame sender gs lastm m \<noteq> []" by auto
qed

lemma group_loop_well_grouped:
  assumes "well_grouped frame sender gs" and "lastm = (if gs = [] then None else Some (last (concat (concat gs))))"
  shows "well_grouped frame sender (group_loop frame sender gs lastm ms) \<and>
    concat (concat (group_loop frame sender gs lastm ms)) = concat (concat gs) @ ms"
  using assms
proof (induction ms arbitrary: gs lastm)
  case (Cons m ms)
  show ?case
    using Cons.IH [OF group_step_well_grouped(1) [OF Cons.prems, of m], of "Some m"]
      group_step_well_grouped(2,3) [OF Cons.prems, of m] by simp
qed simp

end
