(* ===== verification/ChatUtils.thy ===== *)
theory ChatUtils
  imports JsString Grouping
begin

text \<open>
  \<open>ui/common/types/chat.ts\<close> and \<open>ui/common/utils/chat.ts\<close>: the data of the XMPP chat (members,
  groups, messages, payments) and the functions on messages: grouping, the chat a message
  belongs to, the latest message and payment update, their ids per chat, the time stamp of a
  payment update and the validation of display names. An optional property that is absent or
  \<open>null\<close> is \<open>None\<close>; time stamps are whole seconds. The translation function and the formatting of
  amounts are parameters.
\<close>

section \<open>Data\<close>

datatype chat_type = direct | group

datatype chat_message_status = sent | failed | queued

datatype chat_payment_status = accepted | requested | canceled | rejected | paid

record chat_payment =
  pay_amount :: int
  pay_status :: chat_payment_status
  pay_recipient :: "string option"
  pay_updatedAt :: "int option"
  pay_memo :: "string option"
  pay_token :: "string option"
  pay_invoice :: "string option"

record chat_message =
  msg_id :: string
  msg_content :: string
  msg_sentAt :: int
  msg_sentBy :: string
  msg_sentIn :: "string option"
  msg_sentTo :: "string option"
  msg_payment :: "chat_payment option"
  msg_status :: "chat_message_status option"

record chat_member =
  member_id :: string
  member_username :: string
  member_publicKeyHex :: "string option"

record chat_group =
  group_id :: string
  group_name :: string
  group_joinedAt :: int
  group_broadcastOnly :: "bool option"

record keypair =
  publicKey :: string
  privateKey :: string

record chat_with_latest_message =
  chat_id :: string
  chat_name :: string
  chat_members :: "string list"
  chat_type_of :: chat_type
  chat_broadcastOnly :: bool
  chat_latestMessage :: "chat_message option"
  chat_hasNewMessages :: bool
  chat_latestPaymentUpdate :: "chat_message option"
  chat_joinedAt :: "int option"

definition payment_updatedAt :: "chat_message \<Rightarrow> int" where
  "payment_updatedAt m = (case msg_payment m of None \<Rightarrow> 0 | Some p \<Rightarrow> or_zero (pay_updatedAt p))"

section \<open>Payment texts and ids\<close>

record formatted_amounts =
  formattedFiat :: string
  formattedSats :: string
  formattedPrimaryAmount :: string
  formattedSecondaryAmount :: string

record preview_params =
  pv_name :: string
  pv_fiat :: string
  pv_amount :: string
  pv_memo :: "string option"

definition makePaymentText ::
  "(string \<Rightarrow> preview_params \<Rightarrow> string) \<Rightarrow> chat_message \<Rightarrow> chat_member option \<Rightarrow>
   (int \<Rightarrow> formatted_amounts) \<Rightarrow> string"
where
  "makePaymentText t message authenticatedMember format =
     (let messageSentBy = before_char (CHR ''@'') (msg_sentBy message);
          messageSentTo = (case msg_sentTo message of None \<Rightarrow> [] | Some s \<Rightarrow> before_char (CHR ''@'') s);
          me = (case authenticatedMember of None \<Rightarrow> [] | Some a \<Rightarrow> member_username a)
      in case msg_payment message of
           None \<Rightarrow> []
         | Some payment \<Rightarrow>
             let paymentRecipient = map_option (before_char (CHR ''@'')) (pay_recipient payment);
                 amounts = format (pay_amount payment);
                 params = \<lparr>pv_name = messageSentBy, pv_fiat = formattedPrimaryAmount amounts,
                           pv_amount = formattedSecondaryAmount amounts, pv_memo = pay_memo payment\<rparr>
             in if messageSentTo = me \<and> paymentRecipient = Some me
                then t ''feature.chat.they-sent-payment'' params
                else if messageSentTo = me \<and> paymentRecipient \<noteq> Some me
                then t ''feature.chat.they-requested-payment'' params
                else if messageSentTo \<noteq> me \<and> paymentRecipient \<noteq> Some me
                then t ''feature.chat.you-sent-payment'' params
                else if messageSentTo \<noteq> me \<and> paymentRecipient = Some me
                then t ''feature.chat.you-requested-payment'' params
                else [])"

definition jidToId :: "string \<Rightarrow> string" where
  "jidToId jidString = before_char (CHR ''/'') jidString"

section \<open>Message groups\<close>

definition same_time_frame :: "chat_message \<Rightarrow> chat_message \<Rightarrow> bool" where
  "same_time_frame lastMessage message =
     (msg_sentAt lastMessage \<noteq> 0 \<and> msg_sentAt message \<noteq> 0 \<and>
      \<bar>msg_sentAt lastMessage - msg_sentAt message\<bar> \<le> 600)"

definition makeMessageGroups :: "chat_message list \<Rightarrow> sort_order \<Rightarrow> chat_message list list list" where
  "makeMessageGroups messages sortOrder =
     group_loop same_time_frame msg_sentBy [] None (order_by msg_sentAt sortOrder messages)"

section \<open>Chats and latest messages\<close>

definition getChatInfoFromMessage :: "chat_message \<Rightarrow> string \<Rightarrow> js_error + (string \<times> chat_type)" where
  "getChatInfoFromMessage message myId =
     (if truthy_str (msg_sentIn message) then Inr (the (msg_sentIn message), group)
      else if truthy_str (msg_sentTo message) \<and> msg_sentBy message \<noteq> []
      then Inr (if msg_sentBy message = myId then the (msg_sentTo message) else msg_sentBy message, direct)
      else Inl (Error ''Message has no sentIn, or sentTo & sentBy''))"

definition getLatestMessage :: "chat_message list \<Rightarrow> chat_message option" where
  "getLatestMessage messages =
     (case messages of
        [] \<Rightarrow> None
      | first # _ \<Rightarrow>
          Some (foldl (\<lambda>prev msg. if msg_sentAt prev > msg_sentAt msg then prev else msg) first messages))"

definition getLatestPaymentUpdate :: "chat_message list \<Rightarrow> chat_message option" where
  "getLatestPaymentUpdate messages =
     (let messagesWithPayments = filter (\<lambda>m. msg_payment m \<noteq> None) messages
      in case messagesWithPayments of
           [] \<Rightarrow> None
         | first # _ \<Rightarrow>
             Some (foldl (\<lambda>prev msg. if payment_updatedAt prev > payment_updatedAt msg then prev else msg)
                    first messagesWithPayments))"

text \<open>
  The reducer both functions use on messages sorted from the latest down: the first value
  recorded for a chat stays, unless it is the empty string.
\<close>

fun first_per_chat ::
  "(chat_message \<Rightarrow> string) \<Rightarrow> string \<Rightarrow> string jsobj \<Rightarrow> chat_message list \<Rightarrow> js_error + string jsobj"
where
  "first_per_chat value_of myId ids [] = Inr ids"
| "first_per_chat value_of myId ids (msg # rest) =
     (case getChatInfoFromMessage msg myId of
        Inl e \<Rightarrow> Inl e
      | Inr (chatId, _) \<Rightarrow>
          first_per_chat value_of myId
            (if truthy_str (obj_get ids chatId) then ids else obj_set chatId (value_of msg) ids) rest)"

definition getLatestMessageIdsForChats :: "chat_message list \<Rightarrow> string \<Rightarrow> js_error + string jsobj" where
  "getLatestMessageIdsForChats messages myId =
     first_per_chat msg_id myId [] (order_desc msg_sentAt messages)"

definition payment_update_id :: "chat_message \<Rightarrow> string" where
  "payment_update_id msg = msg_id msg @ ''_'' @ int_digits (payment_updatedAt msg)"

definition getLatestPaymentUpdateIdsForChats :: "chat_message list \<Rightarrow> string \<Rightarrow> js_error + string jsobj" where
  "getLatestPaymentUpdateIdsForChats messages myId =
     (let messagesWithPayments = filter (\<lambda>m. msg_payment m \<noteq> None) messages;
          sortedMessages =
            order_desc_opt (\<lambda>m. Option.bind (msg_payment m) pay_updatedAt) messagesWithPayments
      in first_per_chat payment_update_id myId [] sortedMessages)"

text \<open>The clock, in milliseconds, is an argument.\<close>

definition makePaymentUpdatedAt :: "int \<Rightarrow> chat_payment option \<Rightarrow> int" where
  "makePaymentUpdatedAt now payment =
     max (now div 1000) (or_zero (Option.bind payment pay_updatedAt) + 1)"

section \<open>Display names\<close>

definition BANNED_DISPLAY_NAME_TERMS :: "string list" where
  "BANNED_DISPLAY_NAME_TERMS =
     [''admin'', ''fedi'', ''moderator'', ''support'', ''superuser'', ''helpdesk'', ''security'']"

text \<open>
  \<open>getDisplayNameValidator\<close> applied to a string: the trimmed name, or the messages of the failed
  refinements in the order of the schema. A refinement that fails does not stop the next ones.
\<close>

definition getDisplayNameValidator :: "string \<Rightarrow> string list + string" where
  "getDisplayNameValidator data =
     (let username = js_trim data;
          issues =
            (if length username \<le> 21 then [] else [''Invalid input'']) @
            (if \<not> list_ex is_upper username then [] else [''Invalid input'']) @
            (let lowerUsername = js_lower username;
                 foundWord = find (\<lambda>word. js_includes lowerUsername word) BANNED_DISPLAY_NAME_TERMS
             in if foundWord = None then [] else [''banned''])
      in if issues = [] then Inr username else Inl issues)"

definition parseData :: "string list + string \<Rightarrow> (string \<Rightarrow> string) \<Rightarrow> string + string" where
  "parseData parsed t =
     (case parsed of
        Inr d \<Rightarrow> Inr d
      | Inl errors \<Rightarrow>
          if hd errors = ''banned'' then Inl (t ''errors.invalid-username-banned'')
          else Inl (t ''errors.invalid-username''))"

section \<open>Latest messages\<close>

text \<open>The fold keeps the last of the messages with the largest key.\<close>

lemma latest_fold:
  fixes key :: "'m \<Rightarrow> int"
  shows "\<exists>pre post. x # ms = pre @ foldl (\<lambda>p m. if key p > key m then p else m) x ms # post \<and>
    (\<forall>y\<in>set pre. key y \<le> key (foldl (\<lambda>p m. if key p > key m then p else m) x ms)) \<and>
    (\<forall>y\<in>set post. key y < key (foldl (\<lambda>p m. if key p > key m then p else m) x ms))"
proof (induction ms rule: rev_induct)
  case (snoc m ms)
  let ?r = "foldl (\<lambda>p m. if key p > key m then p else m) x ms"
  obtain pre post where IH: "x # ms = pre @ ?r # post" "\<forall>y\<in>set pre. key y \<le> key ?r" "\<forall>y\<in>set post. key y < key ?r"
    using snoc.IH by blast
  show ?case
  proof (cases "key ?r > key m")
    case True
    then show ?thesis
      using IH by (intro exI [of _ pre] exI [of _ "post @ [m]"]) auto
  next
    case False
    then have "\<forall>y\<in>set (x # ms). key y \<le> key m"
      unfolding IH(1) using IH(2,3) by force
    then show ?thesis
      using False by (intro exI [of _ "x # ms"] exI [of _ "[]"]) auto
  qed
next
  case Nil
  show ?case by (rule exI [of _ "[]"], rule exI [of _ "[]"]) simp
qed

lemma latest_fold_self:
  fixes key :: "'m \<Rightarrow> int"
  shows "foldl (\<lambda>p m. if key p > key m then p else m) x (x # ms) =
    foldl (\<lambda>p m. if key p > key m then p else m) x ms"
  by simp

lemma getLatestMessage_None [simp]: "getLatestMessage ms = None \<longleftrightarrow> ms = []"
  by (simp add: getLatestMessage_def split: list.splits)

lemma getLatestMessage_split:
  assumes "getLatestMessage ms = Some m"
  shows "\<exists>pre post. ms = pre @ m # post \<and> (\<forall>y\<in>set pre. msg_sentAt y \<le> msg_sentAt m) \<and>
    (\<forall>y\<in>set post. msg_sentAt y < msg_sentAt m)"
proof -
  obtain x xs where ms: "ms = x # xs" using assms by (cases ms) (simp_all add: getLatestMessage_def)
  have "m = foldl (\<lambda>p m. if msg_sentAt p > msg_sentAt m then p else m) x xs"
    using assms by (simp add: getLatestMessage_def ms)
  then show ?thesis using latest_fold [where key = msg_sentAt, of x xs] by (simp add: ms)
qed

lemma getLatestPaymentUpdate_split:
  assumes "getLatestPaymentUpdate ms = Some m"
  shows "msg_payment m \<noteq> None \<and> m \<in> set ms \<and>
    (\<forall>y\<in>set ms. msg_payment y \<noteq> None \<longrightarrow> payment_updatedAt y \<le> payment_updatedAt m)"
proof -
  obtain x xs where xs: "filter (\<lambda>m. msg_payment m \<noteq> None) ms = x # xs"
    using assms by (cases "filter (\<lambda>m. msg_payment m \<noteq> None) ms") (auto simp: getLatestPaymentUpdate_def)
  have m: "m = foldl (\<lambda>p m. if payment_updatedAt p > payment_updatedAt m then p else m) x xs"
    using assms unfolding getLatestPaymentUpdate_def Let_def xs by simp
  obtain pre post where sp: "x # xs = pre @ m # post"
    "\<forall>y\<in>set pre. payment_updatedAt y \<le> payment_updatedAt m" "\<forall>y\<in>set post. payment_updatedAt y < payment_updatedAt m"
    using latest_fold [where key = payment_updatedAt, of x xs] unfolding m by blast
  have "set (x # xs) = {y \<in> set ms. msg_payment y \<noteq> None}" using xs by (metis set_filter)
  then have "{y \<in> set ms. msg_payment y \<noteq> None} = set pre \<union> {m} \<union> set post" unfolding sp(1) by auto
  then show ?thesis using sp(2,3) by fastforce
qed

text \<open>The ids per chat are those of the first message of each chat in the given order.\<close>

definition in_chat :: "string \<Rightarrow> string \<Rightarrow> chat_message \<Rightarrow> bool" where
  "in_chat myId c m =
     (case getChatInfoFromMessage m myId of Inl e \<Rightarrow> False | Inr (k, ty) \<Rightarrow> k = c)"

lemma first_per_chat_get:
  assumes "first_per_chat value_of myId ids ms = Inr res" and "\<forall>m\<in>set ms. value_of m \<noteq> []"
    and "obj_get ids c \<noteq> Some []"
  shows "obj_get res c = (case obj_get ids c of
      Some i \<Rightarrow> Some i | None \<Rightarrow> map_option value_of (find (in_chat myId c) ms))"
  using assms
proof (induction ms arbitrary: ids)
  case Nil
  then show ?case by (simp split: option.splits)
next
  case (Cons m ms)
  obtain k ty where k: "getChatInfoFromMessage m myId = Inr (k, ty)"
    using Cons.prems(1) by (auto split: sum.splits)
  let ?ids = "if truthy_str (obj_get ids k) then ids else obj_set k (value_of m) ids"
  have r: "first_per_chat value_of myId ?ids ms = Inr res" using Cons.prems(1) k by simp
  have e: "in_chat myId c m = (k = c)" using k by (auto simp: in_chat_def)
  have "obj_get ?ids c \<noteq> Some []" using Cons.prems(2,3) by auto
  then have "obj_get res c = (case obj_get ?ids c of
      Some i \<Rightarrow> Some i | None \<Rightarrow> map_option value_of (find (in_chat myId c) ms))"
    using Cons.IH [OF r] Cons.prems(2) by simp
  then show ?case using Cons.prems(3) e by (auto simp: truthy_str_def split: option.splits if_splits)
qed

lemma makePaymentUpdatedAt_greater: "or_zero (Option.bind p pay_updatedAt) < makePaymentUpdatedAt now p"
  by (simp add: makePaymentUpdatedAt_def)

section \<open>Properties\<close>

text \<open>
  The message groups partition the messages: flattened, they are the messages sorted by
  \<open>sentAt\<close> in the requested order; every group is non-empty, a sender group has one sender and
  is maximal, and a time group is split exactly where neighbouring messages are more than ten
  minutes apart or lack a time stamp.
\<close>

theorem makeMessageGroups_partition:
  "concat (concat (makeMessageGroups messages sortOrder)) = order_by msg_sentAt sortOrder messages \<and>
   well_grouped same_time_frame msg_sentBy (makeMessageGroups messages sortOrder)"
  using group_loop_well_grouped [of same_time_frame msg_sentBy "[]" None]
  by (simp add: makeMessageGroups_def well_grouped_def)

text \<open>
  \<open>getLatestMessageIdsForChats\<close> records, for every chat with a message, the id of a message of
  that chat that no other message of the chat is later than, and nothing for other chats.
\<close>

theorem getLatestMessageIdsForChats_latest:
  assumes "getLatestMessageIdsForChats messages myId = Inr ids" and "\<forall>m\<in>set messages. msg_id m \<noteq> []"
  shows "(case obj_get ids c of
      None \<Rightarrow> \<forall>m\<in>set messages. \<not> in_chat myId c m
    | Some i \<Rightarrow> \<exists>m\<in>set messages. in_chat myId c m \<and> msg_id m = i \<and>
        (\<forall>m'\<in>set messages. in_chat myId c m' \<longrightarrow> msg_sentAt m' \<le> msg_sentAt m))"
proof -
  let ?s = "order_desc msg_sentAt messages"
  have get: "obj_get ids c = map_option msg_id (find (in_chat myId c) ?s)"
    using first_per_chat_get [of msg_id myId "[]" ?s ids c] assms
    by (simp add: getLatestMessageIdsForChats_def)
  show ?thesis
  proof (cases "find (in_chat myId c) ?s")
    case None
    then have "\<forall>m\<in>set messages. \<not> in_chat myId c m" by (auto simp: find_None_iff)
    then show ?thesis unfolding get None by simp
  next
    case (Some m)
    then obtain i where i: "i < length ?s" "in_chat myId c (?s ! i)" "m = ?s ! i"
      "\<forall>j<i. \<not> in_chat myId c (?s ! j)"
      by (auto simp: find_Some_iff)
    have "msg_sentAt m' \<le> msg_sentAt m" if m': "m' \<in> set messages" "in_chat myId c m'" for m'
    proof -
      obtain j where j: "j < length ?s" "?s ! j = m'" using m'(1) by (metis in_set_conv_nth set_order(2))
      then have "i \<le> j" using i(4) m'(2) by (metis linorder_not_le)
      then show ?thesis
        using sorted_order_desc [of msg_sentAt messages] i(3) j
        by (cases "i = j") (auto simp: sorted_wrt_iff_nth_less)
    qed
    moreover have "m \<in> set messages" using i(1,3) by (metis nth_mem set_order(2))
    ultimately show ?thesis
      unfolding get Some using i(2,3) by (simp only: option.map option.case) blast
  qed
qed

definition sample_message :: "string \<Rightarrow> int \<Rightarrow> chat_message" where
  "sample_message i time = \<lparr>msg_id = i, msg_content = [], msg_sentAt = time, msg_sentBy = ''alice'',
     msg_sentIn = Some ''room'', msg_sentTo = None, msg_payment = None, msg_status = None\<rparr>"

definition sample_messages :: "chat_message list" where
  "sample_messages = [sample_message ''m1'' 5, sample_message ''m2'' 9]"

theorem getLatestMessageIdsForChats_latest_witness:
  "(case obj_get [(''room'', ''m2'')] ''room'' of
       None \<Rightarrow> \<forall>m\<in>set sample_messages. \<not> in_chat ''me'' ''room'' m
     | Some i \<Rightarrow> \<exists>m\<in>set sample_messages. in_chat ''me'' ''room'' m \<and> msg_id m = i \<and>
         (\<forall>m'\<in>set sample_messages. in_chat ''me'' ''room'' m' \<longrightarrow> msg_sentAt m' \<le> msg_sentAt m))"
proof (rule getLatestMessageIdsForChats_latest)
  show "getLatestMessageIdsForChats sample_messages ''me'' = Inr [(''room'', ''m2'')]"
    by (simp add: getLatestMessageIdsForChats_def sample_messages_def sample_message_def order_desc_def
        getChatInfoFromMessage_def obj_get_def obj_set_def)
  show "\<forall>m\<in>set sample_messages. msg_id m \<noteq> []"
    by (simp add: sample_messages_def sample_message_def)
qed

end
