(* ===== verification/RecordUtils.thy ===== *)
theory RecordUtils
  imports Prelude
begin

text \<open>
  \<open>ui/common/utils/redux.ts\<close>: inserting or updating an entity in a list or in a dictionary.
  The object spread \<open>{...old, ...new}\<close> is the parameter \<open>merge\<close>, instantiated per type where the
  functions are used; \<open>isEqual\<close> is equality. The lemmas hold for every merge that keeps the id
  and every sort that permutes the list.
\<close>

section \<open>Lists\<close>

text \<open>The \<open>map\<close> of the source with the two flags its closure writes: the new list,
  \<open>addToEnd\<close> and \<open>wasEqual\<close>.\<close>

fun upsert_scan ::
  "('a \<Rightarrow> 'k) \<Rightarrow> ('a \<Rightarrow> 'a \<Rightarrow> 'a) \<Rightarrow> 'a \<Rightarrow> 'a list \<Rightarrow> bool \<Rightarrow> bool \<Rightarrow> 'a list \<times> bool \<times> bool"
where
  "upsert_scan ident merge item [] addToEnd wasEqual = ([], addToEnd, wasEqual)"
| "upsert_scan ident merge item (oldItem # rest) addToEnd wasEqual =
     (if ident oldItem \<noteq> ident item
      then let scanned = upsert_scan ident merge item rest addToEnd wasEqual
           in (oldItem # fst scanned, snd scanned)
      else let updatedEntity = merge oldItem item;
               scanned = upsert_scan ident merge item rest False (oldItem = updatedEntity)
           in (updatedEntity # fst scanned, snd scanned))"

definition upsertListItem ::
  "('a \<Rightarrow> 'k) \<Rightarrow> ('a \<Rightarrow> 'a \<Rightarrow> 'a) \<Rightarrow> ('a list \<Rightarrow> 'a list) option \<Rightarrow> 'a list option \<Rightarrow> 'a \<Rightarrow> 'a list"
where
  "upsertListItem ident merge srt list item =
     (let xs = (case list of None \<Rightarrow> [] | Some xs \<Rightarrow> xs);
          (newList, addToEnd, wasEqual) = upsert_scan ident merge item xs True False
      in if \<not> addToEnd \<and> wasEqual then xs
         else let newList = (if addToEnd then newList @ [item] else newList)
              in case srt of None \<Rightarrow> newList | Some f \<Rightarrow> f newList)"

section \<open>Dictionaries\<close>

definition upsertRecordEntityId ::
  "('v \<Rightarrow> 'v \<Rightarrow> 'v) \<Rightarrow> 'v jsobj option \<Rightarrow> 'v \<Rightarrow> string \<Rightarrow> 'v jsobj"
where
  "upsertRecordEntityId merge rec entity entityId =
     (let rec = (case rec of None \<Rightarrow> [] | Some r \<Rightarrow> r)
      in if obj_get rec entityId = Some entity then rec
         else obj_set entityId
                (case obj_get rec entityId of None \<Rightarrow> entity | Some old \<Rightarrow> merge old entity) rec)"

definition upsertRecordEntity ::
  "('v \<Rightarrow> string) \<Rightarrow> ('v \<Rightarrow> 'v \<Rightarrow> 'v) \<Rightarrow> 'v jsobj option \<Rightarrow> 'v \<Rightarrow> 'v jsobj"
where
  "upsertRecordEntity ident merge rec entity =
     (let rec = (case rec of None \<Rightarrow> [] | Some r \<Rightarrow> r)
      in if obj_get rec (ident entity) = Some entity then rec
         else obj_set (ident entity)
                (case obj_get rec (ident entity) of None \<Rightarrow> entity | Some old \<Rightarrow> merge old entity) rec)"

definition upsertRecordList ::
  "'a list jsobj option \<Rightarrow> 'a list \<Rightarrow> string \<Rightarrow> 'a list jsobj"
where
  "upsertRecordList rec entity entityId =
     (let rec = (case rec of None \<Rightarrow> [] | Some r \<Rightarrow> r)
      in if obj_get rec entityId = Some entity then rec
         else obj_set entityId
                ((case obj_get rec entityId of None \<Rightarrow> [] | Some old \<Rightarrow> old) @ entity) rec)"

section \<open>What the scan computes\<close>

definition replaced :: "('a \<Rightarrow> 'k) \<Rightarrow> ('a \<Rightarrow> 'a \<Rightarrow> 'a) \<Rightarrow> 'a \<Rightarrow> 'a list \<Rightarrow> 'a list" where
  "replaced ident merge item = map (\<lambda>o'. if ident o' = ident item then merge o' item else o')"

lemma upsert_scan_list:
  "fst (upsert_scan ident merge item xs a w) = replaced ident merge item xs"
  by (induction xs arbitrary: a w) (simp_all add: replaced_def Let_def)

lemma upsert_scan_addToEnd:
  "fst (snd (upsert_scan ident merge item xs a w)) = (a \<and> ident item \<notin> ident ` set xs)"
  by (induction xs arbitrary: a w) (auto simp: Let_def)

lemma upsert_scan_wasEqual:
  assumes "distinct (map ident xs)"
  shows "snd (snd (upsert_scan ident merge item xs a w)) =
    (case find (\<lambda>y. ident y = ident item) xs of None \<Rightarrow> w | Some y \<Rightarrow> y = merge y item)"
  using assms
proof (induction xs arbitrary: a w)
  case (Cons x xs)
  show ?case
  proof (cases "ident x = ident item")
    case True
    then have "find (\<lambda>y. ident y = ident item) xs = None"
      using Cons.prems by (auto simp: find_None_iff) (metis image_eqI)
    then show ?thesis using Cons True by (simp add: Let_def)
  next
    case False
    then show ?thesis using Cons by (simp add: Let_def)
  qed
qed simp

lemma replaced_ids:
  assumes "\<And>o' i. ident o' = ident i \<Longrightarrow> ident (merge o' i) = ident i"
  shows "map ident (replaced ident merge item xs) = map ident xs"
  using assms by (auto simp: replaced_def)

lemma replaced_same:
  assumes "distinct (map ident xs)" and "find (\<lambda>y. ident y = ident item) xs = Some y" and "merge y item = y"
  shows "replaced ident merge item xs = xs"
  unfolding replaced_def
proof (rule map_idI)
  fix z assume z: "z \<in> set xs"
  have y: "y \<in> set xs" "ident y = ident item" using assms(2) by (auto simp: find_Some_iff)
  have "z = y" if "ident z = ident item"
    using that z y assms(1) by (simp add: distinct_map inj_on_def)
  then show "(if ident z = ident item then merge z item else z) = z"
    using assms(3) by auto
qed

lemma replaced_absent: "ident item \<notin> ident ` set xs \<Longrightarrow> replaced ident merge item xs = xs"
  unfolding replaced_def by (intro map_idI) (metis (lifting) image_eqI)

text \<open>On a list with distinct ids the early return changes nothing but the sorting.\<close>

lemma upsertListItem_new:
  assumes "ident item \<notin> ident ` set xs"
  shows "upsertListItem ident merge srt (Some xs) item =
    (case srt of None \<Rightarrow> xs @ [item] | Some f \<Rightarrow> f (xs @ [item]))"
proof -
  have "replaced ident merge item xs = xs" using assms by (rule replaced_absent)
  then show ?thesis
    using assms upsert_scan_list [of ident merge item xs True False]
      upsert_scan_addToEnd [of ident merge item xs True False]
    by (auto simp: upsertListItem_def Let_def split: prod.splits)
qed

lemma upsertListItem_old:
  assumes "distinct (map ident xs)" and "ident item \<in> ident ` set xs"
  shows "upsertListItem ident merge srt (Some xs) item =
    (if replaced ident merge item xs = xs \<and> (\<exists>y\<in>set xs. ident y = ident item \<and> merge y item = y) then xs
     else case srt of None \<Rightarrow> replaced ident merge item xs | Some f \<Rightarrow> f (replaced ident merge item xs))"
proof -
  obtain y where y: "find (\<lambda>y. ident y = ident item) xs = Some y"
    using assms(2) by (cases "find (\<lambda>y. ident y = ident item) xs") (auto simp: find_None_iff)
  have mem: "y \<in> set xs" "ident y = ident item" using y by (auto simp: find_Some_iff)
  have one: "z = y" if "z \<in> set xs" "ident z = ident item" for z
    using that mem assms(1) by (simp add: distinct_map inj_on_def)
  have "snd (snd (upsert_scan ident merge item xs True False)) = (y = merge y item)"
    using upsert_scan_wasEqual [OF assms(1)] y by simp
  moreover have "(y = merge y item) =
    (replaced ident merge item xs = xs \<and> (\<exists>y\<in>set xs. ident y = ident item \<and> merge y item = y))"
    using replaced_same [OF assms(1) y] mem one by metis
  ultimately show ?thesis
    using assms(2) upsert_scan_list [of ident merge item xs True False]
      upsert_scan_addToEnd [of ident merge item xs True False]
    by (auto simp: upsertListItem_def split: prod.splits)
qed

lemma upsertListItem_None: "upsertListItem ident merge srt None item = upsertListItem ident merge srt (Some []) item"
  by (simp add: upsertListItem_def)

text \<open>The two laws of \<open>list_upsert\<close>, for lists with distinct ids.\<close>

lemma upsertListItem_ids:
  assumes "\<And>o' i. ident o' = ident i \<Longrightarrow> ident (merge o' i) = ident i"
    and "\<And>f ys. srt = Some f \<Longrightarrow> mset (f ys) = mset ys"
  shows "ident ` set (upsertListItem ident merge srt (Some xs) item) = insert (ident item) (ident ` set xs)"
proof -
  have s: "set (f ys) = set ys" if "srt = Some f" for f ys
    using assms(2) [OF that] by (metis set_mset_mset)
  have r: "ident ` set (replaced ident merge item xs) = ident ` set xs"
    using replaced_ids [of ident merge item xs] assms(1) by (metis set_map)
  let ?sc = "upsert_scan ident merge item xs True False"
  obtain ys e w where sc: "?sc = (ys, e, w)" by (cases ?sc) auto
  have "ys = replaced ident merge item xs" "e = (ident item \<notin> ident ` set xs)"
    using upsert_scan_list [of ident merge item xs True False]
      upsert_scan_addToEnd [of ident merge item xs True False] by (simp_all add: sc)
  then show ?thesis
    using r s by (cases srt) (auto simp: upsertListItem_def sc)
qed

text \<open>The ids of the list, whether it has duplicates or not: an upsert adds at most one at the end.\<close>

lemma upsertListItem_id_list:
  assumes "\<And>o' i. ident o' = ident i \<Longrightarrow> ident (merge o' i) = ident i"
  shows "map ident (upsertListItem ident merge None (Some xs) item) =
    map ident xs @ (if ident item \<in> ident ` set xs then [] else [ident item])"
proof -
  have r: "map ident (replaced ident merge item xs) = map ident xs" using assms by (rule replaced_ids)
  let ?sc = "upsert_scan ident merge item xs True False"
  obtain ys e w where sc: "?sc = (ys, e, w)" by (cases ?sc) auto
  have "ys = replaced ident merge item xs" "e = (ident item \<notin> ident ` set xs)"
    using upsert_scan_list [of ident merge item xs True False]
      upsert_scan_addToEnd [of ident merge item xs True False] by (simp_all add: sc)
  then show ?thesis using r by (auto simp: upsertListItem_def sc)
qed

lemma upsertListItem_distinct:
  assumes "\<And>o' i. ident o' = ident i \<Longrightarrow> ident (merge o' i) = ident i"
    and "\<And>f ys. srt = Some f \<Longrightarrow> mset (f ys) = mset ys"
    and "distinct (map ident xs)"
  shows "distinct (map ident (upsertListItem ident merge srt (Some xs) item))"
proof -
  have d: "distinct (map ident (f ys)) = distinct (map ident ys)" if "srt = Some f" for f ys
    using assms(2) [OF that] by (metis mset_map mset_eq_imp_distinct_iff)
  have r: "map ident (replaced ident merge item xs) = map ident xs"
    using assms(1) by (rule replaced_ids)
  have n: "distinct (map ident (xs @ [item]))" if "ident item \<notin> ident ` set xs"
    using that assms(3) by auto
  show ?thesis
  proof (cases "ident item \<in> ident ` set xs")
    case True
    then show ?thesis
      using d r assms(3) by (simp add: upsertListItem_old split: option.splits)
  next
    case False
    then show ?thesis using d n by (auto simp: upsertListItem_new split: option.splits)
  qed
qed

section \<open>Dictionaries after an upsert\<close>

lemma upsertRecordEntityId_get:
  "obj_get (upsertRecordEntityId merge (Some r) e i) k =
     (if k = i then (if obj_get r i = Some e then Some e
                     else Some (case obj_get r i of None \<Rightarrow> e | Some old \<Rightarrow> merge old e))
      else obj_get r k)"
  by (simp add: upsertRecordEntityId_def)

lemma upsertRecordEntity_is_Id:
  "upsertRecordEntity ident merge r e = upsertRecordEntityId merge r e (ident e)"
  by (simp add: upsertRecordEntity_def upsertRecordEntityId_def)

lemma upsertRecordList_get:
  "obj_get (upsertRecordList (Some r) es i) k =
     (if k = i then (if obj_get r i = Some es then Some es
                     else Some ((case obj_get r i of None \<Rightarrow> [] | Some old \<Rightarrow> old) @ es))
      else obj_get r k)"
  by (simp add: upsertRecordList_def)

end
