(* ===== verification/ChatState.thy ===== *)
theory ChatState
  imports ChatUtils RecordUtils
begin

text \<open>
  The chat slice of \<open>ui/common/redux/chat.ts\<close>: the chat state of each federation, one definition
  per reducer with the name the source gives it, the reducer that dispatches on the action, and
  the thunk \<open>updateChatPayment\<close> with the calls it makes to the bridge. Credentials and push tokens
  are opaque: no reducer writes them. The clock is an argument where the code reads it.
\<close>

section \<open>State\<close>

definition MAX_MESSAGE_HISTORY :: nat where
  "MAX_MESSAGE_HISTORY = 1000"

record fed_chat =
  clientStatus :: string
  clientLastOnlineAt :: int
  clientError :: "string option"
  authenticatedMember :: "chat_member option"
  credentials :: "string option"
  messages :: "chat_message list"
  groups :: "chat_group list"
  groupRoles :: "string jsobj"
  groupAffiliations :: "string jsobj"
  membersSeen :: "chat_member list"
  lastFetchedMessageId :: "string option"
  lastReadMessageTimestamps :: "int jsobj"
  lastSeenMessageTimestamp :: "int option"
  encryptionKeys :: "keypair option"
  pushNotificationToken :: "string option"
  websocketIsHealthy :: bool

definition initialFederationChatState :: fed_chat where
  "initialFederationChatState =
     \<lparr>clientStatus = ''offline'', clientLastOnlineAt = 0, clientError = None,
      authenticatedMember = None, credentials = None, messages = [], groups = [], groupRoles = [],
      groupAffiliations = [], membersSeen = [], lastFetchedMessageId = None,
      lastReadMessageTimestamps = [], lastSeenMessageTimestamp = None, encryptionKeys = None,
      pushNotificationToken = None, websocketIsHealthy = False\<rparr>"

type_synonym chat_state = "fed_chat jsobj"

definition initialChatState :: chat_state where
  "initialChatState = []"

definition getFederationChatState :: "chat_state \<Rightarrow> string \<Rightarrow> fed_chat" where
  "getFederationChatState state federationId =
     (case obj_get state federationId of None \<Rightarrow> initialFederationChatState | Some c \<Rightarrow> c)"

section \<open>Entities\<close>

text \<open>The spreads \<open>{...oldEntity, ...newEntity}\<close>: an optional property the new one lacks stays.\<close>

definition merge_message :: "chat_message \<Rightarrow> chat_message \<Rightarrow> chat_message" where
  "merge_message old new = new\<lparr>
     msg_sentIn := nullish (msg_sentIn new) (msg_sentIn old),
     msg_sentTo := nullish (msg_sentTo new) (msg_sentTo old),
     msg_payment := nullish (msg_payment new) (msg_payment old),
     msg_status := nullish (msg_status new) (msg_status old)\<rparr>"

definition merge_member :: "chat_member \<Rightarrow> chat_member \<Rightarrow> chat_member" where
  "merge_member old new = new\<lparr>
     member_publicKeyHex := nullish (member_publicKeyHex new) (member_publicKeyHex old)\<rparr>"

definition merge_group :: "chat_group \<Rightarrow> chat_group \<Rightarrow> chat_group" where
  "merge_group old new = new\<lparr>
     group_broadcastOnly := nullish (group_broadcastOnly new) (group_broadcastOnly old)\<rparr>"

text \<open>
  The list part of \<open>upsertEntityToChatState\<close>: \<open>None\<close> when the state is returned as it was, else
  the new list, sorted and cut to the limit (a limit of 0 is none).
\<close>

definition upsert_entities ::
  "('a \<Rightarrow> string) \<Rightarrow> ('a \<Rightarrow> 'a \<Rightarrow> 'a) \<Rightarrow> nat option \<Rightarrow> ('a list \<Rightarrow> 'a list) option \<Rightarrow> 'a \<Rightarrow> 'a list \<Rightarrow> 'a list option"
where
  "upsert_entities ident merge limit srt newEntity old =
     (let (entities, addToEnd, wasEqual) = upsert_scan ident merge newEntity old True False
      in if \<not> addToEnd \<and> wasEqual then None
         else let entities = (if addToEnd then entities @ [newEntity] else entities);
                  entities = (case srt of None \<Rightarrow> entities | Some f \<Rightarrow> f entities)
              in case limit of
                   None \<Rightarrow> Some entities
                 | Some n \<Rightarrow> Some (if n \<noteq> 0 \<and> length entities > n then slice_last n entities else entities))"

text \<open>The three instances of \<open>upsertEntityToChatState\<close>, one per key.\<close>

definition upsertMessageToChatState ::
  "chat_state \<Rightarrow> string \<Rightarrow> chat_message \<Rightarrow> nat option \<Rightarrow> (chat_message list \<Rightarrow> chat_message list) option \<Rightarrow> chat_state"
where
  "upsertMessageToChatState state federationId newEntity limit srt =
     (let chatState = getFederationChatState state federationId
      in case upsert_entities msg_id merge_message limit srt newEntity (messages chatState) of
           None \<Rightarrow> state
         | Some entities \<Rightarrow> obj_set federationId (chatState\<lparr>messages := entities\<rparr>) state)"

definition upsertMemberToChatState :: "chat_state \<Rightarrow> string \<Rightarrow> chat_member \<Rightarrow> chat_state" where
  "upsertMemberToChatState state federationId newEntity =
     (let chatState = getFederationChatState state federationId
      in case upsert_entities member_id merge_member None None newEntity (membersSeen chatState) of
           None \<Rightarrow> state
         | Some entities \<Rightarrow> obj_set federationId (chatState\<lparr>membersSeen := entities\<rparr>) state)"

definition upsertGroupToChatState :: "chat_state \<Rightarrow> string \<Rightarrow> chat_group \<Rightarrow> chat_state" where
  "upsertGroupToChatState state federationId newEntity =
     (let chatState = getFederationChatState state federationId
      in case upsert_entities group_id merge_group None None newEntity (groups chatState) of
           None \<Rightarrow> state
         | Some entities \<Rightarrow> obj_set federationId (chatState\<lparr>groups := entities\<rparr>) state)"

section \<open>Reducers\<close>

definition setChatClientStatus :: "int \<Rightarrow> string \<Rightarrow> string \<Rightarrow> chat_state \<Rightarrow> chat_state" where
  "setChatClientStatus now federationId status state =
     (let chatState = getFederationChatState state federationId;
          oldStatus = clientStatus chatState
      in obj_set federationId (chatState\<lparr>
           clientStatus := status,
           clientError := (if status = ''online'' then None else clientError chatState),
           clientLastOnlineAt :=
             (if status \<noteq> ''online'' \<and> oldStatus = ''online'' then now else clientLastOnlineAt chatState)\<rparr>)
           state)"

definition setChatClientError :: "string \<Rightarrow> string \<Rightarrow> chat_state \<Rightarrow> chat_state" where
  "setChatClientError federationId error state =
     obj_set federationId ((getFederationChatState state federationId)\<lparr>clientError := Some error\<rparr>) state"

definition setChatMembersSeen :: "string \<Rightarrow> chat_member list \<Rightarrow> chat_state \<Rightarrow> chat_state" where
  "setChatMembersSeen federationId seen state =
     obj_set federationId ((getFederationChatState state federationId)\<lparr>membersSeen := seen\<rparr>) state"

definition addChatMemberSeen :: "string \<Rightarrow> chat_member \<Rightarrow> chat_state \<Rightarrow> chat_state" where
  "addChatMemberSeen federationId member state = upsertMemberToChatState state federationId member"

definition setChatMessages :: "string \<Rightarrow> chat_message list \<Rightarrow> chat_state \<Rightarrow> chat_state" where
  "setChatMessages federationId msgs state =
     obj_set federationId ((getFederationChatState state federationId)\<lparr>messages := msgs\<rparr>) state"

definition addChatMessage :: "string \<Rightarrow> chat_message \<Rightarrow> chat_state \<Rightarrow> chat_state" where
  "addChatMessage federationId message state =
     upsertMessageToChatState state federationId message (Some MAX_MESSAGE_HISTORY)
       (Some (order_asc msg_sentAt))"

definition setChatGroups :: "string \<Rightarrow> chat_group list \<Rightarrow> chat_state \<Rightarrow> chat_state" where
  "setChatGroups federationId gs state =
     obj_set federationId ((getFederationChatState state federationId)\<lparr>groups := gs\<rparr>) state"

definition setChatGroupRole :: "string \<Rightarrow> string \<Rightarrow> string \<Rightarrow> chat_state \<Rightarrow> chat_state" where
  "setChatGroupRole federationId groupId role state =
     (let federation = getFederationChatState state federationId
      in obj_set federationId (federation\<lparr>groupRoles := obj_set groupId role (groupRoles federation)\<rparr>) state)"

definition setChatGroupAffiliation :: "string \<Rightarrow> string \<Rightarrow> string \<Rightarrow> chat_state \<Rightarrow> chat_state" where
  "setChatGroupAffiliation federationId groupId affiliation state =
     (let federation = getFederationChatState state federationId
      in obj_set federationId
           (federation\<lparr>groupAffiliations := obj_set groupId affiliation (groupAffiliations federation)\<rparr>) state)"

definition addChatGroup :: "string \<Rightarrow> chat_group \<Rightarrow> chat_state \<Rightarrow> chat_state" where
  "addChatGroup federationId grp state = upsertGroupToChatState state federationId grp"

definition setAuthenticatedMember :: "string \<Rightarrow> chat_member \<Rightarrow> chat_state \<Rightarrow> chat_state" where
  "setAuthenticatedMember federationId member state =
     obj_set federationId
       ((getFederationChatState state federationId)\<lparr>authenticatedMember := Some member\<rparr>) state"

definition setChatEncryptionKeys :: "string \<Rightarrow> keypair \<Rightarrow> chat_state \<Rightarrow> chat_state" where
  "setChatEncryptionKeys federationId keys state =
     obj_set federationId ((getFederationChatState state federationId)\<lparr>encryptionKeys := Some keys\<rparr>) state"

definition setLastFetchedMessageId :: "string \<Rightarrow> string option \<Rightarrow> chat_state \<Rightarrow> chat_state" where
  "setLastFetchedMessageId federationId messageId state =
     obj_set federationId
       ((getFederationChatState state federationId)\<lparr>lastFetchedMessageId := messageId\<rparr>) state"

definition setLastReadMessageTimestamp :: "string \<Rightarrow> string \<Rightarrow> int \<Rightarrow> chat_state \<Rightarrow> chat_state" where
  "setLastReadMessageTimestamp federationId chatId timestamp state =
     (let federation = getFederationChatState state federationId;
          seen = lastSeenMessageTimestamp federation;
          seen = (if truthy_int seen \<and> timestamp > or_zero seen then Some timestamp else seen)
      in obj_set federationId (federation\<lparr>
           lastSeenMessageTimestamp := seen,
           lastReadMessageTimestamps := obj_set chatId timestamp (lastReadMessageTimestamps federation)\<rparr>)
           state)"

definition setLastSeenMessageTimestamp :: "string \<Rightarrow> int \<Rightarrow> chat_state \<Rightarrow> chat_state" where
  "setLastSeenMessageTimestamp federationId timestamp state =
     obj_set federationId
       ((getFederationChatState state federationId)\<lparr>lastSeenMessageTimestamp := Some timestamp\<rparr>) state"

definition setWebsocketIsHealthy :: "string \<Rightarrow> bool \<Rightarrow> chat_state \<Rightarrow> chat_state" where
  "setWebsocketIsHealthy federationId healthy state =
     obj_set federationId
       ((getFederationChatState state federationId)\<lparr>websocketIsHealthy := healthy\<rparr>) state"

definition resetAuthenticatedMember :: "string \<Rightarrow> chat_state \<Rightarrow> chat_state" where
  "resetAuthenticatedMember federationId state =
     obj_set federationId ((getFederationChatState state federationId)\<lparr>
         authenticatedMember := authenticatedMember initialFederationChatState,
         encryptionKeys := encryptionKeys initialFederationChatState\<rparr>) state"

definition resetFederationChatState :: "string \<Rightarrow> chat_state \<Rightarrow> chat_state" where
  "resetFederationChatState federationId state = obj_set federationId initialFederationChatState state"

text \<open>The chat part of a stored state, as \<open>loadFromStorage\<close> delivers it.\<close>

record stored_chat =
  st_authenticatedMember :: "chat_member option"
  st_messages :: "chat_message list"
  st_groups :: "chat_group list"
  st_groupRoles :: "string jsobj option"
  st_groupAffiliations :: "string jsobj option"
  st_members :: "chat_member list"
  st_lastFetchedMessageId :: "string option"
  st_lastReadMessageTimestamps :: "int jsobj"
  st_lastSeenMessageTimestamp :: "int option"

definition restore_chat :: "fed_chat \<Rightarrow> stored_chat \<Rightarrow> fed_chat" where
  "restore_chat prev c = prev\<lparr>
     authenticatedMember := st_authenticatedMember c,
     messages := st_messages c,
     groups := st_groups c,
     groupRoles := (case st_groupRoles c of None \<Rightarrow> groupRoles prev | Some r \<Rightarrow> r),
     groupAffiliations := (case st_groupAffiliations c of None \<Rightarrow> groupAffiliations prev | Some r \<Rightarrow> r),
     membersSeen := st_members c,
     lastFetchedMessageId := st_lastFetchedMessageId c,
     lastReadMessageTimestamps := st_lastReadMessageTimestamps c,
     lastSeenMessageTimestamp := st_lastSeenMessageTimestamp c\<rparr>"

definition loadChatFromStorage :: "stored_chat option jsobj option \<Rightarrow> chat_state \<Rightarrow> chat_state" where
  "loadChatFromStorage payload state =
     (case payload of
        None \<Rightarrow> state
      | Some chat \<Rightarrow>
          fold (\<lambda>(federationId, chatState) s.
                  case chatState of
                    None \<Rightarrow> s
                  | Some c \<Rightarrow> obj_set federationId (restore_chat (getFederationChatState s federationId) c) s)
            (obj_entries chat) state)"

datatype chat_action =
    SetChatClientStatus int string string
  | SetChatClientError string string
  | SetChatMembersSeen string "chat_member list"
  | AddChatMemberSeen string chat_member
  | SetChatMessages string "chat_message list"
  | AddChatMessage string chat_message
  | SetChatGroups string "chat_group list"
  | SetChatGroupRole string string string
  | SetChatGroupAffiliation string string string
  | AddChatGroup string chat_group
  | SetAuthenticatedMember string chat_member
  | SetChatEncryptionKeys string keypair
  | SetLastFetchedMessageId string "string option"
  | SetLastReadMessageTimestamp string string int
  | SetLastSeenMessageTimestamp string int
  | SetWebsocketIsHealthy string bool
  | ResetAuthenticatedMember string
  | ResetFederationChatState string
  | ResetChatState
  | LoadFromStorage "stored_chat option jsobj option"
  | UpdateChatPaymentFulfilled string chat_message

fun chatReducer :: "chat_action \<Rightarrow> chat_state \<Rightarrow> chat_state" where
  "chatReducer (SetChatClientStatus now f st) s = setChatClientStatus now f st s"
| "chatReducer (SetChatClientError f e) s = setChatClientError f e s"
| "chatReducer (SetChatMembersSeen f ms) s = setChatMembersSeen f ms s"
| "chatReducer (AddChatMemberSeen f m) s = addChatMemberSeen f m s"
| "chatReducer (SetChatMessages f ms) s = setChatMessages f ms s"
| "chatReducer (AddChatMessage f m) s = addChatMessage f m s"
| "chatReducer (SetChatGroups f gs) s = setChatGroups f gs s"
| "chatReducer (SetChatGroupRole f g r) s = setChatGroupRole f g r s"
| "chatReducer (SetChatGroupAffiliation f g a) s = setChatGroupAffiliation f g a s"
| "chatReducer (AddChatGroup f g) s = addChatGroup f g s"
| "chatReducer (SetAuthenticatedMember f m) s = setAuthenticatedMember f m s"
| "chatReducer (SetChatEncryptionKeys f k) s = setChatEncryptionKeys f k s"
| "chatReducer (SetLastFetchedMessageId f i) s = setLastFetchedMessageId f i s"
| "chatReducer (SetLastReadMessageTimestamp f c t) s = setLastReadMessageTimestamp f c t s"
| "chatReducer (SetLastSeenMessageTimestamp f t) s = setLastSeenMessageTimestamp f t s"
| "chatReducer (SetWebsocketIsHealthy f h) s = setWebsocketIsHealthy f h s"
| "chatReducer (ResetAuthenticatedMember f) s = resetAuthenticatedMember f s"
| "chatReducer (ResetFederationChatState f) s = resetFederationChatState f s"
| "chatReducer ResetChatState s = initialChatState"
| "chatReducer (LoadFromStorage p) s = loadChatFromStorage p s"
| "chatReducer (UpdateChatPaymentFulfilled f m) s = upsertMessageToChatState s f m None None"

section \<open>Updating a payment\<close>

datatype payment_action = receive | pay | reject | cancel | OtherAction string

datatype chat_call =
    ReceiveEcash string string
  | GenerateEcash int string
  | CancelEcash string string

record chat_bridge =
  receiveEcash :: "string \<Rightarrow> string \<Rightarrow> js_error + unit"
  generateEcash :: "int \<Rightarrow> string \<Rightarrow> js_error + string"
  cancelEcash :: "string \<Rightarrow> string \<Rightarrow> js_error + unit"

definition already_reissued :: "js_error \<Rightarrow> bool" where
  "already_reissued err = (case err of
     Error message \<Rightarrow> message \<noteq> [] \<and> js_includes message ''already reissued these notes''
   | _ \<Rightarrow> False)"

text \<open>
  The switch on the action: the calls made and, unless something throws, the new token and
  status (the token is kept when the action does not write it).
\<close>

definition payment_updates ::
  "chat_bridge \<Rightarrow> string \<Rightarrow> chat_payment \<Rightarrow> payment_action \<Rightarrow>
   chat_call list \<times> (js_error + (string option \<times> chat_payment_status))"
where
  "payment_updates fedimint federationId payment act =
     (case act of
        receive \<Rightarrow>
          if \<not> truthy_str (pay_token payment) then ([], Inl (Error ''errors.chat-payment-failed''))
          else let token = the (pay_token payment)
               in ([ReceiveEcash token federationId],
                   (case receiveEcash fedimint token federationId of
                      Inl err \<Rightarrow> if already_reissued err then Inr (None, paid) else Inl err
                    | Inr _ \<Rightarrow> Inr (None, paid)))
      | reject \<Rightarrow> ([], Inr (pay_token payment, rejected))
      | pay \<Rightarrow>
          ([GenerateEcash (pay_amount payment) federationId],
           (case generateEcash fedimint (pay_amount payment) federationId of
              Inl err \<Rightarrow> Inl err
            | Inr ecash \<Rightarrow> Inr (Some ecash, accepted)))
      | cancel \<Rightarrow>
          if truthy_str (pay_token payment)
          then ([CancelEcash (the (pay_token payment)) federationId],
                (case cancelEcash fedimint (the (pay_token payment)) federationId of
                   Inl err \<Rightarrow> Inl err
                 | Inr _ \<Rightarrow> Inr (None, canceled)))
          else ([], Inr (None, canceled))
      | OtherAction _ \<Rightarrow> ([], Inl (Error ''errors.unknown-error'')))"

definition updateChatPayment ::
  "chat_bridge \<Rightarrow> int \<Rightarrow> string \<Rightarrow> string \<Rightarrow> payment_action \<Rightarrow> chat_state \<Rightarrow>
   chat_call list \<times> (js_error + chat_message)"
where
  "updateChatPayment fedimint now federationId messageId act state =
     (let chatState = obj_get state federationId;
          message = Option.bind chatState (\<lambda>c. find (\<lambda>m. msg_id m = messageId) (messages c))
      in case (message, Option.bind message msg_payment) of
           (Some message, Some payment) \<Rightarrow>
             (case Option.bind chatState authenticatedMember of
                None \<Rightarrow> ([], Inl (Error ''errors.chat-unavailable''))
              | Some me \<Rightarrow>
                  let recipientId = msg_sentTo message;
                      recipientId = (if recipientId = Some (member_id me) then Some (msg_sentBy message) else recipientId)
                  in if \<not> truthy_str recipientId then ([], Inl (Error ''errors.chat-payment-failed''))
                     else let updatedAt = makePaymentUpdatedAt now (Some payment);
                              (calls, result) = payment_updates fedimint federationId payment act
                          in (calls, case result of
                                Inl e \<Rightarrow> Inl e
                              | Inr (token, status) \<Rightarrow>
                                  Inr (message\<lparr>msg_payment := Some (payment\<lparr>pay_updatedAt := Some updatedAt,
                                         pay_token := token, pay_status := status\<rparr>)\<rparr>)))
         | _ \<Rightarrow> ([], Inl (Error ''errors.chat-payment-failed'')))"

section \<open>The slice as a keyed slice\<close>

interpretation chat: keyed_slice getFederationChatState obj_set
  by unfold_locales (simp add: getFederationChatState_def)

text \<open>The federation an action is about; the last two reducers that touch several are not here.\<close>

fun action_federation :: "chat_action \<Rightarrow> string option" where
  "action_federation (SetChatClientStatus now f st) = Some f"
| "action_federation (SetChatClientError f e) = Some f"
| "action_federation (SetChatMembersSeen f ms) = Some f"
| "action_federation (AddChatMemberSeen f m) = Some f"
| "action_federation (SetChatMessages f ms) = Some f"
| "action_federation (AddChatMessage f m) = Some f"
| "action_federation (SetChatGroups f gs) = Some f"
| "action_federation (SetChatGroupRole f g r) = Some f"
| "action_federation (SetChatGroupAffiliation f g a) = Some f"
| "action_federation (AddChatGroup f g) = Some f"
| "action_federation (SetAuthenticatedMember f m) = Some f"
| "action_federation (SetChatEncryptionKeys f k) = Some f"
| "action_federation (SetLastFetchedMessageId f i) = Some f"
| "action_federation (SetLastReadMessageTimestamp f c t) = Some f"
| "action_federation (SetLastSeenMessageTimestamp f t) = Some f"
| "action_federation (SetWebsocketIsHealthy f h) = Some f"
| "action_federation (ResetAuthenticatedMember f) = Some f"
| "action_federation (ResetFederationChatState f) = Some f"
| "action_federation (UpdateChatPaymentFulfilled f m) = Some f"
| "action_federation ResetChatState = None"
| "action_federation (LoadFromStorage p) = None"

lemmas chat_reducer_defs =
  setChatClientStatus_def setChatClientError_def setChatMembersSeen_def addChatMemberSeen_def
  setChatMessages_def addChatMessage_def setChatGroups_def setChatGroupRole_def
  setChatGroupAffiliation_def addChatGroup_def setAuthenticatedMember_def setChatEncryptionKeys_def
  setLastFetchedMessageId_def setLastReadMessageTimestamp_def setLastSeenMessageTimestamp_def
  setWebsocketIsHealthy_def resetAuthenticatedMember_def resetFederationChatState_def
  upsertMessageToChatState_def upsertMemberToChatState_def upsertGroupToChatState_def

lemma chatReducer_frame:
  assumes "action_federation a = Some f" and "f' \<noteq> f"
  shows "getFederationChatState (chatReducer a s) f' = getFederationChatState s f'"
  using assms by (cases a) (auto simp: chat_reducer_defs chat.get_put Let_def split: option.splits)

section \<open>The upsert of entities\<close>

text \<open>Without a limit it is \<open>upsertListItem\<close> of \<open>utils/redux.ts\<close>.\<close>

lemma upsert_entities_eq_upsertListItem:
  "(case upsert_entities ident merge None srt x xs of None \<Rightarrow> xs | Some ys \<Rightarrow> ys) =
     upsertListItem ident merge srt (Some xs) x"
  by (auto simp: upsert_entities_def upsertListItem_def Let_def split: prod.splits option.splits)

text \<open>The limit cuts what \<open>upsertListItem\<close> returns, unless nothing changed.\<close>

lemma upsert_entities_limit:
  assumes "upsert_entities ident merge (Some n) srt x xs = Some ys" and "n \<noteq> 0"
  shows "ys = slice_last n (upsertListItem ident merge srt (Some xs) x)"
proof -
  have "slice_last n zs = zs" if "length zs \<le> n" for zs :: "'a list"
    using that by (simp add: slice_last_def)
  then show ?thesis
    using assms
    by (auto simp: upsert_entities_def upsertListItem_def Let_def not_less split: prod.splits option.splits if_splits)
qed

lemma upsert_entities_distinct:
  assumes merge: "\<And>o' i. ident o' = ident i \<Longrightarrow> ident (merge o' i) = ident i"
    and srt: "\<And>f ys. srt = Some f \<Longrightarrow> mset (f ys) = mset ys"
    and "distinct (map ident xs)" and "upsert_entities ident merge limit srt x xs = Some ys"
  shows "distinct (map ident ys)"
proof -
  have d: "distinct (map ident (upsertListItem ident merge srt (Some xs) x))"
    by (rule upsertListItem_distinct) (use assms(1-3) in auto)
  show ?thesis
  proof (cases limit)
    case None
    then have "ys = upsertListItem ident merge srt (Some xs) x"
      using assms(4) upsert_entities_eq_upsertListItem [where ident = ident and merge = merge and srt = srt and x = x and xs = xs] by simp
    then show ?thesis using d by simp
  next
    case (Some n)
    show ?thesis
    proof (cases "n = 0")
      case True
      then have "upsert_entities ident merge None srt x xs = Some ys"
        using assms(4) Some
        by (auto simp: upsert_entities_def Let_def split: prod.splits option.splits if_splits)
      then have "ys = upsertListItem ident merge srt (Some xs) x"
        using upsert_entities_eq_upsertListItem [where ident = ident and merge = merge and srt = srt and x = x and xs = xs] by simp
      then show ?thesis using d by simp
    next
      case False
      then have "ys = slice_last n (upsertListItem ident merge srt (Some xs) x)"
        using assms(4) Some by (intro upsert_entities_limit) auto
      then show ?thesis using d by (simp add: distinct_map_slice_last)
    qed
  qed
qed

lemma merge_ids [simp]:
  "msg_id (merge_message m m') = msg_id m'" "member_id (merge_member a b) = member_id b"
  "group_id (merge_group g g') = group_id g'"
  by (simp_all add: merge_message_def merge_member_def merge_group_def)

text \<open>The lists of members and groups implement the upsert interface.\<close>

definition member_upsert :: "chat_member \<Rightarrow> chat_member list \<Rightarrow> chat_member list" where
  "member_upsert m xs = upsertListItem member_id merge_member None (Some xs) m"

definition group_upsert :: "chat_group \<Rightarrow> chat_group list \<Rightarrow> chat_group list" where
  "group_upsert g xs = upsertListItem group_id merge_group None (Some xs) g"

interpretation members: list_upsert member_id member_upsert
  by unfold_locales (auto simp: member_upsert_def intro!: upsertListItem_ids upsertListItem_distinct)

interpretation groups: list_upsert group_id group_upsert
  by unfold_locales (auto simp: group_upsert_def intro!: upsertListItem_ids upsertListItem_distinct)

lemma addChatMemberSeen_get:
  "membersSeen (getFederationChatState (addChatMemberSeen f m s) f) =
     member_upsert m (membersSeen (getFederationChatState s f))"
  using upsert_entities_eq_upsertListItem [where ident = member_id and merge = merge_member and srt = None
      and x = m and xs = "membersSeen (getFederationChatState s f)"]
  by (auto simp: addChatMemberSeen_def upsertMemberToChatState_def member_upsert_def chat.get_put Let_def
      split: option.splits)

lemma fold_addChatMemberSeen_get:
  "membersSeen (getFederationChatState (fold (addChatMemberSeen f) ms s) f) =
     fold member_upsert ms (membersSeen (getFederationChatState s f))"
  by (induction ms arbitrary: s) (simp_all add: addChatMemberSeen_get)

section \<open>The invariant\<close>

definition fed_chat_ok :: "fed_chat \<Rightarrow> bool" where
  "fed_chat_ok c =
     (distinct (map msg_id (messages c)) \<and> distinct (map group_id (groups c)) \<and>
      distinct (map member_id (membersSeen c)))"

definition chat_ok :: "chat_state \<Rightarrow> bool" where
  "chat_ok s = (\<forall>f. fed_chat_ok (getFederationChatState s f))"

text \<open>The payloads that replace a whole list must have distinct ids.\<close>

fun chat_action_ok :: "chat_action \<Rightarrow> bool" where
  "chat_action_ok (SetChatMembersSeen f ms) = distinct (map member_id ms)"
| "chat_action_ok (SetChatMessages f ms) = distinct (map msg_id ms)"
| "chat_action_ok (SetChatGroups f gs) = distinct (map group_id gs)"
| "chat_action_ok (LoadFromStorage p) =
     (case p of None \<Rightarrow> True | Some chat \<Rightarrow> list_all (\<lambda>(f, c). case c of None \<Rightarrow> True | Some st \<Rightarrow>
        distinct (map msg_id (st_messages st)) \<and> distinct (map group_id (st_groups st)) \<and>
        distinct (map member_id (st_members st))) chat)"
| "chat_action_ok _ = True"

lemma fed_chat_ok_initial [simp]: "fed_chat_ok initialFederationChatState"
  by (simp add: fed_chat_ok_def initialFederationChatState_def)

lemma chat_ok_put: "chat_ok s \<Longrightarrow> fed_chat_ok c \<Longrightarrow> chat_ok (obj_set f c s)"
  by (simp add: chat_ok_def chat.get_put)

lemma chat_ok_get: "chat_ok s \<Longrightarrow> fed_chat_ok (getFederationChatState s f)"
  by (simp add: chat_ok_def)

lemma chat_ok_upsertMessage:
  assumes "chat_ok s" and "\<And>g ys. srt = Some g \<Longrightarrow> mset (g ys) = mset ys"
  shows "chat_ok (upsertMessageToChatState s f m limit srt)"
  using chat_ok_get [OF assms(1), of f] assms
  by (auto simp: upsertMessageToChatState_def Let_def fed_chat_ok_def intro!: chat_ok_put
      dest: upsert_entities_distinct [rotated 3, where ident = msg_id and merge = merge_message and srt = srt]
      split: option.splits)

lemma chat_ok_upsertMember: "chat_ok s \<Longrightarrow> chat_ok (upsertMemberToChatState s f m)"
  using chat_ok_get [of s f]
  by (auto simp: upsertMemberToChatState_def Let_def fed_chat_ok_def intro!: chat_ok_put
      dest: upsert_entities_distinct [rotated 3, where ident = member_id and merge = merge_member and srt = None]
      split: option.splits)

lemma chat_ok_upsertGroup: "chat_ok s \<Longrightarrow> chat_ok (upsertGroupToChatState s f g)"
  using chat_ok_get [of s f]
  by (auto simp: upsertGroupToChatState_def Let_def fed_chat_ok_def intro!: chat_ok_put
      dest: upsert_entities_distinct [rotated 3, where ident = group_id and merge = merge_group and srt = None]
      split: option.splits)

lemma chat_ok_load:
  assumes "chat_ok s" and "chat_action_ok (LoadFromStorage p)"
  shows "chat_ok (loadChatFromStorage p s)"
proof -
  let ?put = "\<lambda>(federationId, chatState) s. case chatState of None \<Rightarrow> s
     | Some c \<Rightarrow> obj_set federationId (restore_chat (getFederationChatState s federationId) c) s"
  have "chat_ok (fold ?put es s)"
    if "list_all (\<lambda>(f, c). case c of None \<Rightarrow> True | Some st \<Rightarrow> distinct (map msg_id (st_messages st)) \<and>
          distinct (map group_id (st_groups st)) \<and> distinct (map member_id (st_members st))) es" for es
    using that assms(1)
  proof (induction es arbitrary: s)
    case (Cons e es)
    obtain f c where e: "e = (f, c)" by force
    have "chat_ok (?put e s)"
      using Cons.prems by (cases c) (auto simp: e fed_chat_ok_def restore_chat_def intro!: chat_ok_put)
    then show ?case using Cons by simp
  qed simp
  then show ?thesis
    using assms by (auto simp: loadChatFromStorage_def list_all_iff split: option.splits)
qed

lemma chat_ok_step: "chat_ok s \<Longrightarrow> chat_action_ok a \<Longrightarrow> chat_ok (chatReducer a s)"
proof (cases a)
  case (LoadFromStorage p)
  then show "chat_ok s \<Longrightarrow> chat_action_ok a \<Longrightarrow> chat_ok (chatReducer a s)" by (simp add: chat_ok_load)
next
  case ResetChatState
  then show ?thesis by (simp add: chat_ok_def getFederationChatState_def initialChatState_def)
qed (use chat_ok_get in \<open>auto simp: setChatClientStatus_def setChatClientError_def setChatMembersSeen_def
       addChatMemberSeen_def setChatMessages_def addChatMessage_def setChatGroups_def setChatGroupRole_def
       setChatGroupAffiliation_def addChatGroup_def setAuthenticatedMember_def setChatEncryptionKeys_def
       setLastFetchedMessageId_def setLastReadMessageTimestamp_def setLastSeenMessageTimestamp_def
       setWebsocketIsHealthy_def resetAuthenticatedMember_def resetFederationChatState_def Let_def
       fed_chat_ok_def initialFederationChatState_def
       intro!: chat_ok_put chat_ok_upsertMessage chat_ok_upsertMember chat_ok_upsertGroup\<close>)

interpretation chat_slice: reducer initialChatState chatReducer chat_action_ok chat_ok
proof unfold_locales
  show "chat_ok initialChatState"
    by (simp add: chat_ok_def getFederationChatState_def initialChatState_def)
qed (rule chat_ok_step)

section \<open>The message history\<close>

lemma slice_last_all: "length xs \<le> n \<Longrightarrow> slice_last n xs = xs"
  by (simp add: slice_last_def)

lemma order_asc_order_asc_snoc: "order_asc key (order_asc key xs @ [x]) = order_asc key (xs @ [x])"
  unfolding order_asc_def
proof (rule properties_for_sort_key)
  fix k
  have "filter (\<lambda>y. key k = key y) (sort_key key zs) = filter (\<lambda>y. key k = key y) zs" for zs
    using sort_key_stable [of key "key k" zs] by (simp add: eq_commute)
  then show "filter (\<lambda>y. key k = key y) (sort_key key (xs @ [x])) = filter (\<lambda>y. key k = key y) (sort_key key xs @ [x])"
    by (simp only: filter_append)
qed simp_all

lemma upsert_message_new:
  assumes "msg_id m \<notin> msg_id ` set xs"
  shows "upsert_entities msg_id merge_message (Some MAX_MESSAGE_HISTORY) (Some (order_asc msg_sentAt)) m xs =
    Some (slice_last MAX_MESSAGE_HISTORY (order_asc msg_sentAt (xs @ [m])))"
proof -
  have "upsert_scan msg_id merge_message m xs True False = (xs, True, snd (snd (upsert_scan msg_id merge_message m xs True False)))"
    using assms upsert_scan_list [of msg_id merge_message m xs True False]
      upsert_scan_addToEnd [of msg_id merge_message m xs True False]
    by (simp add: prod_eq_iff replaced_absent)
  then show ?thesis
    by (auto simp: upsert_entities_def Let_def MAX_MESSAGE_HISTORY_def slice_last_all split: prod.splits)
qed

lemma addChatMessage_new:
  assumes "msg_id m \<notin> msg_id ` set (messages (getFederationChatState s f))"
  shows "messages (getFederationChatState (addChatMessage f m s) f) =
    slice_last MAX_MESSAGE_HISTORY (order_asc msg_sentAt (messages (getFederationChatState s f) @ [m]))"
  using upsert_message_new [OF assms]
  by (simp add: addChatMessage_def upsertMessageToChatState_def Let_def chat.get_put)

lemma addChatMessage_history:
  assumes "distinct (map msg_id (ms @ [m]))"
    and "messages (getFederationChatState s f) = slice_last MAX_MESSAGE_HISTORY (order_asc msg_sentAt ms)"
  shows "messages (getFederationChatState (addChatMessage f m s) f) =
    slice_last MAX_MESSAGE_HISTORY (order_asc msg_sentAt (ms @ [m]))"
proof -
  have "set (slice_last MAX_MESSAGE_HISTORY (order_asc msg_sentAt ms)) \<subseteq> set ms"
    using set_slice_last by fastforce
  then have "msg_id m \<notin> msg_id ` set (messages (getFederationChatState s f))"
    using assms by auto
  then show ?thesis
    using assms(2) slice_last_order_asc_snoc [OF sorted_order_asc, of MAX_MESSAGE_HISTORY msg_sentAt ms m]
    by (simp add: addChatMessage_new order_asc_order_asc_snoc)
qed

section \<open>Payments\<close>

definition action_status :: "payment_action \<Rightarrow> chat_payment_status option" where
  "action_status act = (case act of receive \<Rightarrow> Some paid | pay \<Rightarrow> Some accepted
     | reject \<Rightarrow> Some rejected | cancel \<Rightarrow> Some canceled | OtherAction _ \<Rightarrow> None)"

lemma payment_updates_ok:
  assumes "payment_updates br f p act = (calls, Inr (tok, st))"
  shows "action_status act = Some st" "length calls \<le> 1" "act \<in> {receive, cancel} \<Longrightarrow> tok = None"
    "act = reject \<Longrightarrow> tok = pay_token p" "act = pay \<Longrightarrow> \<exists>e. tok = Some e \<and> generateEcash br (pay_amount p) f = Inr e"
  using assms
  by (auto simp: payment_updates_def action_status_def Let_def split: payment_action.splits sum.splits if_splits)

lemma payment_updates_error:
  assumes "payment_updates br f p act = (calls, Inl e)" and "calls \<noteq> []"
  shows "(\<exists>t. calls = [ReceiveEcash t f] \<and> receiveEcash br t f = Inl e \<and> \<not> already_reissued e) \<or>
    (calls = [GenerateEcash (pay_amount p) f] \<and> generateEcash br (pay_amount p) f = Inl e) \<or>
    (\<exists>t. calls = [CancelEcash t f] \<and> cancelEcash br t f = Inl e)"
  using assms
  by (auto simp: payment_updates_def Let_def split: payment_action.splits sum.splits if_splits)

lemma updateChatPayment_result:
  assumes "updateChatPayment br now f i act s = (calls, Inr m')"
  obtains c m p tok st where "obj_get s f = Some c" "find (\<lambda>m. msg_id m = i) (messages c) = Some m"
    "msg_payment m = Some p" "payment_updates br f p act = (calls, Inr (tok, st))"
    "m' = m\<lparr>msg_payment := Some (p\<lparr>pay_updatedAt := Some (makePaymentUpdatedAt now (Some p)),
       pay_token := tok, pay_status := st\<rparr>)\<rparr>"
  using assms
  by (auto simp: updateChatPayment_def Let_def bind_eq_Some_conv
      split: option.splits if_splits prod.splits sum.splits)

lemma merge_message_payment [simp]:
  "merge_message m (m\<lparr>msg_payment := Some p\<rparr>) = m\<lparr>msg_payment := Some p\<rparr>"
  by (simp add: merge_message_def)

lemma find_replaced:
  assumes "find (\<lambda>y. ident y = ident x) xs = Some y" and "ident (merge y x) = ident x"
  shows "find (\<lambda>y. ident y = ident x) (replaced ident merge x xs) = Some (merge y x)"
  using assms by (induction xs) (auto simp: replaced_def split: if_splits)

lemma upsertMessage_replaces:
  assumes "distinct (map msg_id (messages (getFederationChatState s f)))"
    and "find (\<lambda>y. msg_id y = msg_id m') (messages (getFederationChatState s f)) = Some m"
  shows "find (\<lambda>y. msg_id y = msg_id m')
      (messages (getFederationChatState (upsertMessageToChatState s f m' None None) f)) = Some (merge_message m m')"
proof -
  let ?xs = "messages (getFederationChatState s f)"
  have "m \<in> set ?xs" "msg_id m = msg_id m'" using assms(2) by (auto simp: find_Some_iff)
  then have mem: "msg_id m' \<in> msg_id ` set ?xs" by (metis imageI)
  have "messages (getFederationChatState (upsertMessageToChatState s f m' None None) f) =
      upsertListItem msg_id merge_message None (Some ?xs) m'"
    using upsert_entities_eq_upsertListItem [where ident = msg_id and merge = merge_message and srt = None
        and x = m' and xs = ?xs]
    by (auto simp: upsertMessageToChatState_def Let_def chat.get_put split: option.splits)
  also have "\<dots> = replaced msg_id merge_message m' ?xs"
    by (subst upsertListItem_old [OF assms(1) mem]) simp
  finally show ?thesis using find_replaced [OF assms(2), of merge_message] by simp
qed

section \<open>Properties\<close>

text \<open>
  C22: however the messages of a chat arrive, the history of a federation holds the newest
  \<open>MAX_MESSAGE_HISTORY\<close> of them in the order of \<open>sentAt\<close>: cutting the list after every single
  \<open>addChatMessage\<close> loses nothing that cutting once at the end would keep.
\<close>

theorem addChatMessage_keeps_newest:
  assumes "distinct (map msg_id ms)"
  shows "messages (getFederationChatState (fold (addChatMessage f) ms initialChatState) f) =
    slice_last MAX_MESSAGE_HISTORY (order_asc msg_sentAt ms)"
  using assms
proof (induction ms rule: rev_induct)
  case Nil
  show ?case
    by (simp add: getFederationChatState_def initialChatState_def initialFederationChatState_def
        slice_last_def order_asc_def)
next
  case (snoc m ms)
  then show ?case using addChatMessage_history [OF snoc.prems] by simp
qed

theorem addChatMessage_keeps_newest_witness:
  "messages (getFederationChatState
      (fold (addChatMessage ''fed'') [sample_message ''m1'' 9, sample_message ''m2'' 5] initialChatState) ''fed'') =
    slice_last MAX_MESSAGE_HISTORY (order_asc msg_sentAt [sample_message ''m1'' 9, sample_message ''m2'' 5])"
  by (rule addChatMessage_keeps_newest) (simp add: sample_message_def)

text \<open>
  After any sequence of actions of the chat slice whose list payloads have distinct ids, the
  messages, groups and members of every federation have distinct ids.
\<close>

theorem chat_ids_distinct:
  assumes "list_all chat_action_ok as"
  shows "fed_chat_ok (getFederationChatState (fold chatReducer as initialChatState) f)"
  using chat_slice.run_invar [OF assms] by (rule chat_ok_get)

theorem chat_ids_distinct_witness:
  "fed_chat_ok (getFederationChatState (fold chatReducer
     [AddChatMessage ''fed'' (sample_message ''m1'' 9), AddChatMessage ''fed'' (sample_message ''m1'' 12),
      ResetAuthenticatedMember ''other''] initialChatState) ''fed'')"
  by (rule chat_ids_distinct) simp

text \<open>
  The federations do not interfere: a sequence of actions none of which is about a federation
  leaves the whole chat state of that federation as it was.
\<close>

theorem chat_federations_independent:
  assumes "\<forall>a\<in>set as. \<exists>f'. action_federation a = Some f' \<and> f' \<noteq> f"
  shows "getFederationChatState (fold chatReducer as s) f = getFederationChatState s f"
  using assms
proof (induction as arbitrary: s)
  case (Cons a as)
  then show ?case using chatReducer_frame [of a _ f s] by fastforce
qed simp

theorem chat_federations_independent_witness:
  "getFederationChatState (fold chatReducer [SetChatClientError ''a'' ''err'', AddChatMessage ''b'' (sample_message ''m'' 1)]
      initialChatState) ''c'' = getFederationChatState initialChatState ''c''"
  by (rule chat_federations_independent) simp

text \<open>
  C9: when \<open>updateChatPayment\<close> succeeds and its result is reduced, the message under that id is
  the returned one: same message, status given by the action, a strictly larger \<open>updatedAt\<close>, the
  token cleared by \<open>receive\<close> and \<open>cancel\<close> and fresh from the bridge for \<open>pay\<close>; at most one call
  was made to the bridge.
\<close>

theorem updateChatPayment_effect:
  assumes "fed_chat_ok (getFederationChatState s f)"
    and "updateChatPayment br now f i act s = (calls, Inr m')"
  shows "\<exists>m p p'. find (\<lambda>m. msg_id m = i) (messages (getFederationChatState s f)) = Some m \<and> msg_payment m = Some p \<and>
    find (\<lambda>m. msg_id m = i)
      (messages (getFederationChatState (chatReducer (UpdateChatPaymentFulfilled f m') s) f)) = Some m' \<and>
    m' = m\<lparr>msg_payment := Some p'\<rparr> \<and> pay_amount p' = pay_amount p \<and> action_status act = Some (pay_status p') \<and>
    or_zero (pay_updatedAt p) < or_zero (pay_updatedAt p') \<and> length calls \<le> 1 \<and>
    (act \<in> {receive, cancel} \<longrightarrow> pay_token p' = None) \<and> (act = reject \<longrightarrow> pay_token p' = pay_token p) \<and>
    (act = pay \<longrightarrow> generateEcash br (pay_amount p) f = map_sum id the (Inr (pay_token p')))"
proof -
  obtain c m p tok st where r: "obj_get s f = Some c" "find (\<lambda>m. msg_id m = i) (messages c) = Some m"
    "msg_payment m = Some p" "payment_updates br f p act = (calls, Inr (tok, st))"
    "m' = m\<lparr>msg_payment := Some (p\<lparr>pay_updatedAt := Some (makePaymentUpdatedAt now (Some p)),
       pay_token := tok, pay_status := st\<rparr>)\<rparr>"
    using updateChatPayment_result [OF assms(2)] by blast
  have c: "getFederationChatState s f = c" using r(1) by (simp add: getFederationChatState_def)
  have id: "msg_id m' = i" using r(2,5) by (auto simp: find_Some_iff)
  have f: "find (\<lambda>y. msg_id y = msg_id m') (messages (getFederationChatState s f)) = Some m"
    using r(2) c id by simp
  have d: "distinct (map msg_id (messages (getFederationChatState s f)))"
    using assms(1) by (simp add: fed_chat_ok_def)
  have after: "find (\<lambda>m. msg_id m = i)
      (messages (getFederationChatState (chatReducer (UpdateChatPaymentFulfilled f m') s) f)) = Some m'"
    using upsertMessage_replaces [OF d f] r(5) id by simp
  show ?thesis
    using after r(2,3,5) c payment_updates_ok [OF r(4)] makePaymentUpdatedAt_greater [of "Some p" now]
    by (intro exI [of _ m] exI [of _ p]
        exI [of _ "p\<lparr>pay_updatedAt := Some (makePaymentUpdatedAt now (Some p)), pay_token := tok, pay_status := st\<rparr>"])
      auto
qed

definition sample_payment :: chat_payment where
  "sample_payment = \<lparr>pay_amount = 5000, pay_status = requested, pay_recipient = Some ''bob'', pay_updatedAt = Some 90,
     pay_memo = None, pay_token = None, pay_invoice = None\<rparr>"

definition sample_bridge :: chat_bridge where
  "sample_bridge = \<lparr>receiveEcash = \<lambda>t f. Inr (), generateEcash = \<lambda>a f. Inr ''ecash'', cancelEcash = \<lambda>t f. Inr ()\<rparr>"

definition sample_chat :: chat_state where
  "sample_chat = [(''fed'', initialFederationChatState\<lparr>
     authenticatedMember := Some \<lparr>member_id = ''bob'', member_username = ''bob'', member_publicKeyHex = None\<rparr>,
     messages := [(sample_message ''m'' 5)\<lparr>msg_sentIn := None, msg_sentTo := Some ''bob'', msg_payment := Some sample_payment\<rparr>]\<rparr>)]"

definition sample_paid :: chat_message where
  "sample_paid = (sample_message ''m'' 5)\<lparr>msg_sentIn := None, msg_sentTo := Some ''bob'', msg_payment := Some (sample_payment\<lparr>
     pay_updatedAt := Some 100, pay_token := Some ''ecash'', pay_status := accepted\<rparr>)\<rparr>"

theorem updateChatPayment_effect_witness:
  "\<exists>m p p'. find (\<lambda>m. msg_id m = ''m'') (messages (getFederationChatState sample_chat ''fed'')) = Some m \<and> msg_payment m = Some p \<and>
    find (\<lambda>m. msg_id m = ''m'')
      (messages (getFederationChatState (chatReducer (UpdateChatPaymentFulfilled ''fed'' sample_paid) sample_chat) ''fed'')) =
      Some sample_paid \<and>
    sample_paid = m\<lparr>msg_payment := Some p'\<rparr> \<and> pay_amount p' = pay_amount p \<and> action_status pay = Some (pay_status p') \<and>
    or_zero (pay_updatedAt p) < or_zero (pay_updatedAt p') \<and> length [GenerateEcash 5000 ''fed''] \<le> 1 \<and>
    (pay \<in> {receive, cancel} \<longrightarrow> pay_token p' = None) \<and> (pay = reject \<longrightarrow> pay_token p' = pay_token p) \<and>
    (pay = pay \<longrightarrow> generateEcash sample_bridge (pay_amount p) ''fed'' = map_sum id the (Inr (pay_token p')))"
proof (rule updateChatPayment_effect)
  show "fed_chat_ok (getFederationChatState sample_chat ''fed'')"
    by (simp add: fed_chat_ok_def getFederationChatState_def sample_chat_def obj_get_def initialFederationChatState_def)
  show "updateChatPayment sample_bridge 100500 ''fed'' ''m'' pay sample_chat = ([GenerateEcash 5000 ''fed''], Inr sample_paid)"
    by (simp add: updateChatPayment_def sample_chat_def sample_bridge_def sample_payment_def sample_paid_def obj_get_def
        sample_message_def payment_updates_def makePaymentUpdatedAt_def Let_def)
qed

text \<open>
  When \<open>updateChatPayment\<close> throws, either no call was made to the bridge, or exactly one was
  made and the error is the one the bridge rejected it with; a rejected \<open>receiveEcash\<close> whose
  message says the notes were already reissued is never passed on.
\<close>

theorem updateChatPayment_errors:
  assumes "updateChatPayment br now f i act s = (calls, Inl e)"
  shows "calls = [] \<or>
    (\<exists>t. calls = [ReceiveEcash t f] \<and> receiveEcash br t f = Inl e \<and> \<not> already_reissued e) \<or>
    (\<exists>a. calls = [GenerateEcash a f] \<and> generateEcash br a f = Inl e) \<or>
    (\<exists>t. calls = [CancelEcash t f] \<and> cancelEcash br t f = Inl e)"
proof (cases "calls = []")
  case False
  then obtain p where "payment_updates br f p act = (calls, Inl e)"
    using assms by (auto simp: updateChatPayment_def Let_def bind_eq_Some_conv
        split: option.splits if_splits prod.splits sum.splits)
  then show ?thesis using payment_updates_error False by blast
qed simp

theorem updateChatPayment_errors_witness:
  "[GenerateEcash 5000 ''fed''] = [] \<or>
    (\<exists>t. [GenerateEcash 5000 ''fed''] = [ReceiveEcash t ''fed''] \<and>
       receiveEcash (sample_bridge\<lparr>generateEcash := \<lambda>a f. Inl (Error ''offline'')\<rparr>) t ''fed'' = Inl (Error ''offline'') \<and>
       \<not> already_reissued (Error ''offline'')) \<or>
    (\<exists>a. [GenerateEcash 5000 ''fed''] = [GenerateEcash a ''fed''] \<and>
       generateEcash (sample_bridge\<lparr>generateEcash := \<lambda>a f. Inl (Error ''offline'')\<rparr>) a ''fed'' = Inl (Error ''offline'')) \<or>
    (\<exists>t. [GenerateEcash 5000 ''fed''] = [CancelEcash t ''fed''] \<and>
       cancelEcash (sample_bridge\<lparr>generateEcash := \<lambda>a f. Inl (Error ''offline'')\<rparr>) t ''fed'' = Inl (Error ''offline''))"
proof (rule updateChatPayment_errors)
  show "updateChatPayment (sample_bridge\<lparr>generateEcash := \<lambda>a f. Inl (Error ''offline'')\<rparr>) 100500 ''fed'' ''m'' pay sample_chat =
    ([GenerateEcash 5000 ''fed''], Inl (Error ''offline''))"
    by (simp add: updateChatPayment_def sample_chat_def sample_payment_def obj_get_def sample_message_def payment_updates_def)
qed

end
