(* ===== verification/Transactions.thy ===== *)
theory Transactions
  imports JsString
begin

text \<open>
  The transactions of a federation: the data of the bridge's transactions and the slice
  \<open>ui/common/redux/transactions.ts\<close> with its merge of new and old transactions, the reducers, the
  thunk that fetches a page and the selectors. Time stamps are whole seconds, the clock is given
  in milliseconds. The lemmas show that the list of a federation stays sorted and without
  duplicates, that a newer version of a transaction replaces the older one and that a page never
  loses transactions.
\<close>

section \<open>Data\<close>

datatype direction = Send | Receive

datatype onchain_state =
    WaitingForTransaction
  | WaitingForConfirmation string
  | OnchainClaimed string
  | OnchainCreated
  | OnchainSucceeded
  | OnchainFailed

datatype ln_state =
    LnCreated | LnCanceled | LnFunded | LnWaitingForRefund | LnAwaitingChange | LnSuccess
  | LnRefunded | LnFailed | LnWaitingForPayment | LnAwaitingFunds | LnClaimed

datatype stability_state =
    PendingDeposit
  | CompleteDeposit int int
  | PendingWithdrawal int
  | CompleteWithdrawal int

text \<open>The states of sent ecash and of ecash being reissued, the latter three only of the second.\<close>

datatype oob_state =
    OobCreated | OobUserCanceledProcessing | OobUserCanceledSuccess | OobUserCanceledFailure | OobRefunded | OobSuccess
  | OobIssuing | OobDone | OobFailed string

datatype fee_status =
    FeePendingSend int | FeePendingReceive int | FeeSuccess int | FeeFailedSend int | FeeFailedReceive int

record lightning_details =
  ln_invoice :: string
  ln_fee :: "int option"

record withdrawal_details =
  wd_address :: string
  wd_txid :: string
  wd_fee :: int

record transaction =
  tx_id :: string
  tx_createdAt :: int
  tx_amount :: int
  tx_fediFeeStatus :: "fee_status option"
  tx_direction :: direction
  tx_notes :: string
  tx_onchainState :: "onchain_state option"
  tx_bitcoin :: "string option"
  tx_lnState :: "ln_state option"
  tx_lightning :: "lightning_details option"
  tx_withdrawal :: "withdrawal_details option"
  tx_stabilityPoolState :: "stability_state option"
  tx_oobState :: "oob_state option"

section \<open>The slice\<close>

record fed_txs =
  transactions :: "transaction list"

definition initialTransactionsState :: fed_txs where
  "initialTransactionsState = \<lparr>transactions = []\<rparr>"

type_synonym txs_state = "fed_txs jsobj"

definition getFederationTxsState :: "txs_state \<Rightarrow> string \<Rightarrow> fed_txs" where
  "getFederationTxsState state federationId =
     (case obj_get state federationId of None \<Rightarrow> initialTransactionsState | Some t \<Rightarrow> t)"

text \<open>The filter that keeps an element when it is the first with its id.\<close>

fun first_by_id :: "('a \<Rightarrow> string) \<Rightarrow> 'a list \<Rightarrow> 'a list" where
  "first_by_id ident [] = []"
| "first_by_id ident (x # xs) = x # first_by_id ident (filter (\<lambda>y. ident y \<noteq> ident x) xs)"

definition updateTransactions :: "transaction list \<Rightarrow> transaction list option \<Rightarrow> transaction list" where
  "updateTransactions newTransactions oldTransactions =
     (let combined = newTransactions @ (case oldTransactions of None \<Rightarrow> [] | Some old \<Rightarrow> old);
          deduped = map fst (filter (\<lambda>(tx, i). find_index (\<lambda>t. tx_id t = tx_id tx) combined = i)
                              (zip combined [0..<length combined]))
      in order_desc tx_createdAt deduped)"

definition addTransaction :: "string \<Rightarrow> transaction \<Rightarrow> txs_state \<Rightarrow> txs_state" where
  "addTransaction federationId tx state =
     (let fedTxState = getFederationTxsState state federationId;
          txs = updateTransactions [tx] (Some (transactions fedTxState))
      in obj_set federationId (fedTxState\<lparr>transactions := txs\<rparr>) state)"

definition fetchTransactionsFulfilled ::
  "string \<Rightarrow> bool \<Rightarrow> transaction list \<Rightarrow> txs_state \<Rightarrow> txs_state"
where
  "fetchTransactionsFulfilled federationId refresh payload state =
     (let fedTxState = getFederationTxsState state federationId;
          txs = updateTransactions payload (if refresh then None else Some (transactions fedTxState))
      in obj_set federationId (fedTxState\<lparr>transactions := txs\<rparr>) state)"

definition updateTransactionNotesFulfilled ::
  "string \<Rightarrow> string \<Rightarrow> string \<Rightarrow> txs_state \<Rightarrow> txs_state"
where
  "updateTransactionNotesFulfilled federationId transactionId notes state =
     (let fedTxState = getFederationTxsState state federationId
      in case find (\<lambda>txn. tx_id txn = transactionId) (transactions fedTxState) of
           None \<Rightarrow> state
         | Some existing \<Rightarrow>
             let txs = updateTransactions [existing\<lparr>tx_notes := notes\<rparr>] (Some (transactions fedTxState))
             in obj_set federationId (fedTxState\<lparr>transactions := txs\<rparr>) state)"

datatype txs_action =
    AddTransaction string transaction
  | FetchTransactionsFulfilled string bool "transaction list"
  | UpdateTransactionNotesFulfilled string string string

fun txsReducer :: "txs_action \<Rightarrow> txs_state \<Rightarrow> txs_state" where
  "txsReducer (AddTransaction f tx) s = addTransaction f tx s"
| "txsReducer (FetchTransactionsFulfilled f r p) s = fetchTransactionsFulfilled f r p s"
| "txsReducer (UpdateTransactionNotesFulfilled f i n) s = updateTransactionNotesFulfilled f i n s"

section \<open>Thunks and selectors\<close>

text \<open>The bridge's \<open>listTransactions\<close> is an argument: federation, time stamp of the page, limit.\<close>

definition fetchTransactions ::
  "(string \<Rightarrow> int option \<Rightarrow> int \<Rightarrow> js_error + transaction list) \<Rightarrow> string \<Rightarrow> int option \<Rightarrow> bool \<Rightarrow>
   txs_state \<Rightarrow> js_error + transaction list"
where
  "fetchTransactions listTransactions federationId limit fetchMore state =
     (let txs = transactions (getFederationTxsState state federationId);
          limit = (case limit of None \<Rightarrow> 100 | Some l \<Rightarrow> l);
          paginationTimestamp =
            (if fetchMore \<and> txs \<noteq> [] \<and> tx_createdAt (last txs) \<noteq> 0 then Some (tx_createdAt (last txs)) else None)
      in listTransactions federationId paginationTimestamp limit)"

definition selectTransactions :: "txs_state \<Rightarrow> string option \<Rightarrow> string option \<Rightarrow> transaction list" where
  "selectTransactions state activeFederationId federationId =
     transactions (getFederationTxsState state
       (case or_str federationId activeFederationId of None \<Rightarrow> [] | Some f \<Rightarrow> f))"

definition hidden_onchain :: "int \<Rightarrow> transaction \<Rightarrow> bool" where
  "hidden_onchain now txn =
     (tx_bitcoin txn \<noteq> None \<and> tx_direction txn = Receive \<and> now - tx_createdAt txn * 1000 > 3600 * 1000 \<and>
      (case tx_onchainState txn of
         Some (WaitingForConfirmation _) \<Rightarrow> False
       | Some (OnchainClaimed _) \<Rightarrow> False
       | _ \<Rightarrow> True))"

definition selectTransactionHistory :: "int \<Rightarrow> transaction list \<Rightarrow> transaction list" where
  "selectTransactionHistory now txs = filter (\<lambda>txn. \<not> hidden_onchain now txn) txs"

definition selectStabilityTransactionHistory :: "int \<Rightarrow> transaction list \<Rightarrow> transaction list" where
  "selectStabilityTransactionHistory now txs =
     filter (\<lambda>txn. tx_stabilityPoolState txn \<noteq> None) (selectTransactionHistory now txs)"

section \<open>What the merge computes\<close>

lemma find_index_less: "find_index p xs < length xs \<longleftrightarrow> (\<exists>x\<in>set xs. p x)"
  by (induction xs) auto

lemma find_index_append:
  "find_index p (xs @ ys) = (if \<exists>x\<in>set xs. p x then find_index p xs else length xs + find_index p ys)"
  by (induction xs) auto

lemma dedup_offset:
  "map fst (filter (\<lambda>(tx, i). find_index (\<lambda>t. ident t = ident tx) (ys @ xs) = i)
      (zip xs [length ys..<length ys + length xs])) =
    first_by_id ident (filter (\<lambda>x. ident x \<notin> ident ` set ys) xs)"
proof (induction xs arbitrary: ys)
  case (Cons x xs)
  have up: "[length ys..<length ys + length (x # xs)] = length ys # [length (ys @ [x])..<length (ys @ [x]) + length xs]"
    by (subst upt_conv_Cons) simp_all
  have "(find_index (\<lambda>t. ident t = ident x) (ys @ x # xs) = length ys) = (ident x \<notin> ident ` set ys)"
  proof -
    have "(ident x \<notin> ident ` set ys) = (\<not> (\<exists>t\<in>set ys. ident t = ident x))"
      by (force simp: image_iff)
    then show ?thesis
      using find_index_less [of "\<lambda>t. ident t = ident x" ys] by (auto simp: find_index_append)
  qed
  moreover have "filter (\<lambda>z. ident z \<notin> ident ` set (ys @ [x])) xs =
      filter (\<lambda>z. ident z \<noteq> ident x) (filter (\<lambda>z. ident z \<notin> ident ` set ys) xs)"
    by (auto intro: filter_cong)
  moreover have "filter (\<lambda>z. ident z \<notin> ident ` set (ys @ [x])) xs = filter (\<lambda>z. ident z \<notin> ident ` set ys) xs"
    if "ident x \<in> ident ` set ys"
    using that by (intro filter_cong) auto
  ultimately show ?case
    using Cons.IH [of "ys @ [x]"] unfolding up by auto
qed simp

lemma updateTransactions_eq:
  "updateTransactions new old =
     order_desc tx_createdAt (first_by_id tx_id (new @ (case old of None \<Rightarrow> [] | Some xs \<Rightarrow> xs)))"
  using dedup_offset [where ident = tx_id and ys = "[]" and xs = "new @ (case old of None \<Rightarrow> [] | Some xs \<Rightarrow> xs)"]
  by (simp add: updateTransactions_def Let_def)

lemma first_by_id_ids [simp]: "ident ` set (first_by_id ident xs) = ident ` set xs"
  by (induction ident xs rule: first_by_id.induct) auto

lemma first_by_id_subset: "set (first_by_id ident xs) \<subseteq> set xs"
  by (induction ident xs rule: first_by_id.induct) auto

lemma distinct_first_by_id [simp]: "distinct (map ident (first_by_id ident xs))"
proof (induction ident xs rule: first_by_id.induct)
  case (2 ident x xs)
  then show ?case using first_by_id_ids [of ident "filter (\<lambda>y. ident y \<noteq> ident x) xs"] by auto
qed simp

lemma first_by_id_distinct: "distinct (map ident xs) \<Longrightarrow> first_by_id ident xs = xs"
proof (induction ident xs rule: first_by_id.induct)
  case (2 ident x xs)
  then have "filter (\<lambda>y. ident y \<noteq> ident x) xs = xs" by (intro filter_True) (auto simp: image_iff)
  then show ?case using 2 by simp
qed simp

text \<open>The new transactions in front win; an old one stays when no new one has its id.\<close>

lemma set_first_by_id_append:
  assumes "distinct (map ident xs)" and "distinct (map ident ys)"
  shows "set (first_by_id ident (xs @ ys)) = set xs \<union> {y \<in> set ys. ident y \<notin> ident ` set xs}"
  using assms
proof (induction xs arbitrary: ys)
  case Nil
  then show ?case by (simp add: first_by_id_distinct)
next
  case (Cons x xs)
  have "filter (\<lambda>y. ident y \<noteq> ident x) xs = xs" using Cons.prems by (intro filter_True) (auto simp: image_iff)
  moreover have "distinct (map ident (filter (\<lambda>y. ident y \<noteq> ident x) ys))"
    using Cons.prems(2) by (rule distinct_map_filter)
  ultimately show ?case using Cons by auto
qed

text \<open>The list of a federation implements the upsert interface, one transaction at a time.\<close>

definition tx_upsert :: "transaction \<Rightarrow> transaction list \<Rightarrow> transaction list" where
  "tx_upsert tx txs = updateTransactions [tx] (Some txs)"

interpretation txs: list_upsert_new tx_id tx_upsert
proof unfold_locales
  fix tx and txs :: "transaction list"
  show "tx_id ` set (tx_upsert tx txs) = insert (tx_id tx) (tx_id ` set txs)"
    using first_by_id_ids [of tx_id "tx # txs"] by (simp add: tx_upsert_def updateTransactions_eq del: first_by_id.simps)
  show "distinct (map tx_id (tx_upsert tx txs))"
    by (simp add: tx_upsert_def updateTransactions_eq del: first_by_id.simps)
  show "set (tx_upsert tx txs) = insert tx {y \<in> set txs. tx_id y \<noteq> tx_id tx}" if "distinct (map tx_id txs)"
    using set_first_by_id_append [of tx_id "[tx]" txs] that
    by (simp add: tx_upsert_def updateTransactions_eq del: first_by_id.simps)
qed

interpretation txs_keyed: keyed_slice getFederationTxsState obj_set
  by unfold_locales (simp add: getFederationTxsState_def)

section \<open>The invariant of the slice\<close>

definition fed_txs_ok :: "fed_txs \<Rightarrow> bool" where
  "fed_txs_ok t =
     (distinct (map tx_id (transactions t)) \<and> sorted_wrt (\<ge>) (map tx_createdAt (transactions t)))"

definition txs_ok :: "txs_state \<Rightarrow> bool" where
  "txs_ok s = (\<forall>f. fed_txs_ok (getFederationTxsState s f))"

lemma fed_txs_ok_update [inv_intros]: "fed_txs_ok (t\<lparr>transactions := updateTransactions new old\<rparr>)"
  by (simp add: fed_txs_ok_def updateTransactions_eq)

lemma txs_ok_put [inv_intros]: "txs_ok s \<Longrightarrow> fed_txs_ok t \<Longrightarrow> txs_ok (obj_set f t s)"
  by (simp add: txs_ok_def txs_keyed.get_put)

lemma txs_ok_step: "txs_ok s \<Longrightarrow> txs_ok (txsReducer a s)"
  by (cases a) (auto simp: addTransaction_def fetchTransactionsFulfilled_def
      updateTransactionNotesFulfilled_def Let_def intro: inv_intros split: option.splits)

interpretation txs_slice: reducer "[]" txsReducer "\<lambda>a. True" txs_ok
proof unfold_locales
  show "txs_ok []"
    by (simp add: txs_ok_def getFederationTxsState_def initialTransactionsState_def fed_txs_ok_def)
qed (rule txs_ok_step)

lemma addTransaction_list:
  "transactions (getFederationTxsState (addTransaction f tx s) f) =
     tx_upsert tx (transactions (getFederationTxsState s f))"
  by (simp add: addTransaction_def Let_def txs_keyed.get_put tx_upsert_def)

lemma fetchFulfilled_list:
  "transactions (getFederationTxsState (fetchTransactionsFulfilled f r p s) f) =
     updateTransactions p (if r then None else Some (transactions (getFederationTxsState s f)))"
  by (simp add: fetchTransactionsFulfilled_def Let_def txs_keyed.get_put)

section \<open>Properties\<close>

text \<open>
  C21: after any sequence of actions, whatever the bridge returned, the transactions of every
  federation have distinct ids and are in descending order of \<open>createdAt\<close>.
\<close>

theorem transactions_sorted_distinct:
  "distinct (map tx_id (transactions (getFederationTxsState (fold txsReducer as []) f))) \<and>
   sorted_wrt (\<ge>) (map tx_createdAt (transactions (getFederationTxsState (fold txsReducer as []) f)))"
  using txs_slice.run_invar [of as] by (simp add: txs_ok_def fed_txs_ok_def list_all_iff)

text \<open>
  A fetched page (no refresh) without repeated ids is merged losslessly: the list then
  consists of the fetched transactions, newer versions replacing older ones, and of every old
  transaction the page does not contain.
\<close>

theorem fetchTransactions_merge:
  assumes "fed_txs_ok (getFederationTxsState s f)" and "distinct (map tx_id page)"
  shows "set (transactions (getFederationTxsState (txsReducer (FetchTransactionsFulfilled f False page) s) f)) =
    set page \<union> {t \<in> set (transactions (getFederationTxsState s f)). tx_id t \<notin> tx_id ` set page}"
  using set_first_by_id_append [of tx_id page "transactions (getFederationTxsState s f)"] assms
  by (simp add: fetchFulfilled_list updateTransactions_eq fed_txs_ok_def)

definition sample_tx :: "string \<Rightarrow> int \<Rightarrow> transaction" where
  "sample_tx i time = \<lparr>tx_id = i, tx_createdAt = time, tx_amount = 1000, tx_fediFeeStatus = None, tx_direction = Send,
     tx_notes = [], tx_onchainState = None, tx_bitcoin = None, tx_lnState = None, tx_lightning = None,
     tx_withdrawal = None, tx_stabilityPoolState = None,
     tx_oobState = None\<rparr>"

theorem fetchTransactions_merge_witness:
  "set (transactions (getFederationTxsState (txsReducer (FetchTransactionsFulfilled ''fed'' False [sample_tx ''a'' 7])
      (addTransaction ''fed'' (sample_tx ''b'' 9) [])) ''fed'')) =
    set [sample_tx ''a'' 7] \<union> {t \<in> set (transactions (getFederationTxsState (addTransaction ''fed'' (sample_tx ''b'' 9) []) ''fed'')).
      tx_id t \<notin> tx_id ` set [sample_tx ''a'' 7]}"
proof (rule fetchTransactions_merge)
  show "fed_txs_ok (getFederationTxsState (addTransaction ''fed'' (sample_tx ''b'' 9) []) ''fed'')"
    using txs_ok_step [of "[]" "AddTransaction ''fed'' (sample_tx ''b'' 9)"] txs_slice.init_invar
    by (simp add: txs_ok_def)
qed (simp add: sample_tx_def)

end
