(* ===== verification/TxText.thy ===== *)
theory TxText
  imports Transactions ChatUtils
begin

text \<open>
  \<open>ui/common/utils/wallet.ts\<close> and the fee breakdowns of \<open>ui/common/hooks/transactions.ts\<close>: the
  texts, signs, detail items and fee items shown for a transaction. The translation function
  (key and parameters), the amount formatters and the formatting of time stamps are arguments;
  amounts are whole millisatoshis. The lemmas show that the total at the end of a fee list is the
  sum of the fees listed, and where it is not.
\<close>

section \<open>Vocabulary\<close>

type_synonym tfun = "string \<Rightarrow> (string \<times> string) list \<Rightarrow> string"

record detail_item =
  di_label :: string
  di_value :: string
  di_truncated :: bool
  di_copyable :: bool
  di_copiedMessage :: "string option"

record fee_item =
  fi_label :: string
  fi_formattedAmount :: string

definition plain_item :: "string \<Rightarrow> string \<Rightarrow> detail_item" where
  "plain_item label value =
     \<lparr>di_label = label, di_value = value, di_truncated = False, di_copyable = False, di_copiedMessage = None\<rparr>"

definition copy_item :: "string \<Rightarrow> string \<Rightarrow> string \<Rightarrow> detail_item" where
  "copy_item label value message =
     \<lparr>di_label = label, di_value = value, di_truncated = True, di_copyable = True, di_copiedMessage = Some message\<rparr>"

definition both_amounts :: "formatted_amounts \<Rightarrow> string" where
  "both_amounts a = formattedPrimaryAmount a @ '' ('' @ formattedSecondaryAmount a @ '')''"

fun ln_type :: "ln_state \<Rightarrow> string" where
  "ln_type LnCreated = ''created''"
| "ln_type LnCanceled = ''canceled''"
| "ln_type LnFunded = ''funded''"
| "ln_type LnWaitingForRefund = ''waitingForRefund''"
| "ln_type LnAwaitingChange = ''awaitingChange''"
| "ln_type LnSuccess = ''success''"
| "ln_type LnRefunded = ''refunded''"
| "ln_type LnFailed = ''failed''"
| "ln_type LnWaitingForPayment = ''waitingForPayment''"
| "ln_type LnAwaitingFunds = ''awaitingFunds''"
| "ln_type LnClaimed = ''claimed''"

definition pending_or_complete_deposit :: "stability_state \<Rightarrow> bool" where
  "pending_or_complete_deposit s = (case s of PendingDeposit \<Rightarrow> True | CompleteDeposit _ _ \<Rightarrow> True | _ \<Rightarrow> False)"

section \<open>Status, title and notes\<close>

definition makePendingBalanceText :: "tfun \<Rightarrow> int \<Rightarrow> string \<Rightarrow> string" where
  "makePendingBalanceText t pendingBalance formattedAmount =
     (if pendingBalance > 0 then t ''feature.stabilitypool.deposit-pending'' [(''amount'', formattedAmount)]
      else t ''feature.stabilitypool.withdrawal-pending'' [(''amount'', formattedAmount)])"

definition makeTxnDetailStatusText :: "tfun \<Rightarrow> transaction \<Rightarrow> string" where
  "makeTxnDetailStatusText t txn =
     (case tx_direction txn of
        Send \<Rightarrow>
          if tx_lightning txn \<noteq> None then
            (case tx_lnState txn of
               Some LnWaitingForRefund \<Rightarrow> t ''feature.send.waiting-for-refund'' []
             | Some LnRefunded \<Rightarrow> t ''words.refund'' []
             | Some LnCanceled \<Rightarrow> t ''words.expired'' []
             | Some LnFailed \<Rightarrow> t ''words.failed'' []
             | _ \<Rightarrow> t ''phrases.sent-bitcoin'' [])
          else if tx_bitcoin txn \<noteq> None then
            (case tx_onchainState txn of
               Some OnchainSucceeded \<Rightarrow> t ''phrases.sent-bitcoin'' []
             | Some OnchainFailed \<Rightarrow> t ''words.failed'' []
             | _ \<Rightarrow> t ''words.pending'' [])
          else (case tx_stabilityPoolState txn of
               Some PendingDeposit \<Rightarrow> t ''words.pending'' []
             | Some (CompleteDeposit _ _) \<Rightarrow> t ''words.complete'' []
             | _ \<Rightarrow> t ''phrases.sent-bitcoin'' [])
      | Receive \<Rightarrow>
          if tx_lightning txn \<noteq> None then
            (case tx_lnState txn of
               None \<Rightarrow> t ''phrases.receive-pending'' []
             | Some LnWaitingForRefund \<Rightarrow> t ''feature.send.waiting-for-refund'' []
             | Some LnRefunded \<Rightarrow> t ''words.refund'' []
             | Some LnWaitingForPayment \<Rightarrow> t ''words.pending'' []
             | Some LnClaimed \<Rightarrow> t ''words.complete'' []
             | Some LnCanceled \<Rightarrow> t ''words.expired'' []
             | Some other \<Rightarrow> ln_type other)
          else if tx_bitcoin txn \<noteq> None then
            (case tx_onchainState txn of
               Some WaitingForTransaction \<Rightarrow> t ''words.pending'' []
             | Some (WaitingForConfirmation _) \<Rightarrow> t ''words.seen'' []
             | Some (OnchainClaimed _) \<Rightarrow> t ''words.complete'' []
             | _ \<Rightarrow> t ''phrases.receive-pending'' [])
          else (case tx_stabilityPoolState txn of
               None \<Rightarrow> t ''words.received'' []
             | Some (PendingWithdrawal _) \<Rightarrow> t ''words.pending'' []
             | Some (CompleteWithdrawal _) \<Rightarrow> t ''words.complete'' []
             | Some _ \<Rightarrow> []))"

definition makeTxnDetailTitleText :: "tfun \<Rightarrow> transaction \<Rightarrow> string" where
  "makeTxnDetailTitleText t txn =
     (if tx_direction txn = Send then t ''feature.send.you-sent'' []
      else if tx_lightning txn \<noteq> None then
        (case tx_lnState txn of
           None \<Rightarrow> t ''phrases.receive-pending'' []
         | Some LnWaitingForPayment \<Rightarrow> t ''phrases.receive-pending'' []
         | Some LnClaimed \<Rightarrow> t ''feature.receive.you-received'' []
         | Some LnCanceled \<Rightarrow> t ''words.expired'' []
         | Some _ \<Rightarrow> t ''phrases.receive-pending'' [])
      else if tx_bitcoin txn \<noteq> None then
        (case tx_onchainState txn of
           Some WaitingForTransaction \<Rightarrow> t ''phrases.bitcoin-address-created'' []
         | Some (OnchainClaimed _) \<Rightarrow> t ''feature.receive.you-received'' []
         | _ \<Rightarrow> t ''phrases.receive-pending'' [])
      else (case tx_stabilityPoolState txn of
           None \<Rightarrow> t ''feature.receive.you-received'' []
         | Some (PendingWithdrawal _) \<Rightarrow> t ''phrases.receive-pending'' []
         | Some (CompleteWithdrawal _) \<Rightarrow> t ''feature.receive.you-received'' []
         | Some _ \<Rightarrow> t ''phrases.receive-pending'' []))"

definition makeTxnNotesText :: "tfun \<Rightarrow> transaction \<Rightarrow> string option \<Rightarrow> string" where
  "makeTxnNotesText t txn currency =
     (let currency = (case currency of None \<Rightarrow> ''USD'' | Some c \<Rightarrow> c)
      in if tx_notes txn \<noteq> [] then tx_notes txn
         else case tx_stabilityPoolState txn of
           Some s \<Rightarrow>
             if pending_or_complete_deposit s
             then t ''feature.stabilitypool.deposit-to-balance'' [(''currency'', currency)]
             else t ''feature.stabilitypool.withdrawal-from-balance'' [(''currency'', currency)]
         | None \<Rightarrow>
             if tx_direction txn = Receive \<and> tx_bitcoin txn \<noteq> None \<and> tx_onchainState txn = Some WaitingForTransaction
             then t ''phrases.bitcoin-address-created'' []
             else [])"

text \<open>The amount of fiat cents a stability pool transaction records, if any.\<close>

definition recorded_cents :: "stability_state \<Rightarrow> int option" where
  "recorded_cents s = (case s of
     PendingWithdrawal c \<Rightarrow> Some c
   | CompleteWithdrawal c \<Rightarrow> Some c
   | CompleteDeposit c _ \<Rightarrow> Some c
   | PendingDeposit \<Rightarrow> None)"

definition makeTxnAmountText ::
  "transaction \<Rightarrow> bool \<Rightarrow> (int \<Rightarrow> string \<Rightarrow> formatted_amounts) \<Rightarrow> (int \<Rightarrow> string \<Rightarrow> string) \<Rightarrow> string"
where
  "makeTxnAmountText txn showFiatTxnAmounts fmt fmtCents =
     (let sign = (if tx_direction txn = Receive then ''+'' else ''-'');
          formattedAmount = formattedPrimaryAmount (fmt (tx_amount txn) ''none'');
          waiting = (tx_bitcoin txn \<noteq> None \<and> tx_onchainState txn = Some WaitingForTransaction);
          sign = (if waiting then ''~'' else sign);
          formattedAmount = (if waiting then [] else formattedAmount);
          sign = (if tx_lnState txn = Some LnCanceled then [] else sign);
          formattedAmount =
            (case (tx_stabilityPoolState txn, showFiatTxnAmounts) of
               (Some s, True) \<Rightarrow>
                 (case recorded_cents s of None \<Rightarrow> formattedAmount | Some c \<Rightarrow> fmtCents c ''none'')
             | _ \<Rightarrow> formattedAmount)
      in sign @ formattedAmount)"

definition makeTxnStatusText :: "tfun \<Rightarrow> transaction \<Rightarrow> string" where
  "makeTxnStatusText t txn =
     (case tx_direction txn of
        Send \<Rightarrow>
          if tx_lightning txn \<noteq> None then
            (case tx_lnState txn of
               Some LnWaitingForRefund \<Rightarrow> t ''phrases.refund-pending'' []
             | Some LnRefunded \<Rightarrow> t ''words.refund'' []
             | Some LnCanceled \<Rightarrow> t ''words.expired'' []
             | Some LnFailed \<Rightarrow> t ''words.failed'' []
             | _ \<Rightarrow> t ''phrases.sent-bitcoin'' [])
          else if tx_bitcoin txn \<noteq> None then
            (case tx_onchainState txn of
               Some OnchainFailed \<Rightarrow> t ''words.failed'' []
             | _ \<Rightarrow> t ''phrases.sent-bitcoin'' [])
          else t ''phrases.sent-bitcoin'' []
      | Receive \<Rightarrow>
          if tx_lightning txn \<noteq> None then
            (case tx_lnState txn of
               None \<Rightarrow> t ''phrases.receive-pending'' []
             | Some LnWaitingForRefund \<Rightarrow> t ''phrases.refund-pending'' []
             | Some LnRefunded \<Rightarrow> t ''words.refund'' []
             | Some LnWaitingForPayment \<Rightarrow> t ''phrases.receive-pending'' []
             | Some LnCanceled \<Rightarrow> t ''words.expired'' []
             | Some LnClaimed \<Rightarrow> t ''phrases.received-bitcoin'' []
             | Some _ \<Rightarrow> t ''phrases.receive-pending'' [])
          else if tx_bitcoin txn \<noteq> None then
            (case tx_onchainState txn of
               Some (OnchainClaimed _) \<Rightarrow> t ''phrases.received-bitcoin'' []
             | _ \<Rightarrow> t ''phrases.receive-pending'' [])
          else (case tx_stabilityPoolState txn of
               Some (PendingWithdrawal _) \<Rightarrow> t ''phrases.receive-pending'' []
             | _ \<Rightarrow> t ''words.received'' []))"

section \<open>Fees of a transaction\<close>

definition fee_line :: "string \<Rightarrow> formatted_amounts \<Rightarrow> fee_item" where
  "fee_line label a = \<lparr>fi_label = label, fi_formattedAmount = both_amounts a\<rparr>"

definition shown_fedi_fee :: "fee_status option \<Rightarrow> int option" where
  "shown_fedi_fee st = (case st of
     Some (FeeSuccess f) \<Rightarrow> Some f
   | Some (FeePendingSend f) \<Rightarrow> Some f
   | _ \<Rightarrow> None)"

definition makeTxnFeeDetails :: "tfun \<Rightarrow> transaction \<Rightarrow> (int \<Rightarrow> formatted_amounts) \<Rightarrow> fee_item list" where
  "makeTxnFeeDetails t txn fmt =
     (let items = [];
          totalFee = 0;
          (items, totalFee) =
            (case shown_fedi_fee (tx_fediFeeStatus txn) of
               None \<Rightarrow> (items, totalFee)
             | Some fediFee \<Rightarrow> (items @ [fee_line (t ''phrases.fedi-fee'' []) (fmt fediFee)], totalFee + fediFee));
          (items, totalFee) =
            (case tx_lightning txn of
               None \<Rightarrow> (items, totalFee)
             | Some l \<Rightarrow>
                 let lnFee = or_zero (ln_fee l)
                 in (items @ [fee_line (t ''phrases.lightning-network'' []) (fmt lnFee)], totalFee + lnFee));
          (items, totalFee) =
            (case tx_withdrawal txn of
               None \<Rightarrow> (items, totalFee)
             | Some w \<Rightarrow>
                 (items @ [fee_line (t ''phrases.lightning-network'' []) (fmt (wd_fee w))], totalFee + wd_fee w))
      in items @ [fee_line (t ''phrases.total-fees'' []) (fmt totalFee)])"

definition makeStabilityTxnFeeDetails ::
  "tfun \<Rightarrow> transaction \<Rightarrow> (int \<Rightarrow> formatted_amounts) \<Rightarrow> fee_item list"
where
  "makeStabilityTxnFeeDetails t txn fmt =
     (let items = [];
          totalFee = 0;
          (items, totalFee) =
            (case shown_fedi_fee (tx_fediFeeStatus txn) of
               None \<Rightarrow> (items, totalFee)
             | Some fediFee \<Rightarrow> (items @ [fee_line (t ''phrases.fedi-fee'' []) (fmt fediFee)], totalFee + fediFee));
          (items, totalFee) =
            (case tx_stabilityPoolState txn of
               Some (CompleteDeposit _ feesPaidSoFar) \<Rightarrow>
                 (items @ [fee_line (t ''feature.stabilitypool.fees-paid'' []) (fmt feesPaidSoFar)],
                  totalFee + feesPaidSoFar)
             | _ \<Rightarrow> (items, totalFee))
      in items @ [fee_line (t ''phrases.total-fees'' []) (fmt totalFee)])"

section \<open>Detail items\<close>

definition stability_value_items ::
  "tfun \<Rightarrow> transaction \<Rightarrow> bool \<Rightarrow> string \<Rightarrow> (int \<Rightarrow> string) \<Rightarrow> detail_item list"
where
  "stability_value_items t txn showFiatTxnAmounts fiat fmtCents =
     (case tx_stabilityPoolState txn of
        None \<Rightarrow> []
      | Some (PendingWithdrawal _) \<Rightarrow> []
      | Some s \<Rightarrow>
          plain_item (t ''feature.stabilitypool.current-value'' []) fiat #
          (if \<not> showFiatTxnAmounts
           then (case recorded_cents s of
                   None \<Rightarrow> []
                 | Some c \<Rightarrow> [plain_item (t ''feature.stabilitypool.withdrawal-value'' []) (fmtCents c)])
           else []))"

definition chain_items :: "tfun \<Rightarrow> transaction \<Rightarrow> detail_item list" where
  "chain_items t txn =
     (case tx_lightning txn of
        None \<Rightarrow> []
      | Some l \<Rightarrow> [copy_item (t ''phrases.lightning-request'' []) (ln_invoice l) (t ''phrases.copied-lightning-request'' [])]) @
     (case tx_bitcoin txn of
        None \<Rightarrow> []
      | Some address \<Rightarrow>
          [copy_item
             (if tx_onchainState txn = Some WaitingForTransaction then t ''words.address'' [] else t ''words.to'' [])
             address (t ''phrases.copied-bitcoin-address'' [])]) @
     (case tx_onchainState txn of
        Some (WaitingForConfirmation txid) \<Rightarrow>
          [copy_item (t ''phrases.transaction-id'' []) txid (t ''phrases.copied-transaction-id'' [])]
      | Some (OnchainClaimed txid) \<Rightarrow>
          [copy_item (t ''phrases.transaction-id'' []) txid (t ''phrases.copied-transaction-id'' [])]
      | _ \<Rightarrow> []) @
     (case tx_withdrawal txn of
        None \<Rightarrow> []
      | Some w \<Rightarrow>
          [copy_item (t ''words.address'' []) (wd_address w) (t ''phrases.copied-bitcoin-address'' []),
           copy_item (t ''phrases.transaction-id'' []) (wd_txid w) (t ''phrases.copied-transaction-id'' [])])"

definition makeTxnDetailItems ::
  "tfun \<Rightarrow> transaction \<Rightarrow> string option \<Rightarrow> bool \<Rightarrow> (int \<Rightarrow> formatted_amounts) \<Rightarrow> (int \<Rightarrow> string) \<Rightarrow>
   (int \<Rightarrow> string \<Rightarrow> string) \<Rightarrow> detail_item list"
where
  "makeTxnDetailItems t txn currency showFiatTxnAmounts fmt fmtCents formatTimestamp =
     (let currency = (case currency of None \<Rightarrow> ''USD'' | Some c \<Rightarrow> c);
          amounts = fmt (tx_amount txn)
      in (if tx_amount txn \<noteq> 0 \<and> showFiatTxnAmounts
          then [plain_item (t ''phrases.bitcoin-equivalent'' []) (formattedSats amounts)] else []) @
         [plain_item (t ''words.time'' []) (formatTimestamp (tx_createdAt txn) ''MMM dd yyyy, h:mmaaa'')] @
         stability_value_items t txn showFiatTxnAmounts (formattedFiat amounts) fmtCents @
         chain_items t txn @
         [plain_item (t ''words.status'' []) (makeTxnDetailStatusText t txn)] @
         (case tx_stabilityPoolState txn of
            None \<Rightarrow> []
          | Some s \<Rightarrow>
              if pending_or_complete_deposit s
              then [plain_item (t ''feature.stabilitypool.deposit-to'' [])
                      (t ''feature.stabilitypool.currency-balance'' [(''currency'', currency)])]
              else [plain_item (t ''feature.stabilitypool.withdrawal-from'' [])
                      (t ''feature.stabilitypool.currency-balance'' [(''currency'', currency)])]))"

section \<open>Stability pool\<close>

definition makeStabilityTxnStatusText :: "tfun \<Rightarrow> transaction \<Rightarrow> string" where
  "makeStabilityTxnStatusText t txn =
     (if tx_direction txn = Send then t ''words.deposit'' [] else t ''words.withdrawal'' [])"

definition makeStabilityTxnStatusSubtext :: "tfun \<Rightarrow> transaction \<Rightarrow> string" where
  "makeStabilityTxnStatusSubtext t txn =
     (case tx_stabilityPoolState txn of
        None \<Rightarrow> []
      | Some (CompleteDeposit _ _) \<Rightarrow> t ''words.complete'' []
      | Some (CompleteWithdrawal _) \<Rightarrow> t ''words.complete'' []
      | Some _ \<Rightarrow> t ''words.pending'' [])"

definition makeStabilityTxnDetailTitleText :: "tfun \<Rightarrow> transaction \<Rightarrow> string" where
  "makeStabilityTxnDetailTitleText t txn =
     (if tx_direction txn = Send then t ''feature.stabilitypool.you-deposited'' []
      else t ''feature.stabilitypool.you-withdrew'' [])"

definition makeStabilityTxnDetailItems ::
  "tfun \<Rightarrow> transaction \<Rightarrow> (int \<Rightarrow> formatted_amounts) \<Rightarrow> (int \<Rightarrow> string \<Rightarrow> string) \<Rightarrow> detail_item list"
where
  "makeStabilityTxnDetailItems t txn fmt formatTimestamp =
     (if tx_amount txn \<noteq> 0
      then [plain_item
              (if tx_direction txn = Send then t ''feature.stabilitypool.deposit-amount'' []
               else t ''feature.stabilitypool.withdrawal-amount'' [])
              (formattedSats (fmt (tx_amount txn)))]
      else []) @
     [plain_item (t ''words.status'' []) (makeTxnDetailStatusText t txn),
      plain_item (t ''words.time'' []) (formatTimestamp (tx_createdAt txn) ''MMM dd yyyy, h:mmaaa'')]"

definition makeStabilityTxnAmountText ::
  "transaction \<Rightarrow> bool \<Rightarrow> (int \<Rightarrow> string \<Rightarrow> formatted_amounts) \<Rightarrow> (int \<Rightarrow> string \<Rightarrow> string) \<Rightarrow> string"
where
  "makeStabilityTxnAmountText txn showFiatTxnAmounts fmt fmtCents =
     (let sign = (if tx_direction txn = Send then ''+'' else ''-'');
          formattedAmount = formattedPrimaryAmount (fmt (tx_amount txn) ''none'');
          sign = (if tx_onchainState txn = Some WaitingForTransaction then ''~'' else sign);
          sign = (if tx_lnState txn = Some LnCanceled then [] else sign);
          formattedAmount =
            (case (tx_stabilityPoolState txn, showFiatTxnAmounts) of
               (Some s, True) \<Rightarrow>
                 (case recorded_cents s of None \<Rightarrow> formattedAmount | Some c \<Rightarrow> fmtCents c ''none'')
             | _ \<Rightarrow> formattedAmount)
      in sign @ formattedAmount)"

section \<open>Fee breakdowns before sending\<close>

record fee_details =
  fd_fediFee :: int
  fd_networkFee :: int
  fd_federationFee :: int

record fee_content =
  fc_feeItemsBreakdown :: "fee_item list"
  fc_formattedTotalFee :: string

definition total_text :: "int \<Rightarrow> formatted_amounts \<Rightarrow> string" where
  "total_text sumFees a = (if sumFees > 0 then ''+'' else []) @ formattedPrimaryAmount a"

definition makeLightningFeeContent :: "tfun \<Rightarrow> (int \<Rightarrow> formatted_amounts) \<Rightarrow> fee_details \<Rightarrow> fee_content" where
  "makeLightningFeeContent t fmt d =
     (let sumFees = fd_fediFee d + fd_federationFee d + fd_networkFee d
      in \<lparr>fc_feeItemsBreakdown =
            [fee_line (t ''phrases.fedi-fee'' []) (fmt (fd_fediFee d)),
             fee_line (t ''phrases.federation-fee'' []) (fmt (fd_federationFee d)),
             fee_line (t ''phrases.lightning-network'' []) (fmt (fd_networkFee d))],
          fc_formattedTotalFee = total_text sumFees (fmt sumFees)\<rparr>)"

definition makeOnchainFeeContent :: "tfun \<Rightarrow> (int \<Rightarrow> formatted_amounts) \<Rightarrow> fee_details \<Rightarrow> fee_content" where
  "makeOnchainFeeContent t fmt d =
     (let sumFees = fd_fediFee d + fd_federationFee d + fd_networkFee d
      in \<lparr>fc_feeItemsBreakdown =
            [fee_line (t ''phrases.fedi-fee'' []) (fmt (fd_fediFee d)),
             fee_line (t ''phrases.network-fee'' []) (fmt (fd_networkFee d))],
          fc_formattedTotalFee = total_text sumFees (fmt sumFees)\<rparr>)"

section \<open>Lists of fees and their total\<close>

text \<open>
  A fee list is itemised when it shows a list of labelled amounts and then, under the label of the
  total, their sum.
\<close>

definition itemised :: "tfun \<Rightarrow> (int \<Rightarrow> formatted_amounts) \<Rightarrow> (string \<times> int) list \<Rightarrow> fee_item list \<Rightarrow> bool" where
  "itemised t fmt fees items =
     (items = map (\<lambda>(label, a). fee_line (t label []) (fmt a)) fees @
        [fee_line (t ''phrases.total-fees'' []) (fmt (sum_list (map snd fees)))])"

definition txn_fees :: "transaction \<Rightarrow> (string \<times> int) list" where
  "txn_fees txn =
     (case shown_fedi_fee (tx_fediFeeStatus txn) of None \<Rightarrow> [] | Some f \<Rightarrow> [(''phrases.fedi-fee'', f)]) @
     (case tx_lightning txn of None \<Rightarrow> [] | Some l \<Rightarrow> [(''phrases.lightning-network'', or_zero (ln_fee l))]) @
     (case tx_withdrawal txn of None \<Rightarrow> [] | Some w \<Rightarrow> [(''phrases.lightning-network'', wd_fee w)])"

definition stability_fees :: "transaction \<Rightarrow> (string \<times> int) list" where
  "stability_fees txn =
     (case shown_fedi_fee (tx_fediFeeStatus txn) of None \<Rightarrow> [] | Some f \<Rightarrow> [(''phrases.fedi-fee'', f)]) @
     (case tx_stabilityPoolState txn of
        Some (CompleteDeposit _ feesPaid) \<Rightarrow> [(''feature.stabilitypool.fees-paid'', feesPaid)]
      | _ \<Rightarrow> [])"

lemma makeTxnFeeDetails_itemised: "itemised t fmt (txn_fees txn) (makeTxnFeeDetails t txn fmt)"
  by (auto simp: itemised_def txn_fees_def makeTxnFeeDetails_def Let_def add.assoc split: option.splits)

lemma makeStabilityTxnFeeDetails_itemised:
  "itemised t fmt (stability_fees txn) (makeStabilityTxnFeeDetails t txn fmt)"
  by (auto simp: itemised_def stability_fees_def makeStabilityTxnFeeDetails_def Let_def
      split: option.splits stability_state.splits)

section \<open>Properties\<close>

text \<open>
  The fees of a transaction are itemised: both fee lists end with the total of exactly the fees
  listed before it, for every formatter and translation. A pending or successful Fedi fee, the
  lightning fee and the on-chain fee are listed; a failed or received fee is neither listed nor
  counted.
\<close>

theorem fee_details_itemised:
  "itemised t fmt (txn_fees txn) (makeTxnFeeDetails t txn fmt) \<and>
   itemised t fmt (stability_fees txn) (makeStabilityTxnFeeDetails t txn fmt)"
  by (simp add: makeTxnFeeDetails_itemised makeStabilityTxnFeeDetails_itemised)

text \<open>
  The breakdown of a lightning payment lists every fee its total contains, while that of an
  on-chain payment does not: two on-chain payments can show the same items and different totals,
  because the federation fee is added to the total and not listed.
\<close>

definition low_fees :: fee_details where
  "low_fees = \<lparr>fd_fediFee = 1, fd_networkFee = 2, fd_federationFee = 0\<rparr>"

definition high_fees :: fee_details where
  "high_fees = \<lparr>fd_fediFee = 1, fd_networkFee = 2, fd_federationFee = 4\<rparr>"

theorem onchain_fee_not_itemised:
  assumes "inj (\<lambda>a. both_amounts (fmt a))"
  shows "inj (\<lambda>d. fc_feeItemsBreakdown (makeLightningFeeContent t fmt d)) \<and>
    fc_feeItemsBreakdown (makeOnchainFeeContent t fmt low_fees) =
      fc_feeItemsBreakdown (makeOnchainFeeContent t fmt high_fees) \<and>
    fc_formattedTotalFee (makeOnchainFeeContent t fmt low_fees) = ''+'' @ formattedPrimaryAmount (fmt 3) \<and>
    fc_formattedTotalFee (makeOnchainFeeContent t fmt high_fees) = ''+'' @ formattedPrimaryAmount (fmt 7)"
proof -
  have "inj (\<lambda>d. fc_feeItemsBreakdown (makeLightningFeeContent t fmt d))"
    using assms by (auto simp: inj_def makeLightningFeeContent_def fee_line_def Let_def)
  then show ?thesis
    by (simp add: low_fees_def high_fees_def makeOnchainFeeContent_def total_text_def)
qed

theorem onchain_fee_not_itemised_witness:
  "fc_formattedTotalFee (makeOnchainFeeContent (\<lambda>k ps. k) (\<lambda>a. \<lparr>formattedFiat = [], formattedSats = [],
      formattedPrimaryAmount = replicate (nat a) (CHR ''x''), formattedSecondaryAmount = replicate (nat (- a)) (CHR ''y'')\<rparr>)
      high_fees) = ''+xxxxxxx''"
proof -
  let ?fmt = "\<lambda>a. \<lparr>formattedFiat = [], formattedSats = [], formattedPrimaryAmount = replicate (nat a) (CHR ''x''),
     formattedSecondaryAmount = replicate (nat (- a)) (CHR ''y'')\<rparr>"
  have count: "nat a = length (filter (\<lambda>c. c = CHR ''x'') (both_amounts (?fmt a)))" "nat (- a) = length (filter (\<lambda>c. c = CHR ''y'') (both_amounts (?fmt a)))" for a :: int
    by (simp_all add: both_amounts_def filter_replicate)
  have "a = b" if "both_amounts (?fmt a) = both_amounts (?fmt b)" for a b :: int
  proof -
    have "nat a = nat b" "nat (- a) = nat (- b)" using count that by metis+
    then show ?thesis by linarith
  qed
  then have "inj (\<lambda>a. both_amounts (?fmt a))" by (rule injI)
  from onchain_fee_not_itemised [OF this] show ?thesis by (simp add: numeral_eq_Suc)
qed

end
