(* ===== verification/JsParse.thy ===== *)
theory JsParse
  imports JsNumber JsString
begin

text \<open>
  Two conversions of the JavaScript library from strings: \<open>Number(s)\<close> on the literals of
  \<open>StringNumericLiteral\<close>, and the value of \<open>JSON.parse\<close> when the text is a JSON string (escapes
  of code units below 256).
\<close>

section \<open>Numbers\<close>

definition digit_of :: "char \<Rightarrow> nat" where
  "digit_of c =
     (if is_digit_char c then char_code c - 48
      else if 97 \<le> char_code c \<and> char_code c \<le> 122 then char_code c - 87
      else if 65 \<le> char_code c \<and> char_code c \<le> 90 then char_code c - 55
      else 36)"

definition radix_value :: "nat \<Rightarrow> string \<Rightarrow> nat option" where
  "radix_value b s =
     (if s \<noteq> [] \<and> list_all (\<lambda>c. digit_of c < b) s
      then Some (foldl (\<lambda>n c. b * n + digit_of c) 0 s) else None)"

text \<open>The exponent part: empty, or \<open>e\<close> with a sign and digits.\<close>

definition exponent_part :: "string \<Rightarrow> int option" where
  "exponent_part s =
     (case s of
        [] \<Rightarrow> Some 0
      | e # rest \<Rightarrow>
          if e = CHR ''e'' \<or> e = CHR ''E'' then
            (case rest of
               c # ds \<Rightarrow>
                 if c = CHR ''+'' then map_option int (radix_value 10 ds)
                 else if c = CHR ''-'' then map_option (\<lambda>n. - int n) (radix_value 10 ds)
                 else map_option int (radix_value 10 rest)
             | [] \<Rightarrow> None)
          else None)"

definition unsigned_decimal :: "string \<Rightarrow> rat option" where
  "unsigned_decimal s =
     (let whole = takeWhile is_digit_char s;
          rest = dropWhile is_digit_char s;
          (frac, rest) =
            (case rest of
               c # r \<Rightarrow> if c = CHR ''.'' then (takeWhile is_digit_char r, dropWhile is_digit_char r) else ([], rest)
             | [] \<Rightarrow> ([], []))
      in if whole = [] \<and> frac = [] then None
         else case exponent_part rest of
                None \<Rightarrow> None
              | Some e \<Rightarrow>
                  Some (of_nat (digits_value (whole @ frac)) * 10 powi (e - int (length frac))))"

definition js_number :: "string \<Rightarrow> jsnum" where
  "js_number text =
     (let s = js_trim text
      in if s = [] then Fin 0
         else if prefix ''0x'' s \<or> prefix ''0X'' s
         then (case radix_value 16 (drop 2 s) of None \<Rightarrow> NaN | Some n \<Rightarrow> rnd (of_nat n))
         else if prefix ''0o'' s \<or> prefix ''0O'' s
         then (case radix_value 8 (drop 2 s) of None \<Rightarrow> NaN | Some n \<Rightarrow> rnd (of_nat n))
         else if prefix ''0b'' s \<or> prefix ''0B'' s
         then (case radix_value 2 (drop 2 s) of None \<Rightarrow> NaN | Some n \<Rightarrow> rnd (of_nat n))
         else let neg = (hd s = CHR ''-'');
                  body = (if hd s = CHR ''-'' \<or> hd s = CHR ''+'' then tl s else s)
              in if body = ''Infinity'' then (if neg then NInf else PInf)
                 else case unsigned_decimal body of
                        None \<Rightarrow> NaN
                      | Some x \<Rightarrow> rnd (if neg then - x else x))"

section \<open>JSON strings\<close>

definition json_space :: "char \<Rightarrow> bool" where
  "json_space c = (char_code c \<in> {9, 10, 13, 32})"

text \<open>The characters up to the closing quote, and what follows it.\<close>

fun json_chars :: "string \<Rightarrow> (string \<times> string) option" where
  "json_chars [] = None"
| "json_chars (c # s) =
     (if c = CHR 0x22 then Some ([], s)
      else if c = CHR 0x5C then
        (case s of
           [] \<Rightarrow> None
         | e # r \<Rightarrow>
             if e = CHR ''u'' then
               (case r of
                  a # b # x # y # r' \<Rightarrow>
                    (case radix_value 16 [a, b, x, y] of
                       None \<Rightarrow> None
                     | Some n \<Rightarrow> if n < 256 then map_option (apfst (Cons (char_of n))) (json_chars r') else None)
                | _ \<Rightarrow> None)
             else if e \<in> {CHR 0x22, CHR 0x5C, CHR ''/''} then map_option (apfst (Cons e)) (json_chars r)
             else if e = CHR ''b'' then map_option (apfst (Cons (CHR 0x08))) (json_chars r)
             else if e = CHR ''f'' then map_option (apfst (Cons (CHR 0x0C))) (json_chars r)
             else if e = CHR ''n'' then map_option (apfst (Cons (CHR 0x0A))) (json_chars r)
             else if e = CHR ''r'' then map_option (apfst (Cons (CHR 0x0D))) (json_chars r)
             else if e = CHR ''t'' then map_option (apfst (Cons (CHR 0x09))) (json_chars r)
             else None)
      else if char_code c < 32 then None
      else map_option (apfst (Cons c)) (json_chars s))"

text \<open>\<open>Some s\<close> when the text is a JSON string; \<open>None\<close> for other JSON values and for errors.\<close>

definition json_parse_string :: "string \<Rightarrow> string option" where
  "json_parse_string text =
     (case dropWhile json_space text of
        c # s \<Rightarrow>
          if c = CHR 0x22 then
            (case json_chars s of
               Some (v, rest) \<Rightarrow> if list_all json_space rest then Some v else None
             | None \<Rightarrow> None)
          else None
      | [] \<Rightarrow> None)"

section \<open>Lemmas\<close>

text \<open>Quoting a text without quotes, backslashes and control characters.\<close>

definition json_plain :: "string \<Rightarrow> bool" where
  "json_plain s = list_all (\<lambda>c. c \<noteq> CHR 0x22 \<and> c \<noteq> CHR 0x5C \<and> 32 \<le> char_code c) s"

lemma json_chars_plain: "json_plain s \<Longrightarrow> json_chars (s @ CHR 0x22 # r) = Some (s, r)"
  by (induction s) (auto simp: json_plain_def)

lemma json_parse_string_plain:
  "json_plain s \<Longrightarrow> json_parse_string (CHR 0x22 # s @ [CHR 0x22]) = Some s"
  using json_chars_plain [of s "[]"] by (simp add: json_parse_string_def json_space_def char_code_def)

lemma radix_value_digits:
  assumes "list_all is_digit_char s" and "s \<noteq> []"
  shows "radix_value 10 s = Some (digits_value s)"
proof -
  have c: "digit_of c < 10 \<and> digit_of c = of_char c - 48" if "is_digit_char c" for c
    using that by (auto simp: digit_of_def is_digit_char_def char_code_def)
  have "foldl (\<lambda>n c. 10 * n + digit_of c) k s = foldl (\<lambda>n c. 10 * n + (of_char c - 48)) k s" for k
    using assms(1) by (induction s arbitrary: k) (simp_all add: c)
  moreover have "list_all (\<lambda>c. digit_of c < 10) s"
    using assms(1) c unfolding list_all_iff by metis
  ultimately show ?thesis using assms(2) by (simp add: radix_value_def digits_value_def)
qed

lemma js_trim_digits: "list_all is_digit_char s \<Longrightarrow> js_trim s = s"
proof -
  assume d: "list_all is_digit_char s"
  have c: "\<not> is_space c" if "c \<in> set s" for c
    using that d by (auto simp: list_all_iff is_digit_char_def is_space_def char_code_def)
  then have "dropWhile is_space s = s" "dropWhile is_space (rev s) = rev s"
    by (metis dropWhile_eq_self_iff list.set_sel(1), metis dropWhile_eq_self_iff list.set_sel(1) set_rev)
  then show "js_trim s = s" by (simp add: js_trim_def)
qed

text \<open>The decimal notation of a safe whole number is read back as the number.\<close>

lemma js_number_nat_digits:
  assumes "n < 2 ^ 53"
  shows "js_number (nat_digits n) = Fin (of_nat n)"
proof -
  let ?s = "nat_digits n"
  have d: "list_all is_digit_char ?s" by (rule nat_digits_chars)
  have t: "js_trim ?s = ?s" by (rule js_trim_digits [OF d])
  have tw: "takeWhile is_digit_char ?s = ?s" "dropWhile is_digit_char ?s = []"
    using d by (simp_all add: list_all_iff takeWhile_eq_all_conv)
  have ch: "c \<notin> set ?s" if "\<not> is_digit_char c" for c using that d by (auto simp: list_all_iff)
  have np: "\<not> prefix (CHR ''0'' # c # []) ?s" if "\<not> is_digit_char c" for c
    using ch [OF that] by (auto simp: prefix_def)
  have hd: "hd ?s \<in> set ?s" by simp
  have "is_digit_char (hd ?s)" using hd d by (simp add: list_all_iff)
  then have sg: "hd ?s \<noteq> CHR ''-''" "hd ?s \<noteq> CHR ''+''" "?s \<noteq> ''Infinity''"
    by (auto simp: is_digit_char_def)
  have "unsigned_decimal ?s = Some (of_nat n)"
    by (simp add: unsigned_decimal_def exponent_part_def Let_def tw)
  moreover have "rnd (of_nat n) = Fin (of_nat n)"
    using rnd_int [of "int n"] assms by simp
  ultimately show ?thesis
    using sg np [of "CHR ''x''"] np [of "CHR ''X''"] np [of "CHR ''o''"] np [of "CHR ''O''"]
      np [of "CHR ''b''"] np [of "CHR ''B''"]
    by (simp add: js_number_def t Let_def is_digit_char_def)
qed

end
