(* ===== verification/FederationUtils.thy ===== *)
theory FederationUtils
  imports JsParse
begin

text \<open>
  \<open>ui/common/utils/FederationUtils.ts\<close>: the federation and community items, the metadata fields
  and the flags read from them, the external metadata fetched from the URLs the federations name,
  invite codes, previews and joining. The results of \<open>fetch\<close> and of the bridge, \<open>JSON.parse\<close> of
  structured values and the URL check of zod are arguments; \<open>Number\<close> and \<open>JSON.parse\<close> of a string
  are those of \<open>JsParse\<close>.
\<close>

section \<open>Data\<close>

type_synonym metadata = "string jsobj"

record fee_schedule_module =
  sendPpm :: int
  receivePpm :: int

text \<open>A wallet federation or a community without one (\<open>fed_hasWallet\<close> false).\<close>

record federation =
  fed_id :: string
  fed_name :: string
  fed_hasWallet :: bool
  fed_meta :: metadata
  fed_inviteCode :: string
  fed_version :: int
  fed_network :: "string option"
  fed_balance :: int
  fed_recovering :: bool
  fed_clientModules :: "string jsobj option"
  fed_feeModules :: "fee_schedule_module jsobj"

record public_federation =
  pub_id :: string
  pub_name :: string
  pub_meta :: metadata

record rpc_community =
  com_inviteCode :: string
  com_name :: string
  com_version :: int
  com_meta :: metadata

record fedi_mod =
  mod_id :: string
  mod_title :: string
  mod_url :: string
  mod_imageUrl :: "string option"
  mod_description :: "string option"
  mod_color :: "string option"

datatype meta_field =
    default_currency | fixed_exchange_rate | chat_server_domain | invite_codes_disabled
  | new_members_disabled | social_recovery_disabled | offline_wallet_disabled
  | onchain_deposits_disabled | fedi_internal_injection_disabled | stability_pool_disabled
  | max_stable_balance_msats | max_balance_msats | max_invoice_msats | nostr_enabled
  | popup_end_timestamp | popup_countdown_message | popup_ended_message | tos_url
  | welcome_message | pinned_message | federation_icon_url | federation_name
  | default_matrix_rooms | default_group_chats

fun meta_field_name :: "meta_field \<Rightarrow> string" where
  "meta_field_name default_currency = ''default_currency''"
| "meta_field_name fixed_exchange_rate = ''fixed_exchange_rate''"
| "meta_field_name chat_server_domain = ''chat_server_domain''"
| "meta_field_name invite_codes_disabled = ''invite_codes_disabled''"
| "meta_field_name new_members_disabled = ''new_members_disabled''"
| "meta_field_name social_recovery_disabled = ''social_recovery_disabled''"
| "meta_field_name offline_wallet_disabled = ''offline_wallet_disabled''"
| "meta_field_name onchain_deposits_disabled = ''onchain_deposits_disabled''"
| "meta_field_name fedi_internal_injection_disabled = ''fedi_internal_injection_disabled''"
| "meta_field_name stability_pool_disabled = ''stability_pool_disabled''"
| "meta_field_name max_stable_balance_msats = ''max_stable_balance_msats''"
| "meta_field_name max_balance_msats = ''max_balance_msats''"
| "meta_field_name max_invoice_msats = ''max_invoice_msats''"
| "meta_field_name nostr_enabled = ''nostr_enabled''"
| "meta_field_name popup_end_timestamp = ''popup_end_timestamp''"
| "meta_field_name popup_countdown_message = ''popup_countdown_message''"
| "meta_field_name popup_ended_message = ''popup_ended_message''"
| "meta_field_name tos_url = ''tos_url''"
| "meta_field_name welcome_message = ''welcome_message''"
| "meta_field_name pinned_message = ''pinned_message''"
| "meta_field_name federation_icon_url = ''federation_icon_url''"
| "meta_field_name federation_name = ''federation_name''"
| "meta_field_name default_matrix_rooms = ''default_matrix_rooms''"
| "meta_field_name default_group_chats = ''default_group_chats''"

section \<open>Metadata fields\<close>

definition getMetaUrl :: "metadata \<Rightarrow> string option" where
  "getMetaUrl meta =
     (let url = or_str (obj_get meta ''meta_override_url'')
                  (or_str (obj_get meta ''meta_external_url'') None)
      in if \<not> truthy_str url then None
         else case json_parse_string (the url) of Some parsed \<Rightarrow> Some parsed | None \<Rightarrow> url)"

text \<open>The branch of \<open>getMetaField\<close> for \<open>sites\<close> and \<open>fedimods\<close>, and the one for the fields.\<close>

definition getMetaSites :: "metadata \<Rightarrow> string option" where
  "getMetaSites meta =
     nullish (obj_get meta ''fedi:fedimods'')
       (nullish (obj_get meta ''fedi:sites'')
         (nullish (obj_get meta ''fedimods'') (obj_get meta ''sites'')))"

definition getMetaField :: "meta_field \<Rightarrow> metadata \<Rightarrow> string option" where
  "getMetaField field meta =
     nullish (obj_get meta (''fedi:'' @ meta_field_name field)) (obj_get meta (meta_field_name field))"

definition getFederationDefaultCurrency :: "metadata \<Rightarrow> string option" where
  "getFederationDefaultCurrency meta = getMetaField default_currency meta"

definition getFederationFixedExchangeRate :: "metadata \<Rightarrow> jsnum option" where
  "getFederationFixedExchangeRate meta = map_option js_number (getMetaField fixed_exchange_rate meta)"

definition getFederationChatServerDomain :: "metadata \<Rightarrow> string option" where
  "getFederationChatServerDomain meta = getMetaField chat_server_domain meta"

record xmpp_connection_options =
  xmpp_domain :: string
  xmpp_mucDomain :: string
  xmpp_resource :: string
  xmpp_service :: string

definition XMPP_RESOURCE :: string where "XMPP_RESOURCE = ''chat''"

definition makeChatServerOptions :: "string \<Rightarrow> xmpp_connection_options" where
  "makeChatServerOptions domain =
     \<lparr>xmpp_domain = domain, xmpp_mucDomain = ''muc.'' @ domain, xmpp_resource = XMPP_RESOURCE,
      xmpp_service = ''wss://'' @ domain @ ''/xmpp-websocket''\<rparr>"

definition getFederationMaxBalanceMsats :: "metadata \<Rightarrow> jsnum option" where
  "getFederationMaxBalanceMsats meta = map_option js_number (getMetaField max_balance_msats meta)"

definition getFederationMaxInvoiceMsats :: "metadata \<Rightarrow> jsnum option" where
  "getFederationMaxInvoiceMsats meta = map_option js_number (getMetaField max_invoice_msats meta)"

definition getFederationMaxStableBalanceMsats :: "metadata \<Rightarrow> jsnum option" where
  "getFederationMaxStableBalanceMsats meta = map_option js_number (getMetaField max_stable_balance_msats meta)"

section \<open>Flags\<close>

definition shouldShowInviteCode :: "metadata \<Rightarrow> bool" where
  "shouldShowInviteCode meta = (getMetaField invite_codes_disabled meta \<noteq> Some ''true'')"

definition shouldShowJoinFederation :: "metadata \<Rightarrow> bool" where
  "shouldShowJoinFederation meta = (getMetaField new_members_disabled meta \<noteq> Some ''false'')"

definition shouldShowSocialRecovery :: "federation \<Rightarrow> bool" where
  "shouldShowSocialRecovery federation =
     (if fed_version federation = 0 then False
      else getMetaField social_recovery_disabled (fed_meta federation) \<noteq> Some ''true'')"

definition shouldShowOfflineWallet :: "metadata \<Rightarrow> bool" where
  "shouldShowOfflineWallet meta = (getMetaField offline_wallet_disabled meta \<noteq> Some ''true'')"

definition shouldEnableOnchainDeposits :: "metadata \<Rightarrow> bool" where
  "shouldEnableOnchainDeposits meta =
     (case getMetaField onchain_deposits_disabled meta of None \<Rightarrow> False | Some v \<Rightarrow> v \<noteq> ''true'')"

definition shouldEnableStabilityPool :: "metadata \<Rightarrow> bool" where
  "shouldEnableStabilityPool meta =
     (case getMetaField stability_pool_disabled meta of None \<Rightarrow> False | Some v \<Rightarrow> v \<noteq> ''true'')"

definition supportsSingleSeed :: "federation \<Rightarrow> bool" where
  "supportsSingleSeed federation = (fed_version federation \<ge> 2)"

definition getIsFederationSupported :: "federation \<Rightarrow> bool" where
  "getIsFederationSupported federation =
     (\<not> (fed_hasWallet federation \<and> (fed_version federation = 0 \<or> fed_version federation = 1)))"

section \<open>Group chats and mods\<close>

text \<open>\<open>parse\<close> is \<open>JSON.parse\<close> for a list of ids; an error gives the empty list.\<close>

definition getFederationGroupChats :: "(string \<Rightarrow> js_error + string list) \<Rightarrow> metadata \<Rightarrow> string list" where
  "getFederationGroupChats parse meta =
     (let chats = nullish (getMetaField default_matrix_rooms meta) (getMetaField default_group_chats meta)
      in if truthy_str chats then (case parse (the chats) of Inl e \<Rightarrow> [] | Inr ids \<Rightarrow> ids) else [])"

text \<open>A parsed mod before validation: a property that is not a string is \<open>None\<close> too.\<close>

record raw_mod =
  raw_id :: "string option"
  raw_title :: "string option"
  raw_url :: "string option"
  raw_imageUrl :: "string option"
  raw_description :: "string option"
  raw_color :: "string option"

definition fediModSchema :: "(string \<Rightarrow> bool) \<Rightarrow> raw_mod \<Rightarrow> fedi_mod option" where
  "fediModSchema is_url m =
     (case (raw_id m, raw_title m, raw_url m) of
        (Some i, Some title, Some url) \<Rightarrow>
          if is_url url
          then Some \<lparr>mod_id = i, mod_title = title, mod_url = url, mod_imageUrl = None,
                     mod_description = raw_description m, mod_color = raw_color m\<rparr>
          else None
      | _ \<Rightarrow> None)"

text \<open>
  \<open>parse\<close> gives \<open>None\<close> when the parsed value is no array, which the code turns into an error; every
  error ends in the empty list. The image is taken from outside the validated part.
\<close>

definition getFederationFediMods ::
  "(string \<Rightarrow> js_error + raw_mod list option) \<Rightarrow> (string \<Rightarrow> bool) \<Rightarrow> metadata \<Rightarrow> fedi_mod list"
where
  "getFederationFediMods parse is_url meta =
     (let sites = getMetaSites meta
      in if truthy_str sites
         then (case parse (the sites) of
                 Inl e \<Rightarrow> []
               | Inr None \<Rightarrow> []
               | Inr (Some fediMods) \<Rightarrow>
                   foldl (\<lambda>result m.
                       case fediModSchema is_url m of
                         None \<Rightarrow> result
                       | Some md \<Rightarrow>
                           if \<not> truthy_str (raw_imageUrl m) then result @ [md]
                           else result @ [md\<lparr>mod_imageUrl := raw_imageUrl m\<rparr>])
                     [] fediMods)
         else [])"

record popup_info =
  endTimestamp :: string
  countdownMessage :: "string option"
  endedMessage :: "string option"

definition getFederationPopupInfo :: "metadata \<Rightarrow> popup_info option" where
  "getFederationPopupInfo meta =
     (let ends = getMetaField popup_end_timestamp meta
      in if \<not> truthy_str ends then None
         else Some \<lparr>endTimestamp = the ends, countdownMessage = getMetaField popup_countdown_message meta,
                    endedMessage = getMetaField popup_ended_message meta\<rparr>)"

definition getFederationTosUrl :: "metadata \<Rightarrow> string option" where
  "getFederationTosUrl meta = getMetaField tos_url meta"

definition getFederationName :: "metadata \<Rightarrow> string option" where
  "getFederationName meta = getMetaField federation_name meta"

definition getFederationWelcomeMessage :: "metadata \<Rightarrow> string option" where
  "getFederationWelcomeMessage meta = getMetaField welcome_message meta"

definition getFederationPinnedMessage :: "metadata \<Rightarrow> string option" where
  "getFederationPinnedMessage meta = getMetaField pinned_message meta"

definition getFederationIconUrl :: "metadata \<Rightarrow> string option" where
  "getFederationIconUrl meta = getMetaField federation_icon_url meta"

section \<open>External metadata\<close>

type_synonym external_meta = "metadata jsobj"

text \<open>
  The outcomes of the successive attempts to fetch one URL (\<open>None\<close> for a failure or time-out). The
  background loop waits, tries, and adds three seconds to the delay after every failure; a
  success reaches the callback from inside the attempt and again from the loop. The result lists
  the delays waited and the values given to the callback.
\<close>

fun retryInBackground :: "int \<Rightarrow> external_meta option list \<Rightarrow> int list \<times> external_meta list" where
  "retryInBackground retryDelay [] = ([], [])"
| "retryInBackground retryDelay (None # outcomes) =
     (case retryInBackground (retryDelay + 3000) outcomes of (ds, cs) \<Rightarrow> (retryDelay # ds, cs))"
| "retryInBackground retryDelay (Some meta # outcomes) = ([retryDelay], [meta, meta])"

definition fetchExternalMetadata ::
  "bool \<Rightarrow> external_meta option list \<Rightarrow> external_meta option \<times> int list \<times> external_meta list"
where
  "fetchExternalMetadata background outcomes =
     (case outcomes of
        [] \<Rightarrow> (None, [], [])
      | Some meta # _ \<Rightarrow> (Some meta, [], if background then [meta] else [])
      | None # later \<Rightarrow> (None, if background then retryInBackground 1000 later else ([], [])))"

definition getFederationMetaEntries :: "federation list \<Rightarrow> external_meta \<Rightarrow> (string \<times> metadata) list" where
  "getFederationMetaEntries federations externalMeta =
     concat (map (\<lambda>f. case obj_get externalMeta (fed_id f) of None \<Rightarrow> [] | Some m \<Rightarrow> [(fed_id f, m)]) federations)"

definition communities_meta :: "federation list \<Rightarrow> external_meta" where
  "communities_meta federations =
     foldl (\<lambda>prev c. if fed_id c = [] then prev else obj_set (fed_id c) (fed_meta c) prev) []
       (filter (\<lambda>f. \<not> fed_hasWallet f) federations)"

definition external_urls :: "federation list \<Rightarrow> string list" where
  "external_urls federations =
     (let urls = map (\<lambda>f. getMetaUrl (fed_meta f)) federations
      in map the (map fst (filter (\<lambda>(url, idx). truthy_str url \<and> find_index (\<lambda>u. u = url) urls = idx)
           (zip urls [0..<length urls]))))"

definition merge_entries :: "external_meta \<Rightarrow> (string \<times> metadata) list \<Rightarrow> external_meta" where
  "merge_entries prev entries = foldl (\<lambda>p (i, m). obj_set i m p) prev entries"

text \<open>\<open>fetched url\<close> is the first result of fetching the URL.\<close>

definition fetchFederationsExternalMetadata ::
  "(string \<Rightarrow> external_meta option) \<Rightarrow> federation list \<Rightarrow> external_meta"
where
  "fetchFederationsExternalMetadata fetched federations =
     (let federationsMeta =
            foldl (\<lambda>prev extMeta. case extMeta of
                     None \<Rightarrow> prev
                   | Some m \<Rightarrow> merge_entries prev (getFederationMetaEntries federations m))
              [] (map fetched (external_urls federations))
      in merge_entries (communities_meta federations) federationsMeta)"

definition fetchPublicFederations :: "external_meta option \<Rightarrow> public_federation list" where
  "fetchPublicFederations fetched =
     (case fetched of
        None \<Rightarrow> []
      | Some json \<Rightarrow>
          concat (map (\<lambda>(key, value).
              if obj_get value ''public'' = Some ''true'' \<and> truthy_str (obj_get value ''invite_code'') \<and>
                 truthy_str (obj_get value ''preview_message'')
              then [\<lparr>pub_id = key,
                     pub_name = (case or_str (getMetaField federation_name value) (Some []) of None \<Rightarrow> [] | Some n \<Rightarrow> n),
                     pub_meta = value\<rparr>]
              else []) (obj_entries json)))"

section \<open>Invites\<close>

datatype invite_type = FederationInvite | CommunityInvite

definition detectInviteCodeType :: "string \<Rightarrow> js_error + invite_type" where
  "detectInviteCodeType code =
     (if js_starts_with (js_lower code) ''fed1'' then Inr FederationInvite
      else if js_starts_with (js_lower code) ''fedi:community'' then Inr CommunityInvite
      else Inl (Error ''Invalid invite code''))"

definition coerceFederationListItem :: "rpc_community \<Rightarrow> federation" where
  "coerceFederationListItem community =
     \<lparr>fed_id = com_inviteCode community, fed_name = com_name community, fed_hasWallet = False,
      fed_meta = com_meta community, fed_inviteCode = com_inviteCode community,
      fed_version = com_version community, fed_network = None, fed_balance = 0,
      fed_recovering = False, fed_clientModules = None, fed_feeModules = []\<rparr>"

record join_preview =
  jp_id :: string
  jp_name :: string
  jp_meta :: metadata
  jp_inviteCode :: string
  jp_version :: int
  jp_hasWallet :: bool

definition coerceJoinPreview :: "rpc_community \<Rightarrow> join_preview" where
  "coerceJoinPreview preview =
     \<lparr>jp_id = com_inviteCode preview, jp_name = com_name preview, jp_meta = com_meta preview,
      jp_inviteCode = com_inviteCode preview, jp_version = com_version preview, jp_hasWallet = False\<rparr>"

text \<open>The spread \<open>{...a, ...b}\<close> of two dictionaries.\<close>

definition obj_spread :: "'v jsobj \<Rightarrow> 'v jsobj \<Rightarrow> 'v jsobj" where
  "obj_spread a b = foldl (\<lambda>r (k, v). obj_set k v r) a b"

record invite_bridge =
  joinFederation_rpc :: "string \<Rightarrow> bool \<Rightarrow> js_error + federation"
  joinCommunity_rpc :: "string \<Rightarrow> js_error + rpc_community"
  federationPreview_rpc :: "string \<Rightarrow> js_error + join_preview"
  communityPreview_rpc :: "string \<Rightarrow> js_error + rpc_community"

definition getFederationPreview ::
  "(string \<Rightarrow> external_meta option) \<Rightarrow> invite_bridge \<Rightarrow> string \<Rightarrow> js_error + join_preview"
where
  "getFederationPreview fetched fedimint inviteCode =
     (case federationPreview_rpc fedimint inviteCode of
        Inl e \<Rightarrow> Inl e
      | Inr preview \<Rightarrow>
          let externalMeta =
                (case getMetaUrl (jp_meta preview) of
                   None \<Rightarrow> []
                 | Some url \<Rightarrow>
                     if url = [] then []
                     else case fetched url of
                       None \<Rightarrow> []
                     | Some json \<Rightarrow> (case obj_get json (jp_id preview) of None \<Rightarrow> [] | Some m \<Rightarrow> m));
              name = or_str (getFederationName externalMeta)
                       (or_str (getFederationName (jp_meta preview)) (Some (jp_name preview)))
          in Inr (preview\<lparr>jp_name := the name, jp_meta := obj_spread (jp_meta preview) externalMeta,
                          jp_hasWallet := True\<rparr>))"

definition joinFromInvite :: "invite_bridge \<Rightarrow> string \<Rightarrow> bool \<Rightarrow> js_error + federation" where
  "joinFromInvite fedimint code recoverFromScratch =
     (case detectInviteCodeType code of
        Inl e \<Rightarrow> Inl e
      | Inr FederationInvite \<Rightarrow>
          (case joinFederation_rpc fedimint code recoverFromScratch of
             Inl e \<Rightarrow> Inl e
           | Inr federation \<Rightarrow> Inr (federation\<lparr>fed_hasWallet := True\<rparr>))
      | Inr CommunityInvite \<Rightarrow>
          (case joinCommunity_rpc fedimint code of
             Inl e \<Rightarrow> Inl e
           | Inr community \<Rightarrow> Inr (coerceFederationListItem community)))"

definition previewInvite ::
  "(string \<Rightarrow> external_meta option) \<Rightarrow> invite_bridge \<Rightarrow> string \<Rightarrow> js_error + join_preview"
where
  "previewInvite fetched fedimint code =
     (case detectInviteCodeType code of
        Inl e \<Rightarrow> Inl e
      | Inr FederationInvite \<Rightarrow> getFederationPreview fetched fedimint code
      | Inr CommunityInvite \<Rightarrow>
          (case communityPreview_rpc fedimint code of
             Inl e \<Rightarrow> Inl e
           | Inr preview \<Rightarrow> Inr (coerceJoinPreview preview)))"

section \<open>The external metadata of a federation\<close>

lemma getMetaField_prefixed:
  "getMetaField field (obj_set (''fedi:'' @ meta_field_name field) v meta) = Some v"
  by (simp add: getMetaField_def)

lemma merge_entries_get:
  "obj_get (merge_entries prev es) i =
     (if filter (\<lambda>e. fst e = i) es = [] then obj_get prev i else Some (snd (last (filter (\<lambda>e. fst e = i) es))))"
proof (induction es arbitrary: prev rule: rev_induct)
  case (snoc e es)
  obtain k m where e: "e = (k, m)" by force
  show ?case using snoc by (cases "k = i") (simp_all add: merge_entries_def e)
qed (simp add: merge_entries_def)

lemma entries_filter:
  "filter (\<lambda>e. fst e = i) (getFederationMetaEntries feds m) =
     (case obj_get m i of None \<Rightarrow> [] | Some v \<Rightarrow> replicate (length (filter (\<lambda>f. fed_id f = i) feds)) (i, v))"
  by (induction feds) (auto simp: getFederationMetaEntries_def split: option.splits)

lemma merge_federation_entries_get:
  assumes "i \<in> fed_id ` set feds"
  shows "obj_get (merge_entries prev (getFederationMetaEntries feds m)) i =
    (case obj_get m i of None \<Rightarrow> obj_get prev i | Some v \<Rightarrow> Some v)"
proof -
  have "filter (\<lambda>f. fed_id f = i) feds \<noteq> []" using assms by (auto simp: filter_empty_conv)
  then obtain n where "length (filter (\<lambda>f. fed_id f = i) feds) = Suc n" by (cases "filter (\<lambda>f. fed_id f = i) feds") auto
  then show ?thesis by (simp add: merge_entries_get entries_filter split: option.splits)
qed

text \<open>The metadata the fetched results hold for an id, in the order of the URLs.\<close>

definition found_metas :: "(string \<Rightarrow> external_meta option) \<Rightarrow> string list \<Rightarrow> string \<Rightarrow> metadata list" where
  "found_metas fetched urls i =
     concat (map (\<lambda>url. case fetched url of None \<Rightarrow> [] | Some j \<Rightarrow> (case obj_get j i of None \<Rightarrow> [] | Some m \<Rightarrow> [m])) urls)"

lemma fold_results_get:
  assumes "i \<in> fed_id ` set feds"
  shows "obj_get (foldl (\<lambda>prev extMeta. case extMeta of None \<Rightarrow> prev
             | Some m \<Rightarrow> merge_entries prev (getFederationMetaEntries feds m)) prev (map fetched urls)) i =
    (if found_metas fetched urls i = [] then obj_get prev i else Some (last (found_metas fetched urls i)))"
proof (induction urls rule: rev_induct)
  case (snoc u us)
  show ?case
    by (cases "fetched u")
      (auto simp: snoc.IH found_metas_def merge_federation_entries_get [OF assms] split: option.splits)
qed (simp add: found_metas_def)

lemma distinct_fst_obj_set_fold:
  "distinct (map fst prev) \<Longrightarrow> distinct (map fst (merge_entries prev es))"
  by (induction es arbitrary: prev) (auto simp: merge_entries_def)

lemma merge_entries_distinct_get:
  assumes "distinct (map fst b)"
  shows "obj_get (merge_entries a b) i = (case obj_get b i of None \<Rightarrow> obj_get a i | Some v \<Rightarrow> Some v)"
proof -
  have "filter (\<lambda>e. fst e = i) b = (case obj_get b i of None \<Rightarrow> [] | Some v \<Rightarrow> [(i, v)])"
    using assms
  proof (induction b)
    case (Cons e b)
    obtain k v where e: "e = (k, v)" by force
    have "obj_get b k = None" using Cons.prems by (simp add: e obj_get_def map_of_eq_None_iff)
    then show ?case using Cons by (auto simp: e obj_get_def split: option.splits)
  qed (simp add: obj_get_def)
  then show ?thesis by (simp add: merge_entries_get split: option.splits)
qed

lemma distinct_fold_results:
  "distinct (map fst prev) \<Longrightarrow> distinct (map fst (foldl (\<lambda>prev extMeta. case extMeta of None \<Rightarrow> prev
     | Some m \<Rightarrow> merge_entries prev (getFederationMetaEntries feds m)) prev rs))"
  by (induction rs arbitrary: prev) (auto simp: distinct_fst_obj_set_fold split: option.splits)

section \<open>Retries\<close>

lemma retryInBackground_success:
  "retryInBackground d (replicate n None @ Some m # rest) =
     (map (\<lambda>i. d + 3000 * int i) [0..<n + 1], [m, m])"
proof (induction n arbitrary: d)
  case (Suc n)
  have "map (\<lambda>i. d + 3000 * int i) [0..<Suc (n + 1)] = d # map (\<lambda>i. d + 3000 + 3000 * int i) [0..<n + 1]"
    by (subst map_upt_Suc) (simp add: algebra_simps del: upt_Suc)
  then show ?case using Suc [of "d + 3000"] by (simp del: upt_Suc)
qed simp

lemma retryInBackground_failures: "snd (retryInBackground d (replicate n None)) = []"
  by (induction n arbitrary: d) (auto split: prod.splits, metis snd_conv)

section \<open>Properties\<close>

text \<open>
  The external metadata of a federation comes from the last URL whose result has an entry under
  its id, no matter which federation named that URL; only when there is none, a community keeps its
  own metadata. A URL named by one federation thus sets the metadata of every other one.
\<close>

theorem external_metadata_lookup:
  assumes "i \<in> fed_id ` set federations"
  shows "obj_get (fetchFederationsExternalMetadata fetched federations) i =
    (if found_metas fetched (external_urls federations) i = [] then obj_get (communities_meta federations) i
     else Some (last (found_metas fetched (external_urls federations) i)))"
  using fold_results_get [OF assms, of "[]" fetched "external_urls federations"]
    merge_entries_distinct_get [OF distinct_fold_results [of "[]"]]
  by (simp add: fetchFederationsExternalMetadata_def)

definition sample_federation :: "string \<Rightarrow> metadata \<Rightarrow> federation" where
  "sample_federation i meta = \<lparr>fed_id = i, fed_name = i, fed_hasWallet = True, fed_meta = meta, fed_inviteCode = i,
     fed_version = 2, fed_network = None, fed_balance = 0, fed_recovering = False, fed_clientModules = None,
     fed_feeModules = []\<rparr>"

theorem external_metadata_lookup_witness:
  "obj_get (fetchFederationsExternalMetadata (\<lambda>url. Some [(''b'', [(''tos_url'', url)])])
      [sample_federation ''a'' [(''meta_external_url'', ''https://a'')], sample_federation ''b'' []]) ''b'' =
    Some [(''tos_url'', ''https://a'')]"
proof -
  have "external_urls [sample_federation ''a'' [(''meta_external_url'', ''https://a'')], sample_federation ''b'' []] = [''https://a'']"
    by code_simp
  then show ?thesis
    using external_metadata_lookup [of "''b''" "[sample_federation ''a'' [(''meta_external_url'', ''https://a'')], sample_federation ''b'' []]"
        "\<lambda>url. Some [(''b'', [(''tos_url'', url)])]"]
    by (simp add: found_metas_def obj_get_def sample_federation_def)
qed

text \<open>
  With a callback, a fetch whose first attempt fails keeps trying: when \<open>n\<close> more attempts fail and
  the next succeeds, it waited 1000, 4000, 7000, ... milliseconds before them, and the callback got
  the metadata - twice, once from the attempt and once from the loop.
\<close>

theorem external_metadata_retry:
  "fetchExternalMetadata True (None # replicate n None @ Some m # rest) =
     (None, map (\<lambda>i. 1000 + 3000 * int i) [0..<n + 1], [m, m])"
  by (simp add: fetchExternalMetadata_def retryInBackground_success)

text \<open>
  The flags that hide a feature treat the value ''true'' alike, except the one for joining:
  setting \<open>new_members_disabled\<close> to ''true'' leaves the invitation to join on, and only ''false'' turns
  it off.
\<close>

theorem feature_flags_true:
  fixes meta :: metadata
  assumes "\<And>field. field \<in> {invite_codes_disabled, new_members_disabled, offline_wallet_disabled,
      onchain_deposits_disabled, stability_pool_disabled} \<Longrightarrow> getMetaField field meta = Some ''true''"
  shows "\<not> shouldShowInviteCode meta \<and> \<not> shouldShowOfflineWallet meta \<and> \<not> shouldEnableOnchainDeposits meta \<and>
    \<not> shouldEnableStabilityPool meta \<and> shouldShowJoinFederation meta \<and>
    (\<forall>meta'. shouldShowJoinFederation meta' = (getMetaField new_members_disabled meta' \<noteq> Some ''false''))"
  using assms
  by (simp add: shouldShowInviteCode_def shouldShowOfflineWallet_def shouldEnableOnchainDeposits_def
      shouldEnableStabilityPool_def shouldShowJoinFederation_def)

theorem feature_flags_true_witness:
  "shouldShowJoinFederation [(''fedi:invite_codes_disabled'', ''true''), (''new_members_disabled'', ''true''),
     (''offline_wallet_disabled'', ''true''), (''onchain_deposits_disabled'', ''true''), (''stability_pool_disabled'', ''true'')]"
proof -
  let ?m = "[(''fedi:invite_codes_disabled'', ''true''), (''new_members_disabled'', ''true''),
     (''offline_wallet_disabled'', ''true''), (''onchain_deposits_disabled'', ''true''), (''stability_pool_disabled'', ''true'')]"
  have "getMetaField field ?m = Some ''true''"
    if "field \<in> {invite_codes_disabled, new_members_disabled, offline_wallet_disabled,
      onchain_deposits_disabled, stability_pool_disabled}" for field
    using that by (auto simp: getMetaField_def obj_get_def)
  from feature_flags_true [of ?m, OF this] show ?thesis by blast
qed

text \<open>
  Every mod taken from the metadata has a title, an id and a URL that passed validation, in the
  order of the metadata; its image is not validated: any non-empty string is passed on.
\<close>

theorem fedi_mods_validated:
  assumes "truthy_str (getMetaSites meta)" and "parse (the (getMetaSites meta)) = Inr (Some raws)"
  shows "map mod_url (getFederationFediMods parse is_url meta) =
      map (\<lambda>m. the (raw_url m)) (filter (\<lambda>m. fediModSchema is_url m \<noteq> None) raws) \<and>
    list_all is_url (map mod_url (getFederationFediMods parse is_url meta)) \<and>
    (\<forall>m\<in>set raws. \<forall>img. fediModSchema is_url m \<noteq> None \<and> raw_imageUrl m = Some img \<and> img \<noteq> [] \<longrightarrow>
       Some img \<in> mod_imageUrl ` set (getFederationFediMods parse is_url meta))"
proof -
  let ?pick = "\<lambda>m. case fediModSchema is_url m of None \<Rightarrow> []
    | Some md \<Rightarrow> if \<not> truthy_str (raw_imageUrl m) then [md] else [md\<lparr>mod_imageUrl := raw_imageUrl m\<rparr>]"
  have step: "(\<lambda>result m. case fediModSchema is_url m of None \<Rightarrow> result
      | Some md \<Rightarrow> if \<not> truthy_str (raw_imageUrl m) then result @ [md]
          else result @ [md\<lparr>mod_imageUrl := raw_imageUrl m\<rparr>]) = (\<lambda>result m. result @ ?pick m)"
    by (auto simp: fun_eq_iff split: option.splits)
  have "foldl (\<lambda>result m. result @ ?pick m) acc ms = acc @ concat (map ?pick ms)" for acc ms
    by (induction ms arbitrary: acc) simp_all
  then have mods: "getFederationFediMods parse is_url meta = concat (map ?pick raws)"
    using assms by (simp add: getFederationFediMods_def step)
  have urls: "map mod_url (concat (map ?pick ms)) =
      map (\<lambda>m. the (raw_url m)) (filter (\<lambda>m. fediModSchema is_url m \<noteq> None) ms)" for ms
    by (induction ms) (auto simp: fediModSchema_def split: option.splits if_splits)
  have ok: "is_url (the (raw_url m))" if "fediModSchema is_url m \<noteq> None" for m
    using that by (auto simp: fediModSchema_def split: option.splits if_splits)
  show ?thesis
  proof (intro conjI)
    show "list_all is_url (map mod_url (getFederationFediMods parse is_url meta))"
      unfolding mods urls using ok by (auto simp: list_all_iff)
    show "\<forall>m\<in>set raws. \<forall>img. fediModSchema is_url m \<noteq> None \<and> raw_imageUrl m = Some img \<and> img \<noteq> [] \<longrightarrow>
       Some img \<in> mod_imageUrl ` set (getFederationFediMods parse is_url meta)"
      unfolding mods by (force split: option.splits)
  qed (simp add: mods urls)
qed

definition sample_raw_mod :: raw_mod where
  "sample_raw_mod = \<lparr>raw_id = Some ''m'', raw_title = Some ''Mod'', raw_url = Some ''https://m'',
     raw_imageUrl = Some ''not a url'', raw_description = None, raw_color = None\<rparr>"

theorem fedi_mods_validated_witness:
  "Some ''not a url'' \<in> mod_imageUrl ` set (getFederationFediMods (\<lambda>s. Inr (Some [sample_raw_mod]))
     (\<lambda>u. prefix ''https:'' u) [(''sites'', ''[..]'')])"
proof -
  have s: "truthy_str (getMetaSites [(''sites'', ''[..]'')])" by (simp add: getMetaSites_def obj_get_def)
  show ?thesis
    using fedi_mods_validated [OF s, of "\<lambda>s. Inr (Some [sample_raw_mod])" "[sample_raw_mod]" "\<lambda>u. prefix ''https:'' u"]
    by (simp add: sample_raw_mod_def fediModSchema_def)
qed

end
