(* ===== verification/FederationState.thy ===== *)
theory FederationState
  imports FederationUtils AmountUtils RecordUtils
begin

text \<open>
  The federation slice of \<open>ui/common/redux/federation.ts\<close>: the state, one definition per reducer and
  extra reducer, the thunks that join, refresh and leave, and the selectors. The rooms of the
  default chats are a type parameter: the slice only stores and compares them. The lemmas show
  what an update of one federation leaves alone, what leaving removes, and which federation the
  selectors take as the active one and as the one to pay from.
\<close>

section \<open>State\<close>

record guardian =
  guardian_name :: string
  guardian_url :: string
  guardian_peerId :: int
  guardian_password :: string

record 'r federation_state =
  federations :: "federation list"
  publicFederations :: "public_federation list"
  activeFederationId :: "string option"
  payFromFederationId :: "string option"
  authenticatedGuardian :: "guardian option"
  externalMeta :: external_meta
  customFediMods :: "fedi_mod list option jsobj"
  defaultCommunityChats :: "'r list jsobj"

definition initialFederationState :: "'r federation_state" where
  "initialFederationState =
     \<lparr>federations = [], publicFederations = [], activeFederationId = None, payFromFederationId = None,
      authenticatedGuardian = None, externalMeta = [], customFediMods = [], defaultCommunityChats = []\<rparr>"

text \<open>\<open>customFediMods[id] || []\<close>.\<close>

definition mods_of :: "fedi_mod list option jsobj \<Rightarrow> string \<Rightarrow> fedi_mod list" where
  "mods_of mods i = (case obj_get mods i of Some (Some ms) \<Rightarrow> ms | _ \<Rightarrow> [])"

section \<open>Reducers\<close>

definition setFederations :: "federation list \<Rightarrow> 'r federation_state \<Rightarrow> 'r federation_state" where
  "setFederations fs state = state\<lparr>federations := fs\<rparr>"

definition setPublicFederations :: "public_federation list \<Rightarrow> 'r federation_state \<Rightarrow> 'r federation_state" where
  "setPublicFederations fs state = state\<lparr>publicFederations := fs\<rparr>"

text \<open>The payload of \<open>updateFederation\<close>: any properties of an item; those absent are \<open>None\<close>.\<close>

record federation_patch =
  up_id :: "string option"
  up_name :: "string option"
  up_meta :: "metadata option"
  up_version :: "int option"
  up_balance :: "int option"
  up_recovering :: "bool option"
  up_inviteCode :: "string option"

definition apply_patch :: "federation_patch \<Rightarrow> federation \<Rightarrow> federation" where
  "apply_patch p f = f\<lparr>
     fed_id := (case up_id p of None \<Rightarrow> fed_id f | Some x \<Rightarrow> x),
     fed_name := (case up_name p of None \<Rightarrow> fed_name f | Some x \<Rightarrow> x),
     fed_meta := (case up_meta p of None \<Rightarrow> fed_meta f | Some x \<Rightarrow> x),
     fed_version := (case up_version p of None \<Rightarrow> fed_version f | Some x \<Rightarrow> x),
     fed_balance := (case up_balance p of None \<Rightarrow> fed_balance f | Some x \<Rightarrow> x),
     fed_recovering := (case up_recovering p of None \<Rightarrow> fed_recovering f | Some x \<Rightarrow> x),
     fed_inviteCode := (case up_inviteCode p of None \<Rightarrow> fed_inviteCode f | Some x \<Rightarrow> x)\<rparr>"

text \<open>The \<open>map\<close> with the flag its closure writes for every match.\<close>

fun update_scan :: "federation_patch \<Rightarrow> federation list \<Rightarrow> bool \<Rightarrow> federation list \<times> bool" where
  "update_scan p [] hasUpdates = ([], hasUpdates)"
| "update_scan p (f # fs) hasUpdates =
     (if up_id p \<noteq> Some (fed_id f)
      then let r = update_scan p fs hasUpdates in (f # fst r, snd r)
      else let updated = apply_patch p f; r = update_scan p fs (f \<noteq> updated) in (updated # fst r, snd r))"

definition updateFederation :: "federation_patch \<Rightarrow> 'r federation_state \<Rightarrow> 'r federation_state" where
  "updateFederation p state =
     (case update_scan p (federations state) False of
        (updatedFederations, hasUpdates) \<Rightarrow>
          if hasUpdates then state\<lparr>federations := updatedFederations\<rparr> else state)"

definition updateFederationBalance :: "string \<Rightarrow> int \<Rightarrow> 'r federation_state \<Rightarrow> 'r federation_state" where
  "updateFederationBalance federationId balance state =
     (case find (\<lambda>f. fed_id f = federationId) (federations state) of
        None \<Rightarrow> state
      | Some federation \<Rightarrow>
          if \<not> fed_hasWallet federation \<or> fed_balance federation = balance then state
          else state\<lparr>federations :=
                 map (\<lambda>f. if fed_id f \<noteq> federationId then f else f\<lparr>fed_balance := balance\<rparr>) (federations state)\<rparr>)"

definition setActiveFederationId :: "string option \<Rightarrow> 'r federation_state \<Rightarrow> 'r federation_state" where
  "setActiveFederationId i state = state\<lparr>activeFederationId := i\<rparr>"

definition setPayFromFederationId :: "string option \<Rightarrow> 'r federation_state \<Rightarrow> 'r federation_state" where
  "setPayFromFederationId i state = state\<lparr>payFromFederationId := i\<rparr>"

definition updateExternalMeta :: "external_meta \<Rightarrow> 'r federation_state \<Rightarrow> 'r federation_state" where
  "updateExternalMeta payload state =
     (let newMeta = obj_spread (externalMeta state) payload
      in if newMeta = externalMeta state then state else state\<lparr>externalMeta := newMeta\<rparr>)"

definition setFederationCustomFediMods ::
  "string \<Rightarrow> fedi_mod list option \<Rightarrow> 'r federation_state \<Rightarrow> 'r federation_state"
where
  "setFederationCustomFediMods federationId mods state =
     (if mods = Some (mods_of (customFediMods state) federationId) then state
      else state\<lparr>customFediMods := obj_set federationId mods (customFediMods state)\<rparr>)"

text \<open>An absent \<open>meta\<close> is spread like an empty object.\<close>

definition setFederationExternalMeta :: "string \<Rightarrow> metadata option \<Rightarrow> 'r federation_state \<Rightarrow> 'r federation_state" where
  "setFederationExternalMeta federationId meta state =
     state\<lparr>externalMeta := upsertRecordEntityId obj_spread (Some (externalMeta state))
        (case meta of None \<Rightarrow> [] | Some m \<Rightarrow> m) federationId\<rparr>"

definition changeAuthenticatedGuardian :: "guardian option \<Rightarrow> 'r federation_state \<Rightarrow> 'r federation_state" where
  "changeAuthenticatedGuardian g state = state\<lparr>authenticatedGuardian := g\<rparr>"

definition removeCustomFediMod :: "string \<Rightarrow> string \<Rightarrow> 'r federation_state \<Rightarrow> 'r federation_state" where
  "removeCustomFediMod federationId fediModId state =
     state\<lparr>customFediMods := obj_set federationId
        (Some (filter (\<lambda>m. mod_id m \<noteq> fediModId) (mods_of (customFediMods state) federationId)))
        (customFediMods state)\<rparr>"

definition leaveFederationFulfilled :: "string \<Rightarrow> 'r federation_state \<Rightarrow> 'r federation_state" where
  "leaveFederationFulfilled federationId state =
     (let rest = filter (\<lambda>fed. fed_id fed \<noteq> federationId) (federations state);
          state = state\<lparr>federations := rest\<rparr>;
          state =
            (if rest = [] then state\<lparr>activeFederationId := None\<rparr>
             else if activeFederationId state = Some federationId
             then state\<lparr>activeFederationId := Some (fed_id (hd rest))\<rparr>
             else state);
          state =
            (if obj_get (externalMeta state) federationId \<noteq> None
             then state\<lparr>externalMeta := obj_omit federationId (externalMeta state)\<rparr> else state)
      in if \<exists>ms. obj_get (customFediMods state) federationId = Some (Some ms)
         then state\<lparr>customFediMods := obj_omit federationId (customFediMods state)\<rparr> else state)"

record stored_federation =
  sf_activeFederationId :: "string option"
  sf_authenticatedGuardian :: "guardian option"
  sf_externalMeta :: external_meta
  sf_customFediMods :: "fedi_mod list option jsobj option"

definition loadFederationFromStorage :: "stored_federation option \<Rightarrow> 'r federation_state \<Rightarrow> 'r federation_state" where
  "loadFederationFromStorage payload state =
     (case payload of
        None \<Rightarrow> state
      | Some p \<Rightarrow> state\<lparr>
          activeFederationId := sf_activeFederationId p,
          authenticatedGuardian := sf_authenticatedGuardian p,
          externalMeta := sf_externalMeta p,
          customFediMods := (case sf_customFediMods p of None \<Rightarrow> [] | Some m \<Rightarrow> m)\<rparr>)"

definition previewCommunityDefaultChatsFulfilled ::
  "('p \<Rightarrow> 'r) \<Rightarrow> string \<Rightarrow> 'p list \<Rightarrow> 'r federation_state \<Rightarrow> 'r federation_state"
where
  "previewCommunityDefaultChatsFulfilled makeChatFromPreview federationId payload state =
     (let chatPreviews = map makeChatFromPreview payload
      in if obj_get (defaultCommunityChats state) federationId = Some chatPreviews then state
         else state\<lparr>defaultCommunityChats := obj_set federationId chatPreviews (defaultCommunityChats state)\<rparr>)"

section \<open>Selectors\<close>

definition with_external_meta :: "external_meta \<Rightarrow> federation \<Rightarrow> federation" where
  "with_external_meta ext f =
     (case obj_get ext (fed_id f) of
        None \<Rightarrow> f
      | Some meta \<Rightarrow> f\<lparr>fed_meta := meta, fed_name := the (or_str (getFederationName meta) (Some (fed_name f)))\<rparr>)"

definition selectWalletFederations :: "'r federation_state \<Rightarrow> federation list" where
  "selectWalletFederations s =
     concat (map (\<lambda>f. if \<not> fed_hasWallet f then [] else [with_external_meta (externalMeta s) f]) (federations s))"

definition selectFederations :: "'r federation_state \<Rightarrow> federation list" where
  "selectFederations s = map (with_external_meta (externalMeta s)) (federations s)"

definition selectFederationIds :: "'r federation_state \<Rightarrow> string list" where
  "selectFederationIds s = map fed_id (selectFederations s)"

definition first_of :: "'a list \<Rightarrow> 'a option" where
  "first_of xs = (case xs of [] \<Rightarrow> None | x # _ \<Rightarrow> Some x)"

definition selectActiveFederation :: "'r federation_state \<Rightarrow> federation option" where
  "selectActiveFederation s =
     (let fs = selectFederations s
      in if truthy_str (activeFederationId s)
         then nullish (find (\<lambda>f. Some (fed_id f) = activeFederationId s) fs) (first_of fs)
         else first_of fs)"

definition selectFederation :: "'r federation_state \<Rightarrow> string \<Rightarrow> federation option" where
  "selectFederation s i = find (\<lambda>f. fed_id f = i) (selectFederations s)"

definition selectActiveFederationId :: "'r federation_state \<Rightarrow> string option" where
  "selectActiveFederationId s = map_option fed_id (selectActiveFederation s)"

definition selectPaymentFederation :: "'r federation_state \<Rightarrow> federation option" where
  "selectPaymentFederation s =
     (if \<not> truthy_str (payFromFederationId s)
      then (case selectActiveFederation s of
              None \<Rightarrow> None | Some f \<Rightarrow> if fed_hasWallet f then Some f else None)
      else find (\<lambda>f. Some (fed_id f) = payFromFederationId s) (selectWalletFederations s))"

definition selectFederationClientConfig :: "'r federation_state \<Rightarrow> string jsobj option" where
  "selectFederationClientConfig s =
     (case selectActiveFederation s of
        Some f \<Rightarrow> if fed_hasWallet f then fed_clientModules f else None | None \<Rightarrow> None)"

text \<open>Of the client configuration the module kinds are modelled: the key of the stability pool.\<close>

definition selectFederationStabilityPoolConfig :: "'r federation_state \<Rightarrow> (string \<times> string) option" where
  "selectFederationStabilityPoolConfig s =
     (case selectFederationClientConfig s of
        None \<Rightarrow> None
      | Some modules \<Rightarrow> find (\<lambda>(key, kind). kind = ''stability_pool'') (obj_entries modules))"

definition selectFederationFeeSchedule :: "'r federation_state \<Rightarrow> fee_schedule_module jsobj option" where
  "selectFederationFeeSchedule s =
     (case selectActiveFederation s of
        Some f \<Rightarrow> if fed_hasWallet f then Some (fed_feeModules f) else None | None \<Rightarrow> None)"

definition selectEcashFeeSchedule :: "'r federation_state \<Rightarrow> fee_schedule_module option" where
  "selectEcashFeeSchedule s = Option.bind (selectFederationFeeSchedule s) (\<lambda>m. obj_get m ''mint'')"

definition selectStabilityPoolFeeSchedule :: "'r federation_state \<Rightarrow> fee_schedule_module option" where
  "selectStabilityPoolFeeSchedule s = Option.bind (selectFederationFeeSchedule s) (\<lambda>m. obj_get m ''stability_pool'')"

definition selectFederationMetadata :: "'r federation_state \<Rightarrow> metadata" where
  "selectFederationMetadata s = (case selectActiveFederation s of None \<Rightarrow> [] | Some f \<Rightarrow> fed_meta f)"

definition selectFederationBalance :: "'r federation_state \<Rightarrow> int" where
  "selectFederationBalance s =
     (case selectActiveFederation s of
        Some f \<Rightarrow> if fed_hasWallet f then fed_balance f else 0 | None \<Rightarrow> 0)"

definition selectPaymentFederationBalance :: "'r federation_state \<Rightarrow> int" where
  "selectPaymentFederationBalance s = (case selectPaymentFederation s of Some f \<Rightarrow> fed_balance f | None \<Rightarrow> 0)"

definition selectIsActiveFederationRecovering :: "'r federation_state \<Rightarrow> bool" where
  "selectIsActiveFederationRecovering s =
     (case selectActiveFederation s of Some f \<Rightarrow> fed_hasWallet f \<and> fed_recovering f | None \<Rightarrow> False)"

definition selectIsAnyFederationRecovering :: "'r federation_state \<Rightarrow> bool" where
  "selectIsAnyFederationRecovering s = list_ex (\<lambda>f. fed_hasWallet f \<and> fed_recovering f) (selectFederations s)"

definition selectFederationCustomFediMods :: "'r federation_state \<Rightarrow> string \<Rightarrow> fedi_mod list" where
  "selectFederationCustomFediMods s federationId =
     (case selectFederation s federationId of None \<Rightarrow> [] | Some f \<Rightarrow> mods_of (customFediMods s) (fed_id f))"

definition selectCommunityMods :: "'r federation_state \<Rightarrow> fedi_mod list" where
  "selectCommunityMods s =
     concat (map (\<lambda>ms. case ms of None \<Rightarrow> [] | Some m \<Rightarrow> m) (obj_values (customFediMods s)))"

definition MAX_INVOICE_AMOUNT_SATS :: jsnum where "MAX_INVOICE_AMOUNT_SATS = FinI 1000000000"
definition MAX_BALANCE_AMOUNT_SATS :: jsnum where "MAX_BALANCE_AMOUNT_SATS = FinI 1000000000"

text \<open>The three limits: 0 stays 0, a missing or \<open>NaN\<close> value falls back to the default.\<close>

definition sats_limit :: "jsnum option \<Rightarrow> jsnum \<Rightarrow> jsnum" where
  "sats_limit msats fallback =
     (case msats of
        None \<Rightarrow> fallback
      | Some m \<Rightarrow> if js_eq m (Fin 0) then Fin 0 else if js_truthy m then msatToSat m else fallback)"

definition selectMaxStableBalanceSats :: "'r federation_state \<Rightarrow> jsnum" where
  "selectMaxStableBalanceSats s =
     sats_limit (getFederationMaxStableBalanceMsats (selectFederationMetadata s)) (Fin 0)"

definition selectMaxInvoiceAmount :: "'r federation_state \<Rightarrow> jsnum" where
  "selectMaxInvoiceAmount s =
     sats_limit (getFederationMaxInvoiceMsats (selectFederationMetadata s)) MAX_INVOICE_AMOUNT_SATS"

definition selectMaxBalanceAmount :: "'r federation_state \<Rightarrow> jsnum" where
  "selectMaxBalanceAmount s =
     sats_limit (getFederationMaxBalanceMsats (selectFederationMetadata s)) MAX_BALANCE_AMOUNT_SATS"

definition selectReceivesDisabled :: "'r federation_state \<Rightarrow> bool" where
  "selectReceivesDisabled s =
     (let maxReceiveAmount = selectMaxInvoiceAmount s;
          maxBalanceAmount = selectMaxBalanceAmount s;
          balanceSats = msatToSat (FinI (selectFederationBalance s))
      in js_eq maxReceiveAmount (Fin 0) \<or> js_le maxBalanceAmount balanceSats)"

section \<open>Thunks\<close>

datatype federation_call = LeaveCommunity string | LeaveFederation string

definition failed_to_leave :: js_error where
  "failed_to_leave = Error ''failed-to-leave-federation''"

text \<open>The call that \<open>leaveFederation\<close> makes, or its error; the bridge's answer is not modelled.\<close>

definition leaveFederation :: "string \<Rightarrow> 'r federation_state \<Rightarrow> js_error + federation_call" where
  "leaveFederation federationId s =
     (case selectFederation s federationId of
        None \<Rightarrow> Inl failed_to_leave
      | Some federation \<Rightarrow>
          if \<not> fed_hasWallet federation then Inr (LeaveCommunity federationId)
          else if selectIsAnyFederationRecovering s then Inl failed_to_leave
          else Inr (LeaveFederation federationId))"

definition GLOBAL_COMMUNITY_ID :: string where
  "GLOBAL_COMMUNITY_ID = ''00000000000000000000000066656469''"

definition FEDI_GLOBAL_COMMUNITY :: federation where
  "FEDI_GLOBAL_COMMUNITY =
     \<lparr>fed_id = GLOBAL_COMMUNITY_ID, fed_name = [], fed_hasWallet = False,
      fed_meta = [(''meta_override_url'', ''https://meta.dev.fedibtc.com/meta.json'')], fed_inviteCode = [],
      fed_version = 0, fed_network = None, fed_balance = 0, fed_recovering = False,
      fed_clientModules = None, fed_feeModules = []\<rparr>"

text \<open>
  \<open>refreshFederations\<close> without the background fetches: the federations and communities of the
  bridge and the metadata their URLs give, reduced in the order of the dispatches.
\<close>

definition refreshFederations ::
  "(string \<Rightarrow> external_meta option) \<Rightarrow> federation list \<Rightarrow> rpc_community list \<Rightarrow>
   'r federation_state \<Rightarrow> 'r federation_state"
where
  "refreshFederations fetched federationsList communities state =
     (let feds = map (\<lambda>f. f\<lparr>fed_hasWallet := True\<rparr>) federationsList;
          coms = map coerceFederationListItem communities;
          ext = fetchFederationsExternalMetadata fetched
                  (feds @ coms @ [FEDI_GLOBAL_COMMUNITY\<lparr>fed_hasWallet := True\<rparr>])
      in setFederations (feds @ coms) (updateExternalMeta ext state))"

definition joinFederation ::
  "(string \<Rightarrow> external_meta option) \<Rightarrow> invite_bridge \<Rightarrow> federation list \<Rightarrow> rpc_community list \<Rightarrow>
   string \<Rightarrow> bool \<Rightarrow> 'r federation_state \<Rightarrow> (js_error + federation) \<times> 'r federation_state"
where
  "joinFederation fetched fedimint federationsList communities code' recoverFromScratch state =
     (case joinFromInvite fedimint code' recoverFromScratch of
        Inl e \<Rightarrow> (Inl e, state)
      | Inr federation \<Rightarrow>
          let state = refreshFederations fetched federationsList communities state;
              state = setActiveFederationId (Some (fed_id federation)) state
          in case selectActiveFederation state of
               None \<Rightarrow> (Inl (Error ''errors.unknown-error''), state)
             | Some active \<Rightarrow> (Inr active, state))"

section \<open>The reducer\<close>

datatype 'r federation_action =
    SetFederations "federation list"
  | SetPublicFederations "public_federation list"
  | UpdateFederation federation_patch
  | UpdateFederationBalance string int
  | SetActiveFederationId "string option"
  | SetPayFromFederationId "string option"
  | UpdateExternalMeta external_meta
  | SetFederationCustomFediMods string "fedi_mod list option"
  | SetFederationExternalMeta string "metadata option"
  | ChangeAuthenticatedGuardian "guardian option"
  | RemoveCustomFediMod string string
  | LeaveFederationFulfilled string
  | LoadFederation "stored_federation option"
  | PreviewDefaultChatsFulfilled string "'r list"

fun federationReducer :: "'r federation_action \<Rightarrow> 'r federation_state \<Rightarrow> 'r federation_state" where
  "federationReducer (SetFederations fs) s = setFederations fs s"
| "federationReducer (SetPublicFederations fs) s = setPublicFederations fs s"
| "federationReducer (UpdateFederation p) s = updateFederation p s"
| "federationReducer (UpdateFederationBalance i b) s = updateFederationBalance i b s"
| "federationReducer (SetActiveFederationId i) s = setActiveFederationId i s"
| "federationReducer (SetPayFromFederationId i) s = setPayFromFederationId i s"
| "federationReducer (UpdateExternalMeta m) s = updateExternalMeta m s"
| "federationReducer (SetFederationCustomFediMods i ms) s = setFederationCustomFediMods i ms s"
| "federationReducer (SetFederationExternalMeta i m) s = setFederationExternalMeta i m s"
| "federationReducer (ChangeAuthenticatedGuardian g) s = changeAuthenticatedGuardian g s"
| "federationReducer (RemoveCustomFediMod i m) s = removeCustomFediMod i m s"
| "federationReducer (LeaveFederationFulfilled i) s = leaveFederationFulfilled i s"
| "federationReducer (LoadFederation p) s = loadFederationFromStorage p s"
| "federationReducer (PreviewDefaultChatsFulfilled i rs) s = previewCommunityDefaultChatsFulfilled (\<lambda>r. r) i rs s"

text \<open>The invariant: no dictionary has a key twice, and no two federations share an id.\<close>

definition federation_ok :: "'r federation_state \<Rightarrow> bool" where
  "federation_ok s =
     (distinct (map fed_id (federations s)) \<and> distinct (map fst (externalMeta s)) \<and>
      distinct (map fst (customFediMods s)) \<and> distinct (map fst (defaultCommunityChats s)))"

fun federation_action_ok :: "'r federation_action \<Rightarrow> bool" where
  "federation_action_ok (SetFederations fs) = distinct (map fed_id fs)"
| "federation_action_ok (LoadFederation p) =
     (case p of None \<Rightarrow> True | Some st \<Rightarrow> distinct (map fst (sf_externalMeta st)) \<and>
        (case sf_customFediMods st of None \<Rightarrow> True | Some ms \<Rightarrow> distinct (map fst ms)))"
| "federation_action_ok _ = True"

lemma fed_id_apply_patch: "up_id p = Some (fed_id f) \<Longrightarrow> fed_id (apply_patch p f) = fed_id f"
  by (simp add: apply_patch_def)

lemma update_scan_list:
  "fst (update_scan p fs b) = map (\<lambda>f. if up_id p = Some (fed_id f) then apply_patch p f else f) fs"
  by (induction fs arbitrary: b) (auto simp: Let_def)

lemma update_scan_flag:
  assumes "distinct (map fed_id fs)"
  shows "snd (update_scan p fs b) =
    (case find (\<lambda>f. up_id p = Some (fed_id f)) fs of None \<Rightarrow> b | Some f \<Rightarrow> f \<noteq> apply_patch p f)"
  using assms
proof (induction fs arbitrary: b)
  case (Cons f fs)
  have "find (\<lambda>g. up_id p = Some (fed_id g)) fs = None" if "up_id p = Some (fed_id f)"
    using that Cons.prems by (auto simp: find_None_iff)
  then show ?case using Cons by (auto simp: Let_def)
qed simp

lemma updateFederation_federations:
  assumes "distinct (map fed_id (federations s))"
  shows "federations (updateFederation p s) =
    map (\<lambda>f. if up_id p = Some (fed_id f) then apply_patch p f else f) (federations s)"
proof -
  let ?fs = "federations s"
  let ?new = "map (\<lambda>f. if up_id p = Some (fed_id f) then apply_patch p f else f) ?fs"
  have same: "?new = ?fs" if "\<not> snd (update_scan p ?fs False)"
  proof (rule map_idI)
    fix f assume f: "f \<in> set ?fs"
    show "(if up_id p = Some (fed_id f) then apply_patch p f else f) = f"
    proof (cases "up_id p = Some (fed_id f)")
      case True
      then obtain g where g: "find (\<lambda>f. up_id p = Some (fed_id f)) ?fs = Some g"
        using f by (cases "find (\<lambda>f. up_id p = Some (fed_id f)) ?fs") (auto simp: find_None_iff)
      then have "g \<in> set ?fs" "up_id p = Some (fed_id g)" by (auto simp: find_Some_iff)
      then have "g = f" using True f assms by (simp add: distinct_map inj_on_def)
      then show ?thesis using that g True update_scan_flag [OF assms, of p False] by simp
    qed simp
  qed
  show ?thesis
    using same update_scan_list [of p ?fs False]
    by (auto simp: updateFederation_def split: prod.splits)
qed

lemma updateFederation_ids:
  "distinct (map fed_id (federations s)) \<Longrightarrow>
     map fed_id (federations (updateFederation p s)) = map fed_id (federations s)"
  by (auto simp: updateFederation_federations fed_id_apply_patch)

lemma updateFederationBalance_ids:
  "map fed_id (federations (updateFederationBalance i b s)) = map fed_id (federations s)"
  by (auto simp: updateFederationBalance_def split: option.splits)

lemma updateFederation_other:
  "externalMeta (updateFederation p s) = externalMeta s" "customFediMods (updateFederation p s) = customFediMods s"
  "defaultCommunityChats (updateFederation p s) = defaultCommunityChats s"
  by (simp_all add: updateFederation_def split: prod.splits)

lemma distinct_obj_spread: "distinct (map fst a) \<Longrightarrow> distinct (map fst (obj_spread a b))"
  by (induction b arbitrary: a) (auto simp: obj_spread_def)

lemma distinct_upsertRecordEntityId:
  "distinct (map fst r) \<Longrightarrow> distinct (map fst (upsertRecordEntityId merge (Some r) e i))"
  by (simp add: upsertRecordEntityId_def)

lemma federation_ok_step:
  assumes "federation_ok s" and "federation_action_ok a"
  shows "federation_ok (federationReducer a s)"
proof (cases a)
  case (UpdateFederation p)
  then show ?thesis
    using assms by (simp add: federation_ok_def updateFederation_ids updateFederation_other)
next
  case (UpdateFederationBalance i b)
  have "externalMeta (updateFederationBalance i b s) = externalMeta s"
    "customFediMods (updateFederationBalance i b s) = customFediMods s"
    "defaultCommunityChats (updateFederationBalance i b s) = defaultCommunityChats s"
    by (simp_all add: updateFederationBalance_def split: option.splits)
  then show ?thesis
    using assms by (simp add: UpdateFederationBalance federation_ok_def updateFederationBalance_ids)
next
  case (LeaveFederationFulfilled i)
  then show ?thesis
    using assms by (auto simp: federation_ok_def leaveFederationFulfilled_def Let_def distinct_map_filter)
next
  case (LoadFederation p)
  then show ?thesis
    using assms by (auto simp: federation_ok_def loadFederationFromStorage_def split: option.splits)
qed (use assms in \<open>auto simp: federation_ok_def setFederations_def setPublicFederations_def
       setActiveFederationId_def setPayFromFederationId_def updateExternalMeta_def
       setFederationCustomFediMods_def setFederationExternalMeta_def changeAuthenticatedGuardian_def
       removeCustomFediMod_def previewCommunityDefaultChatsFulfilled_def Let_def distinct_obj_spread
       distinct_upsertRecordEntityId\<close>)

interpretation federation_slice:
  reducer "initialFederationState" federationReducer federation_action_ok federation_ok
proof unfold_locales
  show "federation_ok initialFederationState" by (simp add: federation_ok_def initialFederationState_def)
qed (rule federation_ok_step)

section \<open>Selecting the active federation\<close>

lemma fed_id_with_external_meta [simp]: "fed_id (with_external_meta ext f) = fed_id f"
  by (simp add: with_external_meta_def split: option.splits)

lemma fed_hasWallet_with_external_meta [simp]: "fed_hasWallet (with_external_meta ext f) = fed_hasWallet f"
  by (simp add: with_external_meta_def split: option.splits)

lemma selectFederationIds_eq: "selectFederationIds s = map fed_id (federations s)"
  by (simp add: selectFederationIds_def selectFederations_def comp_def)

lemma selected_ids:
  "f \<in> set (selectFederations s) \<Longrightarrow> fed_id f \<in> fed_id ` set (federations s)"
  "f \<in> set (selectWalletFederations s) \<Longrightarrow> fed_id f \<in> fed_id ` set (federations s)"
  by (auto simp: selectFederations_def selectWalletFederations_def split: if_splits)

lemma find_Some_mem: "find P xs = Some x \<Longrightarrow> x \<in> set xs \<and> P x"
  by (auto simp: find_Some_iff)

lemma selectActiveFederation_mem: "selectActiveFederation s = Some f \<Longrightarrow> f \<in> set (selectFederations s)"
  by (auto simp: selectActiveFederation_def Let_def first_of_def nullish_def dest: find_Some_mem
      split: if_splits option.splits list.splits)

lemma selectActiveFederation_None: "selectActiveFederation s = None \<longleftrightarrow> federations s = []"
  by (auto simp: selectActiveFederation_def Let_def first_of_def nullish_def selectFederations_def
      split: if_splits option.splits list.splits)

lemma selectActiveFederation_id:
  assumes "activeFederationId s = Some i" and "i \<noteq> []" and "i \<in> fed_id ` set (federations s)"
  shows "\<exists>f. selectActiveFederation s = Some f \<and> fed_id f = i"
proof -
  obtain f where "find (\<lambda>f. Some (fed_id f) = Some i) (selectFederations s) = Some f"
    using assms(3) by (cases "find (\<lambda>f. Some (fed_id f) = Some i) (selectFederations s)")
      (auto simp: find_None_iff selectFederations_def)
  then show ?thesis using assms by (auto simp: selectActiveFederation_def dest: find_Some_mem)
qed

lemma leave_federations: "federations (leaveFederationFulfilled i s) = filter (\<lambda>f. fed_id f \<noteq> i) (federations s)"
  by (simp add: leaveFederationFulfilled_def Let_def)

lemma leave_payFrom [simp]: "payFromFederationId (leaveFederationFulfilled i s) = payFromFederationId s"
  by (simp add: leaveFederationFulfilled_def Let_def)

lemma leave_externalMeta:
  "obj_get (externalMeta (leaveFederationFulfilled i s)) j = (if j = i then None else obj_get (externalMeta s) j)"
  by (auto simp: leaveFederationFulfilled_def Let_def)

lemma leave_mods: "mods_of (customFediMods (leaveFederationFulfilled i s)) j =
    (if j = i then [] else mods_of (customFediMods s) j)"
  by (auto simp: leaveFederationFulfilled_def Let_def mods_of_def split: option.splits)

lemma leave_active:
  "activeFederationId (leaveFederationFulfilled i s) =
     (let rest = filter (\<lambda>f. fed_id f \<noteq> i) (federations s)
      in if rest = [] then None else if activeFederationId s = Some i then Some (fed_id (hd rest)) else activeFederationId s)"
  by (simp add: leaveFederationFulfilled_def Let_def)

lemma joinFromInvite_hasWallet:
  "joinFromInvite br c r = Inr f \<Longrightarrow> (detectInviteCodeType c = Inr FederationInvite) = fed_hasWallet f"
  by (auto simp: joinFromInvite_def coerceFederationListItem_def split: sum.splits invite_type.splits)

section \<open>Properties\<close>

text \<open>
  C19: leaving a federation removes it, its external metadata and its mods and nothing of any other
  federation; the selected active federation is never the one left, exists as long as any federation is left,
  and stays the same if it was another one chosen by its id.
\<close>

theorem leaveFederation_cleans_up:
  "let s' = leaveFederationFulfilled i s in
    i \<notin> set (selectFederationIds s') \<and> set (selectFederationIds s') = set (selectFederationIds s) - {i} \<and>
    (\<forall>j. obj_get (externalMeta s') j = (if j = i then None else obj_get (externalMeta s) j)) \<and>
    (\<forall>j. mods_of (customFediMods s') j = (if j = i then [] else mods_of (customFediMods s) j)) \<and>
    selectActiveFederationId s' \<noteq> Some i \<and> (selectActiveFederationId s' = None \<longleftrightarrow> federations s' = []) \<and>
    (\<forall>j. activeFederationId s = Some j \<and> j \<noteq> [] \<and> j \<noteq> i \<and> j \<in> set (selectFederationIds s) \<longrightarrow>
       selectActiveFederationId s' = Some j)"
proof -
  define s' where "s' = leaveFederationFulfilled i s"
  have "selectActiveFederationId s' = Some j"
    if "activeFederationId s = Some j" "j \<noteq> []" "j \<noteq> i" "j \<in> set (selectFederationIds s)" for j
  proof -
    have mem: "j \<in> fed_id ` set (federations s')"
      using that by (auto simp: s'_def leave_federations selectFederationIds_eq)
    then have "filter (\<lambda>f. fed_id f \<noteq> i) (federations s) \<noteq> []"
      by (auto simp: s'_def leave_federations filter_empty_conv)
    then have "activeFederationId s' = Some j" using that by (simp add: s'_def leave_active)
    then show ?thesis
      using selectActiveFederation_id [OF _ that(2) mem] by (auto simp: selectActiveFederationId_def)
  qed
  moreover have "selectActiveFederationId s' \<noteq> Some i"
    using selected_ids(1) [OF selectActiveFederation_mem, of s']
    by (force simp: selectActiveFederationId_def s'_def leave_federations)
  ultimately show ?thesis
    unfolding Let_def s'_def [symmetric]
    by (auto simp: s'_def selectFederationIds_eq leave_federations leave_externalMeta leave_mods
        selectActiveFederationId_def selectActiveFederation_None)
qed

theorem leaveFederation_cleans_up_witness:
  "selectActiveFederationId (leaveFederationFulfilled ''b''
     ((initialFederationState :: unit federation_state)\<lparr>federations := [sample_federation ''a'' [], sample_federation ''b'' []],
        activeFederationId := Some ''a''\<rparr>)) = Some ''a''"
  using leaveFederation_cleans_up [of "''b''" "(initialFederationState :: unit federation_state)\<lparr>federations := [sample_federation ''a'' [],
      sample_federation ''b'' []], activeFederationId := Some ''a''\<rparr>"]
  by (simp add: Let_def selectFederationIds_eq sample_federation_def)

text \<open>
  Leaving the federation that was selected to pay from leaves the selection dangling: no payment
  federation is found and its balance reads 0, whatever wallet federations remain and whichever is
  active, until another one is selected.
\<close>

theorem leaveFederation_dangling_payment:
  assumes "payFromFederationId s = Some i" and "i \<noteq> []"
  shows "payFromFederationId (leaveFederationFulfilled i s) = Some i \<and>
    selectPaymentFederation (leaveFederationFulfilled i s) = None \<and>
    selectPaymentFederationBalance (leaveFederationFulfilled i s) = 0"
proof -
  have "find (\<lambda>f. fed_id f = i) (selectWalletFederations (leaveFederationFulfilled i s)) = None"
    using selected_ids(2) by (fastforce simp: find_None_iff leave_federations)
  then show ?thesis using assms by (simp add: selectPaymentFederation_def selectPaymentFederationBalance_def)
qed

theorem leaveFederation_dangling_payment_witness:
  "selectPaymentFederation (leaveFederationFulfilled ''b''
     ((initialFederationState :: unit federation_state)\<lparr>federations := [sample_federation ''a'' [], sample_federation ''b'' []],
        payFromFederationId := Some ''b''\<rparr>)) = None"
  using leaveFederation_dangling_payment [of "(initialFederationState :: unit federation_state)\<lparr>federations := [sample_federation ''a'' [],
      sample_federation ''b'' []], payFromFederationId := Some ''b''\<rparr>" "''b''"] by simp

text \<open>
  When no two federations share an id, \<open>updateFederation\<close> replaces the properties given of exactly
  the federation with the id of the payload, and the active federation keeps its id.
\<close>

theorem updateFederation_exact:
  assumes "federation_ok s"
  shows "federations (updateFederation p s) =
      map (\<lambda>f. if up_id p = Some (fed_id f) then apply_patch p f else f) (federations s) \<and>
    selectFederationIds (updateFederation p s) = selectFederationIds s"
proof -
  have "federations (updateFederation p s) =
      map (\<lambda>f. if up_id p = Some (fed_id f) then apply_patch p f else f) (federations s)"
    using assms by (intro updateFederation_federations) (simp add: federation_ok_def)
  then show ?thesis by (auto simp: selectFederationIds_eq fed_id_apply_patch)
qed

definition sample_patch :: federation_patch where
  "sample_patch = \<lparr>up_id = Some ''a'', up_name = None, up_meta = None, up_version = None, up_balance = Some 7,
     up_recovering = None, up_inviteCode = None\<rparr>"

theorem updateFederation_exact_witness:
  "federations (updateFederation sample_patch ((initialFederationState :: unit federation_state)\<lparr>federations := [sample_federation ''a'' []]\<rparr>)) =
    [(sample_federation ''a'' [])\<lparr>fed_balance := 7\<rparr>]"
  using updateFederation_exact [of "(initialFederationState :: unit federation_state)\<lparr>federations := [sample_federation ''a'' []]\<rparr>" sample_patch]
  by (simp add: federation_ok_def initialFederationState_def sample_federation_def sample_patch_def apply_patch_def)

text \<open>
  C16: Joining: an invalid code or a rejection by the bridge changes nothing and is returned; after
  a successful join, if the bridge lists the joined federation, the thunk returns it (with the metadata now
  known for it) and it is the active one.
\<close>

theorem joinFederation_result:
  "(case joinFromInvite br c r of
      Inl e \<Rightarrow> joinFederation fetched br feds coms c r s = (Inl e, s)
    | Inr f \<Rightarrow>
        fed_id f \<noteq> [] \<and> fed_id f \<in> fed_id ` set feds \<union> com_inviteCode ` set coms \<longrightarrow>
        (\<exists>g s'. joinFederation fetched br feds coms c r s = (Inr g, s') \<and> fed_id g = fed_id f \<and>
           selectActiveFederationId s' = Some (fed_id f) \<and>
           selectFederationIds s' = map fed_id feds @ map com_inviteCode coms))"
proof (cases "joinFromInvite br c r")
  case (Inr f)
  let ?s = "setActiveFederationId (Some (fed_id f)) (refreshFederations fetched feds coms s)"
  have fs: "map fed_id (federations ?s) = map fed_id feds @ map com_inviteCode coms"
    by (simp add: setActiveFederationId_def refreshFederations_def Let_def setFederations_def comp_def
        coerceFederationListItem_def)
  have "activeFederationId ?s = Some (fed_id f)" by (simp add: setActiveFederationId_def)
  moreover have "fed_id ` set (federations ?s) = fed_id ` set feds \<union> com_inviteCode ` set coms"
    using arg_cong [OF fs, of set] by simp
  ultimately have "\<exists>g. selectActiveFederation ?s = Some g \<and> fed_id g = fed_id f"
    if "fed_id f \<noteq> []" "fed_id f \<in> fed_id ` set feds \<union> com_inviteCode ` set coms"
    using that by (intro selectActiveFederation_id) auto
  then show ?thesis
    using Inr fs by (auto simp: joinFederation_def Let_def selectFederationIds_eq selectActiveFederationId_def)
qed (simp add: joinFederation_def)

definition sample_invite_bridge :: invite_bridge where
  "sample_invite_bridge = \<lparr>joinFederation_rpc = \<lambda>c r. Inr (sample_federation ''a'' []),
     joinCommunity_rpc = \<lambda>c. Inl (Error ''no''), federationPreview_rpc = \<lambda>c. Inl (Error ''no''),
     communityPreview_rpc = \<lambda>c. Inl (Error ''no'')\<rparr>"

theorem joinFederation_result_witness:
  "\<exists>g s'. joinFederation (\<lambda>u. None) sample_invite_bridge [sample_federation ''a'' []] [] ''FED1xyz'' False
      (initialFederationState :: unit federation_state) = (Inr g, s') \<and> fed_id g = ''a''"
proof -
  have "detectInviteCodeType ''FED1xyz'' = Inr FederationInvite" by code_simp
  then have "joinFromInvite sample_invite_bridge ''FED1xyz'' False = Inr (sample_federation ''a'' [])"
    by (simp add: joinFromInvite_def sample_invite_bridge_def sample_federation_def)
  then show ?thesis
    using joinFederation_result [where br = sample_invite_bridge and c = "''FED1xyz''" and r = False and fetched = "\<lambda>u. None"
        and feds = "[sample_federation ''a'' []]" and coms = "[]" and s = "initialFederationState :: unit federation_state"]
    by (auto simp: sample_federation_def)
qed

end
