(* ===== verification/MatrixUtils.thy ===== *)
theory MatrixUtils
  imports ChatUtils FederationUtils "HOL-Library.Monad_Syntax"
begin

text \<open>
  \<open>ui/common/types/matrix.ts\<close> and \<open>ui/common/utils/matrix.ts\<close>: rooms, members and events of the
  Matrix chat, the validation of event contents, the grouping of events, previews, power levels, the
  payments that can be claimed from a timeline, and the links to users and rooms. A content is
  validated from a JSON value; the hash, the encoding of URL paths, translations and formatters
  are arguments.
\<close>

section \<open>Data\<close>

datatype payment_status = pushed | requested | accepted | rejected | canceled | received

record payment_content =
  pc_body :: string
  pc_status :: payment_status
  pc_paymentId :: string
  pc_recipientId :: "string option"
  pc_amount :: jsnum
  pc_senderId :: "string option"
  pc_ecash :: "string option"
  pc_federationId :: "string option"
  pc_bolt11 :: "string option"
  pc_inviteCode :: "string option"

record media_info =
  mi_mimetype :: string
  mi_size :: jsnum
  mi_w :: jsnum
  mi_h :: jsnum

datatype json =
    JNull | JBool bool | JNum jsnum | JStr string | JArr "json list" | JObj "(string \<times> json) list"

datatype event_content =
    Text string
  | Notice string
  | Image string media_info
  | Video string string media_info jsnum
  | Emote string
  | Payment payment_content
  | Unknown json json

datatype event_status = Pending | Sent | Failed | Cancelled

record matrix_event =
  ev_id :: string
  ev_content :: event_content
  ev_status :: event_status
  ev_roomId :: string
  ev_txnId :: "string option"
  ev_eventId :: "string option"
  ev_timestamp :: int
  ev_senderId :: "string option"
  ev_error :: "string option"

type_synonym timeline_item = "matrix_event option"

record matrix_auth =
  auth_userId :: string
  auth_deviceId :: string
  auth_displayName :: "string option"
  auth_avatarUrl :: "string option"

record power_levels =
  pl_ban :: "int option"
  pl_invite :: "int option"
  pl_kick :: "int option"
  pl_redact :: "int option"
  pl_state_default :: "int option"
  pl_events_default :: "int option"
  pl_events :: "int jsobj option"
  pl_users :: "int jsobj option"

record room_preview =
  rp_senderId :: string
  rp_eventId :: string
  rp_displayName :: string
  rp_avatarUrl :: "string option"
  rp_body :: json
  rp_timestamp :: int

datatype room_state = Joined | Left | Invited

record matrix_room =
  room_id :: string
  room_name :: string
  room_avatarUrl :: "string option"
  room_preview_of :: "room_preview option"
  room_directUserId :: "string option"
  room_broadcastOnly :: "bool option"
  room_notificationCount :: "int option"
  room_isMarkedUnread :: "bool option"
  room_joinedMemberCount :: "int option"
  room_isPreview :: "bool option"
  room_isPublic :: "bool option"
  room_inviteCode :: string
  room_state_of :: room_state

record group_preview =
  gp_info :: matrix_room
  gp_timeline :: "timeline_item list"
  gp_isDefaultGroup :: "bool option"

record matrix_user =
  user_id :: string
  user_displayName :: "string option"
  user_avatarUrl :: "string option"

record room_member =
  rm_id :: string
  rm_displayName :: "string option"
  rm_avatarUrl :: "string option"
  rm_roomId :: string
  rm_powerLevel :: int
  rm_membership :: string

definition Moderator :: int where "Moderator = 50"
definition Member :: int where "Member = 0"
definition Admin :: int where "Admin = 100"

section \<open>Ids and media URLs\<close>

definition matrixIdToUsername :: "string option \<Rightarrow> string" where
  "matrixIdToUsername i =
     (if truthy_str i then js_replace (before_char (CHR '':'') (the i)) ''@'' [] else ''?'')"

definition GLOBAL_MATRIX_SERVER :: string where
  "GLOBAL_MATRIX_SERVER = ''https://m1.8fa.in''"

text \<open>
  \<open>encode_path\<close> is what assigning to \<open>URL.pathname\<close> does to a path. A width, height or method
  that is 0 or absent is left out.
\<close>

definition mxcUrlToHttpUrl ::
  "(string \<Rightarrow> string) \<Rightarrow> string \<Rightarrow> nat \<Rightarrow> nat \<Rightarrow> string \<Rightarrow> string option"
where
  "mxcUrlToHttpUrl encode_path mxcUrl width height meth =
     (case drop 2 (js_split (CHR ''/'') mxcUrl) of
        serverName # mediaId # _ \<Rightarrow>
          if mediaId = [] then None
          else let params =
                     (if width \<noteq> 0 then [''width='' @ nat_digits width] else []) @
                     (if height \<noteq> 0 then [''height='' @ nat_digits height] else []) @
                     (if meth \<noteq> [] then [''method='' @ meth] else []);
                   url = GLOBAL_MATRIX_SERVER @
                     encode_path (''/_matrix/media/r0/thumbnail/'' @ serverName @ ''/'' @ mediaId)
               in Some (if params = [] then url else url @ ''?'' @ js_join ''&'' params)
      | _ \<Rightarrow> None)"

section \<open>Contents\<close>

definition jget :: "json \<Rightarrow> string \<Rightarrow> json option" where
  "jget j k = (case j of JObj ps \<Rightarrow> map_of ps k | _ \<Rightarrow> None)"

definition jstr :: "json \<Rightarrow> string \<Rightarrow> string option" where
  "jstr j k = (case jget j k of Some (JStr s) \<Rightarrow> Some s | _ \<Rightarrow> None)"

definition jnum :: "json \<Rightarrow> string \<Rightarrow> jsnum option" where
  "jnum j k = (case jget j k of Some (JNum n) \<Rightarrow> if n = NaN then None else Some n | _ \<Rightarrow> None)"

text \<open>\<open>z.string().optional()\<close>: absent, or a string.\<close>

definition jopt :: "json \<Rightarrow> string \<Rightarrow> string option option" where
  "jopt j k = (case jget j k of None \<Rightarrow> Some None | Some (JStr s) \<Rightarrow> Some (Some s) | Some _ \<Rightarrow> None)"

fun status_name :: "payment_status \<Rightarrow> string" where
  "status_name pushed = ''pushed''"
| "status_name requested = ''requested''"
| "status_name accepted = ''accepted''"
| "status_name rejected = ''rejected''"
| "status_name canceled = ''canceled''"
| "status_name received = ''received''"

definition status_of_name :: "string \<Rightarrow> payment_status option" where
  "status_of_name s =
     find (\<lambda>st. status_name st = s) [pushed, requested, accepted, rejected, canceled, received]"

definition parse_media_info :: "json \<Rightarrow> media_info option" where
  "parse_media_info j =
     (case (jstr j ''mimetype'', jnum j ''size'', jnum j ''w'', jnum j ''h'') of
        (Some m, Some s, Some w, Some h) \<Rightarrow> Some \<lparr>mi_mimetype = m, mi_size = s, mi_w = w, mi_h = h\<rparr>
      | _ \<Rightarrow> None)"

definition parse_payment :: "json \<Rightarrow> payment_content option" where
  "parse_payment j =
     do {
       body \<leftarrow> jstr j ''body'';
       status \<leftarrow> Option.bind (jstr j ''status'') status_of_name;
       paymentId \<leftarrow> jstr j ''paymentId'';
       recipientId \<leftarrow> jopt j ''recipientId'';
       amount \<leftarrow> jnum j ''amount'';
       senderId \<leftarrow> jopt j ''senderId'';
       ecash \<leftarrow> jopt j ''ecash'';
       federationId \<leftarrow> jopt j ''federationId'';
       bolt11 \<leftarrow> jopt j ''bolt11'';
       inviteCode \<leftarrow> jopt j ''inviteCode'';
       Some \<lparr>pc_body = body, pc_status = status, pc_paymentId = paymentId, pc_recipientId = recipientId,
         pc_amount = amount, pc_senderId = senderId, pc_ecash = ecash, pc_federationId = federationId,
         pc_bolt11 = bolt11, pc_inviteCode = inviteCode\<rparr>
     }"

text \<open>The schema the message type selects, applied to the content; \<open>None\<close> when one of them fails.\<close>

definition contentSchemas :: "string \<Rightarrow> json \<Rightarrow> event_content option" where
  "contentSchemas msgType j =
     (if msgType = ''m.text'' then map_option Text (jstr j ''body'')
      else if msgType = ''m.notice'' then map_option Notice (jstr j ''body'')
      else if msgType = ''m.image'' then
        (case (jstr j ''body'', Option.bind (jget j ''info'') parse_media_info) of
           (Some b, Some i) \<Rightarrow> Some (Image b i) | _ \<Rightarrow> None)
      else if msgType = ''m.video'' then
        (case (jstr j ''body'', jstr j ''url'', Option.bind (jget j ''info'') parse_media_info,
               Option.bind (jget j ''info'') (\<lambda>i. jnum i ''duration'')) of
           (Some b, Some u, Some i, Some d) \<Rightarrow> Some (Video b u i d) | _ \<Rightarrow> None)
      else if msgType = ''m.emote'' then map_option Emote (jstr j ''body'')
      else if msgType = ''xyz.fedi.payment'' then map_option Payment (parse_payment j)
      else None)"

text \<open>\<open>!!x\<close> of a JSON value.\<close>

fun truthy_json :: "json \<Rightarrow> bool" where
  "truthy_json JNull = False"
| "truthy_json (JBool b) = b"
| "truthy_json (JNum n) = (n \<noteq> NaN \<and> n \<noteq> FinI 0)"
| "truthy_json (JStr s) = (s \<noteq> [])"
| "truthy_json (JArr _) = True"
| "truthy_json (JObj _) = True"

text \<open>The fallback passes on the body whatever its type.\<close>

definition formatMatrixEventContent :: "json \<Rightarrow> event_content" where
  "formatMatrixEventContent content =
     (case Option.bind (jstr content ''msgtype'') (\<lambda>msgType. contentSchemas msgType content) of
        Some c \<Rightarrow> c
      | None \<Rightarrow>
          Unknown (case jget content ''body'' of
                     Some b \<Rightarrow> if truthy_json b then b else JStr ''Unknown message type''
                   | None \<Rightarrow> JStr ''Unknown message type'') content)"

fun content_body :: "event_content \<Rightarrow> json" where
  "content_body (Text b) = JStr b"
| "content_body (Notice b) = JStr b"
| "content_body (Image b _) = JStr b"
| "content_body (Video b _ _ _) = JStr b"
| "content_body (Emote b) = JStr b"
| "content_body (Payment p) = JStr (pc_body p)"
| "content_body (Unknown b _) = b"

fun payment_of :: "event_content \<Rightarrow> payment_content option" where
  "payment_of (Payment p) = Some p"
| "payment_of _ = None"

definition isPaymentEvent :: "matrix_event \<Rightarrow> bool" where
  "isPaymentEvent event = (payment_of (ev_content event) \<noteq> None)"

section \<open>Groups, previews and power levels\<close>

definition same_event_frame :: "matrix_event \<Rightarrow> matrix_event \<Rightarrow> bool" where
  "same_event_frame lastEvent event =
     (ev_timestamp lastEvent \<noteq> 0 \<and> ev_timestamp event \<noteq> 0 \<and>
      \<bar>ev_timestamp lastEvent - ev_timestamp event\<bar> \<le> 60000)"

definition makeMatrixEventGroups :: "matrix_event list \<Rightarrow> sort_order \<Rightarrow> matrix_event list list list" where
  "makeMatrixEventGroups events sortOrder =
     group_loop same_event_frame ev_senderId [] None (order_by ev_timestamp sortOrder events)"

definition makeChatFromPreview :: "group_preview \<Rightarrow> matrix_room" where
  "makeChatFromPreview preview =
     (let msgs = concat (map (\<lambda>t. case t of None \<Rightarrow> [] | Some e \<Rightarrow> [e]) (gp_timeline preview));
          chat = (gp_info preview)\<lparr>room_broadcastOnly := Some True\<rparr>
      in case msgs of
           [] \<Rightarrow> chat
         | first # _ \<Rightarrow>
             let c = foldl (\<lambda>latest current. if ev_timestamp latest > ev_timestamp current then latest else current)
                       first msgs;
                 sender = (case ev_senderId c of None \<Rightarrow> [] | Some s \<Rightarrow> s)
             in chat\<lparr>room_preview_of := Some \<lparr>rp_senderId = sender, rp_eventId = ev_id c, rp_displayName = sender,
                    rp_avatarUrl = None, rp_body = (if truthy_json (content_body (ev_content c)) then content_body (ev_content c) else JStr []),
                    rp_timestamp = ev_timestamp c\<rparr>\<rparr>)"

definition getRoomEventPowerLevel :: "power_levels \<Rightarrow> string list \<Rightarrow> int" where
  "getRoomEventPowerLevel levels events =
     (case concat (map (\<lambda>e. case Option.bind (pl_events levels) (\<lambda>m. obj_get m e) of None \<Rightarrow> [] | Some l \<Rightarrow> [l]) events) of
        l # _ \<Rightarrow> l
      | [] \<Rightarrow> or_zero (pl_events_default levels))"

definition shouldShowUnreadIndicator :: "int option \<Rightarrow> bool option \<Rightarrow> bool" where
  "shouldShowUnreadIndicator notificationCount isMarkedUnread =
     (or_zero notificationCount > 0 \<or> isMarkedUnread = Some True)"

section \<open>Payments\<close>

text \<open>An event without a sender has \<open>null\<close>, a payment without a recipient \<open>undefined\<close>: not equal.\<close>

definition display_name :: "matrix_user option \<Rightarrow> string option \<Rightarrow> string" where
  "display_name user i = the (or_str (Option.bind user user_displayName) (Some (matrixIdToUsername i)))"

definition makeMatrixPaymentText ::
  "(string \<Rightarrow> (string \<times> string) list \<Rightarrow> string) \<Rightarrow> matrix_event \<Rightarrow> payment_content \<Rightarrow> string \<Rightarrow>
   matrix_user option \<Rightarrow> matrix_user option \<Rightarrow> matrix_user option \<Rightarrow> (jsnum \<Rightarrow> formatted_amounts) \<Rightarrow> string"
where
  "makeMatrixPaymentText t event p myId eventSender paymentSender paymentRecipient fmt =
     (let amounts = fmt (pc_amount p);
          params = (\<lambda>name recipient. [(''name'', name), (''recipient'', recipient),
             (''fiat'', formattedPrimaryAmount amounts), (''amount'', formattedSecondaryAmount amounts), (''memo'', [])]);
          std = params (display_name eventSender (ev_senderId event)) (display_name paymentRecipient (pc_recipientId p))
      in if ev_senderId event = pc_recipientId p \<and> ev_senderId event \<noteq> None
         then (if ev_senderId event = Some myId then t ''feature.chat.you-requested-payment'' std
               else t ''feature.chat.they-requested-payment'' std)
         else if pc_recipientId p = Some myId then t ''feature.chat.they-sent-payment'' std
         else if pc_senderId p = Some myId then t ''feature.chat.you-sent-payment'' std
         else t ''feature.chat.other-sent-payment''
                (params (display_name paymentSender (pc_senderId p)) (display_name eventSender (ev_senderId event))))"

definition SUFFIX_LENGTH :: nat where "SUFFIX_LENGTH = 4"

definition getUserSuffix :: "(string \<Rightarrow> string) \<Rightarrow> string \<Rightarrow> string" where
  "getUserSuffix sha256hex i = (let hash = sha256hex i in ''#'' @ drop (length hash - SUFFIX_LENGTH) hash)"

text \<open>The guards of the loop over the timeline: the payment of an item that may be receivable.\<close>

definition receivable_candidate :: "string \<Rightarrow> federation list \<Rightarrow> timeline_item \<Rightarrow> payment_content option" where
  "receivable_candidate myId myFederations item =
     (case item of
        None \<Rightarrow> None
      | Some ev \<Rightarrow>
          (case payment_of (ev_content ev) of
             None \<Rightarrow> None
           | Some p \<Rightarrow>
               if pc_recipientId p \<noteq> Some myId then None
               else if \<not> truthy_str (pc_federationId p) then None
               else case find (\<lambda>f. Some (fed_id f) = pc_federationId p) myFederations of
                      None \<Rightarrow> None
                    | Some joinedFederation \<Rightarrow> if fed_recovering joinedFederation then None else Some p))"

definition latest_payments ::
  "string \<Rightarrow> federation list \<Rightarrow> timeline_item list \<Rightarrow> (matrix_event \<times> payment_content) jsobj"
where
  "latest_payments myId myFederations timeline =
     foldl (\<lambda>latest item.
         case (item, receivable_candidate myId myFederations item) of
           (Some ev, Some p) \<Rightarrow> obj_set (pc_paymentId p) (ev, p) latest
         | _ \<Rightarrow> latest) [] timeline"

definition getReceivablePaymentEvents ::
  "timeline_item list \<Rightarrow> string \<Rightarrow> federation list \<Rightarrow> (matrix_event \<times> payment_content) list"
where
  "getReceivablePaymentEvents timeline myId myFederations =
     filter (\<lambda>(ev, p). pc_status p \<in> {accepted, pushed})
       (obj_values (latest_payments myId myFederations timeline))"

section \<open>Links\<close>

definition is_newline :: "char \<Rightarrow> bool" where
  "is_newline c = (char_code c \<in> {10, 13})"

definition encodeFediMatrixUserUri :: "string \<Rightarrow> bool \<Rightarrow> string" where
  "encodeFediMatrixUserUri i deep = (if deep then ''fedi://user:'' @ i else ''fedi:user:'' @ i)"

definition encodeFediMatrixRoomUri :: "string \<Rightarrow> bool \<Rightarrow> string" where
  "encodeFediMatrixRoomUri i deep = (if deep then ''fedi://room:'' @ i else ''fedi:room:'' @ i @ '':::'')"

text \<open>\<open>/^[@!][^:]+:.+$/\<close>\<close>

definition valid_matrix_id :: "char \<Rightarrow> string \<Rightarrow> bool" where
  "valid_matrix_id sigil i =
     (case i of
        [] \<Rightarrow> False
      | c # s \<Rightarrow>
          c = sigil \<and> takeWhile (\<lambda>x. x \<noteq> CHR '':'') s \<noteq> [] \<and>
          (case dropWhile (\<lambda>x. x \<noteq> CHR '':'') s of
             [] \<Rightarrow> False
           | _ # rest \<Rightarrow> rest \<noteq> [] \<and> list_all (\<lambda>x. \<not> is_newline x) rest))"

definition isValidMatrixUserId :: "string \<Rightarrow> bool" where
  "isValidMatrixUserId i = valid_matrix_id (CHR ''@'') i"

definition isValidMatrixRoomId :: "string \<Rightarrow> bool" where
  "isValidMatrixRoomId i = valid_matrix_id (CHR ''!'') i"

text \<open>The text after a prefix that is matched whatever its case.\<close>

definition strip_prefix_ci :: "string \<Rightarrow> string \<Rightarrow> string option" where
  "strip_prefix_ci p s =
     (if length p \<le> length s \<and> js_lower (take (length p) s) = p then Some (drop (length p) s) else None)"

text \<open>\<open>(.+?)(?:::|$)\<close>: the shortest text before a double colon or the end.\<close>

fun lazy_capture :: "string \<Rightarrow> string option" where
  "lazy_capture [] = None"
| "lazy_capture (c # s) =
     (if is_newline c then None
      else if s = [] \<or> prefix ''::'' s then Some [c]
      else map_option (Cons c) (lazy_capture s))"

definition invalid_room :: js_error where "invalid_room = Error ''feature.chat.invalid-room''"
definition invalid_member :: js_error where "invalid_member = Error ''feature.chat.invalid-member''"

definition decodeFediMatrixRoomUri :: "string \<Rightarrow> js_error + string" where
  "decodeFediMatrixRoomUri uri =
     (case nullish (strip_prefix_ci ''fedi:room:'' uri) (strip_prefix_ci ''fedi://room:'' uri) of
        None \<Rightarrow> Inl invalid_room
      | Some rest \<Rightarrow>
          (case lazy_capture rest of
             None \<Rightarrow> Inl invalid_room
           | Some decodedId \<Rightarrow> if isValidMatrixRoomId decodedId then Inr decodedId else Inl invalid_room))"

definition decodeFediMatrixUserUri :: "string \<Rightarrow> js_error + string" where
  "decodeFediMatrixUserUri uri =
     (case nullish (strip_prefix_ci ''fedi:user:'' uri) (strip_prefix_ci ''fedi://user:'' uri) of
        None \<Rightarrow> Inl invalid_member
      | Some i \<Rightarrow>
          if i = [] \<or> list_ex is_newline i then Inl invalid_member
          else if isValidMatrixUserId i then Inr i else Inl invalid_member)"

section \<open>Receivable payments\<close>

lemma latest_step:
  "foldl (\<lambda>latest item. case (item, receivable_candidate me feds item) of
       (Some ev, Some p) \<Rightarrow> obj_set (pc_paymentId p) (ev, p) latest | _ \<Rightarrow> latest) acc (ts @ [it]) =
    (let l = foldl (\<lambda>latest item. case (item, receivable_candidate me feds item) of
       (Some ev, Some p) \<Rightarrow> obj_set (pc_paymentId p) (ev, p) latest | _ \<Rightarrow> latest) acc ts
     in case (it, receivable_candidate me feds it) of
       (Some ev, Some p) \<Rightarrow> obj_set (pc_paymentId p) (ev, p) l | _ \<Rightarrow> l)"
  by (simp add: Let_def)

lemma latest_payments_snoc:
  "latest_payments me feds (ts @ [it]) =
    (case (it, receivable_candidate me feds it) of
       (Some ev, Some p) \<Rightarrow> obj_set (pc_paymentId p) (ev, p) (latest_payments me feds ts)
     | _ \<Rightarrow> latest_payments me feds ts)"
  unfolding latest_payments_def by (simp only: foldl_append foldl.simps)

lemma distinct_latest_payments: "distinct (map fst (latest_payments me feds ts))"
proof (induction ts rule: rev_induct)
  case (snoc it ts)
  then show ?case unfolding latest_payments_snoc by (auto split: option.splits)
qed (simp add: latest_payments_def)

text \<open>The recorded event of a payment is the last candidate of the timeline with its id.\<close>

definition last_candidate ::
  "string \<Rightarrow> federation list \<Rightarrow> timeline_item list \<Rightarrow> string \<Rightarrow> matrix_event \<Rightarrow> payment_content \<Rightarrow> bool"
where
  "last_candidate me feds ts i ev p =
     (\<exists>pre post. ts = pre @ Some ev # post \<and> receivable_candidate me feds (Some ev) = Some p \<and> pc_paymentId p = i \<and>
        list_all (\<lambda>it. map_option pc_paymentId (receivable_candidate me feds it) \<noteq> Some i) post)"

lemma receivable_candidate_None [simp]: "receivable_candidate me feds None = None"
  by (simp add: receivable_candidate_def)

lemma last_candidate_snoc:
  "last_candidate me feds (ts @ [it]) i ev p =
    (case receivable_candidate me feds it of
       Some q \<Rightarrow> if pc_paymentId q = i then it = Some ev \<and> p = q else last_candidate me feds ts i ev p
     | None \<Rightarrow> last_candidate me feds ts i ev p)"
proof -
  let ?no = "map_option pc_paymentId (receivable_candidate me feds it) \<noteq> Some i"
  have "last_candidate me feds (ts @ [it]) i ev p =
    ((it = Some ev \<and> receivable_candidate me feds (Some ev) = Some p \<and> pc_paymentId p = i) \<or>
     (?no \<and> last_candidate me feds ts i ev p))" (is "?l = ?r")
  proof
    assume ?l
    then obtain pre post where s: "ts @ [it] = pre @ Some ev # post" "receivable_candidate me feds (Some ev) = Some p"
      "pc_paymentId p = i" "list_all (\<lambda>it. map_option pc_paymentId (receivable_candidate me feds it) \<noteq> Some i) post"
      unfolding last_candidate_def by blast
    show ?r
    proof (cases post rule: rev_cases)
      case Nil
      then show ?thesis using s by simp
    next
      case (snoc post' x)
      then show ?thesis using s unfolding last_candidate_def by auto
    qed
  next
    assume ?r
    then show ?l
    proof
      assume "it = Some ev \<and> receivable_candidate me feds (Some ev) = Some p \<and> pc_paymentId p = i"
      then show ?l unfolding last_candidate_def by (intro exI [of _ ts] exI [of _ "[]"]) simp
    next
      assume r: "?no \<and> last_candidate me feds ts i ev p"
      then obtain pre post where s: "ts = pre @ Some ev # post" "receivable_candidate me feds (Some ev) = Some p"
        "pc_paymentId p = i" "list_all (\<lambda>it. map_option pc_paymentId (receivable_candidate me feds it) \<noteq> Some i) post"
        unfolding last_candidate_def by blast
      then show ?l using r unfolding last_candidate_def by (intro exI [of _ pre] exI [of _ "post @ [it]"]) simp
    qed
  qed
  then show ?thesis by (auto split: option.splits)
qed

lemma latest_payments_get:
  "obj_get (latest_payments me feds ts) i = Some (ev, p) \<longleftrightarrow> last_candidate me feds ts i ev p"
proof (induction ts rule: rev_induct)
  case (snoc it ts)
  show ?case
    unfolding latest_payments_snoc last_candidate_snoc using snoc
    by (cases it) (auto split: option.splits)
qed (simp add: latest_payments_def last_candidate_def)

lemma in_receivable:
  "(ev, p) \<in> set (getReceivablePaymentEvents ts me feds) \<longleftrightarrow>
     pc_status p \<in> {accepted, pushed} \<and> last_candidate me feds ts (pc_paymentId p) ev p"
proof -
  have "(i, (ev, p)) \<in> set (latest_payments me feds ts) \<longleftrightarrow> last_candidate me feds ts i ev p" for i
    using in_obj_get [OF distinct_latest_payments] obj_get_in latest_payments_get by metis
  moreover have "last_candidate me feds ts i ev p \<Longrightarrow> i = pc_paymentId p" for i
    by (auto simp: last_candidate_def)
  ultimately show ?thesis by (auto simp: getReceivablePaymentEvents_def in_obj_values)
qed

lemma distinct_fst_entries: "distinct (map fst ob) \<Longrightarrow> distinct (map fst (obj_entries ob))"
  by (metis mset_obj_entries mset_map mset_eq_imp_distinct_iff)

lemma receivable_ids_distinct: "distinct (map (\<lambda>(ev, p). pc_paymentId p) (getReceivablePaymentEvents ts me feds))"
proof -
  let ?es = "obj_entries (latest_payments me feds ts)"
  have k: "fst e = pc_paymentId (snd (snd e))" if "e \<in> set ?es" for e
  proof -
    obtain i ev p where e: "e = (i, ev, p)" by (metis prod.exhaust)
    then have "last_candidate me feds ts i ev p"
      using that in_obj_get [OF distinct_latest_payments] latest_payments_get by (metis set_obj_entries)
    then show ?thesis by (auto simp: e last_candidate_def)
  qed
  have "map (\<lambda>(ev, p). pc_paymentId p) (map snd ?es) = map fst ?es"
    using k by (auto simp: case_prod_beta)
  then have "distinct (map (\<lambda>(ev, p). pc_paymentId p) (map snd ?es))"
    using distinct_fst_entries [OF distinct_latest_payments] by (simp only:)
  then show ?thesis
    unfolding getReceivablePaymentEvents_def obj_values_def by (rule distinct_map_filter)
qed

lemma receivable_candidate_guards:
  assumes "receivable_candidate me feds (Some ev) = Some p"
  shows "payment_of (ev_content ev) = Some p" "pc_recipientId p = Some me"
    "\<exists>f\<in>set feds. pc_federationId p = Some (fed_id f) \<and> fed_id f \<noteq> [] \<and> \<not> fed_recovering f"
  using assms by (auto simp: receivable_candidate_def truthy_str_def find_Some_iff split: option.splits if_splits)

section \<open>Links\<close>

lemma strip_prefix_ci_same:
  assumes "js_lower p = p"
  shows "strip_prefix_ci p (p @ s) = Some s"
  using assms by (simp add: strip_prefix_ci_def)

lemma strip_prefix_ci_other:
  assumes "length q \<le> length p" and "take (length q) p \<noteq> q" and "js_lower (take (length q) p) = take (length q) p"
  shows "strip_prefix_ci q (p @ s) = None"
  using assms by (simp add: strip_prefix_ci_def)

lemma lazy_capture_all:
  assumes "i \<noteq> []" and "list_all (\<lambda>x. \<not> is_newline x) i" and "\<not> js_includes i ''::''"
  shows "lazy_capture i = Some i"
  using assms
proof (induction i)
  case (Cons c s)
  have "\<not> prefix ''::'' s" using Cons.prems(3) by (cases s) auto
  then show ?case using Cons by (cases "s = []") auto
qed simp

lemma lazy_capture_colons:
  assumes "i \<noteq> []" and "list_all (\<lambda>x. \<not> is_newline x) i" and "\<not> js_includes i ''::''" and "last i \<noteq> CHR '':''"
  shows "lazy_capture (i @ '':::'') = Some i"
  using assms
proof (induction i)
  case (Cons c s)
  show ?case
  proof (cases "s = []")
    case True
    then show ?thesis using Cons.prems by simp
  next
    case False
    have "\<not> prefix ''::'' (s @ '':::'')"
    proof
      assume p: "prefix ''::'' (s @ '':::'')"
      show False
      proof (cases s)
        case (Cons x t)
        then have "x = CHR '':''" "t = [] \<or> hd t = CHR '':''" using p by (cases t; simp)+
        then show False using Cons Cons.prems \<open>s \<noteq> []\<close> by (cases t) auto
      qed (use False in simp)
    qed
    then show ?thesis using Cons False by simp
  qed
qed simp

lemma lazy_capture_prefix: "lazy_capture s = Some i \<Longrightarrow> i \<noteq> [] \<and> prefix i s \<and> list_all (\<lambda>x. \<not> is_newline x) i"
  by (induction s arbitrary: i) (auto split: if_splits)

lemma decodeRoom_valid: "decodeFediMatrixRoomUri uri = Inr i \<Longrightarrow> isValidMatrixRoomId i"
  by (auto simp: decodeFediMatrixRoomUri_def split: option.splits if_splits)

lemma decodeUser_valid: "decodeFediMatrixUserUri uri = Inr i \<Longrightarrow> isValidMatrixUserId i"
  by (auto simp: decodeFediMatrixUserUri_def split: option.splits if_splits)

section \<open>Contents as JSON\<close>

definition json_opt :: "string \<Rightarrow> string option \<Rightarrow> (string \<times> json) list" where
  "json_opt k v = (case v of None \<Rightarrow> [] | Some s \<Rightarrow> [(k, JStr s)])"

text \<open>The object the code sends for a payment.\<close>

definition payment_json :: "payment_content \<Rightarrow> json" where
  "payment_json p = JObj ([(''msgtype'', JStr ''xyz.fedi.payment''), (''body'', JStr (pc_body p)),
     (''status'', JStr (status_name (pc_status p))), (''paymentId'', JStr (pc_paymentId p)),
     (''amount'', JNum (pc_amount p))] @ json_opt ''recipientId'' (pc_recipientId p) @ json_opt ''senderId'' (pc_senderId p) @
     json_opt ''ecash'' (pc_ecash p) @ json_opt ''federationId'' (pc_federationId p) @ json_opt ''bolt11'' (pc_bolt11 p) @
     json_opt ''inviteCode'' (pc_inviteCode p))"

lemma status_of_name [simp]: "status_of_name (status_name st) = Some st"
  by (cases st) (simp_all add: status_of_name_def)

lemma map_of_json_opt: "map_of (json_opt k v) k' = (if k' = k then map_option JStr v else None)"
  by (simp add: json_opt_def split: option.splits)

lemma parse_payment_json: "pc_amount p \<noteq> NaN \<Longrightarrow> parse_payment (payment_json p) = Some p"
  by (cases p) (simp add: parse_payment_def payment_json_def jstr_def jopt_def jnum_def jget_def
      map_add_Some_iff map_of_json_opt map_add_def split: option.splits)

section \<open>Properties\<close>

text \<open>
  C23: the events offered for claiming are exactly these: for a payment id, the last event of the timeline
  that is a payment to me in a joined federation that is not recovering, if its status is accepted or
  pushed; no payment id is offered twice.
\<close>

theorem receivable_payments_exact:
  "distinct (map (\<lambda>(ev, p). pc_paymentId p) (getReceivablePaymentEvents timeline myId myFederations)) \<and>
   (\<forall>ev p. (ev, p) \<in> set (getReceivablePaymentEvents timeline myId myFederations) \<longleftrightarrow>
      pc_status p \<in> {accepted, pushed} \<and> last_candidate myId myFederations timeline (pc_paymentId p) ev p)"
  by (simp add: receivable_ids_distinct in_receivable)

text \<open>
  C28: links to users and rooms are decoded back to the id they were made from, deep or not, for every
  valid id without line breaks; a room id must not contain a double colon, nor end in a colon unless the link is
  deep. Whatever is decoded is a valid id.
\<close>

theorem matrix_uri_roundtrip:
  assumes "isValidMatrixUserId u" and "list_all (\<lambda>x. \<not> is_newline x) u"
    and "isValidMatrixRoomId r" and "list_all (\<lambda>x. \<not> is_newline x) r" and "\<not> js_includes r ''::''"
    and "deep \<or> last r \<noteq> CHR '':''"
  shows "decodeFediMatrixUserUri (encodeFediMatrixUserUri u deep) = Inr u \<and>
    decodeFediMatrixRoomUri (encodeFediMatrixRoomUri r deep) = Inr r \<and>
    (\<forall>uri i. decodeFediMatrixUserUri uri = Inr i \<longrightarrow> isValidMatrixUserId i) \<and>
    (\<forall>uri i. decodeFediMatrixRoomUri uri = Inr i \<longrightarrow> isValidMatrixRoomId i)"
proof -
  have low: "js_lower ''fedi:user:'' = ''fedi:user:''" "js_lower ''fedi://user:'' = ''fedi://user:''"
    "js_lower ''fedi:room:'' = ''fedi:room:''" "js_lower ''fedi://room:'' = ''fedi://room:''"
    by code_simp+
  have no: "strip_prefix_ci ''fedi:user:'' (''fedi://user:'' @ s) = None"
    "strip_prefix_ci ''fedi:room:'' (''fedi://room:'' @ s) = None" for s
    by (rule strip_prefix_ci_other; code_simp)+
  have ne: "u \<noteq> []" "r \<noteq> []"
    using assms(1,3) by (auto simp: isValidMatrixUserId_def isValidMatrixRoomId_def valid_matrix_id_def)
  have nn: "\<not> list_ex is_newline u" using assms(2) by (auto simp: list_all_iff list_ex_iff)
  have "decodeFediMatrixUserUri (encodeFediMatrixUserUri u deep) = Inr u"
    using strip_prefix_ci_same [OF low(1)] strip_prefix_ci_same [OF low(2)] no ne nn assms(1)
    by (simp add: decodeFediMatrixUserUri_def encodeFediMatrixUserUri_def del: append.simps)
  moreover have "decodeFediMatrixRoomUri (encodeFediMatrixRoomUri r deep) = Inr r"
    using strip_prefix_ci_same [OF low(3)] strip_prefix_ci_same [OF low(4)] no assms(3,6)
      lazy_capture_all [OF ne(2) assms(4,5)] lazy_capture_colons [OF ne(2) assms(4,5)]
    by (auto simp: decodeFediMatrixRoomUri_def encodeFediMatrixRoomUri_def simp del: append.simps)
  ultimately show ?thesis using decodeUser_valid decodeRoom_valid by blast
qed

theorem matrix_uri_roundtrip_witness:
  "decodeFediMatrixUserUri (encodeFediMatrixUserUri ''@bob:m1.8fa.in'' True) = Inr ''@bob:m1.8fa.in'' \<and>
   decodeFediMatrixRoomUri (encodeFediMatrixRoomUri ''!room:m1.8fa.in'' False) = Inr ''!room:m1.8fa.in''"
proof -
  have "isValidMatrixUserId ''@bob:m1.8fa.in''" "list_all (\<lambda>x. \<not> is_newline x) ''@bob:m1.8fa.in''"
    "isValidMatrixRoomId ''!room:m1.8fa.in''" "list_all (\<lambda>x. \<not> is_newline x) ''!room:m1.8fa.in''"
    "\<not> js_includes ''!room:m1.8fa.in'' ''::''" "last ''!room:m1.8fa.in'' \<noteq> CHR '':''"
    by code_simp+
  then show ?thesis
    using matrix_uri_roundtrip [of "''@bob:m1.8fa.in''" "''!room:m1.8fa.in''" True]
      matrix_uri_roundtrip [of "''@bob:m1.8fa.in''" "''!room:m1.8fa.in''" False] by blast
qed

text \<open>
  A payment survives the chat: the JSON object sent for a payment is validated to the same payment,
  and any content that fails validation is kept whole as an unknown message with a body, which need
  not be a string.
\<close>

theorem payment_content_roundtrip:
  assumes "pc_amount p \<noteq> NaN"
  shows "formatMatrixEventContent (payment_json p) = Payment p \<and>
    (\<forall>j b orig. formatMatrixEventContent j = Unknown b orig \<longrightarrow> orig = j \<and> truthy_json b)"
proof -
  have "jstr (payment_json p) ''msgtype'' = Some ''xyz.fedi.payment''"
    by (simp add: payment_json_def jstr_def jget_def)
  then have "formatMatrixEventContent (payment_json p) = Payment p"
    using parse_payment_json [OF assms] by (simp add: formatMatrixEventContent_def contentSchemas_def)
  moreover have "orig = j \<and> truthy_json b" if "formatMatrixEventContent j = Unknown b orig" for j b orig
  proof -
    have "contentSchemas ty j \<noteq> Some (Unknown b orig)" for ty
      by (auto simp: contentSchemas_def split: option.splits)
    then show ?thesis
      using that by (auto simp: formatMatrixEventContent_def split: option.splits bind_splits if_splits)
  qed
  ultimately show ?thesis by blast
qed

definition sample_payment_content :: payment_content where
  "sample_payment_content = \<lparr>pc_body = ''Sent'', pc_status = pushed, pc_paymentId = ''p1'', pc_recipientId = Some ''@me:x'',
     pc_amount = FinI 1000, pc_senderId = None, pc_ecash = Some ''token'', pc_federationId = Some ''fed'',
     pc_bolt11 = None, pc_inviteCode = None\<rparr>"

theorem payment_content_roundtrip_witness:
  "formatMatrixEventContent (payment_json sample_payment_content) = Payment sample_payment_content"
  using payment_content_roundtrip [of sample_payment_content] by (simp add: sample_payment_content_def)

text \<open>
  The event groups of the Matrix chat are a partition of the events sorted by time stamp, split
  exactly at changes of sender and at gaps of more than a minute.
\<close>

theorem makeMatrixEventGroups_partition:
  "concat (concat (makeMatrixEventGroups events sortOrder)) = order_by ev_timestamp sortOrder events \<and>
   well_grouped same_event_frame ev_senderId (makeMatrixEventGroups events sortOrder)"
  using group_loop_well_grouped [of same_event_frame ev_senderId "[]" None]
  by (simp add: makeMatrixEventGroups_def well_grouped_def)

end
