(* ===== verification/MatrixState.thy ===== *)
theory MatrixState
  imports MatrixUtils RecordUtils Observable FederationState
begin

text \<open>
  The Matrix slice of \<open>ui/common/redux/matrix.ts\<close>: its state, a definition per reducer and per
  fulfilled thunk with the state they write, the reducer that dispatches on the action, and the
  selectors the chat screens read. Rooms, members and users come from the serializers of
  \<open>MatrixChatClient\<close>, which write every property, absent values included, except the three of a
  room that \<open>merge_room\<close> keeps. A reducer that throws leaves the state as it was.
\<close>

section \<open>State\<close>

datatype sync_status = uninitialized | stopped | initialSync | syncing | synced

datatype room_list_item = Loading | Ready string

datatype notification_mode = allMessages | mentionsAndKeywordsOnly | mute

record matrix_state =
  mx_auth :: "matrix_auth option"
  mx_status :: sync_status
  roomList :: "room_list_item list"
  roomInfo :: "matrix_room jsobj"
  roomMembers :: "room_member list jsobj"
  roomTimelines :: "timeline_item list jsobj"
  roomPowerLevels :: "power_levels jsobj"
  roomNotificationMode :: "notification_mode jsobj"
  mx_users :: "matrix_user jsobj"
  mx_errors :: "string list"
  mx_pushToken :: "string option"
  groupPreviews :: "group_preview jsobj"
  drafts :: "string jsobj"

definition initialMatrixState :: matrix_state where
  "initialMatrixState =
     \<lparr>mx_auth = None, mx_status = uninitialized, roomList = [], roomInfo = [], roomMembers = [],
      roomTimelines = [], roomPowerLevels = [], roomNotificationMode = [], mx_users = [], mx_errors = [],
      mx_pushToken = None, groupPreviews = [], drafts = []\<rparr>"

section \<open>Reducers\<close>

definition setMatrixStatus :: "sync_status \<Rightarrow> matrix_state \<Rightarrow> matrix_state" where
  "setMatrixStatus status state = state\<lparr>mx_status := status\<rparr>"

definition setMatrixAuth :: "matrix_auth option \<Rightarrow> matrix_state \<Rightarrow> matrix_state" where
  "setMatrixAuth auth state = state\<lparr>mx_auth := auth\<rparr>"

text \<open>\<open>{...old, ...new}\<close> of rooms: the serializer of rooms never writes the three kept properties.\<close>

definition merge_room :: "matrix_room \<Rightarrow> matrix_room \<Rightarrow> matrix_room" where
  "merge_room old new = new\<lparr>
     room_broadcastOnly := nullish (room_broadcastOnly new) (room_broadcastOnly old),
     room_joinedMemberCount := nullish (room_joinedMemberCount new) (room_joinedMemberCount old),
     room_isPreview := nullish (room_isPreview new) (room_isPreview old)\<rparr>"

definition addMatrixRoomInfo :: "matrix_room \<Rightarrow> matrix_state \<Rightarrow> matrix_state" where
  "addMatrixRoomInfo room state =
     state\<lparr>roomInfo := upsertRecordEntity room_id merge_room (Some (roomInfo state)) room\<rparr>"

definition handleMatrixRoomListObservableUpdates ::
  "room_list_item diff list \<Rightarrow> matrix_state \<Rightarrow> js_error + matrix_state"
where
  "handleMatrixRoomListObservableUpdates updates state =
     (case applyObservableUpdates (roomList state) updates of
        Inl e \<Rightarrow> Inl e
      | Inr xs \<Rightarrow> Inr (state\<lparr>roomList := xs\<rparr>))"

definition merge_room_member :: "room_member \<Rightarrow> room_member \<Rightarrow> room_member" where
  "merge_room_member old new = new"

definition addMatrixRoomMember :: "room_member \<Rightarrow> matrix_state \<Rightarrow> matrix_state" where
  "addMatrixRoomMember member state =
     (let oldRoomMembers = obj_get (roomMembers state) (rm_roomId member);
          newRoomMembers = upsertListItem rm_id merge_room_member None oldRoomMembers member
      in if Some newRoomMembers \<noteq> oldRoomMembers
         then state\<lparr>roomMembers := obj_set (rm_roomId member) newRoomMembers (roomMembers state)\<rparr>
         else state)"

definition setMatrixRoomMembers :: "string \<Rightarrow> room_member list \<Rightarrow> matrix_state \<Rightarrow> matrix_state" where
  "setMatrixRoomMembers roomId ms state = state\<lparr>roomMembers := obj_set roomId ms (roomMembers state)\<rparr>"

definition merge_user :: "matrix_user \<Rightarrow> matrix_user \<Rightarrow> matrix_user" where
  "merge_user old new = new"

definition addMatrixUser :: "matrix_user \<Rightarrow> matrix_state \<Rightarrow> matrix_state" where
  "addMatrixUser user state =
     state\<lparr>mx_users := upsertRecordEntity user_id merge_user (Some (mx_users state)) user\<rparr>"

definition setMatrixUsers :: "matrix_user list \<Rightarrow> matrix_state \<Rightarrow> matrix_state" where
  "setMatrixUsers us state = state\<lparr>mx_users := foldl (\<lambda>acc user. obj_set (user_id user) user acc) [] us\<rparr>"

definition timeline_of :: "matrix_state \<Rightarrow> string \<Rightarrow> timeline_item list" where
  "timeline_of state roomId = (case obj_get (roomTimelines state) roomId of None \<Rightarrow> [] | Some t \<Rightarrow> t)"

definition handleMatrixRoomTimelineObservableUpdates ::
  "string \<Rightarrow> timeline_item diff list \<Rightarrow> matrix_state \<Rightarrow> js_error + matrix_state"
where
  "handleMatrixRoomTimelineObservableUpdates roomId updates state =
     (case applyObservableUpdates (timeline_of state roomId) updates of
        Inl e \<Rightarrow> Inl e
      | Inr xs \<Rightarrow> Inr (state\<lparr>roomTimelines := obj_set roomId xs (roomTimelines state)\<rparr>))"

definition setMatrixRoomPowerLevels :: "string \<Rightarrow> power_levels \<Rightarrow> matrix_state \<Rightarrow> matrix_state" where
  "setMatrixRoomPowerLevels roomId pl state =
     state\<lparr>roomPowerLevels := obj_set roomId pl (roomPowerLevels state)\<rparr>"

definition setMatrixRoomNotificationMode :: "string \<Rightarrow> notification_mode \<Rightarrow> matrix_state \<Rightarrow> matrix_state" where
  "setMatrixRoomNotificationMode roomId mode state =
     state\<lparr>roomNotificationMode := obj_set roomId mode (roomNotificationMode state)\<rparr>"

definition addMatrixError :: "string \<Rightarrow> matrix_state \<Rightarrow> matrix_state" where
  "addMatrixError err state = state\<lparr>mx_errors := mx_errors state @ [err]\<rparr>"

definition resetMatrixState :: "matrix_state \<Rightarrow> matrix_state" where
  "resetMatrixState state = initialMatrixState"

definition setChatDraft :: "string \<Rightarrow> string \<Rightarrow> matrix_state \<Rightarrow> matrix_state" where
  "setChatDraft roomId txt state =
     (let ds = (if length txt = 0 \<and> truthy_str (obj_get (drafts state) roomId)
                then obj_omit roomId (drafts state) else drafts state)
      in state\<lparr>drafts := obj_set roomId txt ds\<rparr>)"

section \<open>What the thunks write\<close>

definition setMatrixDisplayNameFulfilled :: "string \<Rightarrow> matrix_state \<Rightarrow> matrix_state" where
  "setMatrixDisplayNameFulfilled displayName state =
     (case mx_auth state of
        None \<Rightarrow> state
      | Some auth \<Rightarrow> state\<lparr>mx_auth := Some (auth\<lparr>auth_displayName := Some displayName\<rparr>)\<rparr>)"

definition uploadAndSetMatrixAvatarUrlFulfilled ::
  "(string \<Rightarrow> string) \<Rightarrow> string \<Rightarrow> matrix_state \<Rightarrow> matrix_state"
where
  "uploadAndSetMatrixAvatarUrlFulfilled encode_path contentUri state =
     (case mx_auth state of
        None \<Rightarrow> state
      | Some auth \<Rightarrow>
          state\<lparr>mx_auth := Some (auth\<lparr>auth_avatarUrl := mxcUrlToHttpUrl encode_path contentUri 200 200 ''crop''\<rparr>)\<rparr>)"

definition setMatrixRoomMemberPowerLevelFulfilled ::
  "string \<Rightarrow> string \<Rightarrow> int \<Rightarrow> power_levels \<Rightarrow> matrix_state \<Rightarrow> matrix_state"
where
  "setMatrixRoomMemberPowerLevelFulfilled roomId userId powerLevel pl state =
     (let state = state\<lparr>roomPowerLevels := obj_set roomId pl (roomPowerLevels state)\<rparr>;
          ms = obj_get (roomMembers state) roomId
      in case Option.bind ms (find (\<lambda>m. rm_id m = userId)) of
           None \<Rightarrow> state
         | Some member \<Rightarrow>
             state\<lparr>roomMembers := obj_set roomId
               (upsertListItem rm_id merge_room_member None ms (member\<lparr>rm_powerLevel := powerLevel\<rparr>))
               (roomMembers state)\<rparr>)"

definition searchMatrixUsersFulfilled :: "matrix_user list \<Rightarrow> matrix_state \<Rightarrow> matrix_state" where
  "searchMatrixUsersFulfilled results state = fold addMatrixUser results state"

definition previewDefaultGroupChatsFulfilled :: "group_preview list \<Rightarrow> matrix_state \<Rightarrow> matrix_state" where
  "previewDefaultGroupChatsFulfilled previews state =
     state\<lparr>groupPreviews := foldl (\<lambda>result preview.
       obj_set (room_id (gp_info preview)) (preview\<lparr>gp_isDefaultGroup := Some True\<rparr>) result) [] previews\<rparr>"

text \<open>A fetched preview has no \<open>isDefaultGroup\<close>, so the spread keeps that of the existing one.\<close>

definition getMatrixRoomPreviewFulfilled :: "string \<Rightarrow> group_preview \<Rightarrow> matrix_state \<Rightarrow> matrix_state" where
  "getMatrixRoomPreviewFulfilled roomId preview state =
     (let existing = Option.bind (obj_get (groupPreviews state) roomId) gp_isDefaultGroup
      in state\<lparr>groupPreviews := obj_set roomId
           (preview\<lparr>gp_isDefaultGroup := nullish (gp_isDefaultGroup preview) existing\<rparr>) (groupPreviews state)\<rparr>)"

datatype matrix_action =
    SetStatus sync_status
  | SetAuth "matrix_auth option"
  | AddRoomInfo matrix_room
  | RoomListUpdates "room_list_item diff list"
  | AddRoomMember room_member
  | SetRoomMembers string "room_member list"
  | AddUser matrix_user
  | SetUsers "matrix_user list"
  | TimelineUpdates string "timeline_item diff list"
  | SetPowerLevels string power_levels
  | SetNotificationMode string notification_mode
  | AddError string
  | ResetMatrix
  | SetDraft string string
  | StartPending
  | StartFulfilled matrix_auth
  | StartRejected
  | DisplayNameFulfilled string
  | AvatarFulfilled string
  | BroadcastOnlyFulfilled string power_levels
  | MemberPowerLevelFulfilled string string int power_levels
  | SearchUsersFulfilled "matrix_user list"
  | PushNotificationsFulfilled string
  | LoadFulfilled
  | NotificationModeFulfilled string notification_mode
  | PreviewDefaultGroupsFulfilled "group_preview list"
  | RoomPreviewFulfilled string group_preview

definition unless_thrown :: "matrix_state \<Rightarrow> js_error + matrix_state \<Rightarrow> matrix_state" where
  "unless_thrown state r = (case r of Inl e \<Rightarrow> state | Inr state' \<Rightarrow> state')"

fun matrixReducer :: "(string \<Rightarrow> string) \<Rightarrow> matrix_action \<Rightarrow> matrix_state \<Rightarrow> matrix_state" where
  "matrixReducer enc (SetStatus st) s = setMatrixStatus st s"
| "matrixReducer enc (SetAuth a) s = setMatrixAuth a s"
| "matrixReducer enc (AddRoomInfo r) s = addMatrixRoomInfo r s"
| "matrixReducer enc (RoomListUpdates us) s = unless_thrown s (handleMatrixRoomListObservableUpdates us s)"
| "matrixReducer enc (AddRoomMember m) s = addMatrixRoomMember m s"
| "matrixReducer enc (SetRoomMembers r ms) s = setMatrixRoomMembers r ms s"
| "matrixReducer enc (AddUser u) s = addMatrixUser u s"
| "matrixReducer enc (SetUsers us) s = setMatrixUsers us s"
| "matrixReducer enc (TimelineUpdates r us) s =
     unless_thrown s (handleMatrixRoomTimelineObservableUpdates r us s)"
| "matrixReducer enc (SetPowerLevels r pl) s = setMatrixRoomPowerLevels r pl s"
| "matrixReducer enc (SetNotificationMode r m) s = setMatrixRoomNotificationMode r m s"
| "matrixReducer enc (AddError e) s = addMatrixError e s"
| "matrixReducer enc ResetMatrix s = resetMatrixState s"
| "matrixReducer enc (SetDraft r t) s = setChatDraft r t s"
| "matrixReducer enc StartPending s = s\<lparr>mx_status := initialSync\<rparr>"
| "matrixReducer enc (StartFulfilled a) s = s\<lparr>mx_auth := Some a\<rparr>"
| "matrixReducer enc StartRejected s = s\<lparr>mx_status := stopped\<rparr>"
| "matrixReducer enc (DisplayNameFulfilled n) s = setMatrixDisplayNameFulfilled n s"
| "matrixReducer enc (AvatarFulfilled u) s = uploadAndSetMatrixAvatarUrlFulfilled enc u s"
| "matrixReducer enc (BroadcastOnlyFulfilled r pl) s = setMatrixRoomPowerLevels r pl s"
| "matrixReducer enc (MemberPowerLevelFulfilled r u l pl) s = setMatrixRoomMemberPowerLevelFulfilled r u l pl s"
| "matrixReducer enc (SearchUsersFulfilled us) s = searchMatrixUsersFulfilled us s"
| "matrixReducer enc (PushNotificationsFulfilled t) s = s\<lparr>mx_pushToken := Some t\<rparr>"
| "matrixReducer enc LoadFulfilled s = s"
| "matrixReducer enc (NotificationModeFulfilled r m) s = setMatrixRoomNotificationMode r m s"
| "matrixReducer enc (PreviewDefaultGroupsFulfilled ps) s = previewDefaultGroupChatsFulfilled ps s"
| "matrixReducer enc (RoomPreviewFulfilled r p) s = getMatrixRoomPreviewFulfilled r p s"


section \<open>Selectors\<close>

definition selectMatrixStatus :: "matrix_state \<Rightarrow> sync_status" where
  "selectMatrixStatus s = mx_status s"

definition selectIsMatrixReady :: "matrix_state \<Rightarrow> bool" where
  "selectIsMatrixReady s = (selectMatrixStatus s = synced)"

definition message_events :: "string list" where
  "message_events = [''m.room.message'', ''m.room.encrypted'']"

definition selectMatrixRooms :: "matrix_state \<Rightarrow> matrix_room list" where
  "selectMatrixRooms s =
     concat (map (\<lambda>item. case item of
         Loading \<Rightarrow> []
       | Ready i \<Rightarrow>
           if i = [] then []
           else case obj_get (roomInfo s) i of
                  None \<Rightarrow> []
                | Some room \<Rightarrow>
                    [room\<lparr>room_broadcastOnly := Some (case obj_get (roomPowerLevels s) (room_id room) of
                       None \<Rightarrow> False
                     | Some pl \<Rightarrow> getRoomEventPowerLevel pl message_events \<ge> Moderator)\<rparr>]) (roomList s))"

definition selectMatrixAuth :: "matrix_state \<Rightarrow> matrix_auth option" where
  "selectMatrixAuth s =
     map_option (\<lambda>auth. auth\<lparr>auth_displayName :=
       or_str (auth_displayName auth) (Some (matrixIdToUsername (Some (auth_userId auth))))\<rparr>) (mx_auth s)"

definition selectHasSetMatrixDisplayName :: "matrix_state \<Rightarrow> bool" where
  "selectHasSetMatrixDisplayName s =
     (case Option.bind (mx_auth s) auth_displayName of
        None \<Rightarrow> False
      | Some n \<Rightarrow> n \<noteq> [] \<and> length n \<le> 21)"

definition selectMatrixDisplayNameSuffix :: "(string \<Rightarrow> string) \<Rightarrow> matrix_state \<Rightarrow> string" where
  "selectMatrixDisplayNameSuffix sha256hex s =
     (case mx_auth s of None \<Rightarrow> [] | Some auth \<Rightarrow> getUserSuffix sha256hex (auth_userId auth))"

definition selectNeedsMatrixRegistration :: "matrix_state \<Rightarrow> bool" where
  "selectNeedsMatrixRegistration s = (mx_auth s = None \<or> \<not> selectHasSetMatrixDisplayName s)"

definition selectMatrixUser :: "matrix_state \<Rightarrow> string \<Rightarrow> matrix_user option" where
  "selectMatrixUser s userId = obj_get (mx_users s) userId"

text \<open>The default groups listed beside the rooms: the entry, or nothing, for one preview.\<close>

definition default_group_chat :: "matrix_room list \<Rightarrow> group_preview \<Rightarrow> matrix_room list" where
  "default_group_chat roomsList preview =
     (if gp_isDefaultGroup preview \<noteq> Some True then []
      else if filter (\<lambda>t. t \<noteq> None) (gp_timeline preview) = [] then []
      else if find (\<lambda>r. room_id r = room_id (gp_info preview)) roomsList \<noteq> None then []
      else [makeChatFromPreview preview])"

definition preview_time :: "matrix_room \<Rightarrow> int" where
  "preview_time room = or_zero (map_option rp_timestamp (room_preview_of room))"

definition selectMatrixChatsList :: "matrix_state \<Rightarrow> matrix_room list" where
  "selectMatrixChatsList s =
     (let roomsList = selectMatrixRooms s;
          defaultGroupsList = concat (map (default_group_chat roomsList) (obj_values (groupPreviews s)));
          joinedRoomsList = filter (\<lambda>r. room_state_of r = Joined) roomsList
      in order_desc preview_time (joinedRoomsList @ defaultGroupsList))"

definition selectIsMatrixChatEmpty :: "matrix_state \<Rightarrow> bool" where
  "selectIsMatrixChatEmpty s = (length (selectMatrixChatsList s) = 0)"

definition selectMatrixRoom :: "matrix_state \<Rightarrow> string \<Rightarrow> matrix_room option" where
  "selectMatrixRoom s roomId = find (\<lambda>room. room_id room = roomId) (selectMatrixRooms s)"

definition selectGroupPreview :: "matrix_state \<Rightarrow> string \<Rightarrow> group_preview option" where
  "selectGroupPreview s roomId = obj_get (groupPreviews s) roomId"

definition selectMatrixRoomPowerLevels :: "matrix_state \<Rightarrow> string \<Rightarrow> power_levels option" where
  "selectMatrixRoomPowerLevels s roomId = obj_get (roomPowerLevels s) roomId"

definition selectMatrixRoomNotificationMode :: "matrix_state \<Rightarrow> string \<Rightarrow> notification_mode option" where
  "selectMatrixRoomNotificationMode s roomId = obj_get (roomNotificationMode s) roomId"

definition selectMatrixRoomMembers :: "matrix_state \<Rightarrow> string \<Rightarrow> room_member list" where
  "selectMatrixRoomMembers s roomId = (case obj_get (roomMembers s) roomId of None \<Rightarrow> [] | Some ms \<Rightarrow> ms)"

definition selectActiveMatrixRoomMembers :: "matrix_state \<Rightarrow> string \<Rightarrow> room_member list" where
  "selectActiveMatrixRoomMembers s roomId =
     filter (\<lambda>m. rm_membership m = ''join'') (selectMatrixRoomMembers s roomId)"

definition selectMatrixRoomMembersByMe :: "matrix_state \<Rightarrow> string \<Rightarrow> room_member list" where
  "selectMatrixRoomMembersByMe s roomId =
     (let ms = selectActiveMatrixRoomMembers s roomId;
          index = find_index (\<lambda>m. Some (rm_id m) = map_option auth_userId (selectMatrixAuth s)) ms
      in if index = length ms then ms else ms ! index # take index ms @ drop (index + 1) ms)"

definition selectMatrixRoomMembersCount :: "matrix_state \<Rightarrow> string \<Rightarrow> nat" where
  "selectMatrixRoomMembersCount s roomId = length (selectActiveMatrixRoomMembers s roomId)"

definition selectMatrixRoomMemberMap :: "matrix_state \<Rightarrow> string \<Rightarrow> room_member jsobj" where
  "selectMatrixRoomMemberMap s roomId =
     foldl (\<lambda>acc member. obj_set (rm_id member) member acc) [] (selectMatrixRoomMembers s roomId)"

definition selectMatrixRoomMember :: "matrix_state \<Rightarrow> string \<Rightarrow> string \<Rightarrow> room_member option" where
  "selectMatrixRoomMember s roomId userId = find (\<lambda>m. rm_id m = userId) (selectMatrixRoomMembers s roomId)"

definition selectMatrixRoomEventsHaveLoaded :: "matrix_state \<Rightarrow> string \<Rightarrow> bool" where
  "selectMatrixRoomEventsHaveLoaded s roomId = (obj_get (roomTimelines s) roomId \<noteq> None)"


section \<open>Selectors on events and payments\<close>

text \<open>\<open>{...event.content, ...latestPayment.content}\<close> of two payments.\<close>

definition merge_payment :: "payment_content \<Rightarrow> payment_content \<Rightarrow> payment_content" where
  "merge_payment old new = new\<lparr>
     pc_recipientId := nullish (pc_recipientId new) (pc_recipientId old),
     pc_senderId := nullish (pc_senderId new) (pc_senderId old),
     pc_ecash := nullish (pc_ecash new) (pc_ecash old),
     pc_federationId := nullish (pc_federationId new) (pc_federationId old),
     pc_bolt11 := nullish (pc_bolt11 new) (pc_bolt11 old),
     pc_inviteCode := nullish (pc_inviteCode new) (pc_inviteCode old)\<rparr>"

text \<open>The filter over the events with the dictionary its closure writes.\<close>

fun filter_payments ::
  "matrix_event list \<Rightarrow> (matrix_event \<times> payment_content) jsobj \<Rightarrow>
   matrix_event list \<times> (matrix_event \<times> payment_content) jsobj"
where
  "filter_payments [] latestPayments = ([], latestPayments)"
| "filter_payments (event # rest) latestPayments =
     (case payment_of (ev_content event) of
        None \<Rightarrow> (let r = filter_payments rest latestPayments in (event # fst r, snd r))
      | Some p \<Rightarrow>
          (let r = filter_payments rest (obj_set (pc_paymentId p) (event, p) latestPayments)
           in (if pc_status p \<in> {pushed, requested} then event # fst r else fst r, snd r)))"

definition with_latest :: "(matrix_event \<times> payment_content) jsobj \<Rightarrow> matrix_event \<Rightarrow> matrix_event" where
  "with_latest latestPayments event =
     (case payment_of (ev_content event) of
        None \<Rightarrow> event
      | Some p \<Rightarrow>
          (case obj_get latestPayments (pc_paymentId p) of
             None \<Rightarrow> event
           | Some (latestPayment, q) \<Rightarrow>
               if ev_id event = ev_id latestPayment then event
               else event\<lparr>ev_content := Payment (merge_payment p q)\<rparr>))"

definition events_of :: "timeline_item list \<Rightarrow> matrix_event list" where
  "events_of timeline = concat (map (\<lambda>item. case item of None \<Rightarrow> [] | Some e \<Rightarrow> [e]) timeline)"

definition selectMatrixRoomEvents :: "matrix_state \<Rightarrow> string \<Rightarrow> matrix_event list" where
  "selectMatrixRoomEvents s roomId =
     (case obj_get (roomTimelines s) roomId of
        None \<Rightarrow> []
      | Some timeline \<Rightarrow>
          (let (events, latestPayments) = filter_payments (events_of timeline) []
           in map (with_latest latestPayments) events))"

definition selectMatrixRoomLatestPaymentEvent :: "matrix_state \<Rightarrow> string \<Rightarrow> string \<Rightarrow> matrix_event option" where
  "selectMatrixRoomLatestPaymentEvent s roomId paymentId =
     find (\<lambda>event. map_option pc_paymentId (payment_of (ev_content event)) = Some paymentId)
       (rev (selectMatrixRoomEvents s roomId))"

definition selectMatrixRoomSelfPowerLevel :: "matrix_state \<Rightarrow> string \<Rightarrow> int" where
  "selectMatrixRoomSelfPowerLevel s roomId =
     or_zero (map_option rm_powerLevel
       (find (\<lambda>m. Some (rm_id m) = map_option auth_userId (selectMatrixAuth s)) (selectMatrixRoomMembers s roomId)))"

definition selectMatrixRoomIsReadOnly :: "matrix_state \<Rightarrow> string \<Rightarrow> bool" where
  "selectMatrixRoomIsReadOnly s roomId =
     (case selectMatrixRoomPowerLevels s roomId of
        None \<Rightarrow> False
      | Some pl \<Rightarrow> getRoomEventPowerLevel pl message_events > selectMatrixRoomSelfPowerLevel s roomId)"

definition selectMatrixDirectMessageRoom :: "matrix_state \<Rightarrow> string \<Rightarrow> matrix_room option" where
  "selectMatrixDirectMessageRoom s userId = find (\<lambda>room. room_directUserId room = Some userId) (selectMatrixRooms s)"

definition selectMatrixHasNotifications :: "matrix_state \<Rightarrow> bool" where
  "selectMatrixHasNotifications s =
     list_ex (\<lambda>room. shouldShowUnreadIndicator (room_notificationCount room) (room_isMarkedUnread room))
       (selectMatrixRooms s)"

fun recent_members ::
  "room_member list jsobj \<Rightarrow> int \<Rightarrow> matrix_room list \<Rightarrow> room_member list \<Rightarrow> room_member list"
where
  "recent_members members_of limit [] recentUsers = recentUsers"
| "recent_members members_of limit (room # rest) recentUsers =
     (if \<not> truthy_str (room_directUserId room) then recent_members members_of limit rest recentUsers
      else if list_ex (\<lambda>u. Some (rm_id u) = room_directUserId room) recentUsers
      then recent_members members_of limit rest recentUsers
      else case Option.bind (obj_get members_of (room_id room)) (find (\<lambda>m. Some (rm_id m) = room_directUserId room)) of
             None \<Rightarrow> recent_members members_of limit rest recentUsers
           | Some user \<Rightarrow>
               if int (length (recentUsers @ [user])) \<ge> limit then recentUsers @ [user]
               else recent_members members_of limit rest (recentUsers @ [user]))"

definition selectRecentMatrixRoomMembers :: "matrix_state \<Rightarrow> int option \<Rightarrow> room_member list" where
  "selectRecentMatrixRoomMembers s limit =
     recent_members (roomMembers s) (if truthy_int limit then the limit else 4) (selectMatrixRooms s) []"

definition selectLatestMatrixRoomEventId :: "matrix_state \<Rightarrow> string \<Rightarrow> string option" where
  "selectLatestMatrixRoomEventId s roomId =
     Option.bind (obj_get (roomTimelines s) roomId) (\<lambda>timeline.
       Option.bind (find (\<lambda>e. truthy_str (ev_eventId e)) (rev (events_of timeline))) ev_eventId)"

definition can_afford :: "payment_content \<Rightarrow> federation \<Rightarrow> bool" where
  "can_afford p f = (fed_hasWallet f \<and> fed_balance f \<noteq> 0 \<and> js_lt (pc_amount p) (FinI (fed_balance f)))"

definition selectCanPayFromOtherFeds :: "'r federation_state \<Rightarrow> payment_content \<Rightarrow> bool" where
  "selectCanPayFromOtherFeds s p = (find (can_afford p) (selectFederations s) \<noteq> None)"

definition selectCanSendPayment :: "'r federation_state \<Rightarrow> payment_content \<Rightarrow> bool" where
  "selectCanSendPayment s p =
     (find (\<lambda>f. Some (fed_id f) = pc_federationId p \<and> can_afford p f) (selectFederations s) \<noteq> None)"

definition selectCanClaimPayment :: "'r federation_state \<Rightarrow> payment_content \<Rightarrow> bool" where
  "selectCanClaimPayment s p = (find (\<lambda>f. Some (fed_id f) = pc_federationId p) (selectFederations s) \<noteq> None)"

text \<open>\<open>parse\<close> is the JSON parser of the metadata field, as in \<open>getFederationGroupChats\<close>.\<close>

definition selectCommunityDefaultRoomIds ::
  "(string \<Rightarrow> js_error + string list) \<Rightarrow> 'r federation_state \<Rightarrow> string \<Rightarrow> string list"
where
  "selectCommunityDefaultRoomIds parse s federationId =
     (case selectFederation s federationId of
        None \<Rightarrow> []
      | Some f \<Rightarrow> getFederationGroupChats parse (fed_meta f))"

definition selectGlobalCommunityMeta :: "'r federation_state \<Rightarrow> metadata option" where
  "selectGlobalCommunityMeta s = obj_get (externalMeta s) GLOBAL_COMMUNITY_ID"

definition selectDefaultMatrixRoomIds ::
  "(string \<Rightarrow> js_error + string list) \<Rightarrow> 'r federation_state \<Rightarrow> string list"
where
  "selectDefaultMatrixRoomIds parse s =
     concat (map (\<lambda>f. getFederationGroupChats parse (fed_meta f)) (selectFederations s)) @
     (case selectGlobalCommunityMeta s of None \<Rightarrow> [] | Some m \<Rightarrow> getFederationGroupChats parse m)"


section \<open>The invariant\<close>

text \<open>An entity is stored under its own id, and no member is listed twice in a room.\<close>

definition members_ok :: "room_member list jsobj \<Rightarrow> bool" where
  "members_ok ob = (distinct (map fst ob) \<and> list_all (\<lambda>(k, ms). distinct (map rm_id ms)) ob)"

definition matrix_ok :: "matrix_state \<Rightarrow> bool" where
  "matrix_ok s =
     (keyed_by room_id (roomInfo s) \<and> keyed_by user_id (mx_users s) \<and> members_ok (roomMembers s) \<and>
      keyed_by (\<lambda>p. room_id (gp_info p)) (groupPreviews s))"

text \<open>The bridge lists a member once and answers a preview request with the room asked for.\<close>

fun matrix_action_ok :: "matrix_action \<Rightarrow> bool" where
  "matrix_action_ok (SetRoomMembers r ms) = distinct (map rm_id ms)"
| "matrix_action_ok (RoomPreviewFulfilled r p) = (room_id (gp_info p) = r)"
| "matrix_action_ok _ = True"

lemma keyed_by_upsert:
  assumes "keyed_by ident ob" and "\<And>o' i. ident (merge o' i) = ident i"
  shows "keyed_by ident (upsertRecordEntity ident merge (Some ob) e)"
  using assms by (auto simp: upsertRecordEntity_def intro!: keyed_by_set split: option.splits)

lemma members_ok_set: "members_ok ob \<Longrightarrow> distinct (map rm_id ms) \<Longrightarrow> members_ok (obj_set k ms ob)"
  by (simp add: members_ok_def list_all_obj_set)

lemma members_ok_get: "members_ok ob \<Longrightarrow> obj_get ob k = Some ms \<Longrightarrow> distinct (map rm_id ms)"
  by (auto simp: members_ok_def list_all_iff dest: obj_get_in)

definition room_member_upsert :: "room_member \<Rightarrow> room_member list \<Rightarrow> room_member list" where
  "room_member_upsert m xs = upsertListItem rm_id merge_room_member None (Some xs) m"

interpretation room_members: list_upsert rm_id room_member_upsert
  by unfold_locales
    (auto simp: room_member_upsert_def merge_room_member_def intro!: upsertListItem_ids upsertListItem_distinct)

lemma upsert_member_distinct:
  assumes "members_ok ob"
  shows "distinct (map rm_id (upsertListItem rm_id merge_room_member None (obj_get ob k) m))"
  using room_members.ups_distinct [of "[]" m] room_members.ups_distinct [OF members_ok_get [OF assms], of k _ m]
  by (cases "obj_get ob k") (simp_all add: room_member_upsert_def upsertListItem_None)

lemma merge_room_id [simp]: "room_id (merge_room old new) = room_id new"
  by (simp add: merge_room_def)

lemma merge_user_id [simp]: "user_id (merge_user old new) = user_id new"
  by (simp add: merge_user_def)

lemma matrix_ok_addUser: "matrix_ok s \<Longrightarrow> matrix_ok (addMatrixUser u s)"
  by (simp add: matrix_ok_def addMatrixUser_def keyed_by_upsert)

lemma matrix_ok_addUsers: "matrix_ok s \<Longrightarrow> matrix_ok (fold addMatrixUser us s)"
  by (induction us arbitrary: s) (auto intro: matrix_ok_addUser)

lemma matrix_ok_addMember: "matrix_ok s \<Longrightarrow> matrix_ok (addMatrixRoomMember m s)"
  by (simp add: matrix_ok_def addMatrixRoomMember_def Let_def members_ok_set upsert_member_distinct)

lemma matrix_ok_memberPower: "matrix_ok s \<Longrightarrow> matrix_ok (setMatrixRoomMemberPowerLevelFulfilled r u l pl s)"
  by (auto simp: matrix_ok_def setMatrixRoomMemberPowerLevelFulfilled_def Let_def
      intro!: members_ok_set upsert_member_distinct split: option.splits)

lemma matrix_ok_preview:
  "matrix_ok s \<Longrightarrow> room_id (gp_info p) = r \<Longrightarrow> matrix_ok (getMatrixRoomPreviewFulfilled r p s)"
  by (simp add: matrix_ok_def getMatrixRoomPreviewFulfilled_def Let_def keyed_by_set)

lemma matrix_ok_previews: "matrix_ok s \<Longrightarrow> matrix_ok (previewDefaultGroupChatsFulfilled ps s)"
  by (simp add: matrix_ok_def previewDefaultGroupChatsFulfilled_def keyed_by_foldl)

lemma matrix_ok_users: "matrix_ok s \<Longrightarrow> matrix_ok (setMatrixUsers us s)"
  by (simp add: matrix_ok_def setMatrixUsers_def keyed_by_foldl)

lemma matrix_ok_room: "matrix_ok s \<Longrightarrow> matrix_ok (addMatrixRoomInfo r s)"
  by (simp add: matrix_ok_def addMatrixRoomInfo_def keyed_by_upsert)

lemma matrix_ok_members: "matrix_ok s \<Longrightarrow> distinct (map rm_id ms) \<Longrightarrow> matrix_ok (setMatrixRoomMembers r ms s)"
  by (simp add: matrix_ok_def setMatrixRoomMembers_def members_ok_set)

lemma matrix_ok_initial: "matrix_ok initialMatrixState"
  by (simp add: matrix_ok_def initialMatrixState_def members_ok_def)

lemmas matrix_ok_intros = matrix_ok_addUsers matrix_ok_addUser matrix_ok_addMember matrix_ok_memberPower
  matrix_ok_preview matrix_ok_previews matrix_ok_users matrix_ok_room matrix_ok_members matrix_ok_initial

lemma matrix_ok_step: "matrix_ok s \<Longrightarrow> matrix_action_ok a \<Longrightarrow> matrix_ok (matrixReducer enc a s)"
proof (cases a)
  case (DisplayNameFulfilled n)
  assume "matrix_ok s"
  then show ?thesis
    using DisplayNameFulfilled
    by (auto simp: setMatrixDisplayNameFulfilled_def matrix_ok_def split: option.splits)
next
  case (AvatarFulfilled u)
  assume "matrix_ok s"
  then show ?thesis
    using AvatarFulfilled
    by (auto simp: uploadAndSetMatrixAvatarUrlFulfilled_def matrix_ok_def split: option.splits)
next
  case (RoomListUpdates us)
  assume "matrix_ok s"
  then show ?thesis
    using RoomListUpdates
    by (auto simp: unless_thrown_def handleMatrixRoomListObservableUpdates_def matrix_ok_def split: sum.splits)
next
  case (TimelineUpdates r us)
  assume "matrix_ok s"
  then show ?thesis
    using TimelineUpdates
    by (auto simp: unless_thrown_def handleMatrixRoomTimelineObservableUpdates_def matrix_ok_def split: sum.splits)
qed (simp_all add: matrix_ok_intros searchMatrixUsersFulfilled_def resetMatrixState_def,
    simp_all add: matrix_ok_def setMatrixStatus_def setMatrixAuth_def setMatrixRoomPowerLevels_def
      setMatrixRoomNotificationMode_def addMatrixError_def setChatDraft_def Let_def)

interpretation matrix_slice: reducer initialMatrixState "matrixReducer enc" matrix_action_ok matrix_ok
  for enc by unfold_locales (auto intro: matrix_ok_initial matrix_ok_step)


text \<open>What holds of every action, whatever the bridge answers: the dictionaries of rooms and users.\<close>

definition entities_keyed :: "matrix_state \<Rightarrow> bool" where
  "entities_keyed s = (keyed_by room_id (roomInfo s) \<and> keyed_by user_id (mx_users s))"

lemma entities_keyed_users: "entities_keyed s \<Longrightarrow> entities_keyed (fold addMatrixUser us s)"
  by (induction us arbitrary: s) (simp_all add: entities_keyed_def addMatrixUser_def keyed_by_upsert)

lemma reducer_frames:
  "roomInfo (setMatrixRoomMemberPowerLevelFulfilled r u l pl s) = roomInfo s"
  "mx_users (setMatrixRoomMemberPowerLevelFulfilled r u l pl s) = mx_users s"
  "roomInfo (addMatrixRoomMember m s) = roomInfo s" "mx_users (addMatrixRoomMember m s) = mx_users s"
  "roomInfo (setMatrixDisplayNameFulfilled n s) = roomInfo s" "mx_users (setMatrixDisplayNameFulfilled n s) = mx_users s"
  "roomMembers (setMatrixDisplayNameFulfilled n s) = roomMembers s"
  "roomInfo (uploadAndSetMatrixAvatarUrlFulfilled enc c s) = roomInfo s"
  "mx_users (uploadAndSetMatrixAvatarUrlFulfilled enc c s) = mx_users s"
  "roomMembers (uploadAndSetMatrixAvatarUrlFulfilled enc c s) = roomMembers s"
  "roomInfo (unless_thrown s (handleMatrixRoomListObservableUpdates us s)) = roomInfo s"
  "mx_users (unless_thrown s (handleMatrixRoomListObservableUpdates us s)) = mx_users s"
  "roomMembers (unless_thrown s (handleMatrixRoomListObservableUpdates us s)) = roomMembers s"
  "roomInfo (unless_thrown s (handleMatrixRoomTimelineObservableUpdates r ts s)) = roomInfo s"
  "mx_users (unless_thrown s (handleMatrixRoomTimelineObservableUpdates r ts s)) = mx_users s"
  "roomMembers (unless_thrown s (handleMatrixRoomTimelineObservableUpdates r ts s)) = roomMembers s"
  by (simp_all add: setMatrixRoomMemberPowerLevelFulfilled_def addMatrixRoomMember_def setMatrixDisplayNameFulfilled_def
      uploadAndSetMatrixAvatarUrlFulfilled_def unless_thrown_def handleMatrixRoomListObservableUpdates_def
      handleMatrixRoomTimelineObservableUpdates_def Let_def split: option.split sum.split)

lemmas plain_reducer_defs = setMatrixStatus_def setMatrixAuth_def setMatrixRoomPowerLevels_def setMatrixRoomMembers_def
  setMatrixRoomNotificationMode_def addMatrixError_def setChatDraft_def previewDefaultGroupChatsFulfilled_def
  getMatrixRoomPreviewFulfilled_def addMatrixRoomInfo_def setMatrixUsers_def resetMatrixState_def initialMatrixState_def

lemma entities_keyed_step: "entities_keyed s \<Longrightarrow> entities_keyed (matrixReducer enc a s)"
proof (cases a)
  case (SearchUsersFulfilled us)
  assume "entities_keyed s"
  then show ?thesis by (simp add: SearchUsersFulfilled searchMatrixUsersFulfilled_def entities_keyed_users)
next
  case (AddUser u)
  assume "entities_keyed s"
  then show ?thesis using entities_keyed_users [of s "[u]"] by (simp add: AddUser)
qed (simp_all add: entities_keyed_def reducer_frames plain_reducer_defs Let_def keyed_by_upsert keyed_by_foldl)

interpretation matrix_entities: reducer initialMatrixState "matrixReducer enc" "\<lambda>a. True" entities_keyed
  for enc by unfold_locales (simp_all add: entities_keyed_step, simp add: entities_keyed_def initialMatrixState_def)

text \<open>How often a room lists a user, as the state has it and as the actions say.\<close>

definition times_listed :: "string \<Rightarrow> string \<Rightarrow> matrix_state \<Rightarrow> nat" where
  "times_listed roomId userId s = count_list (map rm_id (selectMatrixRoomMembers s roomId)) userId"

fun listed_times :: "string \<Rightarrow> string \<Rightarrow> matrix_action \<Rightarrow> nat \<Rightarrow> nat" where
  "listed_times roomId userId (SetRoomMembers r ms) n = (if r = roomId then count_list (map rm_id ms) userId else n)"
| "listed_times roomId userId (AddRoomMember m) n = (if rm_roomId m = roomId \<and> rm_id m = userId then max 1 n else n)"
| "listed_times roomId userId ResetMatrix n = 0"
| "listed_times roomId userId _ n = n"

lemma upsert_member_times:
  "count_list (map rm_id (upsertListItem rm_id merge_room_member None list m)) u =
     (let n = count_list (map rm_id (case list of None \<Rightarrow> [] | Some xs \<Rightarrow> xs)) u in if rm_id m = u then max 1 n else n)"
proof -
  have "count_list (map rm_id (upsertListItem rm_id merge_room_member None (Some xs) m)) u =
      (if rm_id m = u then max 1 (count_list (map rm_id xs) u) else count_list (map rm_id xs) u)" for xs
  proof -
    have ids: "map rm_id (upsertListItem rm_id merge_room_member None (Some xs) m) =
        map rm_id xs @ (if rm_id m \<in> rm_id ` set xs then [] else [rm_id m])"
      by (rule upsertListItem_id_list) (simp add: merge_room_member_def)
    have zero: "count_list (map rm_id xs) u = 0 \<longleftrightarrow> u \<notin> rm_id ` set xs" by (simp add: count_list_0_iff)
    show ?thesis unfolding ids using zero by (auto simp: count_list_append max_def)
  qed
  then show ?thesis by (cases list) (simp_all add: upsertListItem_None Let_def)
qed

lemma times_listed_member: "times_listed r u (addMatrixRoomMember m s) = listed_times r u (AddRoomMember m) (times_listed r u s)"
  using upsert_member_times [of "obj_get (roomMembers s) (rm_roomId m)" m u]
  by (auto simp: times_listed_def selectMatrixRoomMembers_def addMatrixRoomMember_def Let_def split: option.splits)

lemma times_listed_power: "times_listed r u (setMatrixRoomMemberPowerLevelFulfilled r' u' l pl s) = times_listed r u s"
proof (cases "Option.bind (obj_get (roomMembers s) r') (find (\<lambda>m. rm_id m = u'))")
  case None
  then show ?thesis by (simp add: times_listed_def selectMatrixRoomMembers_def setMatrixRoomMemberPowerLevelFulfilled_def)
next
  case (Some m)
  then obtain ms where ms: "obj_get (roomMembers s) r' = Some ms" "m \<in> set ms" "rm_id m = u'"
    by (auto simp: bind_eq_Some_conv find_Some_iff)
  have "count_list (map rm_id ms) (rm_id m) \<noteq> 0" using ms(2) by (simp add: count_list_0_iff)
  then show ?thesis
    using Some ms upsert_member_times [of "Some ms" "m\<lparr>rm_powerLevel := l\<rparr>" u]
    by (auto simp: times_listed_def selectMatrixRoomMembers_def setMatrixRoomMemberPowerLevelFulfilled_def Let_def max_def)
qed

lemma times_listed_users: "times_listed r u (fold addMatrixUser us s) = times_listed r u s"
  by (induction us arbitrary: s) (simp_all add: times_listed_def selectMatrixRoomMembers_def addMatrixUser_def)

lemma times_listed_step: "times_listed r u (matrixReducer enc a s) = listed_times r u a (times_listed r u s)"
proof (cases a)
  case (SearchUsersFulfilled us)
  then show ?thesis by (simp add: searchMatrixUsersFulfilled_def times_listed_users)
next
  case (AddUser user)
  then show ?thesis using times_listed_users [of r u "[user]" s] by simp
next
  case (AddRoomMember m)
  then show ?thesis using times_listed_member by simp
next
  case (MemberPowerLevelFulfilled r' u' l pl)
  then show ?thesis by (simp add: times_listed_power)
qed (simp_all add: times_listed_def selectMatrixRoomMembers_def reducer_frames plain_reducer_defs Let_def)

lemma times_listed_run:
  "times_listed r u (fold (matrixReducer enc) as s) = fold (listed_times r u) as (times_listed r u s)"
  by (induction as arbitrary: s) (simp_all add: times_listed_step)

section \<open>Rooms and chats\<close>

definition ready_ids :: "room_list_item list \<Rightarrow> string list" where
  "ready_ids items = concat (map (\<lambda>item. case item of Loading \<Rightarrow> [] | Ready i \<Rightarrow> [i]) items)"

lemma selectMatrixRooms_ids:
  assumes "matrix_ok s"
  shows "map room_id (selectMatrixRooms s) =
    filter (\<lambda>i. i \<noteq> [] \<and> obj_get (roomInfo s) i \<noteq> None) (ready_ids (roomList s))"
proof -
  have id: "room_id r = i" if "obj_get (roomInfo s) i = Some r" for i r
    using assms that by (auto simp: matrix_ok_def dest: keyed_by_get)
  have "map room_id (concat (map (\<lambda>item. case item of
         Loading \<Rightarrow> []
       | Ready i \<Rightarrow>
           if i = [] then []
           else case obj_get (roomInfo s) i of
                  None \<Rightarrow> []
                | Some room \<Rightarrow>
                    [room\<lparr>room_broadcastOnly := Some (case obj_get (roomPowerLevels s) (room_id room) of
                       None \<Rightarrow> False
                     | Some pl \<Rightarrow> getRoomEventPowerLevel pl message_events \<ge> Moderator)\<rparr>]) xs)) =
    filter (\<lambda>i. i \<noteq> [] \<and> obj_get (roomInfo s) i \<noteq> None) (ready_ids xs)" for xs
    by (induction xs) (auto simp: ready_ids_def id split: room_list_item.splits option.splits)
  then show ?thesis by (simp only: selectMatrixRooms_def)
qed

lemma makeChatFromPreview_id [simp]: "room_id (makeChatFromPreview p) = room_id (gp_info p)"
  by (simp add: makeChatFromPreview_def Let_def split: list.splits)

definition shown_preview :: "matrix_room list \<Rightarrow> group_preview \<Rightarrow> bool" where
  "shown_preview rooms p =
     (gp_isDefaultGroup p = Some True \<and> filter (\<lambda>t. t \<noteq> None) (gp_timeline p) \<noteq> [] \<and>
      room_id (gp_info p) \<notin> room_id ` set rooms)"

lemma default_group_chat_eq:
  "default_group_chat rooms p = (if shown_preview rooms p then [makeChatFromPreview p] else [])"
proof -
  have "find (\<lambda>r. room_id r = i) rooms = None \<longleftrightarrow> i \<notin> room_id ` set rooms" for i
    by (induction rooms) auto
  then show ?thesis by (simp add: default_group_chat_def shown_preview_def)
qed

lemma concat_default_groups:
  "concat (map (default_group_chat rooms) ps) = map makeChatFromPreview (filter (shown_preview rooms) ps)"
  by (induction ps) (simp_all add: default_group_chat_eq)

lemma keyed_values_distinct:
  assumes "keyed_by ident ob"
  shows "distinct (map ident (obj_values ob))"
proof -
  have "map ident (obj_values ob) = map fst (obj_entries ob)"
    using assms unfolding obj_values_def keyed_by_def
    by (auto simp: list_all_iff)
  then show ?thesis
    using assms by (simp add: keyed_by_def distinct_fst_entries)
qed

lemma find_index_none: "find_index p xs = length xs \<longleftrightarrow> (\<forall>x\<in>set xs. \<not> p x)"
  by (induction xs) auto

lemma find_index_split:
  assumes "find_index p xs \<noteq> length xs"
  shows "find_index p xs < length xs" "p (xs ! find_index p xs)"
    "xs = take (find_index p xs) xs @ xs ! find_index p xs # drop (find_index p xs + 1) xs"
proof -
  show l: "find_index p xs < length xs" "p (xs ! find_index p xs)"
    using assms by (induction xs) auto
  show "xs = take (find_index p xs) xs @ xs ! find_index p xs # drop (find_index p xs + 1) xs"
    using id_take_nth_drop [OF l(1)] by simp
qed

lemma selectMatrixAuth_userId: "map_option auth_userId (selectMatrixAuth s) = map_option auth_userId (mx_auth s)"
  by (simp add: selectMatrixAuth_def option.map_comp comp_def)

section \<open>Payments of a timeline\<close>

definition payment_id_of :: "matrix_event \<Rightarrow> string option" where
  "payment_id_of e = map_option pc_paymentId (payment_of (ev_content e))"

definition renders :: "matrix_event \<Rightarrow> bool" where
  "renders e = (case payment_of (ev_content e) of None \<Rightarrow> True | Some p \<Rightarrow> pc_status p \<in> {pushed, requested})"

text \<open>The last event of a payment.\<close>

definition last_payment_event :: "matrix_event list \<Rightarrow> string \<Rightarrow> matrix_event option" where
  "last_payment_event es i = find (\<lambda>e. payment_id_of e = Some i) (rev es)"

lemma filter_payments_list: "fst (filter_payments es d) = filter renders es"
  by (induction es arbitrary: d) (auto simp: renders_def Let_def split: option.splits)

lemma filter_payments_get:
  "obj_get (snd (filter_payments es d)) i =
     (case last_payment_event es i of
        None \<Rightarrow> obj_get d i
      | Some e \<Rightarrow> Some (e, the (payment_of (ev_content e))))"
proof (induction es arbitrary: d)
  case (Cons e es)
  have a: "find P (xs @ [x]) = (case find P xs of None \<Rightarrow> if P x then Some x else None | Some y \<Rightarrow> Some y)"
    for P :: "matrix_event \<Rightarrow> bool" and xs x
    by (induction xs) auto
  show ?case
    using Cons by (auto simp: last_payment_event_def payment_id_of_def a Let_def split: option.splits)
qed (simp add: last_payment_event_def)

lemma selectMatrixRoomEvents_eq:
  assumes "obj_get (roomTimelines s) r = Some t"
  shows "selectMatrixRoomEvents s r =
    map (with_latest (snd (filter_payments (events_of t) []))) (filter renders (events_of t))"
  using assms filter_payments_list [of "events_of t" "[]"]
  by (simp add: selectMatrixRoomEvents_def case_prod_beta)

lemma last_payment_event_props:
  "last_payment_event es i = Some e \<Longrightarrow> e \<in> set es \<and> payment_id_of e = Some i"
  using nth_mem [of _ "rev es"] by (auto simp: last_payment_event_def find_Some_iff simp del: nth_mem)

lemma last_payment_event_exists:
  "e \<in> set es \<Longrightarrow> payment_id_of e = Some i \<Longrightarrow> \<exists>l. last_payment_event es i = Some l"
  by (cases "last_payment_event es i") (auto simp: last_payment_event_def find_None_iff)

lemma with_latest_payment:
  assumes "distinct (map ev_id es)" and "e \<in> set es" and "payment_of (ev_content e) = Some p"
  shows "\<exists>l q p'. last_payment_event es (pc_paymentId p) = Some l \<and> payment_of (ev_content l) = Some q \<and>
    payment_of (ev_content (with_latest (snd (filter_payments es [])) e)) = Some p' \<and>
    pc_paymentId p' = pc_paymentId p \<and> pc_paymentId q = pc_paymentId p \<and>
    p' = merge_payment p q"
proof -
  obtain l where l: "last_payment_event es (pc_paymentId p) = Some l"
    using last_payment_event_exists [OF assms(2)] assms(3) by (auto simp: payment_id_of_def)
  then obtain q where q: "payment_of (ev_content l) = Some q" "pc_paymentId q = pc_paymentId p" "l \<in> set es"
    using last_payment_event_props [OF l] by (auto simp: payment_id_of_def)
  have get: "obj_get (snd (filter_payments es [])) (pc_paymentId p) = Some (l, q)"
    using filter_payments_get [of es "[]"] l q by simp
  have inj: "inj_on ev_id (set es)" using assms(1) by (simp add: distinct_map)
  have same: "l = e" if "ev_id e = ev_id l"
    using inj_onD [OF inj that assms(2) q(3)] by simp
  have self: "merge_payment p p = p" by (simp add: merge_payment_def)
  have id: "pc_paymentId (merge_payment p q) = pc_paymentId q" by (simp add: merge_payment_def)
  have "payment_of (ev_content (with_latest (snd (filter_payments es [])) e)) = Some (merge_payment p q)"
  proof (cases "ev_id e = ev_id l")
    case True
    then have "q = p" using same q(1) assms(3) by simp
    then show ?thesis using True assms(3) get self by (simp add: with_latest_def)
  next
    case False
    then show ?thesis using assms(3) get by (simp add: with_latest_def)
  qed
  then show ?thesis using l q(1,2) id by simp
qed

lemma with_latest_other:
  "payment_of (ev_content e) = None \<Longrightarrow> with_latest d e = e"
  "ev_id (with_latest d e) = ev_id e" "ev_senderId (with_latest d e) = ev_senderId e"
  by (auto simp: with_latest_def split: option.splits prod.splits)


lemma disjoint_image: "(\<And>q. q \<in> B \<Longrightarrow> f q \<notin> A) \<Longrightarrow> A \<inter> f ` B = {}"
  by auto

section \<open>Drafts and recent members\<close>

text \<open>Clearing a draft keeps an empty entry: the entry deleted first is written again.\<close>

lemma setChatDraft_keeps_entry:
  "obj_get (drafts (setChatDraft r t s)) r' = (if r' = r then Some t else obj_get (drafts s) r')"
  by (simp add: setChatDraft_def Let_def)

lemma recent_members_distinct:
  "distinct (map rm_id us) \<Longrightarrow> distinct (map rm_id (recent_members ob limit rooms us))"
proof (induction rooms arbitrary: us)
  case (Cons room rooms)
  have "distinct (map rm_id (us @ [m]))"
    if "\<not> list_ex (\<lambda>u. Some (rm_id u) = room_directUserId room) us"
      "Option.bind (obj_get ob (room_id room)) (find (\<lambda>m. Some (rm_id m) = room_directUserId room)) = Some m" for m
    using that Cons.prems by (auto simp: bind_eq_Some_conv find_Some_iff list_ex_iff)
  then show ?case using Cons by (auto split: option.splits)
qed simp

lemma recent_members_length:
  "int (length us) < limit \<Longrightarrow> int (length (recent_members ob limit rooms us)) \<le> limit"
  by (induction rooms arbitrary: us) (auto split: option.splits)

section \<open>Properties\<close>

text \<open>
  C24: after any sequence of actions, with any payloads, every room and every user is stored under its
  own id and only there, and a user is listed in a room exactly as often as the history says: as often
  as the last list of members set for the room had it, or once when a member event came for it since.
\<close>

theorem matrix_slice_invariant:
  "let s = fold (matrixReducer enc) as initialMatrixState
   in keyed_by room_id (roomInfo s) \<and> keyed_by user_id (mx_users s) \<and>
      count_list (map rm_id (selectMatrixRoomMembers s roomId)) userId = fold (listed_times roomId userId) as 0"
proof -
  have "entities_keyed (fold (matrixReducer enc) as initialMatrixState)"
    by (rule matrix_entities.run_invar) (simp add: list_all_iff)
  then show ?thesis
    using times_listed_run [of roomId userId enc as initialMatrixState] unfolding Let_def entities_keyed_def
    by (simp add: times_listed_def selectMatrixRoomMembers_def initialMatrixState_def)
qed

definition sample_member :: room_member where
  "sample_member = \<lparr>rm_id = ''@a:x'', rm_displayName = Some ''A'', rm_avatarUrl = None, rm_roomId = ''!r:x'',
     rm_powerLevel = 0, rm_membership = ''join''\<rparr>"

text \<open>
  C25: the events shown in a room are the messages and the initial pushes and requests of its timeline, in
  its order; a message is shown as it is, and every event of a payment carries the status, amount,
  body and, where it has them, the other details of the last event of that payment in the timeline,
  whoever sent it.
\<close>

theorem selectMatrixRoomEvents_latest_payment:
  assumes "obj_get (roomTimelines s) r = Some t" and "distinct (map ev_id (events_of t))"
  shows "map ev_id (selectMatrixRoomEvents s r) = map ev_id (filter renders (events_of t)) \<and>
    (\<forall>e\<in>set (selectMatrixRoomEvents s r).
       case payment_of (ev_content e) of
         None \<Rightarrow> e \<in> set (events_of t)
       | Some p \<Rightarrow> (\<exists>l q. last_payment_event (events_of t) (pc_paymentId p) = Some l \<and>
           payment_of (ev_content l) = Some q \<and> pc_status p = pc_status q \<and> pc_amount p = pc_amount q \<and>
           pc_body p = pc_body q \<and> (pc_ecash q \<noteq> None \<longrightarrow> pc_ecash p = pc_ecash q)))"
proof -
  let ?d = "snd (filter_payments (events_of t) [])"
  note eq = selectMatrixRoomEvents_eq [OF assms(1)]
  have "map ev_id (selectMatrixRoomEvents s r) = map ev_id (filter renders (events_of t))"
    by (simp add: eq comp_def with_latest_other(2))
  moreover have "case payment_of (ev_content (with_latest ?d e)) of
         None \<Rightarrow> with_latest ?d e \<in> set (events_of t)
       | Some p \<Rightarrow> (\<exists>l q. last_payment_event (events_of t) (pc_paymentId p) = Some l \<and>
           payment_of (ev_content l) = Some q \<and> pc_status p = pc_status q \<and> pc_amount p = pc_amount q \<and>
           pc_body p = pc_body q \<and> (pc_ecash q \<noteq> None \<longrightarrow> pc_ecash p = pc_ecash q))"
    if e: "e \<in> set (events_of t)" for e
  proof (cases "payment_of (ev_content e)")
    case None
    then show ?thesis using e by (simp add: with_latest_other(1))
  next
    case (Some p)
    then show ?thesis using with_latest_payment [OF assms(2) e Some] by (auto simp: merge_payment_def)
  qed
  ultimately show ?thesis by (auto simp: eq)
qed

definition sample_event :: "string \<Rightarrow> payment_status \<Rightarrow> string \<Rightarrow> matrix_event" where
  "sample_event i st sender = \<lparr>ev_id = i, ev_content = Payment (sample_payment_content\<lparr>pc_status := st\<rparr>), ev_status = Sent,
     ev_roomId = ''!r:x'', ev_txnId = None, ev_eventId = Some i, ev_timestamp = 1, ev_senderId = Some sender,
     ev_error = None\<rparr>"

theorem selectMatrixRoomEvents_latest_payment_witness:
  "let s = initialMatrixState\<lparr>roomTimelines :=
     [(''!r:x'', [Some (sample_event ''e1'' pushed ''@a:x''), None, Some (sample_event ''e2'' received ''@me:x'')])]\<rparr>
   in map ev_id (selectMatrixRoomEvents s ''!r:x'') = [''e1''] \<and>
      map (\<lambda>e. map_option pc_status (payment_of (ev_content e))) (selectMatrixRoomEvents s ''!r:x'') = [Some received]"
proof -
  let ?t = "[Some (sample_event ''e1'' pushed ''@a:x''), None, Some (sample_event ''e2'' received ''@me:x'')]"
  let ?s = "initialMatrixState\<lparr>roomTimelines := [(''!r:x'', ?t)]\<rparr>"
  have "obj_get (roomTimelines ?s) ''!r:x'' = Some ?t" "distinct (map ev_id (events_of ?t))"
    by (simp_all add: obj_get_def events_of_def sample_event_def)
  note T = selectMatrixRoomEvents_latest_payment [OF this]
  have "map ev_id (selectMatrixRoomEvents ?s ''!r:x'') = [''e1'']"
    using T by (simp add: events_of_def sample_event_def renders_def)
  moreover have "map (\<lambda>e. map_option pc_status (payment_of (ev_content e))) (selectMatrixRoomEvents ?s ''!r:x'') = [Some received]"
    by code_simp
  ultimately show ?thesis by (simp add: Let_def)
qed

text \<open>
  The list of chats is sorted by the time of the last message, newest first; it holds each joined room
  once and beside them exactly the previews of default groups that have messages and are not among
  the known rooms, joined or not; no room appears twice.
\<close>

theorem selectMatrixChatsList_exact:
  assumes "matrix_ok s" and "distinct (ready_ids (roomList s))"
  shows "sorted_wrt (\<ge>) (map preview_time (selectMatrixChatsList s)) \<and>
    distinct (map room_id (selectMatrixChatsList s)) \<and>
    set (selectMatrixChatsList s) = {r \<in> set (selectMatrixRooms s). room_state_of r = Joined} \<union>
      makeChatFromPreview ` {p \<in> set (obj_values (groupPreviews s)). shown_preview (selectMatrixRooms s) p}"
proof -
  let ?rooms = "selectMatrixRooms s"
  let ?j = "filter (\<lambda>r. room_state_of r = Joined) ?rooms"
  let ?p = "filter (shown_preview ?rooms) (obj_values (groupPreviews s))"
  have l: "selectMatrixChatsList s = order_desc preview_time (?j @ map makeChatFromPreview ?p)"
    by (simp add: selectMatrixChatsList_def Let_def concat_default_groups)
  have "distinct (map room_id ?rooms)"
    using assms by (simp add: selectMatrixRooms_ids)
  then have j: "distinct (map room_id ?j)" by (rule distinct_map_filter)
  have "distinct (map (\<lambda>p. room_id (gp_info p)) (obj_values (groupPreviews s)))"
    using assms(1) by (simp add: matrix_ok_def keyed_values_distinct)
  then have p: "distinct (map room_id (map makeChatFromPreview ?p))"
    by (simp add: comp_def distinct_map_filter)
  have no: "room_id (makeChatFromPreview q) \<notin> room_id ` set ?j" if "q \<in> set ?p" for q
    using that by (simp add: shown_preview_def) blast
  have "room_id ` set ?j \<inter> room_id ` set (map makeChatFromPreview ?p) = {}"
    unfolding set_map image_image by (rule disjoint_image) (rule no)
  then have "distinct (map room_id (?j @ map makeChatFromPreview ?p))"
    using j p unfolding map_append distinct_append by (simp only: set_map)
  then show ?thesis by (auto simp: l)
qed

definition sample_room :: matrix_room where
  "sample_room = \<lparr>room_id = ''!r:x'', room_name = ''R'', room_avatarUrl = None, room_preview_of = None,
     room_directUserId = None, room_broadcastOnly = None, room_notificationCount = Some 0,
     room_isMarkedUnread = Some False, room_joinedMemberCount = None, room_isPreview = None,
     room_isPublic = Some False, room_inviteCode = ''fedi:room:!r:x:::'', room_state_of = Joined\<rparr>"

theorem selectMatrixChatsList_exact_witness:
  "let s = initialMatrixState\<lparr>roomList := [Loading, Ready ''!r:x''], roomInfo := [(''!r:x'', sample_room)]\<rparr>
   in distinct (map room_id (selectMatrixChatsList s)) \<and> map room_id (selectMatrixChatsList s) = [''!r:x'']"
proof -
  let ?s = "initialMatrixState\<lparr>roomList := [Loading, Ready ''!r:x''], roomInfo := [(''!r:x'', sample_room)]\<rparr>"
  have "matrix_ok ?s" "distinct (ready_ids (roomList ?s))"
    by (simp_all add: matrix_ok_def keyed_by_def members_ok_def initialMatrixState_def sample_room_def ready_ids_def)
  then have "distinct (map room_id (selectMatrixChatsList ?s))"
    using selectMatrixChatsList_exact by blast
  moreover have "map room_id (selectMatrixChatsList ?s) = [''!r:x'']" by code_simp
  ultimately show ?thesis by (simp add: Let_def)
qed

text \<open>
  The members by me are the active members of the room; if I am one of them I come first, and the
  others keep their order.
\<close>

theorem selectMatrixRoomMembersByMe_order:
  assumes "mx_auth s = Some me"
  shows "mset (selectMatrixRoomMembersByMe s r) = mset (selectActiveMatrixRoomMembers s r) \<and>
    filter (\<lambda>m. rm_id m \<noteq> auth_userId me) (selectMatrixRoomMembersByMe s r) =
      filter (\<lambda>m. rm_id m \<noteq> auth_userId me) (selectActiveMatrixRoomMembers s r) \<and>
    (auth_userId me \<in> rm_id ` set (selectActiveMatrixRoomMembers s r) \<longrightarrow>
       rm_id (hd (selectMatrixRoomMembersByMe s r)) = auth_userId me)"
proof -
  let ?ms = "selectActiveMatrixRoomMembers s r" and ?p = "\<lambda>m. rm_id m = auth_userId me"
  let ?i = "find_index ?p ?ms"
  have l: "selectMatrixRoomMembersByMe s r = (if ?i = length ?ms then ?ms else ?ms ! ?i # take ?i ?ms @ drop (?i + 1) ?ms)"
    using assms by (simp add: selectMatrixRoomMembersByMe_def Let_def selectMatrixAuth_userId)
  show ?thesis
  proof (cases "?i = length ?ms")
    case True
    then have "auth_userId me \<notin> rm_id ` set ?ms" by (auto simp: find_index_none)
    then show ?thesis using True l by simp
  next
    case False
    note sp = find_index_split [OF False]
    have "mset ?ms = mset (?ms ! ?i # take ?i ?ms @ drop (?i + 1) ?ms)"
      using arg_cong [OF sp(3), of mset] by simp
    moreover have "filter (\<lambda>m. rm_id m \<noteq> auth_userId me) ?ms =
        filter (\<lambda>m. rm_id m \<noteq> auth_userId me) (?ms ! ?i # take ?i ?ms @ drop (?i + 1) ?ms)"
      using arg_cong [OF sp(3), of "filter (\<lambda>m. rm_id m \<noteq> auth_userId me)"] sp(2) by simp
    ultimately show ?thesis using False l sp(2) by simp
  qed
qed

theorem selectMatrixRoomMembersByMe_order_witness:
  "let me = \<lparr>auth_userId = ''@me:x'', auth_deviceId = ''d'', auth_displayName = None, auth_avatarUrl = None\<rparr>;
       s = initialMatrixState\<lparr>mx_auth := Some me,
         roomMembers := [(''!r:x'', [sample_member, sample_member\<lparr>rm_id := ''@me:x''\<rparr>])]\<rparr>
   in rm_id (hd (selectMatrixRoomMembersByMe s ''!r:x'')) = ''@me:x''"
  unfolding Let_def
  using selectMatrixRoomMembersByMe_order [where r = "''!r:x''" and
      me = "\<lparr>auth_userId = ''@me:x'', auth_deviceId = ''d'', auth_displayName = None, auth_avatarUrl = None\<rparr>" and
      s = "initialMatrixState\<lparr>mx_auth := Some \<lparr>auth_userId = ''@me:x'', auth_deviceId = ''d'', auth_displayName = None, auth_avatarUrl = None\<rparr>,
         roomMembers := [(''!r:x'', [sample_member, sample_member\<lparr>rm_id := ''@me:x''\<rparr>])]\<rparr>"]
  by (simp add: selectActiveMatrixRoomMembers_def selectMatrixRoomMembers_def obj_get_def sample_member_def)

end
