(* ===== verification/MatrixPayments.thy ===== *)
theory MatrixPayments
  imports MatrixState AmountUtils
begin

text \<open>
  The thunks of \<open>ui/common/redux/matrix.ts\<close> that send messages and move ecash, with the calls
  they make to the bridge and the Matrix client, and the claiming of received ecash that
  \<open>initializeCommonStore\<close> of \<open>ui/common/redux/index.ts\<close> drives: the checks it dispatches, the set
  \<open>receivedPayments\<close> they share and the claims in flight, as a step relation in which claims and
  checks interleave. The outcomes of the calls, the ids of new payments and the number
  formatter are arguments.
\<close>

section \<open>Calls\<close>

datatype matrix_call =
    CallGenerateEcash jsnum string
  | CallReceiveEcash string string
  | CallCancelEcash string string
  | CallDecodeInvoice string
  | CallCreateRoom string bool bool
  | CallSetRoomTopic string string
  | CallSendMessage string event_content
  | CallMarkRoomAsUnread string bool
  | CallSendReceipt string string

record matrix_bridge =
  mb_generateEcash :: "jsnum \<Rightarrow> string \<Rightarrow> js_error + string"
  mb_receiveEcash :: "string \<Rightarrow> string \<Rightarrow> js_error + unit"
  mb_cancelEcash :: "string \<Rightarrow> string \<Rightarrow> js_error + unit"
  mb_decodeInvoice :: "string \<Rightarrow> js_error + jsnum \<times> string"
  mb_createRoom :: "string \<Rightarrow> bool \<Rightarrow> bool \<Rightarrow> js_error + string"
  mb_setRoomTopic :: "string \<Rightarrow> string \<Rightarrow> js_error + unit"
  mb_sendMessage :: "string \<Rightarrow> event_content \<Rightarrow> js_error + unit"
  mb_markRoomAsUnread :: "string \<Rightarrow> bool \<Rightarrow> js_error + unit"
  mb_sendReceipt :: "string \<Rightarrow> string \<Rightarrow> js_error + unit"

text \<open>A thunk is the list of the calls it made and its result; \<open>then_call\<close> is \<open>await\<close>.\<close>

type_synonym 'a thunk = "matrix_call list \<times> (js_error + 'a)"

definition then_call :: "'a thunk \<Rightarrow> ('a \<Rightarrow> 'b thunk) \<Rightarrow> 'b thunk" where
  "then_call m f =
     (case snd m of
        Inl e \<Rightarrow> (fst m, Inl e)
      | Inr x \<Rightarrow> (fst m @ fst (f x), snd (f x)))"

definition throw :: "string \<Rightarrow> 'a thunk" where
  "throw e = ([], Inl (Error e))"

definition send :: "matrix_bridge \<Rightarrow> string \<Rightarrow> event_content \<Rightarrow> unit thunk" where
  "send b roomId content = ([CallSendMessage roomId content], mb_sendMessage b roomId content)"

definition mark :: "matrix_bridge \<Rightarrow> string \<Rightarrow> bool \<Rightarrow> unit thunk" where
  "mark b roomId unread = ([CallMarkRoomAsUnread roomId unread], mb_markRoomAsUnread b roomId unread)"

definition generate :: "matrix_bridge \<Rightarrow> jsnum \<Rightarrow> string \<Rightarrow> string thunk" where
  "generate b amount federationId =
     ([CallGenerateEcash amount federationId], mb_generateEcash b amount federationId)"

section \<open>Messages and rooms\<close>

definition is_alnum :: "char \<Rightarrow> bool" where
  "is_alnum c = (is_digit_char c \<or> is_upper c \<or> is_lower c)"

definition isBolt11 :: "string \<Rightarrow> bool" where
  "isBolt11 raw =
     (if \<not> js_starts_with raw ''ln'' \<or> js_starts_with raw ''lno'' \<or> js_starts_with raw ''lnurl'' then False
      else list_ex (\<lambda>p. js_starts_with raw p \<and> length (drop (length p) raw) \<ge> 30 \<and>
                        list_all is_alnum (drop (length p) raw))
             [''lnbc'', ''lntb'', ''lntbs'', ''lnbcrt''])"

definition requested_text :: "(jsnum \<Rightarrow> string) \<Rightarrow> jsnum \<Rightarrow> string" where
  "requested_text formatSats sats =
     ''Requested payment of '' @ formatSats sats @ '' SATS. Use the Fedi app to complete this request.''"

definition sent_text :: "(jsnum \<Rightarrow> string) \<Rightarrow> jsnum \<Rightarrow> string" where
  "sent_text formatSats sats =
     ''Sent payment of '' @ formatSats sats @ '' SATS. Use the Fedi app to accept this payment.''"

text \<open>
  A failure inside the \<open>try\<close> falls through to the plain message; the rejection of the returned
  \<open>sendMessage\<close>, which the \<open>try\<close> does not await, does not.
\<close>

definition sendMatrixMessage ::
  "(jsnum \<Rightarrow> string) \<Rightarrow> string \<Rightarrow> matrix_bridge \<Rightarrow> string \<Rightarrow> string \<Rightarrow> bool \<Rightarrow> unit thunk"
where
  "sendMatrixMessage formatSats uuid b roomId body interceptBolt11 =
     (if interceptBolt11 \<and> isBolt11 body
      then case mb_decodeInvoice b body of
             Inl e \<Rightarrow> then_call ([CallDecodeInvoice body], Inr ()) (\<lambda>_. send b roomId (Text body))
           | Inr (amount, invoice) \<Rightarrow>
               then_call ([CallDecodeInvoice body], Inr ())
                 (\<lambda>_. if js_truthy amount
                      then send b roomId (Payment \<lparr>pc_body = requested_text formatSats (msatToSat amount),
                             pc_status = requested, pc_paymentId = uuid, pc_recipientId = None, pc_amount = amount,
                             pc_senderId = None, pc_ecash = None, pc_federationId = None, pc_bolt11 = Some invoice,
                             pc_inviteCode = None\<rparr>)
                      else send b roomId (Text body))
      else send b roomId (Text body))"

text \<open>The room options by what they depend on: broadcast only, public.\<close>

definition createMatrixRoom :: "matrix_bridge \<Rightarrow> string \<Rightarrow> bool \<Rightarrow> bool \<Rightarrow> string thunk" where
  "createMatrixRoom b roomName broadcastOnly isPublic =
     then_call ([CallCreateRoom roomName broadcastOnly isPublic], mb_createRoom b roomName broadcastOnly isPublic)
       (\<lambda>roomId. if isPublic
          then then_call ([CallSetRoomTopic roomId roomId], mb_setRoomTopic b roomId roomId) (\<lambda>_. ([], Inr roomId))
          else ([], Inr roomId))"

definition sendMatrixReadReceipt :: "matrix_bridge \<Rightarrow> string \<Rightarrow> string \<Rightarrow> unit thunk" where
  "sendMatrixReadReceipt b roomId eventId =
     then_call ([CallSendReceipt roomId eventId], mb_sendReceipt b roomId eventId) (\<lambda>_. mark b roomId False)"

section \<open>Payments\<close>

definition sendMatrixPaymentPush ::
  "(jsnum \<Rightarrow> string) \<Rightarrow> string \<Rightarrow> matrix_bridge \<Rightarrow> 'r federation_state \<Rightarrow> matrix_state \<Rightarrow>
   string \<Rightarrow> string \<Rightarrow> string \<Rightarrow> jsnum \<Rightarrow> unit thunk"
where
  "sendMatrixPaymentPush formatSats uuid b fs ms federationId roomId recipientId amount =
     (case (selectMatrixAuth ms, selectFederation fs federationId) of
        (None, _) \<Rightarrow> throw ''Not authenticated''
      | (_, None) \<Rightarrow> throw ''Federation not found''
      | (Some auth, Some federation) \<Rightarrow>
          let msats = satToMsat amount
          in then_call (generate b msats federationId)
               (\<lambda>ecash. send b roomId (Payment \<lparr>pc_body = sent_text formatSats amount, pc_status = pushed,
                  pc_paymentId = uuid, pc_recipientId = Some recipientId, pc_amount = msats,
                  pc_senderId = Some (auth_userId auth), pc_ecash = Some ecash,
                  pc_federationId = Some (fed_id federation), pc_bolt11 = None,
                  pc_inviteCode = Some (fed_inviteCode federation)\<rparr>)))"

definition sendMatrixPaymentRequest ::
  "(jsnum \<Rightarrow> string) \<Rightarrow> string \<Rightarrow> matrix_bridge \<Rightarrow> matrix_state \<Rightarrow> string \<Rightarrow> string \<Rightarrow> jsnum \<Rightarrow> unit thunk"
where
  "sendMatrixPaymentRequest formatSats uuid b ms federationId roomId amount =
     (case selectMatrixAuth ms of
        None \<Rightarrow> throw ''Not authenticated''
      | Some auth \<Rightarrow>
          send b roomId (Payment \<lparr>pc_body = requested_text formatSats amount, pc_status = requested,
            pc_paymentId = uuid, pc_recipientId = Some (auth_userId auth), pc_amount = satToMsat amount,
            pc_senderId = None, pc_ecash = None, pc_federationId = Some federationId, pc_bolt11 = None,
            pc_inviteCode = None\<rparr>))"

definition received_content :: "payment_content \<Rightarrow> event_content" where
  "received_content p = Payment (p\<lparr>pc_body := ''Payment received.'', pc_status := received\<rparr>)"

text \<open>A payment event is given by its room and its content.\<close>

definition claimMatrixPayment :: "matrix_bridge \<Rightarrow> string \<Rightarrow> payment_content \<Rightarrow> unit thunk" where
  "claimMatrixPayment b roomId p =
     (if \<not> truthy_str (pc_ecash p) then throw ''Payment message is missing ecash token''
      else if \<not> truthy_str (pc_federationId p) then throw ''Payment message is missing federationId''
      else then_call ([CallReceiveEcash (the (pc_ecash p)) (the (pc_federationId p))],
                      mb_receiveEcash b (the (pc_ecash p)) (the (pc_federationId p)))
             (\<lambda>_. then_call (send b roomId (received_content p)) (\<lambda>_. mark b roomId True)))"

definition canceled_content :: "payment_content \<Rightarrow> event_content" where
  "canceled_content p = Payment (p\<lparr>pc_body := ''Payment canceled.'', pc_status := canceled\<rparr>)"

definition cancelMatrixPayment :: "matrix_bridge \<Rightarrow> string \<Rightarrow> payment_content \<Rightarrow> unit thunk" where
  "cancelMatrixPayment b roomId p =
     then_call
       (if truthy_str (pc_ecash p) \<and> truthy_str (pc_federationId p)
        then ([CallCancelEcash (the (pc_ecash p)) (the (pc_federationId p))],
              mb_cancelEcash b (the (pc_ecash p)) (the (pc_federationId p)))
        else ([], Inr ()))
       (\<lambda>_. send b roomId (canceled_content p))"

definition acceptMatrixPaymentRequest ::
  "(jsnum \<Rightarrow> string) \<Rightarrow> matrix_bridge \<Rightarrow> matrix_state \<Rightarrow> string \<Rightarrow> payment_content \<Rightarrow> unit thunk"
where
  "acceptMatrixPaymentRequest formatSats b ms roomId p =
     (case selectMatrixAuth ms of
        None \<Rightarrow> throw ''Not authenticated''
      | Some auth \<Rightarrow>
          if \<not> truthy_str (pc_federationId p) then throw ''Need federation id to generate ecash''
          else then_call (generate b (pc_amount p) (the (pc_federationId p)))
                 (\<lambda>ecash. send b roomId (Payment (p\<lparr>pc_body := sent_text formatSats (msatToSat (pc_amount p)),
                    pc_status := accepted, pc_senderId := Some (auth_userId auth), pc_ecash := Some ecash\<rparr>))))"

definition rejectMatrixPaymentRequest :: "matrix_bridge \<Rightarrow> string \<Rightarrow> payment_content \<Rightarrow> unit thunk" where
  "rejectMatrixPaymentRequest b roomId p =
     send b roomId (Payment (p\<lparr>pc_body := ''Payment request rejected.'', pc_status := rejected\<rparr>))"

section \<open>Looking for payments to claim\<close>

text \<open>The timeline a check looks at: that of its room, or all the loaded ones in turn.\<close>

definition checked_timeline :: "matrix_state \<Rightarrow> string option \<Rightarrow> timeline_item list option" where
  "checked_timeline ms roomId =
     (if truthy_str roomId then obj_get (roomTimelines ms) (the roomId)
      else Some (concat (obj_values (roomTimelines ms))))"

definition receivable_payments ::
  "'r federation_state \<Rightarrow> matrix_state \<Rightarrow> string option \<Rightarrow> (matrix_event \<times> payment_content) list"
where
  "receivable_payments fs ms roomId =
     (case (map_option auth_userId (mx_auth ms), checked_timeline ms roomId) of
        (Some myId, Some timeline) \<Rightarrow>
          if myId = [] then [] else getReceivablePaymentEvents timeline myId (selectWalletFederations fs)
      | _ \<Rightarrow> [])"

text \<open>
  A claim in flight waits for the call of its stage. A claim whose payment lacks a token or a
  federation has already thrown; its \<open>catch\<close> has not run yet.
\<close>

datatype claim_stage = Receiving | Sending | Marking | Thrown

record claim =
  cl_room :: string
  cl_payment :: payment_content
  cl_stage :: claim_stage

datatype claim_event = Started string | Succeeded string | Unclaimed string

record claims =
  receivedPayments :: "string list"
  in_flight :: "claim list"
  claim_calls :: "matrix_call list"
  claim_log :: "claim_event list"

definition claim_id :: "claim \<Rightarrow> string" where
  "claim_id c = pc_paymentId (cl_payment c)"

definition initialClaims :: claims where
  "initialClaims = \<lparr>receivedPayments = [], in_flight = [], claim_calls = [], claim_log = []\<rparr>"

text \<open>The synchronous part of dispatching \<open>claimMatrixPayment\<close>: up to its first \<open>await\<close>.\<close>

definition start_claim :: "string \<Rightarrow> payment_content \<Rightarrow> claims \<Rightarrow> claims" where
  "start_claim roomId p s =
     (let (stage, calls) =
        (if truthy_str (pc_ecash p) \<and> truthy_str (pc_federationId p)
         then (Receiving, [CallReceiveEcash (the (pc_ecash p)) (the (pc_federationId p))])
         else (Thrown, []))
      in s\<lparr>in_flight := in_flight s @ [\<lparr>cl_room = roomId, cl_payment = p, cl_stage = stage\<rparr>],
           claim_calls := claim_calls s @ calls,
           claim_log := claim_log s @ [Started (pc_paymentId p)]\<rparr>)"

text \<open>The loop of \<open>checkForReceivablePayments\<close> over the receivable events.\<close>

fun checkForReceivablePayments :: "(matrix_event \<times> payment_content) list \<Rightarrow> claims \<Rightarrow> claims" where
  "checkForReceivablePayments [] s = s"
| "checkForReceivablePayments ((ev, p) # rest) s =
     (if pc_paymentId p \<in> set (receivedPayments s) then checkForReceivablePayments rest s
      else checkForReceivablePayments rest
             (start_claim (ev_roomId ev) p
               (s\<lparr>receivedPayments := receivedPayments s @ [pc_paymentId p]\<rparr>)))"

text \<open>The next stage of a claim whose call has returned, with the call that starts it.\<close>

definition advance :: "claim \<Rightarrow> (claim_stage \<times> matrix_call list) option" where
  "advance c =
     (case cl_stage c of
        Receiving \<Rightarrow> Some (Sending, [CallSendMessage (cl_room c) (received_content (cl_payment c))])
      | Sending \<Rightarrow> Some (Marking, [CallMarkRoomAsUnread (cl_room c) True])
      | Marking \<Rightarrow> None
      | Thrown \<Rightarrow> None)"

definition without_claim :: "claim \<Rightarrow> claims \<Rightarrow> claims" where
  "without_claim c s = s\<lparr>in_flight := filter (\<lambda>d. claim_id d \<noteq> claim_id c) (in_flight s)\<rparr>"

text \<open>
  Checks run to their end, since they do not await; between them a call of a claim in flight
  returns or is rejected. A rejection takes the payment out of \<open>receivedPayments\<close>. Claims are told
  apart by their payment: no two in flight have the same, as shown below.
\<close>

inductive claim_step :: "'r federation_state \<Rightarrow> matrix_state \<Rightarrow> claims \<Rightarrow> claims \<Rightarrow> bool"
  for fs :: "'r federation_state" and ms :: matrix_state
where
  Check: "claim_step fs ms s (checkForReceivablePayments (receivable_payments fs ms roomId) s)"
| Advance: "c \<in> set (in_flight s) \<Longrightarrow> advance c = Some (stage, calls) \<Longrightarrow>
    claim_step fs ms s (s\<lparr>
      in_flight := map (\<lambda>d. if claim_id d = claim_id c then d\<lparr>cl_stage := stage\<rparr> else d) (in_flight s),
      claim_calls := claim_calls s @ calls\<rparr>)"
| Finish: "c \<in> set (in_flight s) \<Longrightarrow> cl_stage c = Marking \<Longrightarrow>
    claim_step fs ms s ((without_claim c s)\<lparr>claim_log := claim_log s @ [Succeeded (claim_id c)]\<rparr>)"
| Fail: "c \<in> set (in_flight s) \<Longrightarrow>
    claim_step fs ms s ((without_claim c s)\<lparr>
      receivedPayments := removeAll (claim_id c) (receivedPayments s),
      claim_log := claim_log s @ [Unclaimed (claim_id c)]\<rparr>)"

text \<open>Federations and timelines change between the steps.\<close>

inductive claims_reachable :: "'r itself \<Rightarrow> claims \<Rightarrow> bool" for ty :: "'r itself" where
  init: "claims_reachable ty initialClaims"
| step: "claims_reachable ty s \<Longrightarrow> claim_step (fs :: 'r federation_state) ms s s' \<Longrightarrow> claims_reachable ty s'"


inductive_cases claim_stepE: "claim_step fs ms s s'"

inductive_simps claim_step_simps: "claim_step fs ms s s'"

section \<open>The life of a claim\<close>

text \<open>
  What the claims of one payment may do: idle, started, then either succeeded for good or idle
  again. \<open>None\<close> when the log does anything else.
\<close>

datatype claim_status = Idle | Busy | Done

fun status_step :: "claim_event \<Rightarrow> claim_status \<Rightarrow> claim_status option" where
  "status_step (Started i) Idle = Some Busy"
| "status_step (Succeeded i) Busy = Some Done"
| "status_step (Unclaimed i) Busy = Some Idle"
| "status_step _ _ = None"

fun event_id :: "claim_event \<Rightarrow> string" where
  "event_id (Started i) = i"
| "event_id (Succeeded i) = i"
| "event_id (Unclaimed i) = i"

definition claim_life :: "string \<Rightarrow> claim_event list \<Rightarrow> claim_status option" where
  "claim_life i evs = fold (\<lambda>e st. Option.bind st (status_step e)) (filter (\<lambda>e. event_id e = i) evs) (Some Idle)"

lemma claim_life_snoc:
  "claim_life i (evs @ [e]) = (if event_id e = i then Option.bind (claim_life i evs) (status_step e) else claim_life i evs)"
  by (simp add: claim_life_def)

definition status_of :: "claims \<Rightarrow> string \<Rightarrow> claim_status" where
  "status_of s i =
     (if i \<in> claim_id ` set (in_flight s) then Busy
      else if i \<in> set (receivedPayments s) then Done else Idle)"

definition claims_ok :: "claims \<Rightarrow> bool" where
  "claims_ok s =
     (distinct (map claim_id (in_flight s)) \<and> claim_id ` set (in_flight s) \<subseteq> set (receivedPayments s) \<and>
      (\<forall>i. claim_life i (claim_log s) = Some (status_of s i)))"

lemma claims_ok_initial: "claims_ok initialClaims"
  by (simp add: claims_ok_def initialClaims_def claim_life_def status_of_def)

lemma start_claim_fields:
  "receivedPayments (start_claim r p s) = receivedPayments s"
  "map claim_id (in_flight (start_claim r p s)) = map claim_id (in_flight s) @ [pc_paymentId p]"
  "claim_log (start_claim r p s) = claim_log s @ [Started (pc_paymentId p)]"
  by (simp_all add: start_claim_def claim_id_def)

lemma claim_ids_set: "claim_id ` set xs = set (map claim_id xs)"
  by simp

lemma claims_ok_start:
  assumes "claims_ok s" and new: "pc_paymentId p \<notin> set (receivedPayments s)"
  shows "claims_ok (start_claim r p (s\<lparr>receivedPayments := receivedPayments s @ [pc_paymentId p]\<rparr>))"
    (is "claims_ok ?t")
proof -
  have ids: "set (map claim_id (in_flight s)) \<subseteq> set (receivedPayments s)"
    using assms(1) by (simp add: claims_ok_def)
  then have d: "distinct (map claim_id (in_flight ?t))"
    using assms new by (auto simp: start_claim_fields claims_ok_def simp del: set_map)
  have sub: "set (map claim_id (in_flight ?t)) \<subseteq> set (receivedPayments ?t)"
    using ids by (auto simp: start_claim_fields simp del: set_map)
  have "status_of ?t i = (if i = pc_paymentId p then Busy else status_of s i)" for i
    unfolding status_of_def claim_ids_set by (auto simp: start_claim_fields simp del: set_map)
  moreover have "status_of s (pc_paymentId p) = Idle"
    using new ids unfolding status_of_def claim_ids_set by (auto simp del: set_map)
  ultimately have "claim_life i (claim_log ?t) = Some (status_of ?t i)" for i
    using assms(1) by (auto simp: start_claim_fields claim_life_snoc claims_ok_def)
  then show ?thesis using d sub by (simp add: claims_ok_def)
qed

lemma claims_ok_check: "claims_ok s \<Longrightarrow> claims_ok (checkForReceivablePayments es s)"
proof (induction es s rule: checkForReceivablePayments.induct)
  case (2 ev p rest s)
  then show ?case using claims_ok_start [of s p "ev_roomId ev"] by simp
qed simp

lemma claims_ok_advance:
  assumes "claims_ok s"
  shows "claims_ok (s\<lparr>
      in_flight := map (\<lambda>d. if claim_id d = i then d\<lparr>cl_stage := stage\<rparr> else d) (in_flight s),
      claim_calls := cs\<rparr>)" (is "claims_ok ?t")
proof -
  have "claim_id (d\<lparr>cl_stage := stage\<rparr>) = claim_id d" for d by (simp add: claim_id_def)
  then have ids: "map claim_id (in_flight ?t) = map claim_id (in_flight s)" by simp
  have "status_of ?t = status_of s"
    unfolding status_of_def claim_ids_set ids by (simp add: fun_eq_iff)
  moreover have "set (map claim_id (in_flight s)) \<subseteq> set (receivedPayments s)" "distinct (map claim_id (in_flight s))"
    using assms by (simp_all add: claims_ok_def)
  ultimately show ?thesis
    using assms unfolding claims_ok_def claim_ids_set ids by simp
qed

lemma without_claim_ids:
  "set (map claim_id (in_flight (without_claim c s))) = set (map claim_id (in_flight s)) - {claim_id c}"
  "distinct (map claim_id (in_flight s)) \<Longrightarrow> distinct (map claim_id (in_flight (without_claim c s)))"
  by (auto simp: without_claim_def distinct_map_filter)

lemma claims_ok_end:
  assumes "claims_ok s" and "c \<in> set (in_flight s)"
  shows "claims_ok ((without_claim c s)\<lparr>claim_log := claim_log s @ [Succeeded (claim_id c)]\<rparr>)" (is "claims_ok ?t")
    and "claims_ok ((without_claim c s)\<lparr>receivedPayments := removeAll (claim_id c) (receivedPayments s),
      claim_log := claim_log s @ [Unclaimed (claim_id c)]\<rparr>)" (is "claims_ok ?u")
proof -
  have b: "claim_id c \<in> set (map claim_id (in_flight s))" using assms(2) by simp
  have ids: "set (map claim_id (in_flight s)) \<subseteq> set (receivedPayments s)" "distinct (map claim_id (in_flight s))"
    and life: "\<And>i. claim_life i (claim_log s) = Some (status_of s i)"
    using assms(1) by (simp_all add: claims_ok_def)
  have rp: "receivedPayments (without_claim c s) = receivedPayments s" by (simp add: without_claim_def)
  have busy: "status_of s (claim_id c) = Busy" using b by (simp add: status_of_def)
  have fields: "in_flight ?t = in_flight (without_claim c s)" "in_flight ?u = in_flight (without_claim c s)"
    "receivedPayments ?t = receivedPayments s" "receivedPayments ?u = removeAll (claim_id c) (receivedPayments s)"
    by (simp_all add: rp)
  have t: "status_of ?t i = (if i = claim_id c then Done else status_of s i)" for i
    using b ids(1) unfolding status_of_def claim_ids_set fields without_claim_ids by (auto simp del: set_map)
  have u: "status_of ?u i = (if i = claim_id c then Idle else status_of s i)" for i
    unfolding status_of_def claim_ids_set fields without_claim_ids by (auto simp del: set_map)
  show "claims_ok ?t"
    unfolding claims_ok_def claim_ids_set fields
    using ids without_claim_ids t life busy by (auto simp: claim_life_snoc simp del: set_map)
  show "claims_ok ?u"
    unfolding claims_ok_def claim_ids_set fields
    using ids without_claim_ids u life busy by (auto simp: claim_life_snoc simp del: set_map)
qed

lemma claims_ok_step: "claim_step fs ms s s' \<Longrightarrow> claims_ok s \<Longrightarrow> claims_ok s'"
  by (erule claim_stepE) (auto intro: claims_ok_check claims_ok_advance claims_ok_end)

lemma claims_reachable_ok: "claims_reachable ty s \<Longrightarrow> claims_ok s"
  by (induction rule: claims_reachable.induct) (auto intro: claims_ok_initial claims_ok_step)


section \<open>Messages about a payment\<close>

fun sent_contents :: "matrix_call list \<Rightarrow> event_content list" where
  "sent_contents [] = []"
| "sent_contents (CallSendMessage r c # cs) = c # sent_contents cs"
| "sent_contents (_ # cs) = sent_contents cs"

fun moves_ecash :: "matrix_call \<Rightarrow> bool" where
  "moves_ecash (CallGenerateEcash _ _) = True"
| "moves_ecash (CallReceiveEcash _ _) = True"
| "moves_ecash (CallCancelEcash _ _) = True"
| "moves_ecash _ = False"

definition same_payment :: "payment_content \<Rightarrow> event_content \<Rightarrow> bool" where
  "same_payment p c =
     (case payment_of c of
        None \<Rightarrow> False
      | Some q \<Rightarrow> pc_paymentId q = pc_paymentId p \<and> pc_amount q = pc_amount p \<and>
          pc_recipientId q = pc_recipientId p \<and> pc_federationId q = pc_federationId p)"

lemmas thunk_defs = then_call_def throw_def send_def mark_def generate_def

text \<open>A message is sent as a request exactly when it is a decodable invoice with an amount.\<close>

lemma sendMatrixMessage_one:
  "\<exists>c. sent_contents (fst (sendMatrixMessage formatSats uuid b roomId body intercept)) = [c] \<and>
     (c = Text body \<or> map_option pc_status (payment_of c) = Some requested) \<and>
     snd (sendMatrixMessage formatSats uuid b roomId body intercept) = mb_sendMessage b roomId c \<and>
     (c \<noteq> Text body \<longleftrightarrow> intercept \<and> isBolt11 body \<and>
        (\<exists>amount invoice. mb_decodeInvoice b body = Inr (amount, invoice) \<and> js_truthy amount))"
  by (auto simp: sendMatrixMessage_def thunk_defs split: sum.splits prod.splits)

section \<open>Properties\<close>

text \<open>
  C2: whatever the order in which checks run and calls return, the claims of a payment follow one life:
  idle, in flight, then done for good or idle again after a rejection. A payment is in flight once
  at most, it is in \<open>receivedPayments\<close> exactly while it is in flight or done, and a done payment
  is never claimed again.
\<close>

theorem claims_follow_life:
  assumes "claims_reachable ty s"
  shows "distinct (map claim_id (in_flight s)) \<and>
    claim_life i (claim_log s) = Some (status_of s i) \<and>
    (i \<in> set (receivedPayments s) \<longleftrightarrow> status_of s i \<noteq> Idle) \<and>
    (\<forall>r p. claim_life i (claim_log s) = Some Done \<longrightarrow> pc_paymentId p = i \<longrightarrow>
       checkForReceivablePayments [(r, p)] s = s)"
proof -
  have ok: "claims_ok s" using assms by (rule claims_reachable_ok)
  have "claim_life i (claim_log s) = Some (status_of s i)" "distinct (map claim_id (in_flight s))"
    using ok by (simp_all add: claims_ok_def)
  moreover have "i \<in> set (receivedPayments s) \<longleftrightarrow> status_of s i \<noteq> Idle"
    using ok by (auto simp: claims_ok_def status_of_def)
  ultimately show ?thesis by auto
qed

text \<open>A room with a payment to me in a federation I am in.\<close>

definition sample_fs :: "unit federation_state" where
  "sample_fs = initialFederationState\<lparr>federations := [sample_federation ''fed'' []]\<rparr>"

definition sample_ms :: matrix_state where
  "sample_ms = initialMatrixState\<lparr>
     mx_auth := Some \<lparr>auth_userId = ''@me:x'', auth_deviceId = ''d'', auth_displayName = None, auth_avatarUrl = None\<rparr>,
     roomTimelines := [(''!r:x'', [Some (sample_event ''e1'' pushed ''@a:x'')])]\<rparr>"

lemma sample_receivable:
  "receivable_payments sample_fs sample_ms None = [(sample_event ''e1'' pushed ''@a:x'', sample_payment_content)]"
  by code_simp

lemma sample_reachable:
  "claims_reachable TYPE(unit) (checkForReceivablePayments (receivable_payments sample_fs sample_ms None) initialClaims)"
  by (rule claims_reachable.step [OF claims_reachable.init claim_step.Check])

theorem claims_follow_life_witness:
  "let s = checkForReceivablePayments (receivable_payments sample_fs sample_ms None) initialClaims
   in claim_life ''p1'' (claim_log s) = Some Busy \<and> distinct (map claim_id (in_flight s))"
proof -
  have "status_of (checkForReceivablePayments (receivable_payments sample_fs sample_ms None) initialClaims) ''p1'' = Busy"
    unfolding sample_receivable by code_simp
  then show ?thesis
    using claims_follow_life [OF sample_reachable, of "''p1''"] by (simp add: Let_def)
qed

text \<open>
  C13: a claim whose message could not be sent, although its ecash was received, is forgotten: as long as
  the payment is still among the receivable ones, the next check starts it again with the same
  token, which the bridge has already reissued.
\<close>

theorem unsent_notice_is_claimed_again:
  assumes "claims_reachable TYPE('r) s" and "c \<in> set (in_flight s)" and "cl_stage c = Sending"
    and "receivable_payments (fs :: 'r federation_state) ms roomId = [(ev, cl_payment c)]"
    and "truthy_str (pc_ecash (cl_payment c))" and "truthy_str (pc_federationId (cl_payment c))"
  shows "\<exists>s1 s2. claim_step fs ms s s1 \<and> claim_step fs ms s1 s2 \<and>
    claim_calls s2 = claim_calls s @
      [CallReceiveEcash (the (pc_ecash (cl_payment c))) (the (pc_federationId (cl_payment c)))] \<and>
    claim_log s2 = claim_log s @ [Unclaimed (claim_id c), Started (claim_id c)]"
proof -
  let ?s1 = "(without_claim c s)\<lparr>receivedPayments := removeAll (claim_id c) (receivedPayments s),
      claim_log := claim_log s @ [Unclaimed (claim_id c)]\<rparr>"
  let ?s2 = "checkForReceivablePayments (receivable_payments fs ms roomId) ?s1"
  have "claim_step fs ms s ?s1" using assms(2) by (rule claim_step.Fail)
  moreover have "claim_step fs ms ?s1 ?s2" by (rule claim_step.Check)
  moreover have "claim_calls ?s2 = claim_calls s @
      [CallReceiveEcash (the (pc_ecash (cl_payment c))) (the (pc_federationId (cl_payment c)))]"
    "claim_log ?s2 = claim_log s @ [Unclaimed (claim_id c), Started (claim_id c)]"
    using assms by (simp_all add: start_claim_def claim_id_def without_claim_def)
  ultimately show ?thesis by blast
qed

text \<open>
  Claiming, canceling, accepting and rejecting send at most one message, about the same payment: its
  id, amount, recipient and federation stay. A message is only sent after the ecash was moved, and
  the thunk fails without a message exactly when it did not get that far.
\<close>

theorem payment_updates_keep_identity:
  assumes "t \<in> {claimMatrixPayment b roomId p, cancelMatrixPayment b roomId p,
    acceptMatrixPaymentRequest formatSats b ms roomId p, rejectMatrixPaymentRequest b roomId p}"
  shows "list_all (same_payment p) (sent_contents (fst t)) \<and> length (sent_contents (fst t)) \<le> 1 \<and>
    (\<forall>x. snd t = Inr x \<longrightarrow> length (sent_contents (fst t)) = 1) \<and>
    (\<forall>cs1 cs2 r c. fst t = cs1 @ CallSendMessage r c # cs2 \<longrightarrow> list_all moves_ecash cs1 \<and> r = roomId)"
proof -
  have claim: "?thesis" if "t = claimMatrixPayment b roomId p"
    using that by (auto simp: claimMatrixPayment_def thunk_defs same_payment_def received_content_def
        Cons_eq_append_conv split: sum.splits if_splits)
  have cancel: "?thesis" if "t = cancelMatrixPayment b roomId p"
    using that by (auto simp: cancelMatrixPayment_def thunk_defs same_payment_def canceled_content_def
        Cons_eq_append_conv split: sum.splits if_splits)
  have accept: "?thesis" if "t = acceptMatrixPaymentRequest formatSats b ms roomId p"
    using that by (auto simp: acceptMatrixPaymentRequest_def thunk_defs same_payment_def
        Cons_eq_append_conv split: sum.splits option.splits if_splits)
  have reject: "?thesis" if "t = rejectMatrixPaymentRequest b roomId p"
    using that by (auto simp: rejectMatrixPaymentRequest_def thunk_defs same_payment_def
        Cons_eq_append_conv split: sum.splits if_splits)
  show ?thesis using assms claim cancel accept reject by blast
qed


definition sample_claims :: claims where
  "sample_claims = \<lparr>receivedPayments = [''p1''],
     in_flight = [\<lparr>cl_room = ''!r:x'', cl_payment = sample_payment_content, cl_stage = Sending\<rparr>],
     claim_calls = [CallReceiveEcash ''token'' ''fed'', CallSendMessage ''!r:x'' (received_content sample_payment_content)],
     claim_log = [Started ''p1'']\<rparr>"

lemma sample_claims_reachable: "claims_reachable TYPE(unit) sample_claims"
proof -
  let ?c = "\<lparr>cl_room = ''!r:x'', cl_payment = sample_payment_content, cl_stage = Receiving\<rparr>"
  let ?s = "checkForReceivablePayments (receivable_payments sample_fs sample_ms None) initialClaims"
  have s: "?s = \<lparr>receivedPayments = [''p1''], in_flight = [?c],
     claim_calls = [CallReceiveEcash ''token'' ''fed''], claim_log = [Started ''p1'']\<rparr>"
    unfolding sample_receivable
    by (simp add: initialClaims_def start_claim_def sample_payment_content_def sample_event_def)
  have "claim_step sample_fs sample_ms ?s (?s\<lparr>
      in_flight := map (\<lambda>d. if claim_id d = claim_id ?c then d\<lparr>cl_stage := Sending\<rparr> else d) (in_flight ?s),
      claim_calls := claim_calls ?s @ [CallSendMessage (cl_room ?c) (received_content (cl_payment ?c))]\<rparr>)"
    by (rule claim_step.Advance) (simp_all add: s advance_def)
  then have "claim_step sample_fs sample_ms ?s sample_claims"
    by (simp add: s sample_claims_def)
  then show ?thesis by (rule claims_reachable.step [OF sample_reachable])
qed

theorem unsent_notice_is_claimed_again_witness:
  "\<exists>s1 s2. claim_step sample_fs sample_ms sample_claims s1 \<and> claim_step sample_fs sample_ms s1 s2 \<and>
     claim_calls s2 = [CallReceiveEcash ''token'' ''fed'',
       CallSendMessage ''!r:x'' (received_content sample_payment_content), CallReceiveEcash ''token'' ''fed'']"
  using unsent_notice_is_claimed_again [OF sample_claims_reachable, of
      "\<lparr>cl_room = ''!r:x'', cl_payment = sample_payment_content, cl_stage = Sending\<rparr>" sample_fs sample_ms None]
    sample_receivable
  by (auto simp: sample_claims_def sample_payment_content_def)

definition sample_bridge :: matrix_bridge where
  "sample_bridge = \<lparr>mb_generateEcash = (\<lambda>_ _. Inr ''ecash''), mb_receiveEcash = (\<lambda>_ _. Inr ()),
     mb_cancelEcash = (\<lambda>_ _. Inl (Error ''already spent'')), mb_decodeInvoice = (\<lambda>i. Inr (FinI 1000, i)),
     mb_createRoom = (\<lambda>_ _ _. Inr ''!r:x''), mb_setRoomTopic = (\<lambda>_ _. Inr ()), mb_sendMessage = (\<lambda>_ _. Inr ()),
     mb_markRoomAsUnread = (\<lambda>_ _. Inr ()), mb_sendReceipt = (\<lambda>_ _. Inr ())\<rparr>"

theorem payment_updates_keep_identity_witness:
  "let t = acceptMatrixPaymentRequest (\<lambda>_. ''1'') sample_bridge sample_ms ''!r:x'' sample_payment_content
   in list_all (same_payment sample_payment_content) (sent_contents (fst t)) \<and> length (sent_contents (fst t)) = 1"
proof -
  let ?t = "acceptMatrixPaymentRequest (\<lambda>_. ''1'') sample_bridge sample_ms ''!r:x'' sample_payment_content"
  have "snd ?t = Inr ()"
    by (simp add: acceptMatrixPaymentRequest_def sample_bridge_def sample_ms_def selectMatrixAuth_def
        sample_payment_content_def thunk_defs)
  then show ?thesis
    using payment_updates_keep_identity [of ?t sample_bridge "''!r:x''" sample_payment_content "\<lambda>_. ''1''" sample_ms]
    by (simp add: Let_def)
qed

text \<open>
  Sending a payment makes no call without an account or for an unknown federation. Otherwise it
  generates ecash for the amount and, if that succeeds, sends exactly one pushed payment that
  carries the token, the amount, the sender and the recipient; if the message is rejected, the
  thunk fails with the rejection and the generated ecash is not canceled.
\<close>

theorem sendMatrixPaymentPush_calls:
  "case sendMatrixPaymentPush formatSats uuid b fs ms federationId roomId recipientId amount of (calls, result) \<Rightarrow>
     if mx_auth ms = None \<or> selectFederation fs federationId = None then calls = [] \<and> (\<exists>e. result = Inl (Error e))
     else (case mb_generateEcash b (satToMsat amount) federationId of
             Inl e \<Rightarrow> calls = [CallGenerateEcash (satToMsat amount) federationId] \<and> result = Inl e
           | Inr ecash \<Rightarrow> (\<exists>p. calls = [CallGenerateEcash (satToMsat amount) federationId, CallSendMessage roomId (Payment p)] \<and>
               pc_status p = pushed \<and> pc_ecash p = Some ecash \<and> pc_amount p = satToMsat amount \<and>
               pc_senderId p = map_option auth_userId (mx_auth ms) \<and> pc_recipientId p = Some recipientId \<and>
               pc_federationId p = Some federationId \<and> pc_paymentId p = uuid \<and>
               result = mb_sendMessage b roomId (Payment p)))"
proof (cases "mx_auth ms")
  case None
  then show ?thesis by (simp add: sendMatrixPaymentPush_def thunk_defs selectMatrixAuth_def)
next
  case auth: (Some auth)
  show ?thesis
  proof (cases "selectFederation fs federationId")
    case None
    then show ?thesis using auth by (simp add: sendMatrixPaymentPush_def thunk_defs selectMatrixAuth_def)
  next
    case (Some f)
    then have "fed_id f = federationId" by (auto simp: selectFederation_def find_Some_iff)
    then show ?thesis
      using Some auth
      by (cases "mb_generateEcash b (satToMsat amount) federationId")
        (simp_all add: sendMatrixPaymentPush_def thunk_defs selectMatrixAuth_def Let_def)
  qed
qed

end
