(* ===== verification/StoredState.thy ===== *)
theory StoredState
  imports MatrixState ChatState JsNumber
begin

text \<open>
  \<open>ui/common/types/storage.ts\<close>: the states the app has stored, of every version. A stored state is
  an object read back from JSON, so it is one record with all the properties any version has,
  \<open>None\<close> where a property is absent; \<open>has_shape\<close> says which properties a state of a version must and
  must not have.
\<close>

section \<open>Stored objects\<close>

text \<open>The visibility of a mod, \<open>ModVisibility\<close> of \<open>redux/mod.ts\<close>.\<close>

record mod_visibility =
  mv_isHidden :: bool
  mv_isGlobal :: "bool option"
  mv_isCommunity :: "bool option"
  mv_isCustom :: "bool option"

text \<open>The chat of a federation, of any version. A \<open>null\<close> id or time is \<open>None\<close> too.\<close>

record chat_object =
  co_authenticatedMember :: "chat_member option"
  co_messages :: "chat_message list"
  co_groups :: "chat_group list"
  co_groupRoles :: "string jsobj option"
  co_groupAffiliations :: "string jsobj option"
  co_members :: "chat_member list"
  co_lastFetchedMessageId :: "string option"
  co_lastReadMessageIds :: "string jsobj option"
  co_lastReadPaymentUpdateIds :: "string jsobj option"
  co_lastSeenMessageId :: "string option"
  co_lastSeenPaymentUpdateId :: "string option"
  co_lastReadMessageTimestamps :: "int jsobj option"
  co_lastSeenMessageTimestamp :: "int option"

record stored_state =
  version :: nat
  ss_language :: "string option option"
  ss_currency :: "string option option"
  ss_activeFederationId :: "string option option"
  ss_authenticatedGuardian :: "guardian option option"
  ss_chatIdentities :: "chat_member option jsobj option"
  ss_chat :: "chat_object option jsobj option"
  ss_customFediMods :: "fedi_mod list option jsobj option"
  ss_externalMeta :: "external_meta option"
  ss_btcExchangeRates :: "jsnum jsobj option"
  ss_amountInputType :: "string option"
  ss_onchainDepositsEnabled :: "bool option"
  ss_developerMode :: "bool option"
  ss_btcUsdRate :: "jsnum option"
  ss_fiatUsdRates :: "jsnum option jsobj option"
  ss_stableBalanceEnabled :: "bool option"
  ss_nuxSteps :: "bool jsobj option"
  ss_showFiatTxnAmounts :: "bool option"
  ss_matrixAuth :: "matrix_auth option option"
  ss_deviceId :: "string option"
  ss_protectedFeatures :: "bool jsobj option"
  ss_customGlobalMods :: "fedi_mod jsobj option"
  ss_customGlobalModVisibility :: "mod_visibility jsobj option"
  ss_suggestedGlobalModVisibility :: "mod_visibility jsobj option"
  ss_modVisibility :: "mod_visibility jsobj option"

section \<open>Shapes\<close>

text \<open>The properties of a chat by version: \<open>groupAffiliations\<close> from 4 on, the ids of the read and
  seen messages from 3 and of the payment updates from 10, both replaced by times in 14.\<close>

definition chat_shape :: "nat \<Rightarrow> chat_object \<Rightarrow> bool" where
  "chat_shape v c =
     ((co_groupAffiliations c \<noteq> None) = (4 \<le> v) \<and>
      (co_lastReadMessageIds c \<noteq> None) = (3 \<le> v \<and> v < 14) \<and>
      (co_lastReadPaymentUpdateIds c \<noteq> None) = (10 \<le> v \<and> v < 14) \<and>
      (co_lastReadMessageTimestamps c \<noteq> None) = (14 \<le> v) \<and>
      (v < 3 \<longrightarrow> co_groupRoles c = None) \<and>
      (v < 3 \<or> 14 \<le> v \<longrightarrow> co_lastSeenMessageId c = None) \<and>
      (v < 10 \<or> 14 \<le> v \<longrightarrow> co_lastSeenPaymentUpdateId c = None) \<and>
      (v < 14 \<longrightarrow> co_lastSeenMessageTimestamp c = None))"

definition has_shape :: "nat \<Rightarrow> stored_state \<Rightarrow> bool" where
  "has_shape v s =
     (version s = v \<and> v \<le> 20 \<and>
      (ss_language s \<noteq> None) = (1 \<le> v) \<and> (ss_currency s \<noteq> None) = (1 \<le> v) \<and>
      (ss_activeFederationId s \<noteq> None) = (1 \<le> v) \<and> (ss_authenticatedGuardian s \<noteq> None) = (1 \<le> v) \<and>
      (ss_chatIdentities s \<noteq> None) = (v = 1) \<and>
      (case ss_chat s of
         None \<Rightarrow> v < 2
       | Some chat \<Rightarrow> 2 \<le> v \<and> list_all (\<lambda>(_, c). case c of None \<Rightarrow> True | Some c \<Rightarrow> chat_shape v c) chat) \<and>
      (v < 3 \<longrightarrow> ss_customFediMods s = None) \<and>
      (ss_externalMeta s \<noteq> None) = (5 \<le> v) \<and>
      (ss_btcExchangeRates s \<noteq> None) = (6 \<le> v \<and> v < 8) \<and>
      (v < 6 \<longrightarrow> ss_amountInputType s = None) \<and>
      (ss_onchainDepositsEnabled s \<noteq> None) = (7 \<le> v) \<and> (ss_developerMode s \<noteq> None) = (7 \<le> v) \<and>
      (ss_btcUsdRate s \<noteq> None) = (8 \<le> v) \<and> (ss_fiatUsdRates s \<noteq> None) = (8 \<le> v) \<and>
      (ss_stableBalanceEnabled s \<noteq> None) = (9 \<le> v) \<and>
      (ss_nuxSteps s \<noteq> None) = (11 \<le> v) \<and>
      (v < 13 \<longrightarrow> ss_showFiatTxnAmounts s = None) \<and>
      (ss_matrixAuth s \<noteq> None) = (15 \<le> v) \<and>
      (v < 16 \<longrightarrow> ss_deviceId s = None) \<and>
      (ss_protectedFeatures s \<noteq> None) = (17 \<le> v) \<and>
      (ss_customGlobalMods s \<noteq> None) = (18 \<le> v) \<and>
      (ss_customGlobalModVisibility s \<noteq> None) = (v = 18) \<and>
      (ss_suggestedGlobalModVisibility s \<noteq> None) = (v = 18) \<and>
      (ss_modVisibility s \<noteq> None) = (19 \<le> v))"

end
