(* ===== verification/Settings.thy ===== *)
theory Settings
  imports StoredState
begin

text \<open>
  The small slices of the store: \<open>environment.ts\<close>, \<open>nux.ts\<close>, \<open>security.ts\<close>, \<open>toast.ts\<close>, \<open>recovery.ts\<close> and
  \<open>storage.ts\<close> of \<open>ui/common/redux\<close>, a record and one definition per reducer, with what each takes from
  the stored state when it is loaded, and the thunks with a decision of their own.
\<close>

section \<open>Environment\<close>

record environment_state =
  developerMode :: bool
  fedimodDebugMode :: bool
  onchainDepositsEnabled :: bool
  stableBalanceEnabled :: bool
  lang :: "string option"
  amountInputType :: "string option"
  showFiatTxnAmounts :: bool
  deviceId :: "string option"
  nostrNpub :: "string option"
  nostrNsec :: "string option"

definition initialEnvironmentState :: environment_state where
  "initialEnvironmentState =
     \<lparr>developerMode = False, fedimodDebugMode = False, onchainDepositsEnabled = False,
      stableBalanceEnabled = False, lang = None, amountInputType = None, showFiatTxnAmounts = True,
      deviceId = None, nostrNpub = None, nostrNsec = None\<rparr>"

definition setDeveloperMode :: "bool \<Rightarrow> environment_state \<Rightarrow> environment_state" where
  "setDeveloperMode b s = s\<lparr>developerMode := b\<rparr>"

definition setFediModDebugMode :: "bool \<Rightarrow> environment_state \<Rightarrow> environment_state" where
  "setFediModDebugMode b s = s\<lparr>fedimodDebugMode := b\<rparr>"

definition setAmountInputType :: "string option \<Rightarrow> environment_state \<Rightarrow> environment_state" where
  "setAmountInputType t s = s\<lparr>amountInputType := t\<rparr>"

definition setOnchainDepositsEnabled :: "bool \<Rightarrow> environment_state \<Rightarrow> environment_state" where
  "setOnchainDepositsEnabled b s = s\<lparr>onchainDepositsEnabled := b\<rparr>"

definition setStableBalanceEnabled :: "bool \<Rightarrow> environment_state \<Rightarrow> environment_state" where
  "setStableBalanceEnabled b s = s\<lparr>stableBalanceEnabled := b\<rparr>"

definition setShowFiatTxnAmounts :: "bool \<Rightarrow> environment_state \<Rightarrow> environment_state" where
  "setShowFiatTxnAmounts b s = s\<lparr>showFiatTxnAmounts := b\<rparr>"

definition setDeviceId :: "string \<Rightarrow> environment_state \<Rightarrow> environment_state" where
  "setDeviceId i s = s\<lparr>deviceId := Some i\<rparr>"

definition setNostrNpub :: "string \<Rightarrow> environment_state \<Rightarrow> environment_state" where
  "setNostrNpub k s = s\<lparr>nostrNpub := Some k\<rparr>"

definition setNostrNsec :: "string \<Rightarrow> environment_state \<Rightarrow> environment_state" where
  "setNostrNsec k s = s\<lparr>nostrNsec := Some k\<rparr>"

definition changeLanguageFulfilled :: "string \<Rightarrow> environment_state \<Rightarrow> environment_state" where
  "changeLanguageFulfilled l s = s\<lparr>lang := Some l\<rparr>"

text \<open>A stored flag that is false does not replace the state's. The stored language is always set.\<close>

definition loadEnvironment :: "stored_state option \<Rightarrow> environment_state \<Rightarrow> environment_state" where
  "loadEnvironment payload s =
     (case payload of
        None \<Rightarrow> s
      | Some p \<Rightarrow>
          s\<lparr>lang := Option.bind (ss_language p) id,
            amountInputType := (if truthy_str (ss_amountInputType p) then ss_amountInputType p else amountInputType s),
            onchainDepositsEnabled := (ss_onchainDepositsEnabled p = Some True \<or> onchainDepositsEnabled s),
            stableBalanceEnabled := (ss_stableBalanceEnabled p = Some True \<or> stableBalanceEnabled s),
            developerMode := (ss_developerMode p = Some True \<or> developerMode s),
            showFiatTxnAmounts := (case ss_showFiatTxnAmounts p of None \<Rightarrow> showFiatTxnAmounts s | Some b \<Rightarrow> b),
            deviceId := (case ss_deviceId p of None \<Rightarrow> deviceId s | Some d \<Rightarrow> Some d)\<rparr>)"

text \<open>The device id is made once; the keys are fetched once unless a refresh is forced.\<close>

definition initializeDeviceId :: "string \<Rightarrow> environment_state \<Rightarrow> environment_state" where
  "initializeDeviceId fresh s = (if truthy_str (deviceId s) then s else setDeviceId fresh s)"

definition initializeNostrKeys ::
  "js_error + string \<Rightarrow> js_error + string \<Rightarrow> bool \<Rightarrow> environment_state \<Rightarrow> environment_state \<times> (js_error + unit)"
where
  "initializeNostrKeys getNostrPubkey getNostrSecret forceRefresh s =
     (if \<not> forceRefresh \<and> truthy_str (nostrNpub s) then (s, Inr ())
      else case getNostrPubkey of
             Inl e \<Rightarrow> (s, Inl e)
           | Inr npub \<Rightarrow>
               (case getNostrSecret of
                  Inl e \<Rightarrow> (setNostrNpub npub s, Inl e)
                | Inr nsec \<Rightarrow> (setNostrNsec nsec (setNostrNpub npub s), Inr ())))"

section \<open>New user experience\<close>

text \<open>The steps are an object: a step that was never written reads as \<open>undefined\<close>.\<close>

type_synonym nux_state = "bool jsobj"

definition nux_steps :: "string list" where
  "nux_steps = [''hasViewedMemberQr'', ''hasOpenedNewChat'', ''hasPerformedPersonalBackup'', ''hasOpenedStabilityPool'']"

definition initialNuxState :: nux_state where
  "initialNuxState = map (\<lambda>k. (k, False)) nux_steps"

definition completeNuxStep :: "string \<Rightarrow> nux_state \<Rightarrow> nux_state" where
  "completeNuxStep step s = obj_set step True s"

definition resetNuxSteps :: "nux_state \<Rightarrow> nux_state" where
  "resetNuxSteps s = initialNuxState"

text \<open>Only the stored steps the state has are kept, and the others of the state are dropped.\<close>

definition loadNux :: "stored_state option \<Rightarrow> nux_state \<Rightarrow> nux_state" where
  "loadNux payload s =
     (case Option.bind payload ss_nuxSteps of
        None \<Rightarrow> s
      | Some steps \<Rightarrow>
          foldl (\<lambda>acc (step, v). if obj_get s step \<noteq> None then obj_set step v acc else acc) [] (obj_entries steps))"

definition selectNuxStep :: "nux_state \<Rightarrow> string \<Rightarrow> bool option" where
  "selectNuxStep s step = obj_get s step"

section \<open>Security\<close>

datatype protected_feature = app | changePin | nostrSettings

record protected_features =
  pf_app :: bool
  pf_changePin :: bool
  pf_nostrSettings :: bool

fun feature_get :: "protected_features \<Rightarrow> protected_feature \<Rightarrow> bool" where
  "feature_get f app = pf_app f"
| "feature_get f changePin = pf_changePin f"
| "feature_get f nostrSettings = pf_nostrSettings f"

fun feature_set :: "protected_feature \<Rightarrow> bool \<Rightarrow> protected_features \<Rightarrow> protected_features" where
  "feature_set app b f = f\<lparr>pf_app := b\<rparr>"
| "feature_set changePin b f = f\<lparr>pf_changePin := b\<rparr>"
| "feature_set nostrSettings b f = f\<lparr>pf_nostrSettings := b\<rparr>"

record pin_state =
  protectedFeatures :: protected_features
  unlockedFeatures :: protected_features
  isBackingUpBeforePin :: bool

definition initialPinState :: pin_state where
  "initialPinState =
     \<lparr>protectedFeatures = \<lparr>pf_app = True, pf_changePin = True, pf_nostrSettings = True\<rparr>,
      unlockedFeatures = \<lparr>pf_app = False, pf_changePin = False, pf_nostrSettings = False\<rparr>,
      isBackingUpBeforePin = False\<rparr>"

definition setFeatureUnlocked :: "protected_feature \<Rightarrow> bool \<Rightarrow> pin_state \<Rightarrow> pin_state" where
  "setFeatureUnlocked key unlocked s = s\<lparr>unlockedFeatures := feature_set key unlocked (unlockedFeatures s)\<rparr>"

definition setProtectedFeature :: "protected_feature \<Rightarrow> bool \<Rightarrow> pin_state \<Rightarrow> pin_state" where
  "setProtectedFeature key enabled s = s\<lparr>protectedFeatures := feature_set key enabled (protectedFeatures s)\<rparr>"

definition setIsBackingUpBeforePin :: "bool \<Rightarrow> pin_state \<Rightarrow> pin_state" where
  "setIsBackingUpBeforePin b s = s\<lparr>isBackingUpBeforePin := b\<rparr>"

definition feature_key :: "string \<Rightarrow> protected_feature option" where
  "feature_key k =
     (if k = ''app'' then Some app else if k = ''changePin'' then Some changePin
      else if k = ''nostrSettings'' then Some nostrSettings else None)"

definition loadSecurity :: "stored_state option \<Rightarrow> pin_state \<Rightarrow> pin_state" where
  "loadSecurity payload s =
     (case Option.bind payload ss_protectedFeatures of
        None \<Rightarrow> s
      | Some stored \<Rightarrow>
          s\<lparr>protectedFeatures := foldl (\<lambda>f (k, v). case feature_key k of None \<Rightarrow> f | Some key \<Rightarrow> feature_set key v f)
              (protectedFeatures s) (obj_entries stored)\<rparr>)"

definition selectIsFeatureUnlocked :: "pin_state \<Rightarrow> protected_feature \<Rightarrow> bool" where
  "selectIsFeatureUnlocked s feature = feature_get (unlockedFeatures s) feature"

section \<open>Toasts\<close>

datatype toast_status = ToastSuccess | ToastError | ToastInfo

record toast =
  toast_content :: string
  toast_key :: string
  toast_status_of :: toast_status

type_synonym toast_state = "toast option"

definition setToast :: "toast \<Rightarrow> toast_state \<Rightarrow> toast_state" where
  "setToast t s = Some t"

definition closeToast :: "string option \<Rightarrow> toast_state \<Rightarrow> toast_state" where
  "closeToast key s =
     (if \<not> truthy_str key \<or> map_option toast_key s = key then None else s)"

text \<open>The toast shown and, for a success, the key that the timer closes after six seconds.\<close>

definition showToast :: "int \<Rightarrow> string \<Rightarrow> string option \<Rightarrow> toast_status option \<Rightarrow> toast \<times> string option" where
  "showToast now content key st =
     (let t = \<lparr>toast_content = content, toast_key = (case key of None \<Rightarrow> int_digits now | Some k \<Rightarrow> k),
               toast_status_of = (case st of None \<Rightarrow> ToastInfo | Some x \<Rightarrow> x)\<rparr>
      in (t, if toast_status_of t = ToastSuccess then Some (toast_key t) else None))"

section \<open>Recovery\<close>

text \<open>The events and devices of the bridge are opaque.\<close>

record ('e, 'd) recovery_state =
  hasCheckedForSocialRecovery :: bool
  socialRecoveryQr :: "string option"
  socialRecoveryState :: "'e option"
  registeredDevices :: "'d list"
  deviceIndexRequired :: bool
  shouldLockDevice :: bool

definition initialRecoveryState :: "('e, 'd) recovery_state" where
  "initialRecoveryState =
     \<lparr>hasCheckedForSocialRecovery = False, socialRecoveryQr = None, socialRecoveryState = None,
      registeredDevices = [], deviceIndexRequired = False, shouldLockDevice = False\<rparr>"

datatype ('e, 'd) recovery_action =
    SetSocialRecoveryState "'e option"
  | SetDeviceIndexRequired bool
  | SetShouldLockDevice bool
  | FetchSocialRecoveryFulfilled "(string \<times> 'e) option"
  | RefreshSocialRecoveryStateFulfilled 'e
  | CompleteSocialRecoveryFulfilled
  | CancelSocialRecoveryFulfilled
  | RecoverFromMnemonicFulfilled "'d list"
  | FetchRegisteredDevicesFulfilled "'d list"

fun recoveryReducer :: "('e, 'd) recovery_action \<Rightarrow> ('e, 'd) recovery_state \<Rightarrow> ('e, 'd) recovery_state" where
  "recoveryReducer (SetSocialRecoveryState e) s = s\<lparr>socialRecoveryState := e\<rparr>"
| "recoveryReducer (SetDeviceIndexRequired b) s = s\<lparr>deviceIndexRequired := b\<rparr>"
| "recoveryReducer (SetShouldLockDevice b) s = s\<lparr>shouldLockDevice := b\<rparr>"
| "recoveryReducer (FetchSocialRecoveryFulfilled p) s =
     s\<lparr>hasCheckedForSocialRecovery := True, socialRecoveryQr := map_option fst p,
       socialRecoveryState := map_option snd p\<rparr>"
| "recoveryReducer (RefreshSocialRecoveryStateFulfilled e) s = s\<lparr>socialRecoveryState := Some e\<rparr>"
| "recoveryReducer CompleteSocialRecoveryFulfilled s = s\<lparr>socialRecoveryQr := None, socialRecoveryState := None\<rparr>"
| "recoveryReducer CancelSocialRecoveryFulfilled s = s\<lparr>socialRecoveryQr := None, socialRecoveryState := None\<rparr>"
| "recoveryReducer (RecoverFromMnemonicFulfilled ds) s = s\<lparr>registeredDevices := ds\<rparr>"
| "recoveryReducer (FetchRegisteredDevicesFulfilled ds) s = s\<lparr>registeredDevices := ds\<rparr>"

text \<open>\<open>fetchSocialRecovery\<close>: nothing without a QR code.\<close>

definition fetchSocialRecovery :: "js_error + string option \<Rightarrow> js_error + 'e \<Rightarrow> js_error + (string \<times> 'e) option" where
  "fetchSocialRecovery recoveryQr socialRecoveryApprovals =
     (case recoveryQr of
        Inl e \<Rightarrow> Inl e
      | Inr None \<Rightarrow> Inr None
      | Inr (Some qr) \<Rightarrow>
          (case socialRecoveryApprovals of Inl e \<Rightarrow> Inl e | Inr st \<Rightarrow> Inr (Some (qr, st))))"

section \<open>Saving\<close>

record storage_state =
  hasLoaded :: bool
  lastSavedAt :: int

definition initialStorageState :: storage_state where
  "initialStorageState = \<lparr>hasLoaded = False, lastSavedAt = 0\<rparr>"

definition loadStorageFulfilled :: "storage_state \<Rightarrow> storage_state" where
  "loadStorageFulfilled s = s\<lparr>hasLoaded := True\<rparr>"

definition saveToStorageFulfilled :: "int \<Rightarrow> storage_state \<Rightarrow> storage_state" where
  "saveToStorageFulfilled now s = s\<lparr>lastSavedAt := now\<rparr>"

end
