(* ===== verification/Mods.thy ===== *)
theory Mods
  imports StoredState
begin

text \<open>
  The mods slice of \<open>ui/common/redux/mod.ts\<close> with \<open>deduplicate\<close> of \<open>ui/common/utils/fedimods.ts\<close>: the
  mods the user made, the visibility of every mod, what happens to it when a community publishes its
  mods, and the lists the screens show.
\<close>

section \<open>State\<close>

record mod_state =
  customGlobalMods :: "fedi_mod jsobj"
  modVisibility :: "mod_visibility jsobj"

definition initialModState :: mod_state where
  "initialModState = \<lparr>customGlobalMods = [], modVisibility = []\<rparr>"

text \<open>\<open>{...old, ...new}\<close> of two visibilities.\<close>

definition merge_visibility :: "mod_visibility \<Rightarrow> mod_visibility \<Rightarrow> mod_visibility" where
  "merge_visibility old new = new\<lparr>
     mv_isGlobal := nullish (mv_isGlobal new) (mv_isGlobal old),
     mv_isCommunity := nullish (mv_isCommunity new) (mv_isCommunity old),
     mv_isCustom := nullish (mv_isCustom new) (mv_isCustom old)\<rparr>"

text \<open>\<open>{...(old ?? {}), isHidden}\<close>.\<close>

definition visibility_with :: "mod_visibility option \<Rightarrow> bool \<Rightarrow> mod_visibility" where
  "visibility_with old hidden =
     (case old of
        None \<Rightarrow> \<lparr>mv_isHidden = hidden, mv_isGlobal = None, mv_isCommunity = None, mv_isCustom = None\<rparr>
      | Some v \<Rightarrow> v\<lparr>mv_isHidden := hidden\<rparr>)"

section \<open>Reducers\<close>

definition addCustomMod :: "fedi_mod \<Rightarrow> mod_state \<Rightarrow> mod_state" where
  "addCustomMod m s =
     (let visibility = (visibility_with (obj_get (modVisibility s) (mod_id m)) False)\<lparr>mv_isCustom := Some True\<rparr>
      in s\<lparr>customGlobalMods := obj_set (mod_id m) m (customGlobalMods s),
           modVisibility := upsertRecordEntityId merge_visibility (Some (modVisibility s)) visibility (mod_id m)\<rparr>)"

text \<open>Reading \<open>isCommunity\<close> of a mod without visibility throws, and the reducer changes nothing.\<close>

definition removeCustomMod :: "string \<Rightarrow> mod_state \<Rightarrow> js_error + mod_state" where
  "removeCustomMod modId s =
     (let mods = (if obj_get (customGlobalMods s) modId \<noteq> None then obj_omit modId (customGlobalMods s)
                  else customGlobalMods s)
      in case obj_get (modVisibility s) modId of
           None \<Rightarrow> Inl TypeError
         | Some v \<Rightarrow>
             Inr (s\<lparr>customGlobalMods := mods,
               modVisibility :=
                 (if mv_isCommunity v = Some True
                  then obj_omit modId (modVisibility s) @ [(modId, v\<lparr>mv_isCustom := Some False\<rparr>)]
                  else modVisibility s)\<rparr>))"

definition setModVisibility :: "string \<Rightarrow> bool \<Rightarrow> mod_state \<Rightarrow> mod_state" where
  "setModVisibility modId isHidden s =
     s\<lparr>modVisibility := obj_set modId (visibility_with (obj_get (modVisibility s) modId) isHidden) (modVisibility s)\<rparr>"

definition loadMods :: "stored_state option \<Rightarrow> mod_state \<Rightarrow> mod_state" where
  "loadMods payload s =
     (case payload of
        None \<Rightarrow> s
      | Some p \<Rightarrow>
          s\<lparr>customGlobalMods := (case ss_customGlobalMods p of None \<Rightarrow> [] | Some m \<Rightarrow> m),
            modVisibility := (case ss_modVisibility p of None \<Rightarrow> [] | Some v \<Rightarrow> v)\<rparr>)"

definition community_mod :: "fedi_mod \<Rightarrow> mod_visibility jsobj \<Rightarrow> mod_visibility jsobj" where
  "community_mod m vis =
     (let old = obj_get vis (mod_id m)
      in if Option.bind old mv_isCommunity = Some True then vis
         else upsertRecordEntityId merge_visibility (Some vis)
                ((visibility_with old False)\<lparr>mv_isCommunity := Some True\<rparr>) (mod_id m))"

definition onFederationMods :: "fedi_mod list option \<Rightarrow> mod_state \<Rightarrow> mod_state" where
  "onFederationMods mods s =
     (case mods of None \<Rightarrow> s | Some ms \<Rightarrow> s\<lparr>modVisibility := fold community_mod ms (modVisibility s)\<rparr>)"

datatype mod_action =
    AddCustomMod fedi_mod
  | RemoveCustomMod string
  | SetModVisibility string bool
  | LoadMods "stored_state option"
  | FederationMods "fedi_mod list option"

fun modReducer :: "mod_action \<Rightarrow> mod_state \<Rightarrow> mod_state" where
  "modReducer (AddCustomMod m) s = addCustomMod m s"
| "modReducer (RemoveCustomMod i) s = (case removeCustomMod i s of Inl e \<Rightarrow> s | Inr s' \<Rightarrow> s')"
| "modReducer (SetModVisibility i b) s = setModVisibility i b s"
| "modReducer (LoadMods p) s = loadMods p s"
| "modReducer (FederationMods ms) s = onFederationMods ms s"

section \<open>Selectors\<close>

definition deduplicate :: "('a \<Rightarrow> string) \<Rightarrow> 'a list \<Rightarrow> 'a list" where
  "deduplicate ident arr = foldl (\<lambda>acc curr. if list_ex (\<lambda>item. ident item = ident curr) acc then acc else acc @ [curr]) [] arr"

definition selectCustomMods :: "mod_state \<Rightarrow> fedi_mod list" where
  "selectCustomMods s = obj_values (customGlobalMods s)"

text \<open>The JSON parser and the URL check of \<open>getFederationFediMods\<close> are arguments.\<close>

type_synonym mods_parser = "string \<Rightarrow> js_error + raw_mod list option"

definition is_visible :: "mod_state \<Rightarrow> fedi_mod \<Rightarrow> bool" where
  "is_visible s m = (case obj_get (modVisibility s) (mod_id m) of None \<Rightarrow> True | Some v \<Rightarrow> \<not> mv_isHidden v)"

definition selectVisibleCustomMods :: "mod_state \<Rightarrow> fedi_mod list" where
  "selectVisibleCustomMods s = filter (is_visible s) (selectCustomMods s)"

definition selectGlobalMods :: "mods_parser \<Rightarrow> (string \<Rightarrow> bool) \<Rightarrow> 'r federation_state \<Rightarrow> fedi_mod list" where
  "selectGlobalMods parse is_url fs =
     (case selectGlobalCommunityMeta fs of None \<Rightarrow> [] | Some meta \<Rightarrow> getFederationFediMods parse is_url meta)"

definition selectVisibleGlobalMods :: "mods_parser \<Rightarrow> (string \<Rightarrow> bool) \<Rightarrow> 'r federation_state \<Rightarrow> mod_state \<Rightarrow> fedi_mod list" where
  "selectVisibleGlobalMods parse is_url fs s = filter (is_visible s) (selectGlobalMods parse is_url fs)"

definition selectVisibleCommunityMods :: "'r federation_state \<Rightarrow> mod_state \<Rightarrow> fedi_mod list" where
  "selectVisibleCommunityMods fs s =
     filter (is_visible s) (selectCommunityMods fs)"

definition selectConfigurableMods :: "mods_parser \<Rightarrow> (string \<Rightarrow> bool) \<Rightarrow> 'r federation_state \<Rightarrow> mod_state \<Rightarrow> fedi_mod list" where
  "selectConfigurableMods parse is_url fs s =
     deduplicate mod_id (selectGlobalMods parse is_url fs @ selectCustomMods s)"

definition selectAllVisibleMods :: "mods_parser \<Rightarrow> (string \<Rightarrow> bool) \<Rightarrow> 'r federation_state \<Rightarrow> mod_state \<Rightarrow> fedi_mod list" where
  "selectAllVisibleMods parse is_url fs s =
     deduplicate mod_id (selectVisibleGlobalMods parse is_url fs s @ selectVisibleCustomMods s)"


section \<open>Duplicates\<close>

lemma deduplicate_snoc:
  "deduplicate ident (xs @ [x]) =
     (if ident x \<in> ident ` set (deduplicate ident xs) then deduplicate ident xs else deduplicate ident xs @ [x])"
proof -
  have "list_ex (\<lambda>item. ident item = ident x) ys = (ident x \<in> ident ` set ys)" for ys
    by (induction ys) auto
  then show ?thesis by (simp add: deduplicate_def)
qed

lemma deduplicate_ids: "ident ` set (deduplicate ident xs) = ident ` set xs"
  by (induction xs rule: rev_induct) (auto simp: deduplicate_snoc, simp add: deduplicate_def)

lemma deduplicate_distinct: "distinct (map ident (deduplicate ident xs))"
  by (induction xs rule: rev_induct) (auto simp: deduplicate_snoc, simp add: deduplicate_def)

text \<open>The first element with an id is the one kept.\<close>

lemma find_snoc: "find P (xs @ [x]) = (case find P xs of None \<Rightarrow> if P x then Some x else None | Some y \<Rightarrow> Some y)"
  by (induction xs) auto

lemma deduplicate_first: "find (\<lambda>y. ident y = i) (deduplicate ident xs) = find (\<lambda>y. ident y = i) xs"
proof (induction xs rule: rev_induct)
  case Nil
  show ?case by (simp add: deduplicate_def)
next
  case (snoc x xs)
  have "\<exists>y. find (\<lambda>y. ident y = i) (deduplicate ident xs) = Some y" if "i \<in> ident ` set (deduplicate ident xs)"
    using that by (cases "find (\<lambda>y. ident y = i) (deduplicate ident xs)") (auto simp: find_None_iff)
  then show ?case using snoc by (auto simp: deduplicate_snoc find_snoc split: option.splits)
qed

section \<open>The invariant\<close>

text \<open>Every mod the user made is stored under its id and has a visibility.\<close>

definition mods_ok :: "mod_state \<Rightarrow> bool" where
  "mods_ok s =
     (keyed_by mod_id (customGlobalMods s) \<and> distinct (map fst (modVisibility s)) \<and>
      (\<forall>i. obj_get (modVisibility s) i = None \<longrightarrow> obj_get (customGlobalMods s) i = None))"

fun mod_action_ok :: "mod_action \<Rightarrow> bool" where
  "mod_action_ok (LoadMods (Some p)) = mods_ok (loadMods (Some p) initialModState)"
| "mod_action_ok _ = True"

lemma upsertRecordEntityId_distinct:
  "distinct (map fst r) \<Longrightarrow> distinct (map fst (upsertRecordEntityId merge (Some r) e i))"
  by (simp add: upsertRecordEntityId_def)

lemma set_obj_omit: "set (obj_omit k ob) \<subseteq> set ob"
  by (simp add: obj_omit_def AList.delete_eq)

lemma keyed_by_omit: "keyed_by ident ob \<Longrightarrow> keyed_by ident (obj_omit k ob)"
  using set_obj_omit [of k ob] by (auto simp: keyed_by_def distinct_obj_omit list_all_iff)

lemma obj_get_append: "obj_get (xs @ ys) k = (case obj_get xs k of None \<Rightarrow> obj_get ys k | Some v \<Rightarrow> Some v)"
  by (simp add: obj_get_def map_add_def split: option.splits)

lemma obj_get_single [simp]: "obj_get [(k, v)] k' = (if k' = k then Some v else None)"
  by (simp add: obj_get_def)

lemma obj_get_upsert_None:
  "(obj_get (upsertRecordEntityId merge (Some r) e i) k = None) = (k \<noteq> i \<and> obj_get r k = None)"
  by (simp add: upsertRecordEntityId_get)

lemma mods_ok_add: "mods_ok s \<Longrightarrow> mods_ok (addCustomMod m s)"
  by (auto simp: mods_ok_def addCustomMod_def Let_def upsertRecordEntityId_distinct keyed_by_set upsertRecordEntityId_get)

lemma removeCustomMod_result:
  assumes "obj_get (modVisibility s) i = Some v"
  shows "removeCustomMod i s = Inr (s\<lparr>
    customGlobalMods := (if obj_get (customGlobalMods s) i = None then customGlobalMods s else obj_omit i (customGlobalMods s)),
    modVisibility := (if mv_isCommunity v = Some True
      then obj_omit i (modVisibility s) @ [(i, v\<lparr>mv_isCustom := Some False\<rparr>)] else modVisibility s)\<rparr>)"
  using assms by (simp add: removeCustomMod_def Let_def)

lemma not_in_keys_omit: "i \<notin> fst ` set (obj_omit i ob)"
  by (auto simp: obj_omit_def AList.delete_eq)

lemma mods_ok_remove:
  assumes "mods_ok s" and "removeCustomMod i s = Inr s'"
  shows "mods_ok s'"
proof -
  obtain v where v: "obj_get (modVisibility s) i = Some v"
    using assms(2) by (auto simp: removeCustomMod_def split: option.splits)
  then have "s' = s\<lparr>customGlobalMods := (if obj_get (customGlobalMods s) i = None then customGlobalMods s else obj_omit i (customGlobalMods s)),
    modVisibility := (if mv_isCommunity v = Some True
      then obj_omit i (modVisibility s) @ [(i, v\<lparr>mv_isCustom := Some False\<rparr>)] else modVisibility s)\<rparr>"
    using assms(2) removeCustomMod_result [OF v] by simp
  then show ?thesis
    using assms(1) v not_in_keys_omit [of i "modVisibility s"]
    by (simp add: mods_ok_def keyed_by_omit distinct_obj_omit obj_get_append split: option.splits)
qed

lemma mods_ok_visibility: "mods_ok s \<Longrightarrow> mods_ok (setModVisibility i b s)"
  by (simp add: mods_ok_def setModVisibility_def)

lemma community_mod_keys:
  "distinct (map fst vis) \<Longrightarrow> distinct (map fst (community_mod m vis))"
  "obj_get (community_mod m vis) i = None \<Longrightarrow> obj_get vis i = None"
  by (auto simp: community_mod_def Let_def upsertRecordEntityId_distinct obj_get_upsert_None split: if_splits)

lemma community_mods_distinct: "distinct (map fst vis) \<Longrightarrow> distinct (map fst (fold community_mod ms vis))"
  by (induction ms arbitrary: vis) (simp_all add: community_mod_keys)

lemma community_mods_keys: "obj_get (fold community_mod ms vis) i = None \<Longrightarrow> obj_get vis i = None"
  by (induction ms arbitrary: vis) (auto dest: community_mod_keys(2))

lemma mods_ok_community:
  assumes "mods_ok s"
  shows "mods_ok (onFederationMods ms s)"
proof (cases ms)
  case (Some xs)
  show ?thesis
    using assms community_mods_distinct [of "modVisibility s" xs] community_mods_keys [of xs "modVisibility s"]
    by (auto simp: Some mods_ok_def onFederationMods_def)
qed (use assms in \<open>simp add: onFederationMods_def\<close>)

lemma mods_ok_initial: "mods_ok initialModState"
  by (simp add: mods_ok_def initialModState_def)

lemma mods_ok_step: "mods_ok s \<Longrightarrow> mod_action_ok a \<Longrightarrow> mods_ok (modReducer a s)"
proof (cases a)
  case (LoadMods p)
  assume "mods_ok s" "mod_action_ok a"
  then show ?thesis
    using LoadMods by (cases p) (simp_all add: mods_ok_def loadMods_def initialModState_def)
qed (auto simp: mods_ok_add mods_ok_visibility mods_ok_community split: sum.splits dest: mods_ok_remove)

interpretation mod_slice: reducer initialModState modReducer mod_action_ok mods_ok
  by unfold_locales (auto intro: mods_ok_initial mods_ok_step)

lemma not_in_image: "(\<And>x. x \<in> A \<Longrightarrow> f x \<noteq> k) \<Longrightarrow> k \<notin> f ` A"
  by auto

section \<open>Properties\<close>

text \<open>
  After every sequence of actions, each mod the user made can be removed: the reducer does not throw,
  the mod is gone from the list, and the other mods and their visibility are as before.
\<close>

theorem custom_mods_removable:
  assumes "list_all mod_action_ok as" and "s = fold modReducer as initialModState"
    and "m \<in> set (selectCustomMods s)"
  shows "\<exists>s'. removeCustomMod (mod_id m) s = Inr s' \<and> mod_id m \<notin> mod_id ` set (selectCustomMods s') \<and>
    (\<forall>i. i \<noteq> mod_id m \<longrightarrow> obj_get (customGlobalMods s') i = obj_get (customGlobalMods s) i \<and>
       obj_get (modVisibility s') i = obj_get (modVisibility s) i)"
proof -
  have ok: "mods_ok s" unfolding assms(2) using assms(1) by (rule mod_slice.run_invar)
  then have k: "keyed_by mod_id (customGlobalMods s)" by (simp add: mods_ok_def)
  obtain i where "(i, m) \<in> set (customGlobalMods s)"
    using assms(3) by (auto simp: selectCustomMods_def in_obj_values)
  then have mi: "(mod_id m, m) \<in> set (customGlobalMods s)" using k by (auto simp: keyed_by_def list_all_iff)
  then have g: "obj_get (customGlobalMods s) (mod_id m) \<noteq> None"
    using in_obj_get [of "customGlobalMods s"] k by (simp add: keyed_by_def)
  then obtain v where v: "obj_get (modVisibility s) (mod_id m) = Some v"
    using ok by (cases "obj_get (modVisibility s) (mod_id m)") (auto simp: mods_ok_def)
  let ?s' = "s\<lparr>customGlobalMods := obj_omit (mod_id m) (customGlobalMods s),
    modVisibility := (if mv_isCommunity v = Some True
      then obj_omit (mod_id m) (modVisibility s) @ [(mod_id m, v\<lparr>mv_isCustom := Some False\<rparr>)] else modVisibility s)\<rparr>"
  have r: "removeCustomMod (mod_id m) s = Inr ?s'" using removeCustomMod_result [OF v] g by simp
  have other: "mod_id m' \<noteq> mod_id m" if m': "m' \<in> set (selectCustomMods ?s')" for m'
  proof -
    obtain j where j: "(j, m') \<in> set (obj_omit (mod_id m) (customGlobalMods s))"
      using m' by (auto simp: selectCustomMods_def in_obj_values)
    then have get: "obj_get (obj_omit (mod_id m) (customGlobalMods s)) j = Some m'"
      using k by (intro in_obj_get) (simp_all add: keyed_by_def distinct_obj_omit)
    have "mod_id m' = j" using keyed_by_get [OF keyed_by_omit [OF k] get] .
    then show ?thesis using get by (simp split: if_splits)
  qed
  have "mod_id m \<notin> mod_id ` set (selectCustomMods ?s')" by (rule not_in_image) (rule other)
  moreover have "\<forall>i. i \<noteq> mod_id m \<longrightarrow> obj_get (customGlobalMods ?s') i = obj_get (customGlobalMods s) i \<and>
       obj_get (modVisibility ?s') i = obj_get (modVisibility s) i"
    by (simp add: obj_get_append split: option.splits)
  ultimately show ?thesis using r by blast
qed

definition sample_mod :: fedi_mod where
  "sample_mod = \<lparr>mod_id = ''m'', mod_title = ''M'', mod_url = ''https://m'', mod_imageUrl = None,
     mod_description = None, mod_color = None\<rparr>"

theorem custom_mods_removable_witness:
  "\<exists>s'. removeCustomMod ''m'' (fold modReducer [AddCustomMod sample_mod, SetModVisibility ''m'' True] initialModState) = Inr s' \<and>
     ''m'' \<notin> mod_id ` set (selectCustomMods s')"
proof -
  let ?as = "[AddCustomMod sample_mod, SetModVisibility ''m'' True]"
  have i: "mod_id sample_mod = ''m''" by (simp add: sample_mod_def)
  have m: "sample_mod \<in> set (selectCustomMods (fold modReducer ?as initialModState))"
    by code_simp
  have ok: "list_all mod_action_ok ?as" by simp
  show ?thesis
    using custom_mods_removable [OF ok refl m] unfolding i by blast
qed

end
