(* ===== verification/Currency.thy ===== *)
theory Currency
  imports StoredState
begin

text \<open>
  The state of \<open>ui/common/redux/currency.ts\<close>: the selected currency and the exchange rates, the
  reducers, and the reading of the price feed. The selectors that mix these rates with the price of
  the stability pool are in the theory of the wallet.
\<close>

record currency_state =
  btcUsdRate :: jsnum
  fiatUsdRates :: "jsnum option jsobj"
  selectedFiatCurrency :: "string option"
  currencyLocale :: "string option"

definition initialCurrencyState :: currency_state where
  "initialCurrencyState =
     \<lparr>btcUsdRate = FinI 0, fiatUsdRates = [], selectedFiatCurrency = None, currencyLocale = None\<rparr>"

definition changeSelectedFiatCurrency :: "string \<Rightarrow> currency_state \<Rightarrow> currency_state" where
  "changeSelectedFiatCurrency c s = s\<lparr>selectedFiatCurrency := Some c\<rparr>"

definition setCurrencyLocale :: "string \<Rightarrow> currency_state \<Rightarrow> currency_state" where
  "setCurrencyLocale l s = s\<lparr>currencyLocale := Some l\<rparr>"

definition resetCurrencyState :: "currency_state \<Rightarrow> currency_state" where
  "resetCurrencyState s = initialCurrencyState"

definition fetchCurrencyPricesFulfilled :: "jsnum \<times> jsnum option jsobj \<Rightarrow> currency_state \<Rightarrow> currency_state" where
  "fetchCurrencyPricesFulfilled prices s =
     s\<lparr>btcUsdRate := fst prices, fiatUsdRates := obj_spread (fiatUsdRates s) (snd prices)\<rparr>"

definition loadCurrency :: "stored_state option \<Rightarrow> currency_state \<Rightarrow> currency_state" where
  "loadCurrency payload s =
     (case payload of
        None \<Rightarrow> s
      | Some p \<Rightarrow>
          s\<lparr>selectedFiatCurrency := Option.bind (ss_currency p) id,
            btcUsdRate := (case ss_btcUsdRate p of None \<Rightarrow> NaN | Some r \<Rightarrow> r),
            fiatUsdRates := (case ss_fiatUsdRates p of None \<Rightarrow> [] | Some r \<Rightarrow> r)\<rparr>)"

text \<open>
  The price feed: pairs such as \<open>EUR/USD\<close> with their rates (\<open>None\<close>: not a number). Only the pairs
  quoted in dollars are kept, bitcoin apart.
\<close>

definition fiat_of_pair :: "string \<Rightarrow> string option" where
  "fiat_of_pair pair =
     (case js_split (CHR ''/'') pair of
        fiat # usd # _ \<Rightarrow> if usd \<noteq> ''USD'' \<or> fiat = ''BTC'' then None else Some fiat
      | _ \<Rightarrow> None)"

definition fetchCurrencyPrices :: "js_error + jsnum option jsobj \<Rightarrow> js_error + (jsnum \<times> jsnum option jsobj)" where
  "fetchCurrencyPrices feed =
     (case feed of
        Inl e \<Rightarrow> Inl e
      | Inr prices \<Rightarrow>
          (case obj_get prices ''BTC/USD'' of
             Some (Some rate) \<Rightarrow>
               Inr (rate, foldl (\<lambda>acc (pair, r).
                   case fiat_of_pair pair of Some fiat \<Rightarrow> obj_set fiat r acc | None \<Rightarrow> acc)
                 [] (obj_entries prices))
           | _ \<Rightarrow> Inl (Error ''Missing required BTC/USD rate from price feed'')))"

end
