(* ===== verification/Storage.thy ===== *)
theory Storage
  imports Settings Mods Currency
begin

text \<open>
  \<open>ui/common/utils/storage.ts\<close>: what the app stores of its state, when it stores it, and the migrations
  that bring a state stored by any version of the app to the latest one, a definition per version
  step. The clock, the storage item of the legacy device id and the parser of the stored text are
  arguments.
\<close>

section \<open>The slices that are stored\<close>

record 'r common_state =
  environment :: environment_state
  currency :: currency_state
  federation :: "'r federation_state"
  nux :: nux_state
  chat :: chat_state
  matrix :: matrix_state
  security :: pin_state
  mods :: mod_state

definition store_chat :: "fed_chat \<Rightarrow> chat_object" where
  "store_chat c =
     \<lparr>co_authenticatedMember = authenticatedMember c, co_messages = messages c, co_groups = groups c,
      co_groupRoles = Some (groupRoles c), co_groupAffiliations = Some (groupAffiliations c),
      co_members = membersSeen c, co_lastFetchedMessageId = lastFetchedMessageId c,
      co_lastReadMessageIds = None, co_lastReadPaymentUpdateIds = None, co_lastSeenMessageId = None,
      co_lastSeenPaymentUpdateId = None, co_lastReadMessageTimestamps = Some (lastReadMessageTimestamps c),
      co_lastSeenMessageTimestamp = lastSeenMessageTimestamp c\<rparr>"

definition store_features :: "protected_features \<Rightarrow> bool jsobj" where
  "store_features f = [(''app'', pf_app f), (''changePin'', pf_changePin f), (''nostrSettings'', pf_nostrSettings f)]"

definition transformStateToStorage :: "'r common_state \<Rightarrow> stored_state" where
  "transformStateToStorage s =
     \<lparr>version = 20, ss_language = Some (lang (environment s)),
      ss_currency = Some (selectedFiatCurrency (currency s)),
      ss_activeFederationId = Some (activeFederationId (federation s)),
      ss_authenticatedGuardian = Some (authenticatedGuardian (federation s)), ss_chatIdentities = None,
      ss_chat = Some (foldl (\<lambda>stored (federationId, chatState). obj_set federationId (Some (store_chat chatState)) stored)
        [] (obj_entries (chat s))),
      ss_customFediMods = Some (customFediMods (federation s)), ss_externalMeta = Some (externalMeta (federation s)),
      ss_btcExchangeRates = None, ss_amountInputType = amountInputType (environment s),
      ss_onchainDepositsEnabled = Some (onchainDepositsEnabled (environment s)),
      ss_developerMode = Some (developerMode (environment s)), ss_btcUsdRate = Some (btcUsdRate (currency s)),
      ss_fiatUsdRates = Some (fiatUsdRates (currency s)),
      ss_stableBalanceEnabled = Some (stableBalanceEnabled (environment s)), ss_nuxSteps = Some (nux s),
      ss_showFiatTxnAmounts = Some (showFiatTxnAmounts (environment s)), ss_matrixAuth = Some (mx_auth (matrix s)),
      ss_deviceId = deviceId (environment s), ss_protectedFeatures = Some (store_features (protectedFeatures (security s))),
      ss_customGlobalMods = Some (customGlobalMods (mods s)), ss_customGlobalModVisibility = None,
      ss_suggestedGlobalModVisibility = None, ss_modVisibility = Some (modVisibility (mods s))\<rparr>"

section \<open>When to store\<close>

text \<open>
  The properties that are compared, by the paths the code gives to \<open>get\<close>. An object is compared by
  reference: next to the contents of a state, \<open>state_refs\<close> says which object lies at each path.
  There is no \<open>prices\<close> in the currency slice, so that path is always undefined.
\<close>

datatype chat_key =
    ChatAuthenticatedMember | ChatMessages | ChatGroups | ChatGroupRoles | ChatMembersSeen
  | ChatLastFetchedMessageId | ChatLastReadMessageTimestamps | ChatLastSeenMessageTimestamp

datatype state_key =
    KeyLanguage | KeyAmountInputType | KeyOnchainDepositsEnabled | KeyDeveloperMode
  | KeyStableBalanceEnabled | KeyShowFiatTxnAmounts | KeyDeviceId
  | KeySelectedFiatCurrency | KeyPrices
  | KeyActiveFederationId | KeyAuthenticatedGuardian | KeyExternalMeta | KeyCustomFediMods
  | KeyMatrixAuth | KeyNuxSteps | KeyProtectedFeatures | KeyCustomGlobalMods | KeyModVisibility
  | KeyChat string chat_key

datatype object_contents =
    GuardianObject guardian | MetaObject external_meta | ModsObject "fedi_mod list option jsobj"
  | MatrixAuthObject matrix_auth | StepsObject "bool jsobj" | FeaturesObject protected_features
  | GlobalModsObject "fedi_mod jsobj" | VisibilityObject "mod_visibility jsobj"
  | MemberObject chat_member | MessagesObject "chat_message list" | GroupsObject "chat_group list"
  | RolesObject "string jsobj" | MembersObject "chat_member list" | TimesObject "int jsobj"

datatype state_value =
    UndefinedValue | NullValue | BoolValue bool | StringValue string | NumberValue int | ObjectValue object_contents

type_synonym state_refs = "state_key \<Rightarrow> nat"

definition or_null :: "('a \<Rightarrow> state_value) \<Rightarrow> 'a option \<Rightarrow> state_value" where
  "or_null f x = (case x of None \<Rightarrow> NullValue | Some y \<Rightarrow> f y)"

definition or_undefined :: "('a \<Rightarrow> state_value) \<Rightarrow> 'a option \<Rightarrow> state_value" where
  "or_undefined f x = (case x of None \<Rightarrow> UndefinedValue | Some y \<Rightarrow> f y)"

primrec chat_value :: "chat_key \<Rightarrow> fed_chat \<Rightarrow> state_value" where
  "chat_value ChatAuthenticatedMember c = or_null (\<lambda>m. ObjectValue (MemberObject m)) (authenticatedMember c)"
| "chat_value ChatMessages c = ObjectValue (MessagesObject (messages c))"
| "chat_value ChatGroups c = ObjectValue (GroupsObject (groups c))"
| "chat_value ChatGroupRoles c = ObjectValue (RolesObject (groupRoles c))"
| "chat_value ChatMembersSeen c = ObjectValue (MembersObject (membersSeen c))"
| "chat_value ChatLastFetchedMessageId c = or_null StringValue (lastFetchedMessageId c)"
| "chat_value ChatLastReadMessageTimestamps c = ObjectValue (TimesObject (lastReadMessageTimestamps c))"
| "chat_value ChatLastSeenMessageTimestamp c = or_null NumberValue (lastSeenMessageTimestamp c)"

primrec state_value_at :: "'r common_state \<Rightarrow> state_key \<Rightarrow> state_value" where
  "state_value_at s KeyLanguage = or_null StringValue (lang (environment s))"
| "state_value_at s KeyAmountInputType = or_undefined StringValue (amountInputType (environment s))"
| "state_value_at s KeyOnchainDepositsEnabled = BoolValue (onchainDepositsEnabled (environment s))"
| "state_value_at s KeyDeveloperMode = BoolValue (developerMode (environment s))"
| "state_value_at s KeyStableBalanceEnabled = BoolValue (stableBalanceEnabled (environment s))"
| "state_value_at s KeyShowFiatTxnAmounts = BoolValue (showFiatTxnAmounts (environment s))"
| "state_value_at s KeyDeviceId = or_undefined StringValue (deviceId (environment s))"
| "state_value_at s KeySelectedFiatCurrency = or_null StringValue (selectedFiatCurrency (currency s))"
| "state_value_at s KeyPrices = UndefinedValue"
| "state_value_at s KeyActiveFederationId = or_null StringValue (activeFederationId (federation s))"
| "state_value_at s KeyAuthenticatedGuardian = or_null (\<lambda>g. ObjectValue (GuardianObject g)) (authenticatedGuardian (federation s))"
| "state_value_at s KeyExternalMeta = ObjectValue (MetaObject (externalMeta (federation s)))"
| "state_value_at s KeyCustomFediMods = ObjectValue (ModsObject (customFediMods (federation s)))"
| "state_value_at s KeyMatrixAuth = or_null (\<lambda>m. ObjectValue (MatrixAuthObject m)) (mx_auth (matrix s))"
| "state_value_at s KeyNuxSteps = ObjectValue (StepsObject (nux s))"
| "state_value_at s KeyProtectedFeatures = ObjectValue (FeaturesObject (protectedFeatures (security s)))"
| "state_value_at s KeyCustomGlobalMods = ObjectValue (GlobalModsObject (customGlobalMods (mods s)))"
| "state_value_at s KeyModVisibility = ObjectValue (VisibilityObject (modVisibility (mods s)))"
| "state_value_at s (KeyChat federationId k) = or_undefined (chat_value k) (obj_get (chat s) federationId)"

definition chat_keys :: "chat_key list" where
  "chat_keys = [ChatAuthenticatedMember, ChatMessages, ChatGroups, ChatGroupRoles, ChatMembersSeen,
     ChatLastFetchedMessageId, ChatLastReadMessageTimestamps, ChatLastSeenMessageTimestamp]"

definition keysetsToCheck :: "'r common_state \<Rightarrow> 'r common_state \<Rightarrow> state_key list" where
  "keysetsToCheck oldState newState =
     [KeyLanguage, KeyAmountInputType, KeyOnchainDepositsEnabled, KeyDeveloperMode, KeyStableBalanceEnabled,
      KeyShowFiatTxnAmounts, KeyDeviceId, KeySelectedFiatCurrency, KeyPrices, KeyActiveFederationId,
      KeyAuthenticatedGuardian, KeyExternalMeta, KeyCustomFediMods, KeyMatrixAuth, KeyNuxSteps,
      KeyProtectedFeatures, KeyCustomGlobalMods, KeyModVisibility] @
     concat (map (\<lambda>federationId. map (KeyChat federationId) chat_keys)
       (remdups (obj_keys (chat oldState) @ obj_keys (chat newState))))"

text \<open>\<open>===\<close> of the values of two states at a path: objects by reference, everything else by value.\<close>

definition strict_equal :: "state_value \<Rightarrow> nat \<Rightarrow> state_value \<Rightarrow> nat \<Rightarrow> bool" where
  "strict_equal x r y q =
     (case (x, y) of (ObjectValue _, ObjectValue _) \<Rightarrow> r = q | _ \<Rightarrow> x = y)"

definition hasStorageStateChanged ::
  "'r common_state \<Rightarrow> state_refs \<Rightarrow> 'r common_state \<Rightarrow> state_refs \<Rightarrow> bool"
where
  "hasStorageStateChanged oldState oldRefs newState newRefs =
     list_ex (\<lambda>k. \<not> strict_equal (state_value_at oldState k) (oldRefs k) (state_value_at newState k) (newRefs k))
       (keysetsToCheck oldState newState)"

section \<open>Migrations of the chats\<close>

text \<open>
  The loops over the chats: each chat that is there is dropped (\<open>None\<close>) or replaced, starting from the
  dictionary \<open>prevChat\<close>.
\<close>

fun reduce_chats ::
  "(chat_object \<Rightarrow> js_error + chat_object option) \<Rightarrow> (string \<times> chat_object option) list \<Rightarrow>
   chat_object option jsobj \<Rightarrow> js_error + chat_object option jsobj"
where
  "reduce_chats f [] prevChat = Inr prevChat"
| "reduce_chats f ((federationId, chatState) # rest) prevChat =
     (case chatState of
        None \<Rightarrow> reduce_chats f rest prevChat
      | Some c \<Rightarrow>
          (case f c of
             Inl e \<Rightarrow> Inl e
           | Inr None \<Rightarrow> reduce_chats f rest prevChat
           | Inr (Some c') \<Rightarrow> reduce_chats f rest (obj_set federationId (Some c') prevChat)))"

definition my_id :: "chat_object \<Rightarrow> string option" where
  "my_id c = (case co_authenticatedMember c of
     None \<Rightarrow> None | Some me \<Rightarrow> if member_id me = [] then None else Some (member_id me))"

definition chat_2_3 :: "chat_object \<Rightarrow> js_error + chat_object option" where
  "chat_2_3 c =
     (case my_id c of
        None \<Rightarrow> Inr None
      | Some myId \<Rightarrow>
          (case getLatestMessageIdsForChats (co_messages c) myId of
             Inl e \<Rightarrow> Inl e
           | Inr ids \<Rightarrow>
               let latest = map_option msg_id (getLatestMessage (co_messages c))
               in Inr (Some (c\<lparr>co_lastReadMessageIds := Some ids,
                    co_lastSeenMessageId := (if truthy_str latest then latest else None)\<rparr>))))"

text \<open>Each role replaces the affiliations collected before it.\<close>

definition affiliations_of_roles :: "string jsobj \<Rightarrow> string jsobj" where
  "affiliations_of_roles roles =
     foldl (\<lambda>prevGroup (groupId, role).
         if role = [] then prevGroup
         else [(groupId, if role = ''moderator'' then ''owner'' else ''none'')]) [] (obj_entries roles)"

definition chat_3_4 :: "chat_object \<Rightarrow> js_error + chat_object option" where
  "chat_3_4 c =
     (case co_groupRoles c of
        None \<Rightarrow> Inr None
      | Some roles \<Rightarrow> Inr (Some (c\<lparr>co_groupAffiliations := Some (affiliations_of_roles roles)\<rparr>)))"

definition chat_9_10 :: "chat_object \<Rightarrow> js_error + chat_object option" where
  "chat_9_10 c =
     (case my_id c of
        None \<Rightarrow> Inr None
      | Some myId \<Rightarrow>
          (case getLatestPaymentUpdateIdsForChats (co_messages c) myId of
             Inl e \<Rightarrow> Inl e
           | Inr ids \<Rightarrow>
               Inr (Some (c\<lparr>co_lastReadPaymentUpdateIds := Some ids,
                 co_lastSeenPaymentUpdateId :=
                   (case getLatestPaymentUpdate (co_messages c) of
                      None \<Rightarrow> None
                    | Some m \<Rightarrow> if msg_id m = [] then None else Some (payment_update_id m))\<rparr>))))"

definition joined_at :: "int \<Rightarrow> chat_message list \<Rightarrow> chat_group \<Rightarrow> int" where
  "joined_at now ms g =
     foldl (\<lambda>joinedAt msg. if msg_sentIn msg \<noteq> Some (group_id g) then joinedAt else min joinedAt (msg_sentAt msg)) now ms"

definition chat_11_12 :: "int \<Rightarrow> chat_object \<Rightarrow> js_error + chat_object option" where
  "chat_11_12 now c =
     Inr (Some (c\<lparr>co_groups := map (\<lambda>g. g\<lparr>group_joinedAt := joined_at now (co_messages c) g\<rparr>) (co_groups c)\<rparr>))"

text \<open>The time of a message, or that of its payment's update when it is later.\<close>

definition later_time :: "chat_message \<Rightarrow> chat_message option \<Rightarrow> int" where
  "later_time m paymentMessage =
     (case Option.bind (Option.bind paymentMessage msg_payment) pay_updatedAt of
        None \<Rightarrow> msg_sentAt m
      | Some t \<Rightarrow> if t \<noteq> 0 \<and> t > msg_sentAt m then t else msg_sentAt m)"

definition message_with_id :: "chat_message list \<Rightarrow> string option \<Rightarrow> chat_message option" where
  "message_with_id ms i = find (\<lambda>m. Some (msg_id m) = i) ms"

fun read_timestamps ::
  "chat_message list \<Rightarrow> string jsobj \<Rightarrow> string jsobj option \<Rightarrow> string list \<Rightarrow> int jsobj \<Rightarrow> js_error + int jsobj"
where
  "read_timestamps ms ids paymentIds [] result = Inr result"
| "read_timestamps ms ids paymentIds (chatId # rest) result =
     (case paymentIds of
        None \<Rightarrow> Inl TypeError
      | Some pids \<Rightarrow>
          (case message_with_id ms (obj_get ids chatId) of
             None \<Rightarrow> read_timestamps ms ids paymentIds rest result
           | Some m \<Rightarrow>
               read_timestamps ms ids paymentIds rest
                 (obj_set chatId (later_time m (message_with_id ms (obj_get pids chatId))) result)))"

definition chat_13_14 :: "chat_object \<Rightarrow> js_error + chat_object option" where
  "chat_13_14 c =
     (case my_id c of
        None \<Rightarrow> Inr None
      | Some myId \<Rightarrow>
          (case co_lastReadMessageIds c of
             None \<Rightarrow> Inl TypeError
           | Some ids \<Rightarrow>
               (case read_timestamps (co_messages c) ids (co_lastReadPaymentUpdateIds c) (obj_keys ids) [] of
                  Inl e \<Rightarrow> Inl e
                | Inr stamps \<Rightarrow>
                    Inr (Some (c\<lparr>co_lastReadMessageIds := None, co_lastReadPaymentUpdateIds := None,
                      co_lastSeenMessageId := None, co_lastSeenPaymentUpdateId := None,
                      co_lastReadMessageTimestamps := Some stamps,
                      co_lastSeenMessageTimestamp :=
                        map_option (\<lambda>m. later_time m (message_with_id (co_messages c) (co_lastSeenPaymentUpdateId c)))
                          (message_with_id (co_messages c) (co_lastSeenMessageId c))\<rparr>)))))"

text \<open>A migration of the chats alone; a state without chats throws.\<close>

definition migrate_chats ::
  "nat \<Rightarrow> (chat_object \<Rightarrow> js_error + chat_object option) \<Rightarrow> bool \<Rightarrow> stored_state \<Rightarrow> js_error + stored_state"
where
  "migrate_chats v f keep s =
     (case ss_chat s of
        None \<Rightarrow> Inl TypeError
      | Some oldChat \<Rightarrow>
          (case reduce_chats f (obj_entries oldChat) (if keep then oldChat else []) of
             Inl e \<Rightarrow> Inl e
           | Inr newChat \<Rightarrow> Inr (s\<lparr>version := v, ss_chat := Some newChat\<rparr>)))"


section \<open>Migrations of the state\<close>

definition to_1 :: "stored_state \<Rightarrow> js_error + stored_state" where
  "to_1 s = Inr (s\<lparr>version := 1, ss_language := Some None, ss_currency := Some None,
     ss_activeFederationId := Some None, ss_authenticatedGuardian := Some None, ss_chatIdentities := Some []\<rparr>)"

definition empty_chat :: "chat_member \<Rightarrow> chat_object" where
  "empty_chat me =
     \<lparr>co_authenticatedMember = Some me, co_messages = [], co_groups = [], co_groupRoles = None,
      co_groupAffiliations = None, co_members = [], co_lastFetchedMessageId = None, co_lastReadMessageIds = None,
      co_lastReadPaymentUpdateIds = None, co_lastSeenMessageId = None, co_lastSeenPaymentUpdateId = None,
      co_lastReadMessageTimestamps = None, co_lastSeenMessageTimestamp = None\<rparr>"

definition to_2 :: "stored_state \<Rightarrow> js_error + stored_state" where
  "to_2 s =
     (case ss_chatIdentities s of
        None \<Rightarrow> Inl TypeError
      | Some chatIdentities \<Rightarrow>
          Inr (s\<lparr>version := 2, ss_chatIdentities := None,
            ss_chat := Some (foldl (\<lambda>chat (federationId, authenticatedMember).
                case authenticatedMember of
                  None \<Rightarrow> chat
                | Some me \<Rightarrow> obj_set federationId (Some (empty_chat me)) chat) [] (obj_entries chatIdentities))\<rparr>))"

definition to_8 :: "stored_state \<Rightarrow> js_error + stored_state" where
  "to_8 s =
     (case ss_btcExchangeRates s of
        None \<Rightarrow> Inl TypeError
      | Some rates \<Rightarrow>
          Inr (s\<lparr>version := 8, ss_btcExchangeRates := None,
            ss_btcUsdRate := Some (case obj_get rates ''USD'' of None \<Rightarrow> FinI 0 | Some r \<Rightarrow> js_or r (FinI 0)),
            ss_fiatUsdRates := Some []\<rparr>))"

text \<open>The three parts of the mod visibility of version 19, spread one over the other.\<close>

definition collect :: "('a \<Rightarrow> 'b) \<Rightarrow> 'a jsobj option \<Rightarrow> 'b jsobj" where
  "collect f ob = (case ob of None \<Rightarrow> [] | Some es \<Rightarrow> foldl (\<lambda>acc (k, v). obj_set k (f v) acc) [] (obj_entries es))"

definition to_19 :: "stored_state \<Rightarrow> js_error + stored_state" where
  "to_19 s =
     Inr (s\<lparr>version := 19, ss_customGlobalModVisibility := None, ss_suggestedGlobalModVisibility := None,
       ss_modVisibility := Some (obj_spread (obj_spread
         (collect (\<lambda>v. v\<lparr>mv_isGlobal := Some True\<rparr>) (ss_suggestedGlobalModVisibility s))
         (collect (\<lambda>m. \<lparr>mv_isHidden = False, mv_isGlobal = None, mv_isCommunity = None, mv_isCustom = Some True\<rparr>)
           (ss_customGlobalMods s)))
         (collect (\<lambda>v. v\<lparr>mv_isCustom := Some True\<rparr>) (ss_customGlobalModVisibility s)))\<rparr>)"

definition to_20 :: "stored_state \<Rightarrow> js_error + stored_state" where
  "to_20 s =
     Inr (s\<lparr>version := 20, ss_protectedFeatures :=
       Some (obj_set ''nostrSettings'' True (case ss_protectedFeatures s of None \<Rightarrow> [] | Some f \<Rightarrow> f))\<rparr>)"

text \<open>The step that leads to a version, from the version before it.\<close>

definition migration :: "int \<Rightarrow> js_error + string option \<Rightarrow> nat \<Rightarrow> stored_state \<Rightarrow> js_error + stored_state" where
  "migration now legacyDeviceId v s =
     (if v = 1 then to_1 s
      else if v = 2 then to_2 s
      else if v = 3 then migrate_chats 3 chat_2_3 False s
      else if v = 4 then migrate_chats 4 chat_3_4 False s
      else if v = 5 then Inr (s\<lparr>version := 5, ss_externalMeta := Some []\<rparr>)
      else if v = 6 then Inr (s\<lparr>version := 6, ss_btcExchangeRates := Some []\<rparr>)
      else if v = 7 then Inr (s\<lparr>version := 7, ss_onchainDepositsEnabled := Some False, ss_developerMode := Some False\<rparr>)
      else if v = 8 then to_8 s
      else if v = 9 then Inr (s\<lparr>version := 9, ss_stableBalanceEnabled := Some False\<rparr>)
      else if v = 10 then migrate_chats 10 chat_9_10 False s
      else if v = 11 then Inr (s\<lparr>version := 11, ss_nuxSteps := Some []\<rparr>)
      else if v = 12 then migrate_chats 12 (chat_11_12 now) True s
      else if v = 13 then Inr (s\<lparr>version := 13, ss_showFiatTxnAmounts := Some True\<rparr>)
      else if v = 14 then migrate_chats 14 chat_13_14 False s
      else if v = 15 then Inr (s\<lparr>version := 15, ss_matrixAuth := Some None\<rparr>)
      else if v = 16 then
        (case legacyDeviceId of
           Inl e \<Rightarrow> Inl e
         | Inr d \<Rightarrow> Inr (s\<lparr>version := 16, ss_deviceId := (if truthy_str d then d else None)\<rparr>))
      else if v = 17 then
        Inr (s\<lparr>version := 17, ss_protectedFeatures := Some [(''app'', True), (''changePin'', True)]\<rparr>)
      else if v = 18 then
        Inr (s\<lparr>version := 18, ss_customGlobalMods := Some [], ss_customGlobalModVisibility := Some [],
          ss_suggestedGlobalModVisibility := Some []\<rparr>)
      else if v = 19 then to_19 s
      else to_20 s)"

text \<open>The sequence of conditionals: the step to a version runs if the state has the version before it.\<close>

fun migrate_through :: "int \<Rightarrow> js_error + string option \<Rightarrow> nat list \<Rightarrow> stored_state \<Rightarrow> js_error + stored_state" where
  "migrate_through now d [] s = Inr s"
| "migrate_through now d (v # vs) s =
     (if version s + 1 = v
      then (case migration now d v s of Inl e \<Rightarrow> Inl e | Inr s' \<Rightarrow> migrate_through now d vs s')
      else migrate_through now d vs s)"

definition migrateStoredState :: "int \<Rightarrow> js_error + string option \<Rightarrow> stored_state \<Rightarrow> js_error + stored_state" where
  "migrateStoredState now legacyDeviceId s = migrate_through now legacyDeviceId [1..<21] s"

definition getStoredState ::
  "int \<Rightarrow> js_error + string option \<Rightarrow> (string \<Rightarrow> js_error + stored_state) \<Rightarrow> js_error + string option \<Rightarrow>
   js_error + stored_state option"
where
  "getStoredState now legacyDeviceId parse item =
     (case item of
        Inl e \<Rightarrow> Inl e
      | Inr serializedState \<Rightarrow>
          if \<not> truthy_str serializedState then Inr None
          else case parse (the serializedState) of
                 Inl e \<Rightarrow> Inl e
               | Inr s \<Rightarrow> map_sum id Some (migrateStoredState now legacyDeviceId s))"

section \<open>Loading\<close>

text \<open>The stored chats as the chat slice loads them.\<close>

definition loaded_chat :: "chat_object \<Rightarrow> stored_chat" where
  "loaded_chat c =
     \<lparr>st_authenticatedMember = co_authenticatedMember c, st_messages = co_messages c, st_groups = co_groups c,
      st_groupRoles = co_groupRoles c, st_groupAffiliations = co_groupAffiliations c, st_members = co_members c,
      st_lastFetchedMessageId = co_lastFetchedMessageId c,
      st_lastReadMessageTimestamps = (case co_lastReadMessageTimestamps c of None \<Rightarrow> [] | Some t \<Rightarrow> t),
      st_lastSeenMessageTimestamp = co_lastSeenMessageTimestamp c\<rparr>"

definition loaded_federation :: "stored_state \<Rightarrow> stored_federation" where
  "loaded_federation p =
     \<lparr>sf_activeFederationId = Option.bind (ss_activeFederationId p) id,
      sf_authenticatedGuardian = Option.bind (ss_authenticatedGuardian p) id,
      sf_externalMeta = (case ss_externalMeta p of None \<Rightarrow> [] | Some m \<Rightarrow> m),
      sf_customFediMods = ss_customFediMods p\<rparr>"

text \<open>What \<open>loadFromStorage.fulfilled\<close> does to the slices; the Matrix account is not restored.\<close>

definition loadFromStorageFulfilled :: "stored_state option \<Rightarrow> 'r common_state \<Rightarrow> 'r common_state" where
  "loadFromStorageFulfilled payload s =
     s\<lparr>environment := loadEnvironment payload (environment s),
       currency := loadCurrency payload (currency s),
       federation := loadFederationFromStorage (map_option loaded_federation payload) (federation s),
       nux := loadNux payload (nux s),
       chat := loadChatFromStorage
         (Option.bind payload (\<lambda>p. map_option (map (\<lambda>(f, c). (f, map_option loaded_chat c))) (ss_chat p))) (chat s),
       matrix := matrixReducer id LoadFulfilled (matrix s),
       security := loadSecurity payload (security s),
       mods := loadMods payload (mods s)\<rparr>"

definition initialCommonState :: "'r common_state" where
  "initialCommonState =
     \<lparr>environment = initialEnvironmentState, currency = initialCurrencyState, federation = initialFederationState,
      nux = initialNuxState, chat = initialChatState, matrix = initialMatrixState, security = initialPinState,
      mods = initialModState\<rparr>"


section \<open>The loops over the chats\<close>

definition chats_all :: "(chat_object \<Rightarrow> bool) \<Rightarrow> chat_object option jsobj \<Rightarrow> bool" where
  "chats_all P chats = list_all (\<lambda>(_, c). case c of None \<Rightarrow> True | Some c \<Rightarrow> P c) chats"

lemma set_obj_set: "set (obj_set k v ob) \<subseteq> insert (k, v) (set ob)"
  unfolding obj_set_def by (induction ob) auto

lemma chats_all_empty [simp]: "chats_all P []"
  by (simp add: chats_all_def)

lemma chats_all_set: "chats_all P chats \<Longrightarrow> P c \<Longrightarrow> chats_all P (obj_set k (Some c) chats)"
  using set_obj_set [of k "Some c" chats] by (auto simp: chats_all_def list_all_iff)

lemma chats_all_entries [simp]: "chats_all P (obj_entries chats) = chats_all P chats"
  by (simp add: chats_all_def list_all_iff)

lemma chats_all_mono: "chats_all P chats \<Longrightarrow> (\<And>c. P c \<Longrightarrow> Q c) \<Longrightarrow> chats_all Q chats"
  by (auto simp: chats_all_def list_all_iff split: option.splits)

lemma chats_all_Cons:
  "chats_all P ((k, c) # chats) = ((case c of None \<Rightarrow> True | Some c \<Rightarrow> P c) \<and> chats_all P chats)"
  by (simp add: chats_all_def)

lemma chats_all_conj: "chats_all (\<lambda>c. P c \<and> Q c) chats = (chats_all P chats \<and> chats_all Q chats)"
proof (induction chats)
  case (Cons e chats)
  obtain k c where e: "e = (k, c)" by force
  show ?case using Cons by (cases c) (auto simp: e chats_all_Cons)
qed simp

text \<open>What holds of every chat a step keeps holds of all chats afterwards.\<close>

lemma reduce_chats_all:
  assumes "reduce_chats f es prev = Inr chats" and "chats_all P es" and "chats_all Q prev"
    and "\<And>c c'. P c \<Longrightarrow> f c = Inr (Some c') \<Longrightarrow> Q c'"
  shows "chats_all Q chats"
  using assms
proof (induction es arbitrary: prev)
  case (Cons e es)
  obtain k c where e: "e = (k, c)" by force
  have es: "chats_all P es" using Cons.prems(2) by (simp add: chats_all_def)
  show ?case
  proof (cases c)
    case None
    then show ?thesis using Cons es e by simp
  next
    case (Some a)
    have a: "P a" using Cons.prems(2) e Some by (simp add: chats_all_def)
    consider "f a = Inr None" | b where "f a = Inr (Some b)"
      using Cons.prems(1) e Some by (auto split: sum.splits option.splits)
    then show ?thesis
    proof cases
      case 1
      then show ?thesis using Cons es e Some by simp
    next
      case (2 b)
      have "chats_all Q (obj_set k (Some b) prev)" using Cons.prems(3,4) a 2 by (intro chats_all_set) auto
      then show ?thesis using Cons.IH Cons.prems es e Some 2 by simp
    qed
  qed
qed simp

lemma reduce_chats_total:
  "chats_all (\<lambda>c. \<exists>r. f c = Inr r) es \<Longrightarrow> \<exists>chats. reduce_chats f es prev = Inr chats"
proof (induction f es prev rule: reduce_chats.induct)
  case (2 f k c rest prev)
  then show ?case by (cases c) (auto simp: chats_all_def split: sum.splits option.splits)
qed simp

lemma reduce_chats_none:
  "reduce_chats f es prev = Inr chats \<Longrightarrow> chats_all (\<lambda>c. f c = Inr None) es \<Longrightarrow> chats = prev"
proof (induction f es prev rule: reduce_chats.induct)
  case (2 f k c rest prev)
  then show ?case by (cases c) (auto simp: chats_all_def)
qed simp

section \<open>Messages that belong to a chat\<close>

definition addressed :: "chat_message \<Rightarrow> bool" where
  "addressed m = (truthy_str (msg_sentIn m) \<or> truthy_str (msg_sentTo m) \<and> msg_sentBy m \<noteq> [])"

lemma addressed_info: "addressed m \<Longrightarrow> \<exists>k t. getChatInfoFromMessage m i = Inr (k, t)"
  by (auto simp: addressed_def getChatInfoFromMessage_def)

lemma first_per_chat_total: "list_all addressed ms \<Longrightarrow> \<exists>ids. first_per_chat f i acc ms = Inr ids"
proof (induction ms arbitrary: acc)
  case (Cons m ms)
  obtain k t where "getChatInfoFromMessage m i = Inr (k, t)" using addressed_info [of m i] Cons.prems by auto
  then show ?case using Cons by simp
qed simp

lemma latest_ids_total:
  assumes "list_all addressed ms"
  shows "\<exists>ids. getLatestMessageIdsForChats ms i = Inr ids" "\<exists>ids. getLatestPaymentUpdateIdsForChats ms i = Inr ids"
proof -
  show "\<exists>ids. getLatestMessageIdsForChats ms i = Inr ids"
    using assms unfolding getLatestMessageIdsForChats_def
    by (intro first_per_chat_total) (simp add: list_all_iff)
  have "set (order_desc_opt (\<lambda>m. Option.bind (msg_payment m) pay_updatedAt) (filter (\<lambda>m. msg_payment m \<noteq> None) ms)) \<subseteq> set ms"
    by (metis filter_is_subset mset_order_desc_opt set_mset_mset)
  then show "\<exists>ids. getLatestPaymentUpdateIdsForChats ms i = Inr ids"
    using assms unfolding getLatestPaymentUpdateIdsForChats_def Let_def
    by (intro first_per_chat_total) (auto simp: list_all_iff)
qed

lemma latest_ids_no_error [simp]:
  assumes "list_all addressed ms"
  shows "(getLatestMessageIdsForChats ms i = Inl e) = False" "(getLatestPaymentUpdateIdsForChats ms i = Inl e) = False"
  using latest_ids_total [OF assms, of i] by auto

lemma read_timestamps_no_error [simp]: "(read_timestamps ms ids (Some pids) keys acc = Inl e) = False"
  by (induction keys arbitrary: acc) (auto split: option.splits)

text \<open>A well-formed chat of a version, and what the steps between versions do to it.\<close>

definition good_chat :: "nat \<Rightarrow> chat_object \<Rightarrow> bool" where
  "good_chat v c = (chat_shape v c \<and> list_all addressed (co_messages c))"

lemma chat_2_3_good:
  assumes "good_chat 2 c"
  shows "\<exists>r. chat_2_3 c = Inr r" "chat_2_3 c = Inr (Some c') \<Longrightarrow> good_chat 3 c' \<and> co_groupRoles c' = None"
  using assms
  by (auto simp: chat_2_3_def good_chat_def chat_shape_def Let_def split: option.splits sum.splits)

lemma chat_3_4_good:
  assumes "good_chat 3 c"
  shows "\<exists>r. chat_3_4 c = Inr r" "chat_3_4 c = Inr (Some c') \<Longrightarrow> good_chat 4 c'"
  using assms by (auto simp: chat_3_4_def good_chat_def chat_shape_def split: option.splits)

lemma chat_9_10_good:
  assumes "good_chat 9 c"
  shows "\<exists>r. chat_9_10 c = Inr r" "chat_9_10 c = Inr (Some c') \<Longrightarrow> good_chat 10 c'"
  using assms
  by (auto simp: chat_9_10_def good_chat_def chat_shape_def split: option.splits sum.splits)

lemma chat_11_12_good:
  assumes "good_chat 11 c"
  shows "\<exists>r. chat_11_12 now c = Inr r" "chat_11_12 now c = Inr (Some c') \<Longrightarrow> good_chat 12 c'"
  using assms by (auto simp: chat_11_12_def good_chat_def chat_shape_def)

lemma chat_13_14_good:
  assumes "good_chat 13 c"
  shows "\<exists>r. chat_13_14 c = Inr r" "chat_13_14 c = Inr (Some c') \<Longrightarrow> good_chat 14 c'"
proof -
  obtain pids where p: "co_lastReadPaymentUpdateIds c = Some pids" and "co_lastReadMessageIds c \<noteq> None"
    using assms by (auto simp: good_chat_def chat_shape_def)
  then show "\<exists>r. chat_13_14 c = Inr r" "chat_13_14 c = Inr (Some c') \<Longrightarrow> good_chat 14 c'"
    using assms
    by (auto simp: chat_13_14_def good_chat_def chat_shape_def split: option.splits sum.splits)
qed


section \<open>Well-formed states\<close>

lemma chat_shape_classes:
  "4 \<le> v \<Longrightarrow> v < 10 \<Longrightarrow> chat_shape v = chat_shape 4"
  "10 \<le> v \<Longrightarrow> v < 14 \<Longrightarrow> chat_shape v = chat_shape 10"
  "14 \<le> v \<Longrightarrow> chat_shape v = chat_shape 14"
  by (auto simp: fun_eq_iff chat_shape_def)

lemma has_shape_chats:
  "(case ss_chat s of None \<Rightarrow> v < (2 :: nat) | Some cs \<Rightarrow> 2 \<le> v \<and> list_all (\<lambda>(_, c). case c of None \<Rightarrow> True | Some c \<Rightarrow> chat_shape v c) cs) =
     (case ss_chat s of None \<Rightarrow> v < 2 | Some cs \<Rightarrow> 2 \<le> v \<and> chats_all (chat_shape v) cs)"
  unfolding chats_all_def ..

lemmas has_shape_simps = has_shape_def [unfolded has_shape_chats]

definition chats_addressed :: "stored_state \<Rightarrow> bool" where
  "chats_addressed s =
     (case ss_chat s of None \<Rightarrow> True | Some cs \<Rightarrow> chats_all (\<lambda>c. list_all addressed (co_messages c)) cs)"

definition good_state :: "nat \<Rightarrow> stored_state \<Rightarrow> bool" where
  "good_state v s = (has_shape v s \<and> chats_addressed s)"

lemma good_state_chats:
  assumes "good_state v s" and "2 \<le> v"
  obtains cs where "ss_chat s = Some cs" "chats_all (good_chat v) cs"
proof -
  obtain cs where c: "ss_chat s = Some cs" "chats_all (chat_shape v) cs"
    "chats_all (\<lambda>c. list_all addressed (co_messages c)) cs"
    using assms by (auto simp: good_state_def has_shape_simps chats_addressed_def split: option.splits)
  then have "chats_all (good_chat v) cs"
    unfolding good_chat_def by (simp add: chats_all_conj)
  then show thesis using that c(1) by blast
qed

lemma chats_good_split:
  "chats_all (good_chat v) cs \<Longrightarrow> chats_all (chat_shape v) cs \<and> chats_all (\<lambda>c. list_all addressed (co_messages c)) cs"
  unfolding good_chat_def by (simp add: chats_all_conj)

lemma migrate_chats_good:
  assumes "ss_chat s = Some cs" and "chats_all (good_chat u) cs"
    and "\<And>c. good_chat u c \<Longrightarrow> \<exists>r. f c = Inr r"
    and "\<And>c c'. good_chat u c \<Longrightarrow> f c = Inr (Some c') \<Longrightarrow> good_chat v c'"
    and "keep \<Longrightarrow> chats_all (good_chat v) cs"
  shows "\<exists>cs'. migrate_chats v f keep s = Inr (s\<lparr>version := v, ss_chat := Some cs'\<rparr>) \<and> chats_all (good_chat v) cs'"
proof -
  have "chats_all (\<lambda>c. \<exists>r. f c = Inr r) (obj_entries cs)"
    using assms(2,3) by (auto intro: chats_all_mono)
  then obtain cs' where r: "reduce_chats f (obj_entries cs) (if keep then cs else []) = Inr cs'"
    using reduce_chats_total by blast
  have "chats_all (good_chat v) cs'"
    using assms(2,4,5) by (intro reduce_chats_all [OF r, of "good_chat u"]) auto
  then show ?thesis using assms(1) r by (intro exI [of _ cs']) (simp add: migrate_chats_def)
qed

lemma good_chats_step:
  assumes "good_state u s" and "2 \<le> u" and "v = Suc u" and "v \<in> {3, 4, 10, 12, 14}"
    and "\<And>c. good_chat u c \<Longrightarrow> \<exists>r. f c = Inr r"
    and "\<And>c c'. good_chat u c \<Longrightarrow> f c = Inr (Some c') \<Longrightarrow> good_chat v c'"
    and "\<And>cs. keep \<Longrightarrow> chats_all (good_chat u) cs \<Longrightarrow> chats_all (good_chat v) cs"
  shows "\<exists>s'. migrate_chats v f keep s = Inr s' \<and> good_state v s'"
proof -
  obtain cs where c: "ss_chat s = Some cs" "chats_all (good_chat u) cs"
    using good_state_chats [OF assms(1,2)] .
  obtain cs' where m: "migrate_chats v f keep s = Inr (s\<lparr>version := v, ss_chat := Some cs'\<rparr>)"
    and g: "chats_all (good_chat v) cs'"
    using migrate_chats_good [of s cs u f v keep] c assms(5-7) by blast
  let ?s' = "s\<lparr>version := v, ss_chat := Some cs'\<rparr>"
  have "has_shape u s" using assms(1) by (simp add: good_state_def)
  moreover have "u = 2 \<and> v = 3 \<or> u = 3 \<and> v = 4 \<or> u = 9 \<and> v = 10 \<or> u = 11 \<and> v = 12 \<or> u = 13 \<and> v = 14"
    using assms(3,4) by auto
  ultimately have "has_shape v ?s'"
    using chats_good_split [OF g] by (elim disjE) (simp_all add: has_shape_simps)
  then have "good_state v ?s'"
    using chats_good_split [OF g] by (simp add: good_state_def chats_addressed_def)
  then show ?thesis using m by blast
qed


lemma chat_shape_same:
  "chat_shape 5 = chat_shape 4" "chat_shape 6 = chat_shape 4" "chat_shape 7 = chat_shape 4"
  "chat_shape 8 = chat_shape 4" "chat_shape 9 = chat_shape 4" "chat_shape 11 = chat_shape 10"
  "chat_shape 12 = chat_shape 10" "chat_shape 13 = chat_shape 10" "chat_shape 15 = chat_shape 14"
  "chat_shape 16 = chat_shape 14" "chat_shape 17 = chat_shape 14" "chat_shape 18 = chat_shape 14"
  "chat_shape 19 = chat_shape 14" "chat_shape 20 = chat_shape 14"
  by (simp_all add: fun_eq_iff chat_shape_def)

lemmas good_simps = good_state_def chats_addressed_def has_shape_simps chat_shape_same

lemma to_1_good: "good_state 0 s \<Longrightarrow> \<exists>s'. to_1 s = Inr s' \<and> good_state 1 s'"
  by (simp add: to_1_def good_simps split: option.splits)

lemma foldl_chats_all:
  "chats_all P acc \<Longrightarrow> (\<And>me. P (g me)) \<Longrightarrow>
     chats_all P (foldl (\<lambda>cs (federationId, a). case a of None \<Rightarrow> cs | Some me \<Rightarrow> obj_set federationId (Some (g me)) cs) acc es)"
proof (induction es arbitrary: acc)
  case (Cons e es)
  obtain k a where e: "e = (k, a)" by force
  show ?case
  proof (cases a)
    case None
    then show ?thesis using Cons e by simp
  next
    case (Some me)
    have "chats_all P (obj_set k (Some (g me)) acc)" using Cons.prems by (intro chats_all_set)
    then show ?thesis using Cons.IH Cons.prems(2) e Some by simp
  qed
qed simp

lemma empty_chat_good: "good_chat 2 (empty_chat me)"
  by (simp add: good_chat_def chat_shape_def empty_chat_def)

lemma to_2_good:
  assumes "good_state 1 s"
  shows "\<exists>s'. to_2 s = Inr s' \<and> good_state 2 s'"
proof -
  obtain ids where i: "ss_chatIdentities s = Some ids" using assms by (auto simp: good_simps)
  have "chats_all (good_chat 2) (foldl (\<lambda>cs (federationId, a). case a of None \<Rightarrow> cs
      | Some me \<Rightarrow> obj_set federationId (Some (empty_chat me)) cs) [] (obj_entries ids))"
    by (rule foldl_chats_all) (simp_all add: empty_chat_good)
  then show ?thesis
    using assms chats_good_split [of 2] by (auto simp: to_2_def i good_simps split: option.splits)
qed

lemma to_8_good: "good_state 7 s \<Longrightarrow> \<exists>s'. to_8 s = Inr s' \<and> good_state 8 s'"
  by (auto simp: to_8_def good_simps split: option.splits)

lemma to_19_good: "good_state 18 s \<Longrightarrow> \<exists>s'. to_19 s = Inr s' \<and> good_state 19 s'"
  by (simp add: to_19_def good_simps split: option.splits)

lemma to_20_good: "good_state 19 s \<Longrightarrow> \<exists>s'. to_20 s = Inr s' \<and> good_state 20 s'"
  by (simp add: to_20_def good_simps split: option.splits)

lemma plain_steps_good:
  "good_state 4 s \<Longrightarrow> good_state 5 (s\<lparr>version := 5, ss_externalMeta := Some m\<rparr>)"
  "good_state 5 s \<Longrightarrow> good_state 6 (s\<lparr>version := 6, ss_btcExchangeRates := Some r\<rparr>)"
  "good_state 6 s \<Longrightarrow> good_state 7 (s\<lparr>version := 7, ss_onchainDepositsEnabled := Some False, ss_developerMode := Some False\<rparr>)"
  "good_state 8 s \<Longrightarrow> good_state 9 (s\<lparr>version := 9, ss_stableBalanceEnabled := Some False\<rparr>)"
  "good_state 10 s \<Longrightarrow> good_state 11 (s\<lparr>version := 11, ss_nuxSteps := Some []\<rparr>)"
  "good_state 12 s \<Longrightarrow> good_state 13 (s\<lparr>version := 13, ss_showFiatTxnAmounts := Some True\<rparr>)"
  "good_state 14 s \<Longrightarrow> good_state 15 (s\<lparr>version := 15, ss_matrixAuth := Some None\<rparr>)"
  "good_state 15 s \<Longrightarrow> good_state 16 (s\<lparr>version := 16, ss_deviceId := d\<rparr>)"
  "good_state 16 s \<Longrightarrow> good_state 17 (s\<lparr>version := 17, ss_protectedFeatures := Some f\<rparr>)"
  "good_state 17 s \<Longrightarrow> good_state 18 (s\<lparr>version := 18, ss_customGlobalMods := Some [],
     ss_customGlobalModVisibility := Some [], ss_suggestedGlobalModVisibility := Some []\<rparr>)"
  by (simp_all add: good_simps split: option.splits)

lemma good_chat_11_12: "chats_all (good_chat 11) cs \<Longrightarrow> chats_all (good_chat 12) cs"
proof -
  have "good_chat 12 = good_chat 11" by (simp add: fun_eq_iff good_chat_def chat_shape_same)
  then show "chats_all (good_chat 11) cs \<Longrightarrow> chats_all (good_chat 12) cs" by simp
qed

lemma migration_good:
  assumes "good_state u s" and "v = Suc u" and "v \<le> 20"
  shows "\<exists>s'. migration now (Inr d) v s = Inr s' \<and> good_state v s'"
proof -
  have "v = 1 \<or> v = 2 \<or> v = 3 \<or> v = 4 \<or> v = 5 \<or> v = 6 \<or> v = 7 \<or> v = 8 \<or> v = 9 \<or> v = 10 \<or> v = 11 \<or> v = 12 \<or>
    v = 13 \<or> v = 14 \<or> v = 15 \<or> v = 16 \<or> v = 17 \<or> v = 18 \<or> v = 19 \<or> v = 20"
    using assms(2,3) by presburger
  then consider "v = 1" | "v = 2" | "v = 3" | "v = 4" | "v = 5" | "v = 6" | "v = 7" | "v = 8" | "v = 9" | "v = 10"
    | "v = 11" | "v = 12" | "v = 13" | "v = 14" | "v = 15" | "v = 16" | "v = 17" | "v = 18" | "v = 19" | "v = 20"
    by metis
  then show ?thesis
  proof cases
    case 3
    then have "\<exists>s'. migrate_chats 3 chat_2_3 False s = Inr s' \<and> good_state 3 s'"
      using assms chat_2_3_good by (intro good_chats_step [of u]) auto
    then show ?thesis using 3 by (simp add: migration_def)
  next
    case 4
    then have "\<exists>s'. migrate_chats 4 chat_3_4 False s = Inr s' \<and> good_state 4 s'"
      using assms chat_3_4_good by (intro good_chats_step [of u]) auto
    then show ?thesis using 4 by (simp add: migration_def)
  next
    case 10
    then have "\<exists>s'. migrate_chats 10 chat_9_10 False s = Inr s' \<and> good_state 10 s'"
      using assms chat_9_10_good by (intro good_chats_step [of u]) auto
    then show ?thesis using 10 by (simp add: migration_def)
  next
    case 12
    then have "\<exists>s'. migrate_chats 12 (chat_11_12 now) True s = Inr s' \<and> good_state 12 s'"
      using assms chat_11_12_good good_chat_11_12 by (intro good_chats_step [of u]) auto
    then show ?thesis using 12 by (simp add: migration_def)
  next
    case 14
    then have "\<exists>s'. migrate_chats 14 chat_13_14 False s = Inr s' \<and> good_state 14 s'"
      using assms chat_13_14_good by (intro good_chats_step [of u]) auto
    then show ?thesis using 14 by (simp add: migration_def)
  qed (use assms to_1_good to_2_good to_8_good to_19_good to_20_good plain_steps_good in
      \<open>simp_all add: migration_def eval_nat_numeral\<close>)
qed

text \<open>The steps up to the state's version do nothing, the later ones run one after the other.\<close>

lemma migrate_through_skip:
  "list_all (\<lambda>v. v \<le> version s) vs \<Longrightarrow> migrate_through now d (vs @ ws) s = migrate_through now d ws s"
  by (induction vs) auto

lemma migration_device:
  "v \<noteq> 16 \<Longrightarrow> migration now d v s = migration now (Inr None) v s"
  by (simp add: migration_def)

lemma migration_good_or_device:
  assumes "good_state u s" and "v = Suc u" and "v \<le> 20"
  shows "case migration now d v s of Inl e \<Rightarrow> v = 16 \<and> d = Inl e | Inr s' \<Rightarrow> good_state v s'"
proof (cases "v = 16 \<and> isl d")
  case True
  then show ?thesis by (auto simp: migration_def split: sum.splits)
next
  case False
  have "\<exists>i. migration now d v s = migration now (Inr i) v s"
  proof (cases d)
    case (Inl e)
    then show ?thesis using False migration_device [of v now d s] by auto
  qed auto
  then obtain i where "migration now d v s = migration now (Inr i) v s" ..
  then show ?thesis using migration_good [OF assms, of now i] by auto
qed

lemma migrate_through_good:
  "good_state u s \<Longrightarrow> u \<le> 20 \<Longrightarrow>
     (case migrate_through now d [Suc u..<21] s of Inl e \<Rightarrow> u \<le> 15 \<and> d = Inl e | Inr s' \<Rightarrow> good_state 20 s')"
proof (induction "20 - u" arbitrary: u s)
  case 0
  then show ?case by simp
next
  case (Suc n)
  then have range: "[Suc u..<21] = Suc u # [Suc (Suc u)..<21]" by (simp add: upt_conv_Cons)
  have v: "version s = u" using Suc.prems(1) by (simp add: good_simps)
  have step: "case migration now d (Suc u) s of Inl e \<Rightarrow> Suc u = 16 \<and> d = Inl e | Inr s' \<Rightarrow> good_state (Suc u) s'"
    using migration_good_or_device [OF Suc.prems(1) refl] Suc.hyps(2) by simp
  show ?case
  proof (cases "migration now d (Suc u) s")
    case (Inl e)
    then show ?thesis using step v range by simp
  next
    case (Inr s')
    then have "good_state (Suc u) s'" using step by simp
    then have "case migrate_through now d [Suc (Suc u)..<21] s' of Inl e \<Rightarrow> Suc u \<le> 15 \<and> d = Inl e | Inr s' \<Rightarrow> good_state 20 s'"
      using Suc.hyps by simp
    then show ?thesis using Inr v range by (auto split: sum.splits)
  qed
qed

lemma migrateStoredState_from:
  assumes "version s \<le> 20"
  shows "migrateStoredState now d s = migrate_through now d [Suc (version s)..<21] s"
proof -
  have "[1..<21] = [1..<Suc (version s)] @ [Suc (version s)..<21]"
    using assms upt_add_eq_append [of 1 "Suc (version s)" "20 - version s"] by simp
  then show ?thesis
    by (simp add: migrateStoredState_def migrate_through_skip list_all_iff)
qed

lemma migrateStoredState_good:
  assumes "good_state v s"
  shows "case migrateStoredState now d s of Inl e \<Rightarrow> v \<le> 15 \<and> d = Inl e | Inr s' \<Rightarrow> good_state 20 s'"
proof -
  have "version s = v" "v \<le> 20" using assms by (simp_all add: good_simps)
  then show ?thesis using migrate_through_good [OF assms] by (simp add: migrateStoredState_from)
qed

lemma migrate_through_inv:
  assumes "migrate_through now d vs s = Inr s'" and "P s"
    and "\<And>v s s'. v \<in> set vs \<Longrightarrow> P s \<Longrightarrow> version s + 1 = v \<Longrightarrow> migration now d v s = Inr s' \<Longrightarrow> P s'"
  shows "P s'"
  using assms
proof (induction vs arbitrary: s)
  case (Cons v vs)
  show ?case
  proof (cases "version s + 1 = v")
    case True
    then obtain t where "migration now d v s = Inr t" "migrate_through now d vs t = Inr s'"
      using Cons.prems(1) by (auto split: sum.splits)
    then show ?thesis using Cons.IH Cons.prems(2,3) True by (metis list.set_intros)
  next
    case False
    then have "migrate_through now d vs s = Inr s'" using Cons.prems(1) by simp
    then show ?thesis using Cons.IH Cons.prems(2,3) by (metis list.set_intros(2))
  qed
qed simp

end
