(* ===== verification/StorageLaws.thy ===== *)
theory StorageLaws
  imports Storage
begin

text \<open>
  What \<open>ui/common/utils/storage.ts\<close> guarantees: every stored state reaches the latest version, what the
  migrations lose on the way, which changes are saved, and that a saved state loads again.
\<close>

section \<open>What the migrations keep of the chats\<close>

definition stored_chats :: "stored_state \<Rightarrow> chat_object option jsobj" where
  "stored_chats s = (case ss_chat s of None \<Rightarrow> [] | Some cs \<Rightarrow> cs)"

definition few_affiliations :: "chat_object \<Rightarrow> bool" where
  "few_affiliations c = (case co_groupAffiliations c of None \<Rightarrow> True | Some a \<Rightarrow> length a \<le> 1)"

lemma affiliations_of_roles_length: "length (affiliations_of_roles roles) \<le> 1"
proof -
  have "length (foldl (\<lambda>prevGroup (groupId, role). if role = [] then prevGroup
      else [(groupId, if role = ''moderator'' then ''owner'' else ''none'')]) acc es) \<le> 1"
    if "length acc \<le> 1" for acc :: "string jsobj" and es :: "string jsobj"
    using that by (induction es arbitrary: acc) auto
  then show ?thesis by (simp add: affiliations_of_roles_def)
qed

lemma migrate_chats_all:
  assumes "migrate_chats v f keep s = Inr s'" and "chats_all P (stored_chats s)"
    and "\<And>c c'. P c \<Longrightarrow> f c = Inr (Some c') \<Longrightarrow> Q c'" and "keep \<Longrightarrow> chats_all Q (stored_chats s)"
  shows "chats_all Q (stored_chats s')"
proof -
  obtain cs cs' where c: "ss_chat s = Some cs" "reduce_chats f (obj_entries cs) (if keep then cs else []) = Inr cs'"
    "s' = s\<lparr>version := v, ss_chat := Some cs'\<rparr>"
    using assms(1) by (auto simp: migrate_chats_def split: option.splits sum.splits)
  have "chats_all Q cs'"
    using assms(2-4) c(1) by (intro reduce_chats_all [OF c(2), of P Q]) (auto simp: stored_chats_def)
  then show ?thesis by (simp add: c(3) stored_chats_def)
qed

text \<open>A property of single chats that each step on the chats keeps holds after every migration.\<close>

lemma migration_chats_all:
  assumes "migration now d v s = Inr s'" and "chats_all P (stored_chats s)"
    and "\<And>me. v = 2 \<Longrightarrow> P (empty_chat me)"
    and "\<And>c c'. v = 3 \<Longrightarrow> P c \<Longrightarrow> chat_2_3 c = Inr (Some c') \<Longrightarrow> P c'"
    and "\<And>c c'. v = 4 \<Longrightarrow> P c \<Longrightarrow> chat_3_4 c = Inr (Some c') \<Longrightarrow> P c'"
    and "\<And>c c'. v = 10 \<Longrightarrow> P c \<Longrightarrow> chat_9_10 c = Inr (Some c') \<Longrightarrow> P c'"
    and "\<And>c c'. v = 12 \<Longrightarrow> P c \<Longrightarrow> chat_11_12 now c = Inr (Some c') \<Longrightarrow> P c'"
    and "\<And>c c'. v = 14 \<Longrightarrow> P c \<Longrightarrow> chat_13_14 c = Inr (Some c') \<Longrightarrow> P c'"
  shows "chats_all P (stored_chats s')"
proof -
  consider "v = 2" | "v = 3" | "v = 4" | "v = 10" | "v = 12" | "v = 14" | "v \<notin> {2, 3, 4, 10, 12, 14}" by blast
  then show ?thesis
  proof cases
    case 1
    then obtain ids where "s' = s\<lparr>version := 2, ss_chatIdentities := None,
      ss_chat := Some (foldl (\<lambda>cs (federationId, a). case a of None \<Rightarrow> cs
        | Some me \<Rightarrow> obj_set federationId (Some (empty_chat me)) cs) [] (obj_entries ids))\<rparr>"
      using assms(1) by (auto simp: migration_def to_2_def split: option.splits)
    moreover have "chats_all P (foldl (\<lambda>cs (federationId, a). case a of None \<Rightarrow> cs
        | Some me \<Rightarrow> obj_set federationId (Some (empty_chat me)) cs) [] (obj_entries ids))"
      using assms(3) 1 by (intro foldl_chats_all) auto
    ultimately show ?thesis by (simp add: stored_chats_def)
  next
    case 2
    then show ?thesis using assms(1,2,4) by (auto simp: migration_def intro: migrate_chats_all [where P = P])
  next
    case 3
    then show ?thesis using assms(1,2,5) by (auto simp: migration_def intro: migrate_chats_all [where P = P])
  next
    case 4
    then show ?thesis using assms(1,2,6) by (auto simp: migration_def intro: migrate_chats_all [where P = P])
  next
    case 5
    then show ?thesis using assms(1,2,7) by (auto simp: migration_def intro: migrate_chats_all [where P = P])
  next
    case 6
    then show ?thesis using assms(1,2,8) by (auto simp: migration_def intro: migrate_chats_all [where P = P])
  next
    case 7
    then have "ss_chat s' = ss_chat s"
      using assms(1)
      by (auto simp: migration_def to_1_def to_8_def to_19_def to_20_def split: if_splits option.splits sum.splits)
    then show ?thesis using assms(2) by (simp add: stored_chats_def)
  qed
qed

lemma few_affiliations_kept:
  "few_affiliations (empty_chat me)"
  "few_affiliations c \<Longrightarrow> chat_2_3 c = Inr (Some c') \<Longrightarrow> few_affiliations c'"
  "chat_3_4 c = Inr (Some c') \<Longrightarrow> few_affiliations c'"
  "few_affiliations c \<Longrightarrow> chat_9_10 c = Inr (Some c') \<Longrightarrow> few_affiliations c'"
  "few_affiliations c \<Longrightarrow> chat_11_12 now c = Inr (Some c') \<Longrightarrow> few_affiliations c'"
  "few_affiliations c \<Longrightarrow> chat_13_14 c = Inr (Some c') \<Longrightarrow> few_affiliations c'"
  using affiliations_of_roles_length
  by (auto simp: few_affiliations_def empty_chat_def chat_2_3_def chat_3_4_def chat_9_10_def chat_11_12_def
      chat_13_14_def Let_def split: option.splits sum.splits)

lemma migration_few:
  assumes "chats_all few_affiliations (stored_chats s)" and "migration now d v s = Inr s'"
  shows "chats_all few_affiliations (stored_chats s')"
  using assms(2,1) by (rule migration_chats_all) (auto intro: few_affiliations_kept)

text \<open>A chat without roles does not get past version 4.\<close>

definition no_old_chat :: "stored_state \<Rightarrow> bool" where
  "no_old_chat s =
     (if version s \<le> 3 then chats_all (\<lambda>c. co_groupRoles c = None) (stored_chats s)
      else chats_all (\<lambda>_. False) (stored_chats s))"

lemma migration_version: "migration now d v s = Inr s' \<Longrightarrow> v \<in> {1..20} \<Longrightarrow> version s' = v"
  by (auto simp: migration_def to_1_def to_2_def to_8_def to_19_def to_20_def migrate_chats_def
      split: if_splits option.splits sum.splits; presburger)

lemma chat_2_3_roles: "chat_2_3 c = Inr (Some c') \<Longrightarrow> co_groupRoles c' = co_groupRoles c"
  by (auto simp: chat_2_3_def Let_def split: option.splits sum.splits)

lemma migration_no_old_chat:
  assumes "no_old_chat s" and "version s + 1 = v" and "v \<le> 20" and m: "migration now d v s = Inr s'"
  shows "no_old_chat s'"
proof -
  have v: "version s' = v" using migration_version [OF m] assms(2,3) by simp
  consider "v \<le> 3" | "v = 4" | "5 \<le> v" by linarith
  then show ?thesis
  proof cases
    case 1
    have "chats_all (\<lambda>c. co_groupRoles c = None) (stored_chats s')"
      using m by (rule migration_chats_all) (use 1 assms(1,2) in \<open>auto simp: no_old_chat_def empty_chat_def chat_2_3_roles\<close>)
    then show ?thesis using v 1 by (simp add: no_old_chat_def)
  next
    case 2
    then have "migrate_chats 4 chat_3_4 False s = Inr s'" using m by (simp add: migration_def)
    then have "chats_all (\<lambda>_. False) (stored_chats s')"
      by (rule migrate_chats_all [where P = "\<lambda>c. co_groupRoles c = None"])
        (use assms(1,2) 2 in \<open>auto simp: no_old_chat_def chat_3_4_def\<close>)
    then show ?thesis using v 2 by (simp add: no_old_chat_def)
  next
    case 3
    have "chats_all (\<lambda>_. False) (stored_chats s')"
      using m by (rule migration_chats_all) (use 3 assms(1,2) in \<open>auto simp: no_old_chat_def\<close>)
    then show ?thesis using v 3 by (simp add: no_old_chat_def)
  qed
qed

section \<open>Properties of the migrations\<close>

text \<open>
  C7: a stored state of any version from 0 to 20, with the properties of its version and messages
  that belong to a chat, is brought to version 20 with all its properties and none of the older ones.
  The only error is that of reading the legacy device id, which only states up to version 15 do.
\<close>

theorem stored_state_migrates:
  assumes "good_state v s"
  shows "case migrateStoredState now legacyDeviceId s of
      Inl e \<Rightarrow> v \<le> 15 \<and> legacyDeviceId = Inl e
    | Inr s' \<Rightarrow> has_shape 20 s'"
  using migrateStoredState_good [OF assms, where now = now and d = legacyDeviceId]
  by (auto simp: good_state_def split: sum.splits)

definition stored_0 :: stored_state where
  "stored_0 =
     \<lparr>version = 0, ss_language = None, ss_currency = None, ss_activeFederationId = None,
      ss_authenticatedGuardian = None, ss_chatIdentities = None, ss_chat = None, ss_customFediMods = None,
      ss_externalMeta = None, ss_btcExchangeRates = None, ss_amountInputType = None,
      ss_onchainDepositsEnabled = None, ss_developerMode = None, ss_btcUsdRate = None, ss_fiatUsdRates = None,
      ss_stableBalanceEnabled = None, ss_nuxSteps = None, ss_showFiatTxnAmounts = None, ss_matrixAuth = None,
      ss_deviceId = None, ss_protectedFeatures = None, ss_customGlobalMods = None,
      ss_customGlobalModVisibility = None, ss_suggestedGlobalModVisibility = None, ss_modVisibility = None\<rparr>"

lemma good_stored_0: "good_state 0 stored_0"
  by (simp add: good_simps stored_0_def)

theorem stored_state_migrates_witness:
  "case migrateStoredState 1700000000000 (Inr (Some ''device'')) stored_0 of
      Inl e \<Rightarrow> (0 :: nat) \<le> 15 \<and> Inr (Some ''device'') = (Inl e :: js_error + string option)
    | Inr s' \<Rightarrow> has_shape 20 s'"
  by (rule stored_state_migrates [OF good_stored_0])

text \<open>
  The way from version 3 to 4 keeps only one affiliation of each chat, whatever the number of its
  groups, and drops every chat without group roles; as version 2 has no roles, no chat of a state of
  version 2 or less is left after the migrations.
\<close>

theorem migrations_lose_chats:
  assumes "good_state v s" and "v \<le> 3" and "migrateStoredState now legacyDeviceId s = Inr s'"
    and "(federationId, Some c) \<in> set (the (ss_chat s'))"
  shows "length (the (co_groupAffiliations c)) \<le> 1 \<and> v = 3"
proof -
  have good: "good_state 20 s'" using migrateStoredState_good [OF assms(1), where now = now and d = legacyDeviceId] assms(3) by simp
  obtain cs where cs: "ss_chat s' = Some cs" "chats_all (good_chat 20) cs"
    using good_state_chats [OF good] by auto
  have in_chats: "(federationId, Some c) \<in> set (stored_chats s')" using assms(4) cs by (simp add: stored_chats_def)
  have shapes: "chats_all (chat_shape v) (stored_chats s)" and version: "version s = v"
    using assms(1) by (auto simp: good_simps stored_chats_def split: option.splits)
  have "chats_all few_affiliations (stored_chats s)"
    by (rule chats_all_mono [OF shapes]) (use assms(2) in \<open>auto simp: chat_shape_def few_affiliations_def split: option.splits\<close>)
  then have "chats_all few_affiliations (stored_chats s')"
    using migrate_through_inv [OF assms(3) [unfolded migrateStoredState_def],
      of "\<lambda>s. chats_all few_affiliations (stored_chats s)"] migration_few by blast
  then have "few_affiliations c" using in_chats by (auto simp: chats_all_def list_all_iff)
  moreover have "v = 3"
  proof (rule ccontr)
    assume "v \<noteq> 3"
    then have "chats_all (\<lambda>c. co_groupRoles c = None) (stored_chats s)"
      using assms(2) by (intro chats_all_mono [OF shapes]) (auto simp: chat_shape_def)
    then have "no_old_chat s" using version assms(2) by (simp add: no_old_chat_def)
    then have "no_old_chat s'"
      using migrate_through_inv [OF assms(3) [unfolded migrateStoredState_def], of no_old_chat] migration_no_old_chat
      by fastforce
    then show False using good in_chats by (auto simp: good_simps no_old_chat_def chats_all_def list_all_iff)
  qed
  moreover have "co_groupAffiliations c \<noteq> None"
    using cs in_chats by (auto simp: stored_chats_def chats_all_def list_all_iff good_chat_def chat_shape_def)
  ultimately show ?thesis by (auto simp: few_affiliations_def split: option.splits)
qed

definition moderated_chat :: chat_object where
  "moderated_chat =
     (empty_chat \<lparr>member_id = ''me'', member_username = ''me'', member_publicKeyHex = None\<rparr>)
       \<lparr>co_groupRoles := Some [(''g'', ''moderator''), (''h'', ''moderator'')], co_lastReadMessageIds := Some []\<rparr>"

definition stored_3 :: stored_state where
  "stored_3 = stored_0\<lparr>version := 3, ss_language := Some None, ss_currency := Some None,
     ss_activeFederationId := Some None, ss_authenticatedGuardian := Some None,
     ss_chat := Some [(''f'', Some moderated_chat)]\<rparr>"

lemma good_stored_3: "good_state 3 stored_3"
  by (simp add: good_simps stored_3_def stored_0_def moderated_chat_def empty_chat_def chats_all_def chat_shape_def)

theorem migrations_lose_chats_witness:
  "migrateStoredState 0 (Inr None) stored_3 = Inr (projr (migrateStoredState 0 (Inr None) stored_3)) \<and>
   (\<exists>c. (''f'', Some c) \<in> set (the (ss_chat (projr (migrateStoredState 0 (Inr None) stored_3)))) \<and>
      length (the (co_groupAffiliations c)) \<le> 1)"
proof -
  let ?s = "migrateStoredState 0 (Inr None) stored_3"
  have s: "?s = Inr (projr ?s)" by code_simp
  let ?e = "hd (the (ss_chat (projr ?s)))"
  have "the (ss_chat (projr ?s)) \<noteq> []" "fst ?e = ''f''" "snd ?e \<noteq> None" by code_simp+
  then have e: "(''f'', Some (the (snd ?e))) \<in> set (the (ss_chat (projr ?s)))"
    by (metis hd_in_set option.collapse prod.collapse)
  have "length (the (co_groupAffiliations (the (snd ?e)))) \<le> 1 \<and> (3 :: nat) = 3"
    by (rule migrations_lose_chats [OF good_stored_3 _ s e]) simp
  then show ?thesis using s e by blast
qed

section \<open>Dictionaries rebuilt entry by entry\<close>

lemma obj_get_entries: "distinct (map fst ob) \<Longrightarrow> obj_get (obj_entries ob) = obj_get ob"
  using map_of_inject_set [of "obj_entries ob" ob] by (simp add: obj_get_def fun_eq_iff)

lemma obj_get_rebuilt:
  "distinct (map fst es) \<Longrightarrow>
     obj_get (foldl (\<lambda>acc (k, v). obj_set k (g v) acc) acc es) k =
       (case obj_get es k of None \<Rightarrow> obj_get acc k | Some v \<Rightarrow> Some (g v))"
proof (induction es arbitrary: acc)
  case (Cons e es)
  obtain i v where e: "e = (i, v)" by force
  have "obj_get es i = None" using Cons.prems e by (auto simp: obj_get_def map_of_eq_None_iff)
  then show ?case using Cons by (auto simp: e obj_get_def obj_set_def update_conv' split: option.splits)
qed (simp add: obj_get_def)

lemma stored_chat_lookup:
  assumes "distinct (map fst (chat s))"
  shows "obj_get (stored_chats (transformStateToStorage s)) f = map_option (\<lambda>c. Some (store_chat c)) (obj_get (chat s) f)"
  using assms
  by (simp add: stored_chats_def transformStateToStorage_def obj_get_rebuilt [of _ "\<lambda>c. Some (store_chat c)"]
      obj_get_entries split: option.splits)

section \<open>What is saved\<close>

text \<open>The stored state without the rates, and a stored chat without the affiliations.\<close>

definition without_rates :: "stored_state \<Rightarrow> stored_state" where
  "without_rates s = s\<lparr>ss_btcUsdRate := None, ss_fiatUsdRates := None, ss_chat := None\<rparr>"

definition without_affiliations :: "chat_object \<Rightarrow> chat_object" where
  "without_affiliations c = c\<lparr>co_groupAffiliations := None\<rparr>"

lemma obj_get_None: "k \<notin> set (obj_keys ob) \<Longrightarrow> obj_get ob k = None"
  by (auto simp: obj_keys_def obj_get_def map_of_eq_None_iff)

lemma store_features_inj: "(store_features f = store_features g) = (f = g)"
  by (cases f; cases g) (simp add: store_features_def)

lemma strict_equal_simps [simp]:
  "strict_equal UndefinedValue r y q = (y = UndefinedValue)" "strict_equal x r UndefinedValue q = (x = UndefinedValue)"
  "strict_equal NullValue r y q = (y = NullValue)" "strict_equal x r NullValue q = (x = NullValue)"
  "strict_equal (StringValue a) r y q = (y = StringValue a)" "strict_equal (NumberValue i) r y q = (y = NumberValue i)"
  "strict_equal (BoolValue b) r y q = (y = BoolValue b)"
  "strict_equal (ObjectValue u) r (ObjectValue v) q = (r = q)"
  by (auto simp: strict_equal_def split: state_value.splits)

lemma strict_equal_same [simp]: "strict_equal x r x r"
  by (cases x) simp_all

text \<open>
  States are never mutated in place (Redux, Immer): a reference that lies at the same path of two
  states is one object with one contents.
\<close>

definition never_mutated :: "'r common_state \<Rightarrow> state_refs \<Rightarrow> 'r common_state \<Rightarrow> state_refs \<Rightarrow> bool" where
  "never_mutated a ra b rb =
     (\<forall>k x y. state_value_at a k = ObjectValue x \<longrightarrow> state_value_at b k = ObjectValue y \<longrightarrow> ra k = rb k \<longrightarrow> x = y)"

text \<open>A property holds an object with equal contents in both states, but not the same object.\<close>

definition object_replaced :: "'r common_state \<Rightarrow> state_refs \<Rightarrow> 'r common_state \<Rightarrow> state_refs \<Rightarrow> state_key \<Rightarrow> bool" where
  "object_replaced a ra b rb k =
     (case state_value_at a k of ObjectValue x \<Rightarrow> state_value_at b k = ObjectValue x \<and> ra k \<noteq> rb k | _ \<Rightarrow> False)"

lemma strict_equal_contents:
  assumes "never_mutated a ra b rb"
  shows "\<not> strict_equal (state_value_at a k) (ra k) (state_value_at b k) (rb k) \<longleftrightarrow>
    state_value_at a k \<noteq> state_value_at b k \<or> object_replaced a ra b rb k"
proof (cases "(\<exists>x. state_value_at a k = ObjectValue x) \<and> (\<exists>y. state_value_at b k = ObjectValue y)")
  case True
  then obtain x y where xy: "state_value_at a k = ObjectValue x" "state_value_at b k = ObjectValue y" by blast
  with assms have "ra k = rb k \<longrightarrow> x = y" unfolding never_mutated_def by blast
  with xy show ?thesis by (auto simp: object_replaced_def)
next
  case False
  then show ?thesis
    by (auto simp: object_replaced_def strict_equal_def split: state_value.splits)
qed

lemma or_null_eq [simp]: "inj f \<Longrightarrow> (\<And>y. f y \<noteq> NullValue) \<Longrightarrow> (or_null f x = or_null f y) = (x = y)"
  by (auto simp: or_null_def inj_def split: option.splits) metis

lemma or_undefined_eq [simp]: "inj f \<Longrightarrow> (\<And>y. f y \<noteq> UndefinedValue) \<Longrightarrow> (or_undefined f x = or_undefined f y) = (x = y)"
  by (auto simp: or_undefined_def inj_def split: option.splits) metis

lemma same_stored_chat:
  "(\<forall>k \<in> set chat_keys. or_undefined (chat_value k) a = or_undefined (chat_value k) b) \<longleftrightarrow>
     map_option (\<lambda>c. without_affiliations (store_chat c)) a = map_option (\<lambda>c. without_affiliations (store_chat c)) b"
  by (cases a; cases b)
    (auto simp: chat_keys_def or_undefined_def without_affiliations_def store_chat_def inj_def)

lemma changed_chats:
  "(\<exists>k \<in> set (keysetsToCheck a b). (\<exists>f c. k = KeyChat f c) \<and> state_value_at a k \<noteq> state_value_at b k) \<longleftrightarrow>
     (\<exists>f. map_option (\<lambda>c. without_affiliations (store_chat c)) (obj_get (chat a) f) \<noteq>
          map_option (\<lambda>c. without_affiliations (store_chat c)) (obj_get (chat b) f))"
    (is "?l = ?r")
proof -
  have "?l \<longleftrightarrow> (\<exists>f \<in> set (obj_keys (chat a) @ obj_keys (chat b)). \<exists>c \<in> set chat_keys.
      or_undefined (chat_value c) (obj_get (chat a) f) \<noteq> or_undefined (chat_value c) (obj_get (chat b) f))"
  proof
    assume ?l
    then obtain f c where "KeyChat f c \<in> set (keysetsToCheck a b)"
      "state_value_at a (KeyChat f c) \<noteq> state_value_at b (KeyChat f c)" by blast
    then show "\<exists>f \<in> set (obj_keys (chat a) @ obj_keys (chat b)). \<exists>c \<in> set chat_keys.
        or_undefined (chat_value c) (obj_get (chat a) f) \<noteq> or_undefined (chat_value c) (obj_get (chat b) f)"
      by (intro bexI [of _ f] bexI [of _ c]) (auto simp: keysetsToCheck_def)
  next
    assume "\<exists>f \<in> set (obj_keys (chat a) @ obj_keys (chat b)). \<exists>c \<in> set chat_keys.
        or_undefined (chat_value c) (obj_get (chat a) f) \<noteq> or_undefined (chat_value c) (obj_get (chat b) f)"
    then obtain f c where "f \<in> set (obj_keys (chat a) @ obj_keys (chat b))" "c \<in> set chat_keys"
      "state_value_at a (KeyChat f c) \<noteq> state_value_at b (KeyChat f c)" by auto
    then show ?l
      by (intro bexI [of _ "KeyChat f c"]) (auto simp: keysetsToCheck_def)
  qed
  also have "\<dots> \<longleftrightarrow> (\<exists>f \<in> set (obj_keys (chat a) @ obj_keys (chat b)).
      map_option (\<lambda>c. without_affiliations (store_chat c)) (obj_get (chat a) f) \<noteq>
      map_option (\<lambda>c. without_affiliations (store_chat c)) (obj_get (chat b) f))"
    unfolding same_stored_chat [symmetric] by blast
  also have "\<dots> \<longleftrightarrow> ?r"
    by (metis (no_types, lifting) Un_iff obj_get_None set_append)
  finally show ?thesis .
qed

lemma changed_values:
  "(\<exists>k \<in> set (keysetsToCheck a b). \<not> (\<exists>f c. k = KeyChat f c) \<and> state_value_at a k \<noteq> state_value_at b k) \<longleftrightarrow>
     without_rates (transformStateToStorage a) \<noteq> without_rates (transformStateToStorage b)"
proof -
  have "(\<exists>k \<in> set (keysetsToCheck a b). \<not> (\<exists>f c. k = KeyChat f c) \<and> state_value_at a k \<noteq> state_value_at b k) \<longleftrightarrow>
      (\<exists>k \<in> set (take 18 (keysetsToCheck a b)). state_value_at a k \<noteq> state_value_at b k)"
    by (auto simp: keysetsToCheck_def)
  also have "\<dots> \<longleftrightarrow> without_rates (transformStateToStorage a) \<noteq> without_rates (transformStateToStorage b)"
    by (simp add: keysetsToCheck_def without_rates_def transformStateToStorage_def store_features_inj inj_def) blast
  finally show ?thesis .
qed

text \<open>
  C29: the state is saved exactly when something that would be stored has changed, or when one of
  the compared properties holds a new object with the contents of the old one. Two parts of the
  stored state are not looked at, the exchange rates and the group affiliations of the chats. Chats
  are compared by federation, so their order does not matter.
\<close>

theorem saved_state_is_current:
  assumes "distinct (map fst (chat a))" and "distinct (map fst (chat b))" and "never_mutated a ra b rb"
  shows "hasStorageStateChanged a ra b rb \<longleftrightarrow>
    without_rates (transformStateToStorage a) \<noteq> without_rates (transformStateToStorage b) \<or>
    (\<exists>f. map_option (map_option without_affiliations) (obj_get (stored_chats (transformStateToStorage a)) f) \<noteq>
         map_option (map_option without_affiliations) (obj_get (stored_chats (transformStateToStorage b)) f)) \<or>
    (\<exists>k \<in> set (keysetsToCheck a b). object_replaced a ra b rb k)"
proof -
  have "map_option (map_option without_affiliations) (map_option (\<lambda>c. Some (store_chat c)) x) =
      map_option (map_option without_affiliations) (map_option (\<lambda>c. Some (store_chat c)) y) \<longleftrightarrow>
      map_option (\<lambda>c. without_affiliations (store_chat c)) x = map_option (\<lambda>c. without_affiliations (store_chat c)) y" for x y
    by (cases x; cases y) auto
  then have chats: "(\<exists>f. map_option (map_option without_affiliations) (obj_get (stored_chats (transformStateToStorage a)) f) \<noteq>
         map_option (map_option without_affiliations) (obj_get (stored_chats (transformStateToStorage b)) f)) \<longleftrightarrow>
      (\<exists>k \<in> set (keysetsToCheck a b). (\<exists>f c. k = KeyChat f c) \<and> state_value_at a k \<noteq> state_value_at b k)"
    unfolding changed_chats by (simp add: stored_chat_lookup assms(1,2))
  show ?thesis
    unfolding chats changed_values [symmetric] hasStorageStateChanged_def list_ex_iff strict_equal_contents [OF assms(3)]
    by blast
qed

definition fresh_common :: "unit common_state" where
  "fresh_common = initialCommonState"

definition sample_common :: "unit common_state" where
  "sample_common = fresh_common\<lparr>chat := [(''f'', initialFederationChatState)]\<rparr>"

text \<open>The first state holds its objects at 0; in the second the seen members are a new empty list.\<close>

theorem saved_state_is_current_witness:
  "hasStorageStateChanged sample_common (\<lambda>_. 0) sample_common ((\<lambda>_. 0)(KeyChat ''f'' ChatMembersSeen := 1)) \<and>
   \<not> hasStorageStateChanged sample_common (\<lambda>_. 0) sample_common (\<lambda>_. 0) \<and>
   hasStorageStateChanged fresh_common (\<lambda>_. 0) sample_common (\<lambda>_. 0)"
proof -
  have d: "distinct (map fst (chat sample_common))" "distinct (map fst (chat fresh_common))"
    by (simp_all add: sample_common_def fresh_common_def initialCommonState_def initialChatState_def)
  have get: "obj_get (chat sample_common) ''f'' = Some initialFederationChatState"
    by (simp add: sample_common_def obj_get_def)
  have same: "never_mutated sample_common ra sample_common rb" for ra rb
    by (simp add: never_mutated_def)
  have fresh: "never_mutated fresh_common ra sample_common rb" for ra rb
    unfolding never_mutated_def
  proof (intro allI impI)
    fix k x y
    assume "state_value_at fresh_common k = ObjectValue x" "state_value_at sample_common k = ObjectValue y"
    then show "x = y"
      by (cases k) (auto simp: sample_common_def fresh_common_def initialCommonState_def initialChatState_def obj_get_def or_undefined_def)
  qed
  have "KeyChat ''f'' ChatMembersSeen \<in> set (keysetsToCheck sample_common sample_common)"
    by (simp add: keysetsToCheck_def sample_common_def obj_keys_def chat_keys_def)
  moreover have "object_replaced sample_common (\<lambda>_. 0) sample_common ((\<lambda>_. 0)(KeyChat ''f'' ChatMembersSeen := 1))
      (KeyChat ''f'' ChatMembersSeen)"
    by (simp add: object_replaced_def get or_undefined_def)
  moreover have "\<not> object_replaced s r s r k" for s :: "unit common_state" and r k
    by (auto simp: object_replaced_def split: state_value.splits)
  moreover have "obj_get (stored_chats (transformStateToStorage fresh_common)) ''f'' = None"
    "obj_get (stored_chats (transformStateToStorage sample_common)) ''f'' \<noteq> None"
    using get by (simp_all add: stored_chat_lookup d) (simp add: fresh_common_def initialCommonState_def initialChatState_def obj_get_def)
  ultimately show ?thesis
    using saved_state_is_current [OF d(1) d(1) same [of "\<lambda>_. 0" "(\<lambda>_. 0)(KeyChat ''f'' ChatMembersSeen := 1)"]]
      saved_state_is_current [OF d(1) d(1) same [of "\<lambda>_. 0" "\<lambda>_. 0"]]
      saved_state_is_current [OF d(2) d(1) fresh [of "\<lambda>_. 0" "\<lambda>_. 0"]]
    by (metis option.map_disc_iff)
qed

lemma obj_get_keys_set [simp]: "set (obj_keys ob) = fst ` set ob"
  by (simp add: obj_keys_def)

text \<open>
  New exchange rates, and a new affiliation in a federation that has a chat, are never saved on
  their own, although both belong to the stored state.
\<close>

theorem unsaved_changes:
  assumes "obj_get (chat s) federationId = Some c"
  shows "\<not> hasStorageStateChanged s r (s\<lparr>currency := fetchCurrencyPricesFulfilled prices (currency s)\<rparr>) r \<and>
    ss_btcUsdRate (transformStateToStorage (s\<lparr>currency := fetchCurrencyPricesFulfilled prices (currency s)\<rparr>)) = Some (fst prices) \<and>
    \<not> hasStorageStateChanged s r (s\<lparr>chat := setChatGroupAffiliation federationId groupId affiliation (chat s)\<rparr>) r \<and>
    groupAffiliations (getFederationChatState (setChatGroupAffiliation federationId groupId affiliation (chat s)) federationId) =
      obj_set groupId affiliation (groupAffiliations c)"
proof -
  have currency: "state_value_at (s\<lparr>currency := fetchCurrencyPricesFulfilled prices (currency s)\<rparr>) k = state_value_at s k" for k
    by (cases k) (simp_all add: fetchCurrencyPricesFulfilled_def)
  have "chat_value k (c\<lparr>groupAffiliations := x\<rparr>) = chat_value k c" for k x
    by (cases k) simp_all
  then have chat: "state_value_at (s\<lparr>chat := setChatGroupAffiliation federationId groupId affiliation (chat s)\<rparr>) k =
      state_value_at s k" for k
    using assms by (cases k) (auto simp: setChatGroupAffiliation_def getFederationChatState_def Let_def or_undefined_def)
  show ?thesis
    using assms
    by (simp add: hasStorageStateChanged_def list_ex_iff currency chat)
      (simp add: fetchCurrencyPricesFulfilled_def transformStateToStorage_def
        setChatGroupAffiliation_def getFederationChatState_def Let_def)
qed

theorem unsaved_changes_witness:
  "\<not> hasStorageStateChanged sample_common (\<lambda>_. 0)
      (sample_common\<lparr>currency := fetchCurrencyPricesFulfilled (FinI 60000, []) (currency sample_common)\<rparr>) (\<lambda>_. 0) \<and>
   groupAffiliations (getFederationChatState (setChatGroupAffiliation ''f'' ''g'' ''owner'' (chat sample_common)) ''f'') = [(''g'', ''owner'')]"
proof -
  have "obj_get (chat sample_common) ''f'' = Some initialFederationChatState"
    by (simp add: sample_common_def obj_get_def)
  from unsaved_changes [OF this, of "\<lambda>_. 0" "(FinI 60000, [])" "''g''" "''owner''"] show ?thesis
    by (simp add: initialFederationChatState_def obj_set_def)
qed

section \<open>Loading what was saved\<close>

lemma restored_chat:
  "restore_chat initialFederationChatState (loaded_chat (store_chat c)) =
     initialFederationChatState\<lparr>authenticatedMember := authenticatedMember c, messages := messages c, groups := groups c,
       groupRoles := groupRoles c, groupAffiliations := groupAffiliations c, membersSeen := membersSeen c,
       lastFetchedMessageId := lastFetchedMessageId c, lastReadMessageTimestamps := lastReadMessageTimestamps c,
       lastSeenMessageTimestamp := lastSeenMessageTimestamp c\<rparr>"
  by (simp add: restore_chat_def loaded_chat_def store_chat_def)

lemma loaded_chats_get:
  assumes "distinct (map fst es)" and "\<And>k. obj_get st k = None \<or> obj_get es k = None"
  shows "obj_get (fold (\<lambda>(federationId, chatState) s. case chatState of None \<Rightarrow> s
      | Some c \<Rightarrow> obj_set federationId (restore_chat (getFederationChatState s federationId) c) s) es st) f =
    (case obj_get es f of Some (Some c) \<Rightarrow> Some (restore_chat initialFederationChatState c) | _ \<Rightarrow> obj_get st f)"
  using assms
proof (induction es arbitrary: st)
  case (Cons e es)
  obtain i x where e: "e = (i, x)" by force
  have i: "obj_get es i = None" using Cons.prems(1) e by (auto simp: obj_get_def map_of_eq_None_iff)
  have st: "obj_get st i = None" using Cons.prems(2) [of i] by (simp add: e obj_get_def)
  have es: "obj_get st k = None \<or> obj_get es k = None" for k
    using Cons.prems(2) [of k] i by (auto simp: e obj_get_def split: if_splits)
  have look: "obj_get ((i, x) # es) f = (if f = i then Some x else obj_get es f)" by (simp add: obj_get_def)
  show ?case
  proof (cases x)
    case None
    then show ?thesis using Cons.IH [of st] Cons.prems(1) es i st look by (simp add: e)
  next
    case (Some c)
    let ?st = "obj_set i (restore_chat initialFederationChatState c) st"
    have "obj_get ?st k = None \<or> obj_get es k = None" for k using es [of k] i by auto
    then show ?thesis
      using Cons.IH [of ?st] Cons.prems(1) i st Some look
      by (simp add: e getFederationChatState_def split: option.splits)
  qed
qed (simp add: obj_get_def)

lemma loadNux_get:
  assumes "distinct (map fst steps)" and "ss_nuxSteps p = Some steps" and "obj_get s k \<noteq> None"
  shows "obj_get (loadNux (Some p) s) k = obj_get steps k"
proof -
  have "obj_get (foldl (\<lambda>acc (step, v). if obj_get s step \<noteq> None then obj_set step v acc else acc) acc es) k =
      (case obj_get es k of None \<Rightarrow> obj_get acc k | Some v \<Rightarrow> Some v)"
    if "distinct (map fst es)" for acc es :: "bool jsobj"
    using that
  proof (induction es arbitrary: acc)
    case (Cons e es)
    obtain i x where e: "e = (i, x)" by force
    have "obj_get es i = None" using Cons.prems(1) e by (auto simp: obj_get_def map_of_eq_None_iff)
    then show ?case using Cons assms(3) by (auto simp: e obj_get_def obj_set_def update_conv' split: option.splits)
  qed (simp add: obj_get_def)
  then show ?thesis using assms by (simp add: loadNux_def obj_get_entries split: option.splits)
qed

lemma loadSecurity_features:
  "ss_protectedFeatures p = Some (store_features f) \<Longrightarrow> protectedFeatures (loadSecurity (Some p) s) = f"
  by (cases f) (simp add: loadSecurity_def store_features_def obj_entries_def is_array_index_def is_digit_char_def feature_key_def)

definition remembered_chat :: "fed_chat \<Rightarrow> fed_chat" where
  "remembered_chat c =
     initialFederationChatState\<lparr>authenticatedMember := authenticatedMember c, messages := messages c, groups := groups c,
       groupRoles := groupRoles c, groupAffiliations := groupAffiliations c, membersSeen := membersSeen c,
       lastFetchedMessageId := lastFetchedMessageId c, lastReadMessageTimestamps := lastReadMessageTimestamps c,
       lastSeenMessageTimestamp := lastSeenMessageTimestamp c\<rparr>"

lemma map_obj_get: "obj_get (map (\<lambda>(f, c). (f, g c)) ob) k = map_option g (obj_get ob k)"
  unfolding obj_get_def by (induction ob) auto

lemma chats_reloaded:
  assumes "distinct (map fst (chat s))"
  shows "obj_get (chat (loadFromStorageFulfilled (Some (transformStateToStorage s)) initialCommonState)) f =
    map_option remembered_chat (obj_get (chat s) f)"
proof -
  let ?cs = "stored_chats (transformStateToStorage s)"
  have d: "distinct (map fst ?cs)"
  proof -
    have "distinct (map fst (foldl (\<lambda>acc (k, v). obj_set k (g v) acc) acc es))" if "distinct (map fst acc)"
      for g :: "fed_chat \<Rightarrow> chat_object option" and acc es
      using that by (induction es arbitrary: acc) auto
    from this [of "[]" "\<lambda>c. Some (store_chat c)"] show ?thesis
      by (simp add: stored_chats_def transformStateToStorage_def)
  qed
  let ?loaded = "map (\<lambda>(f, c). (f, map_option loaded_chat c)) ?cs"
  have dl: "distinct (map fst (obj_entries ?loaded))"
    using d by (simp add: comp_def case_prod_unfold)
  have "obj_get (obj_entries ?loaded) k = map_option (\<lambda>c. Some (loaded_chat (store_chat c))) (obj_get (chat s) k)" for k
  proof -
    have "obj_get (obj_entries ?loaded) k = obj_get ?loaded k" using dl by (simp add: obj_get_entries)
    then show ?thesis
      by (simp add: map_obj_get stored_chat_lookup assms option.map_comp comp_def)
  qed
  then show ?thesis
    using loaded_chats_get [OF dl, of "[]" f]
    by (simp add: loadFromStorageFulfilled_def initialCommonState_def initialChatState_def loadChatFromStorage_def
        stored_chats_def transformStateToStorage_def restored_chat remembered_chat_def split: option.splits)
qed

lemma latest_not_migrated: "migrateStoredState now d (transformStateToStorage s) = Inr (transformStateToStorage s)"
  by (simp add: migrateStoredState_from transformStateToStorage_def)

text \<open>
  C14: a state that was saved and is read back by a serializer that is faithful to it loads, in a fresh
  store, with the settings, the currency and its rates, the federation data, the known steps of the
  new users, the remembered part of every chat, the protected features and the mods as they were; the
  Matrix slice stays at its initial state.
\<close>

theorem storage_roundtrip:
  assumes "parse (stringify (transformStateToStorage s)) = Inr (transformStateToStorage s)"
    and "stringify (transformStateToStorage s) \<noteq> []"
    and "distinct (map fst (chat s))" and "distinct (map fst (nux s))" and "amountInputType (environment s) \<noteq> Some []"
  shows "\<exists>p t. getStoredState now legacyDeviceId parse (Inr (Some (stringify (transformStateToStorage s)))) = Inr (Some p) \<and>
    t = loadFromStorageFulfilled (Some p) initialCommonState \<and>
    environment t = (environment s)\<lparr>fedimodDebugMode := False, nostrNpub := None, nostrNsec := None\<rparr> \<and>
    currency t = (currency s)\<lparr>currencyLocale := None\<rparr> \<and>
    federation t = initialFederationState\<lparr>activeFederationId := activeFederationId (federation s),
      authenticatedGuardian := authenticatedGuardian (federation s), externalMeta := externalMeta (federation s),
      customFediMods := customFediMods (federation s)\<rparr> \<and>
    (\<forall>step. step \<in> set nux_steps \<longrightarrow> selectNuxStep (nux t) step = selectNuxStep (nux s) step) \<and>
    (\<forall>federationId. obj_get (chat t) federationId = map_option remembered_chat (obj_get (chat s) federationId)) \<and>
    matrix t = initialMatrixState \<and> protectedFeatures (security t) = protectedFeatures (security s) \<and> mods t = mods s"
proof (intro exI conjI)
  let ?p = "transformStateToStorage s"
  let ?t = "loadFromStorageFulfilled (Some ?p) initialCommonState"
  show "getStoredState now legacyDeviceId parse (Inr (Some (stringify ?p))) = Inr (Some ?p)"
    using assms(1,2) by (simp add: getStoredState_def latest_not_migrated)
  show "\<forall>step. step \<in> set nux_steps \<longrightarrow> selectNuxStep (nux ?t) step = selectNuxStep (nux s) step"
  proof (intro allI impI)
    fix step
    assume "step \<in> set nux_steps"
    then have "obj_get initialNuxState step \<noteq> None"
      by (auto simp: initialNuxState_def obj_get_def map_of_eq_None_iff image_image)
    then show "selectNuxStep (nux ?t) step = selectNuxStep (nux s) step"
      using loadNux_get [OF assms(4), of ?p initialNuxState step]
      by (simp add: selectNuxStep_def loadFromStorageFulfilled_def initialCommonState_def transformStateToStorage_def)
  qed
  show "\<forall>federationId. obj_get (chat ?t) federationId = map_option remembered_chat (obj_get (chat s) federationId)"
    using chats_reloaded [OF assms(3)] by blast
  show "protectedFeatures (security ?t) = protectedFeatures (security s)"
    by (simp add: loadFromStorageFulfilled_def loadSecurity_features transformStateToStorage_def)
  show "environment ?t = (environment s)\<lparr>fedimodDebugMode := False, nostrNpub := None, nostrNsec := None\<rparr>"
    using assms(5)
    by (auto simp: loadFromStorageFulfilled_def transformStateToStorage_def initialCommonState_def loadEnvironment_def
        initialEnvironmentState_def truthy_str_def split: option.splits)
  show "federation ?t = initialFederationState\<lparr>activeFederationId := activeFederationId (federation s),
      authenticatedGuardian := authenticatedGuardian (federation s), externalMeta := externalMeta (federation s),
      customFediMods := customFediMods (federation s)\<rparr>"
    by (simp add: loadFromStorageFulfilled_def transformStateToStorage_def initialCommonState_def
        loadFederationFromStorage_def loaded_federation_def)
  show "currency ?t = (currency s)\<lparr>currencyLocale := None\<rparr>"
    by (simp add: loadFromStorageFulfilled_def transformStateToStorage_def initialCommonState_def loadCurrency_def
        initialCurrencyState_def)
  show "matrix ?t = initialMatrixState" "mods ?t = mods s"
    by (simp_all add: loadFromStorageFulfilled_def transformStateToStorage_def initialCommonState_def loadMods_def)
qed (rule refl)

theorem storage_roundtrip_witness:
  "\<exists>p t. getStoredState 0 (Inr None) (\<lambda>_. Inr (transformStateToStorage sample_common)) (Inr (Some ''{}'')) = Inr (Some p) \<and>
    t = loadFromStorageFulfilled (Some p) (initialCommonState :: unit common_state) \<and>
    obj_get (chat t) ''f'' = map_option remembered_chat (obj_get (chat sample_common) ''f'') \<and> mods t = mods sample_common"
proof -
  have d: "distinct (map fst (chat sample_common))" "distinct (map fst (nux sample_common))"
    "amountInputType (environment sample_common) \<noteq> Some []"
    by (simp_all add: sample_common_def fresh_common_def initialCommonState_def initialNuxState_def nux_steps_def initialEnvironmentState_def)
  from storage_roundtrip [of "\<lambda>_. Inr (transformStateToStorage sample_common)" "\<lambda>_. ''{}''", OF refl _ d] show ?thesis
    by blast
qed

end
