(* ===== verification/MatrixClient.thy ===== *)
theory MatrixClient
  imports MatrixState
begin

text \<open>
  The serializers of \<open>ui/common/utils/MatrixChatClient.ts\<close>: what the Matrix client makes of the rooms,
  members, accounts and timeline items of the bridge. The bridge sends a room as the JSON of the Matrix
  SDK; the records hold the properties the code reads, \<open>None\<close> where a step of the path is absent.
  \<open>encode_path\<close> is what assigning to \<open>URL.pathname\<close> does.
\<close>

section \<open>What the bridge sends\<close>

datatype rpc_room_list_entry = Empty | Invalidated string | Filled string

record rpc_room_member =
  rpc_userId :: string
  rpc_displayName :: "string option"
  rpc_avatarUrl :: "string option"
  rpc_powerLevel :: int
  rpc_membership :: string

record rpc_account_session =
  ses_userId :: string
  ses_deviceId :: string
  ses_displayName :: "string option"
  ses_avatarUrl :: "string option"

record rpc_search_user =
  su_userId :: string
  su_displayName :: "string option"
  su_avatarUrl :: "string option"

datatype send_state = NotSentYet | SendingFailed string | SentAs string | OtherSendState string

text \<open>The raw Matrix event of \<open>RJson\<close> is an object.\<close>

datatype rpc_content = RMessage json | RJson "(string \<times> json) list" | RRedacted | RUnknown

record rpc_timeline_event =
  te_id :: string
  te_txnId :: "string option"
  te_eventId :: "string option"
  te_content :: rpc_content
  te_localEcho :: bool
  te_timestamp :: int
  te_sender :: string
  te_sendState :: "send_state option"

datatype rpc_timeline_item = TimelineEvent rpc_timeline_event | DayDivider int | ReadMarker | UnknownItem

text \<open>The sender profile of the latest event is \<open>None\<close> when it is not an \<open>Original\<close> one.\<close>

record rpc_sender_profile =
  sp_id :: string
  sp_displayname :: "string option"
  sp_avatar_url :: "string option"

record rpc_latest_event =
  le_event_id :: string
  le_sender_profile :: "rpc_sender_profile option"
  le_body :: "json option"
  le_timestamp :: int

record rpc_room_info =
  ri_room_id :: string
  ri_avatar_url :: "string option"
  ri_dm_targets :: "string list option"
  ri_latest_event :: "rpc_latest_event option"
  ri_calculated_name :: "string option"
  ri_base_name :: "string option"
  ri_num_unread :: "int option"
  ri_is_marked_unread :: "bool option"
  ri_encryption :: "json option"
  ri_room_state :: room_state

record rpc_public_room_info =
  pri_room_id :: string
  pri_name :: string
  pri_num_joined_members :: "int option"

section \<open>Serializers\<close>

definition INVALID_NAME_PLACEHOLDER :: string where
  "INVALID_NAME_PLACEHOLDER = ''Invalid Name''"

text \<open>The validator is there once the client has started. A valid name is passed on untrimmed.\<close>

definition ensureDisplayName :: "bool \<Rightarrow> string option \<Rightarrow> string" where
  "ensureDisplayName hasValidator name =
     (if \<not> truthy_str name then []
      else if \<not> hasValidator then the name
      else case getDisplayNameValidator (the name) of Inr _ \<Rightarrow> the name | Inl _ \<Rightarrow> INVALID_NAME_PLACEHOLDER)"

definition avatar :: "(string \<Rightarrow> string) \<Rightarrow> string option \<Rightarrow> string option" where
  "avatar encode_path url =
     (if truthy_str url then mxcUrlToHttpUrl encode_path (the url) 200 200 ''crop'' else None)"

definition serializeRoomListItem :: "rpc_room_list_entry \<Rightarrow> room_list_item" where
  "serializeRoomListItem room = (case room of Filled value \<Rightarrow> Ready value | _ \<Rightarrow> Loading)"

definition serializePublicRoomInfo :: "rpc_public_room_info \<Rightarrow> matrix_room" where
  "serializePublicRoomInfo room =
     \<lparr>room_id = pri_room_id room, room_name = pri_name room, room_avatarUrl = None, room_preview_of = None,
      room_directUserId = None, room_broadcastOnly = None, room_notificationCount = None,
      room_isMarkedUnread = None, room_joinedMemberCount = Some (or_zero (pri_num_joined_members room)),
      room_isPreview = Some True, room_isPublic = Some True,
      room_inviteCode = encodeFediMatrixRoomUri (pri_room_id room) False, room_state_of = Invited\<rparr>"

text \<open>Reading a sender profile that is not an original one throws.\<close>

definition serialize_preview :: "bool \<Rightarrow> rpc_latest_event \<Rightarrow> js_error + room_preview" where
  "serialize_preview hasValidator e =
     (case le_sender_profile e of
        None \<Rightarrow> Inl TypeError
      | Some p \<Rightarrow>
          Inr \<lparr>rp_senderId = sp_id p, rp_eventId = le_event_id e,
               rp_displayName = ensureDisplayName hasValidator (sp_displayname p),
               rp_avatarUrl = sp_avatar_url p,
               rp_body = (case le_body e of None \<Rightarrow> JNull | Some b \<Rightarrow> b), rp_timestamp = le_timestamp e\<rparr>)"

definition direct_user :: "rpc_room_info \<Rightarrow> string option" where
  "direct_user room = (case ri_dm_targets room of Some (u # _) \<Rightarrow> Some u | _ \<Rightarrow> None)"

text \<open>A room without any name is serialized with an absent one, here the empty string.\<close>

definition serializeRoomInfo :: "(string \<Rightarrow> string) \<Rightarrow> bool \<Rightarrow> rpc_room_info \<Rightarrow> js_error + matrix_room" where
  "serializeRoomInfo encode_path hasValidator room =
     (let directUserId = direct_user room;
          roomName = (if truthy_str (ri_calculated_name room) then ri_calculated_name room else ri_base_name room);
          mk = (\<lambda>preview.
            \<lparr>room_id = ri_room_id room,
             room_name = (if truthy_str directUserId then ensureDisplayName hasValidator roomName
                          else case roomName of None \<Rightarrow> [] | Some n \<Rightarrow> n),
             room_avatarUrl = avatar encode_path (ri_avatar_url room), room_preview_of = preview,
             room_directUserId = directUserId, room_broadcastOnly = None,
             room_notificationCount = Some (or_zero (ri_num_unread room)),
             room_isMarkedUnread = ri_is_marked_unread room, room_joinedMemberCount = None,
             room_isPreview = None, room_isPublic = Some (ri_encryption room = Some JNull),
             room_inviteCode = encodeFediMatrixRoomUri (ri_room_id room) False,
             room_state_of = ri_room_state room\<rparr>)
      in case ri_latest_event room of
           None \<Rightarrow> Inr (mk None)
         | Some e \<Rightarrow> map_sum id (\<lambda>p. mk (Some p)) (serialize_preview hasValidator e))"

definition serializeRoomMember ::
  "(string \<Rightarrow> string) \<Rightarrow> bool \<Rightarrow> rpc_room_member \<Rightarrow> string \<Rightarrow> room_member"
where
  "serializeRoomMember encode_path hasValidator member roomId =
     \<lparr>rm_id = rpc_userId member, rm_displayName = Some (ensureDisplayName hasValidator (rpc_displayName member)),
      rm_avatarUrl = avatar encode_path (rpc_avatarUrl member), rm_roomId = roomId,
      rm_powerLevel = rpc_powerLevel member, rm_membership = rpc_membership member\<rparr>"

definition serializeAuth :: "(string \<Rightarrow> string) \<Rightarrow> bool \<Rightarrow> rpc_account_session \<Rightarrow> matrix_auth" where
  "serializeAuth encode_path hasValidator auth =
     \<lparr>auth_userId = ses_userId auth, auth_deviceId = ses_deviceId auth,
      auth_displayName = Some (ensureDisplayName hasValidator (ses_displayName auth)),
      auth_avatarUrl = avatar encode_path (ses_avatarUrl auth)\<rparr>"

definition serializeUserDirectorySearchResponse ::
  "(string \<Rightarrow> string) \<Rightarrow> bool \<Rightarrow> rpc_search_user list \<times> bool \<Rightarrow> matrix_user list \<times> bool"
where
  "serializeUserDirectorySearchResponse encode_path hasValidator res =
     (map (\<lambda>u. \<lparr>user_id = su_userId u,
         user_displayName = Some (ensureDisplayName hasValidator (su_displayName u)),
         user_avatarUrl = avatar encode_path (su_avatarUrl u)\<rparr>) (fst res), snd res)"

definition event_status_of :: "rpc_timeline_event \<Rightarrow> event_status" where
  "event_status_of e =
     (if \<not> te_localEcho e then Sent
      else case te_sendState e of
             Some (SentAs _) \<Rightarrow> Sent
           | Some (SendingFailed _) \<Rightarrow> Failed
           | Some (OtherSendState k) \<Rightarrow> if k = ''cancelled'' then Cancelled else Pending
           | _ \<Rightarrow> Pending)"

definition send_error :: "rpc_timeline_event \<Rightarrow> string option" where
  "send_error e =
     (if event_status_of e = Failed
      then Some (case te_sendState e of
                   Some (SendingFailed m) \<Rightarrow> if m = [] then ''Unknown error'' else m
                 | _ \<Rightarrow> ''Unknown error'')
      else None)"

text \<open>
  Items that are not shown become \<open>null\<close> and keep their place. A redacted or unknown content has no
  value.
\<close>

definition serializeTimelineItem :: "rpc_timeline_item \<Rightarrow> string \<Rightarrow> timeline_item" where
  "serializeTimelineItem item roomId =
     (case item of
        TimelineEvent e \<Rightarrow>
          let mk = (\<lambda>content. Some
                \<lparr>ev_id = te_id e, ev_content = formatMatrixEventContent content, ev_status = event_status_of e,
                 ev_roomId = roomId, ev_txnId = te_txnId e, ev_eventId = te_eventId e,
                 ev_timestamp = te_timestamp e, ev_senderId = Some (te_sender e), ev_error = send_error e\<rparr>)
          in (case te_content e of
                RJson raw \<Rightarrow>
                  if map_of raw ''type'' \<noteq> Some (JStr ''m.room.message'') then None
                  else if map_of raw ''redacted_because'' \<noteq> None then None
                  else mk (case map_of raw ''content'' of None \<Rightarrow> JNull | Some c \<Rightarrow> c)
              | RMessage c \<Rightarrow> mk c
              | _ \<Rightarrow> mk JNull)
      | _ \<Rightarrow> None)"

definition listed_room :: "rpc_room_list_entry \<Rightarrow> string option" where
  "listed_room room = (case room of Filled value \<Rightarrow> Some value | _ \<Rightarrow> None)"

definition entry_value :: "rpc_room_list_entry \<Rightarrow> string option" where
  "entry_value room = (case room of Empty \<Rightarrow> None | Invalidated value \<Rightarrow> Some value | Filled value \<Rightarrow> Some value)"

section \<open>Methods without state\<close>

text \<open>The calls of the bridge are arguments; the result holds the value the bridge is sent, too.\<close>

definition getRoomPreview ::
  "(string \<Rightarrow> js_error + rpc_public_room_info) \<Rightarrow> (string \<Rightarrow> js_error + rpc_timeline_item list) \<Rightarrow> string \<Rightarrow>
   js_error + group_preview"
where
  "getRoomPreview publicRoomInfo previewContent roomId =
     (case publicRoomInfo roomId of
        Inl e \<Rightarrow> Inl e
      | Inr info \<Rightarrow>
          (case previewContent roomId of
             Inl e \<Rightarrow> Inl e
           | Inr items \<Rightarrow>
               Inr \<lparr>gp_info = serializePublicRoomInfo info,
                    gp_timeline = map (\<lambda>item. serializeTimelineItem item roomId) items, gp_isDefaultGroup = None\<rparr>))"

text \<open>\<open>{...oldPowerLevels, ...powerLevels}\<close>.\<close>

definition merge_power_levels :: "power_levels \<Rightarrow> power_levels \<Rightarrow> power_levels" where
  "merge_power_levels old new =
     \<lparr>pl_ban = nullish (pl_ban new) (pl_ban old), pl_invite = nullish (pl_invite new) (pl_invite old),
      pl_kick = nullish (pl_kick new) (pl_kick old), pl_redact = nullish (pl_redact new) (pl_redact old),
      pl_state_default = nullish (pl_state_default new) (pl_state_default old),
      pl_events_default = nullish (pl_events_default new) (pl_events_default old),
      pl_events = nullish (pl_events new) (pl_events old), pl_users = nullish (pl_users new) (pl_users old)\<rparr>"

definition setRoomPowerLevels ::
  "(string \<Rightarrow> js_error + power_levels) \<Rightarrow> (string \<Rightarrow> power_levels \<Rightarrow> js_error + unit) \<Rightarrow> string \<Rightarrow> power_levels \<Rightarrow>
   js_error + power_levels"
where
  "setRoomPowerLevels getLevels setLevels roomId powerLevels =
     (case getLevels roomId of
        Inl e \<Rightarrow> Inl e
      | Inr old \<Rightarrow>
          let new = merge_power_levels old powerLevels
          in map_sum id (\<lambda>_. new) (setLevels roomId new))"

definition setRoomMemberPowerLevel ::
  "(string \<Rightarrow> js_error + power_levels) \<Rightarrow> (string \<Rightarrow> power_levels \<Rightarrow> js_error + unit) \<Rightarrow> string \<Rightarrow> string \<Rightarrow> int \<Rightarrow>
   js_error + power_levels"
where
  "setRoomMemberPowerLevel getLevels setLevels roomId userId powerLevel =
     (case getLevels roomId of
        Inl e \<Rightarrow> Inl e
      | Inr old \<Rightarrow>
          let users = (case pl_users old of None \<Rightarrow> [] | Some u \<Rightarrow> u);
              new = old\<lparr>pl_users := Some (obj_set userId powerLevel users)\<rparr>
          in map_sum id (\<lambda>_. new) (setLevels roomId new))"

definition setDisplayName :: "bool \<Rightarrow> string \<Rightarrow> string" where
  "setDisplayName hasValidator name = ensureDisplayName hasValidator (Some name)"

text \<open>A display name is sent as it is when it is valid, and as the placeholder when it is not.\<close>

lemma setDisplayName_cases:
  "name \<noteq> [] \<Longrightarrow> setDisplayName True name =
     (if isl (getDisplayNameValidator name) then INVALID_NAME_PLACEHOLDER else name)"
  by (simp add: setDisplayName_def ensureDisplayName_def truthy_str_def split: sum.splits)

end
