(* ===== verification/MatrixObservers.thy ===== *)
theory MatrixObservers
  imports MatrixClient
begin

text \<open>
  The observers of \<open>ui/common/utils/MatrixChatClient.ts\<close>. The client asks the bridge for observables and
  keeps, per kind and room, the id of the one it has, so as to ask only once. Every method is a sequence
  of operations; an operation runs until it awaits the bridge, and its continuation runs when the bridge
  replies, in any order with the other tasks. So the state holds the tasks that wait for a reply and
  those ready to go on, and a step is the arrival of a reply or an update, a task that goes on, or a call
  of a method. The scheduler is not JavaScript's queue but any order: what holds of all steps here holds
  of those the code can take.
\<close>

section \<open>State\<close>

definition MAX_SAFE_INTEGER :: int where
  "MAX_SAFE_INTEGER = 9007199254740991"

record room_observers =
  ro_info :: "int option"
  ro_timeline :: "int option"

datatype handler = OnSync | OnRoomList | OnRoomInfo string | OnTimeline string | OnPagination

text \<open>The operations the methods await, and the calls of the bridge they make.\<close>

datatype operation =
    MatrixInit
  | InitialAuth
  | RefetchAuth
  | ObserveSyncStatus
  | ObserveRoomList
  | ObserveRoomInfo string
  | ObserveRoomTimeline string
  | ObserveRoomMembers string
  | ObserveRoomPowerLevels string
  | ObserveRoomNotificationMode string
  | Unobserve int
  | RecreateSyncStatus
  | RecreateRoomList
  | Command string
  | DirectMessageRoom string
  | ObservePagination string

datatype bridge_call =
    CallInit
  | CallSession bool
  | CallSyncIndicator
  | CallRoomList
  | CallRoomInfo string
  | CallTimeline string
  | CallMembers string
  | CallPowerLevels string
  | CallNotificationMode string
  | CallCancel int
  | CallCommand string
  | CallCreateDm string
  | CallPagination string

text \<open>A task of a group: all tasks of the group done, the operations that joined it go on.\<close>

datatype task_state = Ready_to_run "operation list" | Waiting bridge_call "operation list"

record task =
  group :: nat
  progress :: task_state

datatype client_event =
    AuthEvent matrix_auth
  | StatusEvent sync_status
  | RoomListEvent "room_list_item diff list"
  | RoomInfoEvent matrix_room
  | RoomMembersEvent string "room_member list"
  | TimelineEventUpdate string "timeline_item diff list"
  | PowerLevelsEvent string power_levels
  | NotificationModeEvent string notification_mode
  | StartResolved matrix_auth
  | PaginationResolved bool

record client =
  hasStarted :: bool
  cl_status :: "int option"
  cl_roomList :: "int option"
  cl_rooms :: "room_observers jsobj"
  observers :: "(int \<times> handler) list"
  tasks :: "task list"
  joins :: "(nat \<times> operation list) list"
  groups_made :: nat
  events :: "client_event list"

definition initialClient :: client where
  "initialClient =
     \<lparr>hasStarted = False, cl_status = None, cl_roomList = None, cl_rooms = [], observers = [], tasks = [],
      joins = [], groups_made = 0, events = []\<rparr>"

definition room_observers_of :: "client \<Rightarrow> string \<Rightarrow> room_observers" where
  "room_observers_of c r = (case obj_get (cl_rooms c) r of None \<Rightarrow> \<lparr>ro_info = None, ro_timeline = None\<rparr> | Some o' \<Rightarrow> o')"

definition set_info :: "string \<Rightarrow> int option \<Rightarrow> client \<Rightarrow> client" where
  "set_info r i c = c\<lparr>cl_rooms := obj_set r ((room_observers_of c r)\<lparr>ro_info := i\<rparr>) (cl_rooms c)\<rparr>"

definition set_timeline :: "string \<Rightarrow> int option \<Rightarrow> client \<Rightarrow> client" where
  "set_timeline r i c = c\<lparr>cl_rooms := obj_set r ((room_observers_of c r)\<lparr>ro_timeline := i\<rparr>) (cl_rooms c)\<rparr>"

definition emit :: "client_event \<Rightarrow> client \<Rightarrow> client" where
  "emit e c = c\<lparr>events := events c @ [e]\<rparr>"

definition observe :: "int \<Rightarrow> handler \<Rightarrow> client \<Rightarrow> client" where
  "observe i h c = c\<lparr>observers := AList.update i h (observers c)\<rparr>"

section \<open>Operations\<close>

text \<open>
  An operation up to its first \<open>await\<close>: the call it awaits, or none when it returns at once. The
  observations put a fake id in the map before they ask the bridge. The two \<open>Recreate\<close> operations are
  the end of the refetch methods: the id is deleted from the map and the observation starts.
\<close>

fun begin_operation :: "operation \<Rightarrow> client \<Rightarrow> client \<times> bridge_call option" where
  "begin_operation MatrixInit c = (c, Some CallInit)"
| "begin_operation InitialAuth c = (c, Some (CallSession True))"
| "begin_operation RefetchAuth c = (c, Some (CallSession False))"
| "begin_operation ObserveSyncStatus c =
     (if cl_status c \<noteq> None then (c, None) else (c\<lparr>cl_status := Some MAX_SAFE_INTEGER\<rparr>, Some CallSyncIndicator))"
| "begin_operation ObserveRoomList c =
     (if cl_roomList c \<noteq> None then (c, None) else (c\<lparr>cl_roomList := Some MAX_SAFE_INTEGER\<rparr>, Some CallRoomList))"
| "begin_operation (ObserveRoomInfo r) c =
     (if ro_info (room_observers_of c r) \<noteq> None then (c, None)
      else (set_info r (Some MAX_SAFE_INTEGER) c, Some (CallRoomInfo r)))"
| "begin_operation (ObserveRoomTimeline r) c =
     (if ro_timeline (room_observers_of c r) \<noteq> None then (c, None)
      else (set_timeline r (Some MAX_SAFE_INTEGER) c, Some (CallTimeline r)))"
| "begin_operation (ObserveRoomMembers r) c = (c, Some (CallMembers r))"
| "begin_operation (ObserveRoomPowerLevels r) c = (c, Some (CallPowerLevels r))"
| "begin_operation (ObserveRoomNotificationMode r) c = (c, Some (CallNotificationMode r))"
| "begin_operation (Unobserve i) c = (c, Some (CallCancel i))"
| "begin_operation RecreateSyncStatus c = (c\<lparr>cl_status := Some MAX_SAFE_INTEGER\<rparr>, Some CallSyncIndicator)"
| "begin_operation RecreateRoomList c = (c\<lparr>cl_roomList := Some MAX_SAFE_INTEGER\<rparr>, Some CallRoomList)"
| "begin_operation (Command name) c = (c, Some (CallCommand name))"
| "begin_operation (DirectMessageRoom u) c = (c, Some (CallCreateDm u))"
| "begin_operation (ObservePagination r) c = (c, Some (CallPagination r))"

definition add_task :: "nat \<Rightarrow> task_state \<Rightarrow> client \<Rightarrow> client" where
  "add_task g p c = c\<lparr>tasks := tasks c @ [\<lparr>group = g, progress = p\<rparr>]\<rparr>"

text \<open>A sequence of operations started now: the first one runs up to its first \<open>await\<close>.\<close>

definition run :: "nat \<Rightarrow> operation list \<Rightarrow> client \<Rightarrow> client" where
  "run g ops c =
     (case ops of
        [] \<Rightarrow> c
      | op # rest \<Rightarrow>
          (case begin_operation op c of
             (c', None) \<Rightarrow> if rest = [] then c' else add_task g (Ready_to_run rest) c'
           | (c', Some call) \<Rightarrow> add_task g (Waiting call rest) c'))"

section \<open>Replies\<close>

datatype reply =
    Done
  | Session rpc_account_session
  | SyncIndicator int bool
  | RoomList int "rpc_room_list_entry list"
  | RoomInfo int rpc_room_info
  | Timeline int "rpc_timeline_item list"
  | Members "rpc_room_member list"
  | PowerLevels power_levels
  | NotificationMode "notification_mode option"
  | DmRoom string
  | Pagination int bool

definition sync_event :: "bool \<Rightarrow> client_event" where
  "sync_event shown = StatusEvent (if shown then syncing else synced)"

text \<open>
  The continuation after a reply: the new state and the operations the task continues with first, or
  an error that ends the task. \<open>done\<close> is the task's group, for the operations that wait for a group.
\<close>

definition observe_rooms :: "string list \<Rightarrow> nat \<Rightarrow> client \<Rightarrow> client" where
  "observe_rooms rs g c =
     fold (\<lambda>r. run g [ObserveRoomInfo r, ObserveRoomPowerLevels r, ObserveRoomNotificationMode r]) rs c"

definition some_values :: "'a option list \<Rightarrow> 'a list" where
  "some_values xs = concat (map (\<lambda>x. case x of None \<Rightarrow> [] | Some y \<Rightarrow> [y]) xs)"

definition observeRoomInfo_reply ::
  "(string \<Rightarrow> string) \<Rightarrow> string \<Rightarrow> int \<Rightarrow> rpc_room_info \<Rightarrow> client \<Rightarrow> client \<times> bool"
where
  "observeRoomInfo_reply enc r i initial c =
     (let c1 = set_info r (Some i) c
      in case serializeRoomInfo enc (hasStarted c) initial of
           Inl _ \<Rightarrow> (c1, False)
         | Inr room \<Rightarrow>
             let c2 = emit (RoomInfoEvent room) c1;
                 c3 = (if truthy_str (room_directUserId room)
                       then run 0 [ObserveRoomTimeline r] (run 0 [ObserveRoomMembers r] c2) else c2)
             in (observe i (OnRoomInfo r) c3, True))"

text \<open>
  The result is the new state and whether the operation succeeded. A reply that does not belong to its
  call never comes.
\<close>

fun resume :: "(string \<Rightarrow> string) \<Rightarrow> bridge_call \<Rightarrow> reply \<Rightarrow> client \<Rightarrow> client \<times> bool" where
  "resume enc (CallSession cached) rep c =
     (case rep of
        Session s \<Rightarrow>
          (let auth = serializeAuth enc (hasStarted c) s
           in (if cached then run 0 [RefetchAuth] (emit (StartResolved auth) c) else emit (AuthEvent auth) c, True))
      | _ \<Rightarrow> (c, True))"
| "resume enc CallSyncIndicator rep c =
     (case rep of
        SyncIndicator i shown \<Rightarrow> (observe i OnSync (emit (sync_event shown) (c\<lparr>cl_status := Some i\<rparr>)), True)
      | _ \<Rightarrow> (c, True))"
| "resume enc (CallRoomInfo r) rep c =
     (case rep of RoomInfo i initial \<Rightarrow> observeRoomInfo_reply enc r i initial c | _ \<Rightarrow> (c, True))"
| "resume enc (CallTimeline r) rep c =
     (case rep of
        Timeline i initial \<Rightarrow>
          (observe i (OnTimeline r)
             (emit (TimelineEventUpdate r (makeInitialResetUpdate (map (\<lambda>ev. serializeTimelineItem ev r) initial)))
               (set_timeline r (Some i) c)), True)
      | _ \<Rightarrow> (c, True))"
| "resume enc (CallMembers r) rep c =
     (case rep of
        Members ms \<Rightarrow> (emit (RoomMembersEvent r (map (\<lambda>m. serializeRoomMember enc (hasStarted c) m r) ms)) c, True)
      | _ \<Rightarrow> (c, True))"
| "resume enc (CallPowerLevels r) rep c =
     (case rep of PowerLevels pl \<Rightarrow> (emit (PowerLevelsEvent r pl) c, True) | _ \<Rightarrow> (c, True))"
| "resume enc (CallNotificationMode r) rep c =
     (case rep of
        NotificationMode m \<Rightarrow> (emit (NotificationModeEvent r (case m of None \<Rightarrow> allMessages | Some x \<Rightarrow> x)) c, True)
      | _ \<Rightarrow> (c, True))"
| "resume enc (CallCancel i) rep c = (c\<lparr>observers := AList.delete i (observers c)\<rparr>, True)"
| "resume enc (CallPagination r) rep c =
     (case rep of
        Pagination i startReached \<Rightarrow>
          (if startReached then run 0 [Unobserve i] (emit (PaginationResolved True) c)
           else run 0 [Command r] (observe i OnPagination c), True)
      | _ \<Rightarrow> (c, True))"
| "resume enc CallInit rep c = (c, True)"
| "resume enc CallRoomList rep c = (c, True)"
| "resume enc (CallCommand n) rep c = (c, True)"
| "resume enc (CallCreateDm u) rep c = (c, True)"

text \<open>The room list is emitted, its observer registered, and every room in it observed in a new group.\<close>

definition observeRoomList_reply :: "int \<Rightarrow> rpc_room_list_entry list \<Rightarrow> operation list \<Rightarrow> client \<Rightarrow> client" where
  "observeRoomList_reply i initial rest c =
     (let g = Suc (groups_made c);
          c1 = c\<lparr>cl_roomList := Some i, groups_made := g\<rparr>;
          c2 = emit (RoomListEvent (makeInitialResetUpdate (map serializeRoomListItem initial))) c1;
          c3 = observe i OnRoomList c2
      in (observe_rooms (some_values (map entry_value initial)) g c3)\<lparr>joins := (g, rest) # joins c3\<rparr>)"

text \<open>Operations that catch the error of their call.\<close>

fun catches :: "bridge_call \<Rightarrow> bool" where
  "catches (CallCancel i) = True"
| "catches (CallPowerLevels r) = True"
| "catches _ = False"

definition go_on :: "nat \<Rightarrow> operation list \<Rightarrow> client \<Rightarrow> client" where
  "go_on g rest c = (if rest = [] then c else add_task g (Ready_to_run rest) c)"

text \<open>The first task of a group that fails makes the operations that wait for the group fail too.\<close>

definition fail_group :: "nat \<Rightarrow> client \<Rightarrow> client" where
  "fail_group g c = c\<lparr>joins := filter (\<lambda>(g', _). g' \<noteq> g) (joins c)\<rparr>"

definition direct_message_operations :: "string \<Rightarrow> operation list" where
  "direct_message_operations r = [ObserveRoomInfo r, Command r, ObserveRoomTimeline r, ObserveRoomPowerLevels r]"

definition settle :: "(string \<Rightarrow> string) \<Rightarrow> nat \<Rightarrow> bridge_call \<Rightarrow> operation list \<Rightarrow> reply \<Rightarrow> client \<Rightarrow> client" where
  "settle enc g call rest rep c =
     (case resume enc call rep c of (c', ok) \<Rightarrow> if ok then go_on g rest c' else fail_group g c')"

definition handle_reply ::
  "(string \<Rightarrow> string) \<Rightarrow> nat \<Rightarrow> bridge_call \<Rightarrow> operation list \<Rightarrow> (js_error + reply) \<Rightarrow> client \<Rightarrow> client"
where
  "handle_reply enc g call rest result c =
     (case result of
        Inl e \<Rightarrow> if catches call then go_on g rest c else fail_group g c
      | Inr rep \<Rightarrow>
          (case rep of
             RoomList i initial \<Rightarrow>
               if call = CallRoomList then observeRoomList_reply i initial rest c else settle enc g call rest rep c
           | DmRoom r \<Rightarrow>
               (case call of
                  CallCreateDm u \<Rightarrow> go_on g (direct_message_operations r @ rest) c
                | _ \<Rightarrow> settle enc g call rest rep c)
           | _ \<Rightarrow> settle enc g call rest rep c))"

section \<open>Updates\<close>

datatype pagination_status = Idle | Paginating | TimelineStartReached

datatype observable_update =
    SyncUpdate bool
  | RoomListDiff "rpc_room_list_entry diff list"
  | RoomInfoUpdate rpc_room_info
  | TimelineDiff "rpc_timeline_item diff list"
  | PaginationUpdate pagination_status

text \<open>
  What a handler does with an update; one that throws has emitted nothing. New rooms of the list are
  observed, each in three calls that do not wait for one another.
\<close>

definition observe_new_room :: "string \<Rightarrow> client \<Rightarrow> client" where
  "observe_new_room r c =
     run 0 [ObserveRoomNotificationMode r] (run 0 [ObserveRoomPowerLevels r] (run 0 [ObserveRoomInfo r] c))"

fun run_handler :: "(string \<Rightarrow> string) \<Rightarrow> int \<Rightarrow> handler \<Rightarrow> observable_update \<Rightarrow> client \<Rightarrow> client" where
  "run_handler enc i OnSync u c = (case u of SyncUpdate shown \<Rightarrow> emit (sync_event shown) c | _ \<Rightarrow> c)"
| "run_handler enc i OnRoomList u c =
     (case u of
        RoomListDiff us \<Rightarrow>
          (case mapObservableUpdates serializeRoomListItem us of
             Inl e \<Rightarrow> c
           | Inr vs \<Rightarrow> fold observe_new_room (getNewObservableIds listed_room us) (emit (RoomListEvent vs) c))
      | _ \<Rightarrow> c)"
| "run_handler enc i (OnRoomInfo r) u c =
     (case u of
        RoomInfoUpdate info \<Rightarrow>
          (case serializeRoomInfo enc (hasStarted c) info of Inl e \<Rightarrow> c | Inr room \<Rightarrow> emit (RoomInfoEvent room) c)
      | _ \<Rightarrow> c)"
| "run_handler enc i (OnTimeline r) u c =
     (case u of
        TimelineDiff us \<Rightarrow>
          (case mapObservableUpdates (\<lambda>ev. serializeTimelineItem ev r) us of
             Inl e \<Rightarrow> c
           | Inr vs \<Rightarrow> emit (TimelineEventUpdate r vs) c)
      | _ \<Rightarrow> c)"
| "run_handler enc i OnPagination u c =
     (case u of
        PaginationUpdate Idle \<Rightarrow> run 0 [Unobserve i] (emit (PaginationResolved False) c)
      | PaginationUpdate TimelineStartReached \<Rightarrow> run 0 [Unobserve i] (emit (PaginationResolved True) c)
      | _ \<Rightarrow> c)"

definition handleObservableUpdate ::
  "(string \<Rightarrow> string) \<Rightarrow> int \<Rightarrow> observable_update \<Rightarrow> client \<Rightarrow> client"
where
  "handleObservableUpdate enc i u c =
     (case map_of (observers c) i of
        None \<Rightarrow> run 0 [Unobserve i] c
      | Some h \<Rightarrow> run_handler enc i h u c)"

section \<open>Methods\<close>

definition start :: "client \<Rightarrow> client" where
  "start c =
     (if hasStarted c then c
      else run 0 [MatrixInit, InitialAuth, ObserveRoomList, ObserveSyncStatus] (c\<lparr>hasStarted := True\<rparr>))"

definition observeRoom :: "string \<Rightarrow> client \<Rightarrow> client" where
  "observeRoom r c =
     run 0 [ObserveRoomPowerLevels r] (run 0 [ObserveRoomMembers r] (run 0 [ObserveRoomTimeline r] c))"

text \<open>The timeline's id leaves the map at once, its handler when the bridge has cancelled it.\<close>

definition unobserveRoom :: "string \<Rightarrow> client \<Rightarrow> client" where
  "unobserveRoom r c =
     (case ro_timeline (room_observers_of c r) of
        None \<Rightarrow> c
      | Some i \<Rightarrow> if i = MAX_SAFE_INTEGER then c else set_timeline r None (run 0 [Unobserve i] c))"

definition is_real :: "int option \<Rightarrow> bool" where
  "is_real i = (i \<noteq> None \<and> i \<noteq> Some MAX_SAFE_INTEGER)"

definition refetchRoomList :: "client \<Rightarrow> client" where
  "refetchRoomList c =
     (if is_real (cl_roomList c) then run 0 [Unobserve (the (cl_roomList c)), RecreateRoomList] c
      else run 0 [ObserveRoomList] c)"

definition refreshSyncStatus :: "client \<Rightarrow> client" where
  "refreshSyncStatus c =
     (if is_real (cl_status c) then run 0 [Unobserve (the (cl_status c)), RecreateSyncStatus] c
      else run 0 [ObserveSyncStatus] c)"

text \<open>
  The methods of one call, then of a call after which the members are fetched again
  (\<open>inviteUserToRoom\<close>, \<open>roomKickUser\<close>, \<open>roomBanUser\<close>, \<open>roomUnbanUser\<close>).
\<close>

datatype client_method =
    Start
  | RefetchAuthMethod
  | ObserveRoom string
  | UnobserveRoom string
  | RefetchRoomMembers string
  | RefetchRoomList
  | RefreshSyncStatus
  | SimpleCommand string
  | MemberCommand string
  | SendDirectMessage string
  | RoomPaginateTimeline string

fun call_method :: "client_method \<Rightarrow> client \<Rightarrow> client" where
  "call_method Start c = start c"
| "call_method RefetchAuthMethod c = run 0 [RefetchAuth] c"
| "call_method (ObserveRoom r) c = observeRoom r c"
| "call_method (UnobserveRoom r) c = unobserveRoom r c"
| "call_method (RefetchRoomMembers r) c = run 0 [ObserveRoomMembers r] c"
| "call_method RefetchRoomList c = refetchRoomList c"
| "call_method RefreshSyncStatus c = refreshSyncStatus c"
| "call_method (SimpleCommand name) c = run 0 [Command name] c"
| "call_method (MemberCommand r) c = run 0 [Command r, ObserveRoomMembers r] c"
| "call_method (SendDirectMessage u) c = run 0 [DirectMessageRoom u] c"
| "call_method (RoomPaginateTimeline r) c = run 0 [ObservePagination r] c"

section \<open>Steps\<close>

text \<open>The bridge never uses the fake id, nor an id that has a handler.\<close>

definition reply_id :: "reply \<Rightarrow> int option" where
  "reply_id rep =
     (case rep of SyncIndicator i _ \<Rightarrow> Some i | RoomList i _ \<Rightarrow> Some i | RoomInfo i _ \<Rightarrow> Some i | Timeline i _ \<Rightarrow> Some i
      | Pagination i _ \<Rightarrow> Some i | _ \<Rightarrow> None)"

definition new_id :: "reply \<Rightarrow> client \<Rightarrow> bool" where
  "new_id rep c = (case reply_id rep of None \<Rightarrow> True
     | Some i \<Rightarrow> i \<noteq> MAX_SAFE_INTEGER \<and> map_of (observers c) i = None)"

fun fits :: "bridge_call \<Rightarrow> reply \<Rightarrow> bool" where
  "fits (CallSession b) rep = (case rep of Session _ \<Rightarrow> True | _ \<Rightarrow> False)"
| "fits CallSyncIndicator rep = (case rep of SyncIndicator _ _ \<Rightarrow> True | _ \<Rightarrow> False)"
| "fits CallRoomList rep = (case rep of RoomList _ _ \<Rightarrow> True | _ \<Rightarrow> False)"
| "fits (CallRoomInfo r) rep = (case rep of RoomInfo _ _ \<Rightarrow> True | _ \<Rightarrow> False)"
| "fits (CallTimeline r) rep = (case rep of Timeline _ _ \<Rightarrow> True | _ \<Rightarrow> False)"
| "fits (CallMembers r) rep = (case rep of Members _ \<Rightarrow> True | _ \<Rightarrow> False)"
| "fits (CallPowerLevels r) rep = (case rep of PowerLevels _ \<Rightarrow> True | _ \<Rightarrow> False)"
| "fits (CallNotificationMode r) rep = (case rep of NotificationMode _ \<Rightarrow> True | _ \<Rightarrow> False)"
| "fits (CallCreateDm u) rep = (case rep of DmRoom _ \<Rightarrow> True | _ \<Rightarrow> False)"
| "fits (CallPagination r) rep = (case rep of Pagination _ _ \<Rightarrow> True | _ \<Rightarrow> False)"
| "fits CallInit rep = (rep = Done)"
| "fits (CallCancel i) rep = (rep = Done)"
| "fits (CallCommand n) rep = (rep = Done)"

datatype event_of_step =
    Method client_method
  | Reply bridge_call "js_error + reply"
  | Continue
  | GroupDone nat
  | Update int observable_update

inductive client_step :: "(string \<Rightarrow> string) \<Rightarrow> event_of_step \<Rightarrow> client \<Rightarrow> client \<Rightarrow> bool" for enc where
  called: "client_step enc (Method m) c (call_method m c)"
| reply:
    "tasks c = xs @ t # ys \<Longrightarrow> progress t = Waiting call rest \<Longrightarrow>
       (case result of Inl _ \<Rightarrow> True | Inr rep \<Rightarrow> fits call rep \<and> new_id rep c) \<Longrightarrow>
       c' = handle_reply enc (group t) call rest result (c\<lparr>tasks := xs @ ys\<rparr>) \<Longrightarrow>
       client_step enc (Reply call result) c c'"
| continue:
    "tasks c = xs @ t # ys \<Longrightarrow> progress t = Ready_to_run ops \<Longrightarrow>
       c' = run (group t) ops (c\<lparr>tasks := xs @ ys\<rparr>) \<Longrightarrow> client_step enc Continue c c'"
| joined:
    "(g, ops) \<in> set (joins c) \<Longrightarrow> list_all (\<lambda>t. group t \<noteq> g) (tasks c) \<Longrightarrow>
       c' = go_on 0 ops (c\<lparr>joins := remove1 (g, ops) (joins c)\<rparr>) \<Longrightarrow> client_step enc (GroupDone g) c c'"
| update: "c' = handleObservableUpdate enc i u c \<Longrightarrow> client_step enc (Update i u) c c'"

inductive client_reaches :: "(string \<Rightarrow> string) \<Rightarrow> client \<Rightarrow> client \<Rightarrow> bool" for enc where
  here: "client_reaches enc c c"
| further: "client_reaches enc c d \<Longrightarrow> client_step enc e d d' \<Longrightarrow> client_reaches enc c d'"

inductive_cases client_stepE: "client_step enc e c c'"

section \<open>One call at a time\<close>

text \<open>The calls that fill a slot of a room, the slot, and the number of tasks that wait for the call.\<close>

fun room_call :: "bridge_call \<Rightarrow> bool" where
  "room_call (CallRoomInfo r) = True"
| "room_call (CallTimeline r) = True"
| "room_call _ = False"

fun slot :: "bridge_call \<Rightarrow> client \<Rightarrow> int option" where
  "slot (CallRoomInfo r) c = ro_info (room_observers_of c r)"
| "slot (CallTimeline r) c = ro_timeline (room_observers_of c r)"
| "slot _ c = None"

fun waits_for :: "bridge_call \<Rightarrow> task_state \<Rightarrow> bool" where
  "waits_for call (Waiting call' rest) = (call' = call)"
| "waits_for call (Ready_to_run ops) = False"

definition waiting :: "bridge_call \<Rightarrow> client \<Rightarrow> nat" where
  "waiting call c = length (filter (\<lambda>t. waits_for call (progress t)) (tasks c))"

definition once :: "client \<Rightarrow> bool" where
  "once c = (\<forall>call. room_call call \<longrightarrow> waiting call c \<le> 1 \<and> (waiting call c = 1 \<longrightarrow> slot call c = Some MAX_SAFE_INTEGER))"

named_theorems client_simps

lemma room_observers_set [client_simps]:
  "room_observers_of (set_info r i c) r' = (if r' = r then (room_observers_of c r)\<lparr>ro_info := i\<rparr> else room_observers_of c r')"
  "room_observers_of (set_timeline r i c) r' =
     (if r' = r then (room_observers_of c r)\<lparr>ro_timeline := i\<rparr> else room_observers_of c r')"
  by (simp_all add: room_observers_of_def set_info_def set_timeline_def)

lemma slot_same [client_simps]:
  "slot call (emit e c) = slot call c" "slot call (observe i h c) = slot call c"
  "slot call (add_task g p c) = slot call c" "slot call (fail_group g c) = slot call c"
  "slot call (c\<lparr>cl_status := a\<rparr>) = slot call c" "slot call (c\<lparr>cl_roomList := a\<rparr>) = slot call c"
  "slot call (c\<lparr>observers := b\<rparr>) = slot call c" "slot call (c\<lparr>joins := j\<rparr>) = slot call c"
  "slot call (c\<lparr>tasks := ts\<rparr>) = slot call c" "slot call (c\<lparr>hasStarted := s\<rparr>) = slot call c"
  "slot call (c\<lparr>groups_made := n\<rparr>) = slot call c"
  by (cases call; simp add: emit_def observe_def add_task_def fail_group_def room_observers_of_def)+

lemma slot_set [client_simps]:
  "slot call (set_info r i c) = (if call = CallRoomInfo r then i else slot call c)"
  "slot call (set_timeline r i c) = (if call = CallTimeline r then i else slot call c)"
  by (cases call; simp add: client_simps)+

lemma waiting_same [client_simps]:
  "waiting call (emit e c) = waiting call c" "waiting call (observe i h c) = waiting call c"
  "waiting call (fail_group g c) = waiting call c" "waiting call (set_info r x c) = waiting call c"
  "waiting call (set_timeline r x c) = waiting call c"
  "waiting call (c\<lparr>cl_status := a\<rparr>) = waiting call c" "waiting call (c\<lparr>cl_roomList := a\<rparr>) = waiting call c"
  "waiting call (c\<lparr>observers := b\<rparr>) = waiting call c" "waiting call (c\<lparr>joins := j\<rparr>) = waiting call c"
  "waiting call (c\<lparr>hasStarted := s\<rparr>) = waiting call c" "waiting call (c\<lparr>groups_made := n\<rparr>) = waiting call c"
  by (simp_all add: waiting_def emit_def observe_def fail_group_def set_info_def set_timeline_def)

lemma waiting_add [client_simps]:
  "waiting call (add_task g p c) = waiting call c + (if waits_for call p then 1 else 0)"
  by (simp add: waiting_def add_task_def)

end
