(* ===== verification/MatrixObserverLaws.thy ===== *)
theory MatrixObserverLaws
  imports MatrixObservers
begin

text \<open>
  What holds of every run of the Matrix client of \<open>ui/common/utils/MatrixChatClient.ts\<close>: the locale of
  the properties all steps keep, with its two interpretations, the slice of \<open>ui/common/redux/matrix.ts\<close>
  that the client's events drive, and the runs in which the observers go wrong.
\<close>

lemma room_observers_run_unobserve [simp]: "room_observers_of (run g [Unobserve i] c) = room_observers_of c"
  by (simp add: fun_eq_iff run_def add_task_def room_observers_of_def)

section \<open>Invariants of the client\<close>

text \<open>
  What a property of the client has to satisfy to survive every step: it does not depend on the ids of
  the sync status and the room list, and it survives the start of an operation, the end of a call, and
  the changes to the handlers and the slots of the rooms.
\<close>

locale client_invariant =
  fixes inv :: "client \<Rightarrow> bool"
  assumes frame: "inv c \<Longrightarrow> tasks c' = tasks c \<Longrightarrow> cl_rooms c' = cl_rooms c \<Longrightarrow> observers c' = observers c \<Longrightarrow>
      events c' = events c \<Longrightarrow> inv c'"
    and emits: "inv c \<Longrightarrow> \<forall>r us. e \<noteq> TimelineEventUpdate r us \<Longrightarrow> inv (emit e c)"
    and emits_update: "inv c \<Longrightarrow> map_of (observers c) i = Some (OnTimeline r) \<Longrightarrow> inv (emit (TimelineEventUpdate r us) c)"
    and forgets: "inv c \<Longrightarrow> inv (c\<lparr>observers := AList.delete i (observers c)\<rparr>)"
    and runs: "inv c \<Longrightarrow> inv (run g ops c)"
    and readies: "inv c \<Longrightarrow> inv (add_task g (Ready_to_run ops) c)"
    and takes: "inv c \<Longrightarrow> tasks c = xs @ t # ys \<Longrightarrow> inv (c\<lparr>tasks := xs @ ys\<rparr>)"
    and gets_info: "inv c \<Longrightarrow> tasks c = xs @ t # ys \<Longrightarrow> progress t = Waiting (CallRoomInfo r) rest \<Longrightarrow>
      i \<noteq> MAX_SAFE_INTEGER \<Longrightarrow> inv (set_info r (Some i) (c\<lparr>tasks := xs @ ys\<rparr>))"
    and registers: "inv c \<Longrightarrow> \<forall>r. h \<noteq> OnTimeline r \<Longrightarrow> inv (observe i h c)"
    and gets_timeline: "inv c \<Longrightarrow> tasks c = xs @ t # ys \<Longrightarrow> progress t = Waiting (CallTimeline r) rest \<Longrightarrow>
      i \<noteq> MAX_SAFE_INTEGER \<Longrightarrow>
      inv (observe i (OnTimeline r) (emit (TimelineEventUpdate r us) (set_timeline r (Some i) (c\<lparr>tasks := xs @ ys\<rparr>))))"
    and leaves_timeline: "inv c \<Longrightarrow> ro_timeline (room_observers_of c r) = Some i \<Longrightarrow> i \<noteq> MAX_SAFE_INTEGER \<Longrightarrow>
      inv (set_timeline r None c)"
begin

lemma frames [simp]:
  "inv c \<Longrightarrow> inv (c\<lparr>cl_status := a\<rparr>)" "inv c \<Longrightarrow> inv (c\<lparr>cl_roomList := a\<rparr>)" "inv c \<Longrightarrow> inv (c\<lparr>joins := j\<rparr>)"
  "inv c \<Longrightarrow> inv (c\<lparr>hasStarted := s\<rparr>)" "inv c \<Longrightarrow> inv (c\<lparr>cl_roomList := a, groups_made := n\<rparr>)" "inv c \<Longrightarrow> inv (fail_group g c)"
  by (erule frame; simp add: fail_group_def)+

lemma go_on_inv [simp]: "inv c \<Longrightarrow> inv (go_on g rest c)"
  by (simp add: go_on_def readies)

lemma fold_inv: "(\<And>x c. inv c \<Longrightarrow> inv (f x c)) \<Longrightarrow> inv c \<Longrightarrow> inv (fold f xs c)"
  by (induction xs arbitrary: c) auto

lemma observe_rooms_inv: "inv c \<Longrightarrow> inv (observe_rooms rs g c)"
  unfolding observe_rooms_def by (rule fold_inv) (simp_all add: runs)

lemma room_list_inv: "inv c \<Longrightarrow> inv (observeRoomList_reply i initial rest c)"
  unfolding observeRoomList_reply_def Let_def
  by (intro frames(3) observe_rooms_inv registers emits frames(5)) auto

lemma room_info_inv:
  assumes "inv c" and "tasks c = xs @ t # ys" and "progress t = Waiting (CallRoomInfo r) rest" and "i \<noteq> MAX_SAFE_INTEGER"
    and "observeRoomInfo_reply enc r i initial (c\<lparr>tasks := xs @ ys\<rparr>) = (c', ok)"
  shows "inv c'"
proof -
  have "inv (set_info r (Some i) (c\<lparr>tasks := xs @ ys\<rparr>))" using gets_info assms(1-4) .
  then show ?thesis
    using assms(5)
    by (auto simp: observeRoomInfo_reply_def Let_def runs emits registers split: sum.splits if_splits)
qed

lemma resume_inv:
  assumes "inv c" and "tasks c = xs @ t # ys" and "progress t = Waiting call rest" and "fits call rep" and "new_id rep c"
    and "resume enc call rep (c\<lparr>tasks := xs @ ys\<rparr>) = (c', ok)"
  shows "inv c'"
proof -
  have c0: "inv (c\<lparr>tasks := xs @ ys\<rparr>)" using takes assms(1,2) .
  show ?thesis
  proof (cases call)
    case (CallRoomInfo r)
    then obtain i initial where "rep = RoomInfo i initial" using assms(4) by (cases rep) auto
    moreover have "i \<noteq> MAX_SAFE_INTEGER" using assms(5) calculation by (simp add: new_id_def reply_id_def)
    ultimately show ?thesis using CallRoomInfo assms(3,6) room_info_inv [OF assms(1,2)] by simp
  next
    case (CallTimeline r)
    then obtain i initial where r: "rep = Timeline i initial" using assms(4) by (cases rep) auto
    have "inv (observe i (OnTimeline r) (emit (TimelineEventUpdate r us) (set_timeline r (Some i) (c\<lparr>tasks := xs @ ys\<rparr>))))" for us
      by (rule gets_timeline [OF assms(1,2)]) (use CallTimeline assms(3,5) r in \<open>auto simp: new_id_def reply_id_def\<close>)
    then show ?thesis using CallTimeline assms(6) r by auto
  next
    case (CallCancel i)
    then show ?thesis using assms(6) forgets [OF c0, of i] by auto
  qed (use assms(4,6) c0 in \<open>auto simp: sync_event_def runs emits registers Let_def split: reply.splits if_splits\<close>)
qed

lemma settle_inv:
  assumes "inv c" and "tasks c = xs @ t # ys" and "progress t = Waiting call rest" and "fits call rep" and "new_id rep c"
  shows "inv (settle enc g call rest rep (c\<lparr>tasks := xs @ ys\<rparr>))"
  using resume_inv [OF assms] by (auto simp: settle_def split: prod.splits)

lemma reply_inv:
  assumes "inv c" and "tasks c = xs @ t # ys" and "progress t = Waiting call rest"
    and "case result of Inl _ \<Rightarrow> True | Inr rep \<Rightarrow> fits call rep \<and> new_id rep c"
  shows "inv (handle_reply enc g call rest result (c\<lparr>tasks := xs @ ys\<rparr>))"
proof -
  have c0: "inv (c\<lparr>tasks := xs @ ys\<rparr>)" using takes assms(1,2) .
  show ?thesis
  proof (cases result)
    case (Inr rep)
    then have s: "inv (settle enc g call rest rep (c\<lparr>tasks := xs @ ys\<rparr>))"
      using settle_inv assms by simp
    show ?thesis
      using c0 s Inr by (cases rep; cases call) (simp_all add: handle_reply_def room_list_inv)
  qed (use c0 in \<open>simp add: handle_reply_def\<close>)
qed

lemma handler_inv: "inv c \<Longrightarrow> map_of (observers c) i = Some h \<Longrightarrow> inv (run_handler enc i h u c)"
proof (cases h)
  case OnRoomList
  assume c: "inv c" "map_of (observers c) i = Some h"
  have "inv (fold observe_new_room rs (emit (RoomListEvent vs) c))" for rs vs
    by (rule fold_inv) (use c in \<open>auto simp: observe_new_room_def runs emits\<close>)
  then show ?thesis using c OnRoomList by (auto split: observable_update.splits sum.splits)
qed (auto simp: sync_event_def runs emits emits_update split: observable_update.splits sum.splits pagination_status.splits)

lemma method_inv: "inv c \<Longrightarrow> inv (call_method m c)"
  by (cases m) (auto simp: runs start_def observeRoom_def unobserveRoom_def refetchRoomList_def refreshSyncStatus_def
      split: option.splits intro!: leaves_timeline)

lemma step_inv:
  assumes "inv c" and "client_step enc e c c'"
  shows "inv c'"
  using assms(2)
proof (cases rule: client_step.cases)
  case (called m)
  then show ?thesis using assms(1) by (simp add: method_inv)
next
  case (reply xs t ys call rest result)
  then show ?thesis using assms(1) reply_inv by blast
next
  case (continue xs t ys ops)
  then show ?thesis using takes [OF assms(1)] by (simp add: runs)
next
  case (joined g ops)
  then show ?thesis using assms(1) by simp
next
  case (update i u)
  then show ?thesis using assms(1) by (auto simp: handleObservableUpdate_def runs handler_inv split: option.splits)
qed

lemma reaches_inv: "client_reaches enc c d \<Longrightarrow> inv c \<Longrightarrow> inv d"
  by (induction rule: client_reaches.induct) (auto intro: step_inv)

end

lemma waiting_task:
  "tasks c = xs @ t # ys \<Longrightarrow>
     waiting call c = waiting call (c\<lparr>tasks := xs @ ys\<rparr>) + (if waits_for call (progress t) then 1 else 0)"
  by (simp add: waiting_def)

lemma once_same:
  "once c \<Longrightarrow> (\<And>call. waiting call c' = waiting call c) \<Longrightarrow> (\<And>call. slot call c' = slot call c) \<Longrightarrow> once c'"
  by (simp add: once_def)

lemma once_run: "once c \<Longrightarrow> once (run g ops c)"
proof (cases ops)
  case (Cons op rest)
  assume c: "once c"
  have free: "waiting call c = 0" if "room_call call" "slot call c = None" for call
    using c that unfolding once_def by (metis One_nat_def le_Suc_eq le_zero_eq option.distinct(1))
  show ?thesis
    using c free [of "CallRoomInfo r" for r] free [of "CallTimeline r" for r] Cons
    by (cases op) (auto simp: run_def once_def client_simps)
qed (simp add: run_def)

lemma once_takes: "once c \<Longrightarrow> tasks c = xs @ t # ys \<Longrightarrow> once (c\<lparr>tasks := xs @ ys\<rparr>)"
  using waiting_task [of c xs t ys] by (auto simp: once_def client_simps split: if_splits)

text \<open>The task of a room call taken out, nobody waits for the call any more.\<close>

lemma once_taken:
  assumes "once c" and "tasks c = xs @ t # ys" and "progress t = Waiting call rest" and "room_call call"
  shows "waiting call (c\<lparr>tasks := xs @ ys\<rparr>) = 0"
  using assms waiting_task [OF assms(2), of call] by (auto simp: once_def)

lemma once_set_slot:
  "once c \<Longrightarrow> waiting (CallRoomInfo r) c = 0 \<Longrightarrow> once (set_info r x c)"
  "once c \<Longrightarrow> waiting (CallTimeline r) c = 0 \<Longrightarrow> once (set_timeline r x c)"
  by (auto simp: once_def client_simps)

lemma once_frames:
  "once c \<Longrightarrow> once (emit e c)" "once c \<Longrightarrow> once (observe i h c)" "once c \<Longrightarrow> once (c\<lparr>observers := b\<rparr>)"
  "once c \<Longrightarrow> once (add_task g (Ready_to_run ops) c)"
  by (auto simp: once_def client_simps)

lemma once_leaves:
  assumes "once c" and "ro_timeline (room_observers_of c r) = Some i" and "i \<noteq> MAX_SAFE_INTEGER"
  shows "once (set_timeline r None c)"
proof -
  have "waiting (CallTimeline r) c \<le> 1" "waiting (CallTimeline r) c = 1 \<longrightarrow> slot (CallTimeline r) c = Some MAX_SAFE_INTEGER"
    using assms(1) [unfolded once_def, rule_format, of "CallTimeline r"] by simp_all
  then have "waiting (CallTimeline r) c = 0" using assms(2,3) by auto
  then show ?thesis using assms(1) by (simp add: once_set_slot)
qed

lemma once_frame:
  assumes "once c" and "tasks c' = tasks c" and "cl_rooms c' = cl_rooms c"
  shows "once c'"
proof (rule once_same [OF assms(1)])
  fix call
  show "waiting call c' = waiting call c" using assms(2) by (simp add: waiting_def)
  show "slot call c' = slot call c" using assms(3) by (cases call) (simp_all add: room_observers_of_def)
qed

lemma once_gets:
  assumes "once c" and "tasks c = xs @ t # ys"
  shows "progress t = Waiting (CallRoomInfo r) rest \<Longrightarrow> once (set_info r x (c\<lparr>tasks := xs @ ys\<rparr>))"
    and "progress t = Waiting (CallTimeline r) rest \<Longrightarrow> once (set_timeline r x (c\<lparr>tasks := xs @ ys\<rparr>))"
  by (rule once_set_slot [OF once_takes [OF assms]]; rule once_taken [OF assms]; simp)+

interpretation once: client_invariant once
proof (unfold_locales, goal_cases)
  case (1 c c')
  then show ?case using once_frame by blast
next
  case (8 c xs t ys r rest i)
  then show ?case by (blast intro: once_gets)
next
  case (10 c xs t ys r rest i us)
  then show ?case by (blast intro: once_gets once_frames)
next
  case (11 c r i)
  then show ?case by (rule once_leaves)
qed (simp_all add: once_frames once_run once_takes)

definition timeline_of_event :: "string \<Rightarrow> client_event \<Rightarrow> bool" where
  "timeline_of_event r e = (case e of TimelineEventUpdate r' _ \<Rightarrow> r' = r | _ \<Rightarrow> False)"

text \<open>An observation of a timeline that failed: the fake id, no call, no handler, and no update since.\<close>

definition dead_timeline :: "string \<Rightarrow> client_event list \<Rightarrow> client \<Rightarrow> bool" where
  "dead_timeline r evs c =
     (once c \<and> waiting (CallTimeline r) c = 0 \<and> ro_timeline (room_observers_of c r) = Some MAX_SAFE_INTEGER \<and>
      (\<forall>i. map_of (observers c) i \<noteq> Some (OnTimeline r)) \<and> filter (timeline_of_event r) (events c) = evs)"

lemma dead_run:
  assumes "dead_timeline r evs c"
  shows "dead_timeline r evs (run g ops c)"
proof (cases ops)
  case (Cons op rest)
  have "once (run g ops c)" using assms by (simp add: dead_timeline_def once_run)
  moreover have "waiting (CallTimeline r) (run g ops c) = 0 \<and>
      ro_timeline (room_observers_of (run g ops c) r) = Some MAX_SAFE_INTEGER \<and>
      observers (run g ops c) = observers c \<and> events (run g ops c) = events c"
    using assms Cons
    by (cases op) (auto simp: dead_timeline_def run_def client_simps, auto simp: add_task_def set_info_def
        set_timeline_def room_observers_of_def split: option.splits)
  ultimately show ?thesis using assms by (simp add: dead_timeline_def)
qed (use assms in \<open>simp add: run_def\<close>)

lemma dead_frame:
  assumes "dead_timeline r evs c" and "once c'" and "tasks c' = tasks c" and "cl_rooms c' = cl_rooms c"
    and "\<And>i. map_of (observers c') i = Some (OnTimeline r) \<Longrightarrow> map_of (observers c) i = Some (OnTimeline r)"
    and "filter (timeline_of_event r) (events c') = filter (timeline_of_event r) (events c)"
  shows "dead_timeline r evs c'"
  using assms by (auto simp: dead_timeline_def waiting_def room_observers_of_def)

interpretation dead: client_invariant "dead_timeline r evs" for r evs
proof (unfold_locales, goal_cases)
  case (1 c c')
  then show ?case using once_frame by (intro dead_frame [of r evs c c']) (auto simp: dead_timeline_def)
next
  case (2 c e)
  then have "\<not> timeline_of_event r e" by (auto simp: timeline_of_event_def split: client_event.splits)
  with 2 show ?case
    by (intro dead_frame [of r evs c "emit e c"]) (auto simp: dead_timeline_def once_frames emit_def intro: once_frame)
next
  case (3 c i r' us)
  then have "\<not> timeline_of_event r (TimelineEventUpdate r' us)" by (auto simp: dead_timeline_def timeline_of_event_def)
  with 3 show ?case
    by (intro dead_frame [of r evs c "emit (TimelineEventUpdate r' us) c"])
      (auto simp: dead_timeline_def emit_def intro: once_frame)
next
  case (4 c i)
  then show ?case
    by (intro dead_frame [of r evs c "c\<lparr>observers := AList.delete i (observers c)\<rparr>"])
      (auto simp: dead_timeline_def delete_conv' split: if_splits intro: once_frame)
next
  case (5 c g ops)
  then show ?case by (rule dead_run)
next
  case (6 c g ops)
  then show ?case by (auto simp: dead_timeline_def client_simps once_frames, simp_all add: add_task_def room_observers_of_def)
next
  case (7 c xs t ys)
  then show ?case using waiting_task [OF 7(2), of "CallTimeline r"]
    by (auto simp: dead_timeline_def once_takes, simp_all add: room_observers_of_def)
next
  case (8 c xs t ys r' rest i)
  then have "once (set_info r' (Some i) (c\<lparr>tasks := xs @ ys\<rparr>))" using once_gets(1) by (simp add: dead_timeline_def)
  moreover have "room_observers_of (set_info r' (Some i) (c\<lparr>tasks := xs @ ys\<rparr>)) r =
      (if r = r' then (room_observers_of c r)\<lparr>ro_info := Some i\<rparr> else room_observers_of c r)"
    by (simp add: client_simps) (simp add: room_observers_of_def)
  ultimately show ?case using 8 waiting_task [OF 8(2), of "CallTimeline r"]
    by (auto simp: dead_timeline_def client_simps, simp_all add: set_info_def)
next
  case (9 c h i)
  then show ?case
    by (intro dead_frame [of r evs c "observe i h c"])
      (auto simp: dead_timeline_def observe_def update_conv' split: if_splits intro: once_frame)
next
  case (10 c xs t ys r' rest i us)
  then have other: "r' \<noteq> r" using waiting_task [OF 10(2), of "CallTimeline r"] by (auto simp: dead_timeline_def)
  let ?c = "set_timeline r' (Some i) (c\<lparr>tasks := xs @ ys\<rparr>)"
  have "once (observe i (OnTimeline r') (emit (TimelineEventUpdate r' us) ?c))"
    using 10 once_gets(2) [of c xs t ys r' rest "Some i"] by (simp add: dead_timeline_def once_frames)
  moreover have "room_observers_of ?c r = room_observers_of c r"
    using other by (simp add: client_simps) (simp add: room_observers_of_def)
  ultimately show ?case
    using 10 other waiting_task [OF 10(2), of "CallTimeline r"]
    by (simp add: dead_timeline_def client_simps)
      (auto simp: set_timeline_def emit_def observe_def timeline_of_event_def update_conv' room_observers_of_def split: if_splits)
next
  case (11 c r' i)
  then have "r' \<noteq> r" by (auto simp: dead_timeline_def)
  moreover have "once (set_timeline r' None c)" using 11 once_leaves by (simp add: dead_timeline_def)
  ultimately show ?case using 11 by (simp add: dead_timeline_def client_simps) (simp add: set_timeline_def)
qed

lemma once_initial: "once initialClient"
  by (simp add: once_def waiting_def initialClient_def)

section \<open>Properties\<close>

text \<open>
  C15: whatever methods are called and in whatever order replies and updates arrive, there is at most one
  call in flight that observes the info of a room and at most one that observes its timeline, and the
  fake id stands in the room's slot while there is one.
\<close>

theorem room_observed_once:
  assumes "client_reaches enc initialClient c" and "call = CallRoomInfo r \<or> call = CallTimeline r"
  shows "waiting call c \<le> 1 \<and> (waiting call c = 1 \<longrightarrow> slot call c = Some MAX_SAFE_INTEGER)"
proof -
  have "room_call call" using assms(2) by auto
  then show ?thesis using once.reaches_inv [OF assms(1) once_initial] unfolding once_def by blast
qed

theorem room_observed_once_witness:
  "waiting (CallTimeline ''!r'') (call_method (ObserveRoom ''!r'') (call_method (ObserveRoom ''!r'') initialClient)) \<le> 1"
proof -
  have "client_reaches id initialClient (call_method (ObserveRoom ''!r'') (call_method (ObserveRoom ''!r'') initialClient))"
    by (intro further [OF further [OF here called] called])
  from room_observed_once [OF this disjI2 [OF refl]] show ?thesis by blast
qed

text \<open>
  When the first call that observes a room's timeline fails, the room never gets a timeline: whatever
  happens later, another observation included, the slot keeps the fake id and no timeline of the room
  is emitted.
\<close>

theorem failed_observation_is_final:
  assumes "client_reaches enc initialClient c"
    and "client_step enc (Reply (CallTimeline r) (Inl e)) c d"
    and "\<forall>i. map_of (observers d) i \<noteq> Some (OnTimeline r)"
    and "client_reaches enc d d'"
  shows "ro_timeline (room_observers_of d' r) = Some MAX_SAFE_INTEGER \<and> waiting (CallTimeline r) d' = 0 \<and>
    filter (timeline_of_event r) (events d') = filter (timeline_of_event r) (events d)"
proof -
  have once: "once c" using once.reaches_inv [OF assms(1) once_initial] .
  obtain xs t ys rest where t: "tasks c = xs @ t # ys" "progress t = Waiting (CallTimeline r) rest"
    and d: "d = handle_reply enc (group t) (CallTimeline r) rest (Inl e) (c\<lparr>tasks := xs @ ys\<rparr>)"
    using assms(2) by (auto elim: client_stepE)
  have zero: "waiting (CallTimeline r) (c\<lparr>tasks := xs @ ys\<rparr>) = 0" using once_taken [OF once t] by simp
  have "waiting (CallTimeline r) c = 1" using zero waiting_task [OF t(1), of "CallTimeline r"] t(2) by simp
  then have "slot (CallTimeline r) c = Some MAX_SAFE_INTEGER"
    using once [unfolded once_def, rule_format, of "CallTimeline r"] by simp
  then have "dead_timeline r (filter (timeline_of_event r) (events d)) d"
    using assms(3) zero once.step_inv [OF once assms(2)]
    by (simp add: dead_timeline_def d handle_reply_def client_simps) (simp add: fail_group_def room_observers_of_def)
  from dead.reaches_inv [OF assms(4) this] show ?thesis by (simp add: dead_timeline_def)
qed

section \<open>The slice that follows the events\<close>

text \<open>The actions the listeners of \<open>startMatrixClient\<close> dispatch, and the rooms they join.\<close>

fun event_actions :: "client_event \<Rightarrow> matrix_state \<Rightarrow> matrix_action list" where
  "event_actions (AuthEvent a) s = [SetAuth (Some a)]"
| "event_actions (StatusEvent st) s = (if st = mx_status s then [] else [SetStatus st])"
| "event_actions (RoomListEvent us) s = [RoomListUpdates us]"
| "event_actions (RoomInfoEvent room) s = [AddRoomInfo room]"
| "event_actions (RoomMembersEvent r ms) s = [SetRoomMembers r ms]"
| "event_actions (TimelineEventUpdate r us) s = [TimelineUpdates r us]"
| "event_actions (PowerLevelsEvent r pl) s = [SetPowerLevels r pl]"
| "event_actions (NotificationModeEvent r m) s = [SetNotificationMode r m]"
| "event_actions (StartResolved a) s = [StartFulfilled a]"
| "event_actions (PaginationResolved b) s = []"

definition invited_room :: "client_event \<Rightarrow> string option" where
  "invited_room e = (case e of
     RoomInfoEvent room \<Rightarrow> if room_state_of room = Invited then Some (room_id room) else None | _ \<Rightarrow> None)"

definition apply_event :: "(string \<Rightarrow> string) \<Rightarrow> client_event \<Rightarrow> matrix_state \<Rightarrow> matrix_state" where
  "apply_event enc e s = fold (matrixReducer enc) (event_actions e s) s"

definition store_of :: "(string \<Rightarrow> string) \<Rightarrow> client \<Rightarrow> matrix_state" where
  "store_of enc c = fold (apply_event enc) (events c) initialMatrixState"

lemma store_emit [simp]: "store_of enc (emit e c) = apply_event enc e (store_of enc c)"
  by (simp add: store_of_def emit_def)

lemma store_same [simp]:
  "store_of enc (observe i h c) = store_of enc c" "store_of enc (go_on g rest c) = store_of enc c"
  "store_of enc (set_timeline r x c) = store_of enc c" "store_of enc (c\<lparr>tasks := ts\<rparr>) = store_of enc c"
  by (simp_all add: store_of_def observe_def go_on_def add_task_def set_timeline_def)

lemma observers_same [simp]:
  "observers (emit e c) = observers c" "observers (go_on g rest c) = observers c"
  by (simp_all add: emit_def go_on_def add_task_def)

lemma timeline_of_update:
  "applyObservableUpdates (timeline_of s r) us = Inr xs \<Longrightarrow>
     timeline_of (apply_event enc (TimelineEventUpdate r us) s) r = xs"
  by (simp add: apply_event_def unless_thrown_def handleMatrixRoomTimelineObservableUpdates_def timeline_of_def)

lemma map_updates_total: "applyObservableUpdates xs us = Inr ys \<Longrightarrow> \<exists>vs. mapObservableUpdates f us = Inr vs"
proof (induction us arbitrary: xs)
  case (Cons u us)
  obtain zs where zs: "applyObservableUpdate xs u = Inr zs" "applyObservableUpdates zs us = Inr ys"
    using Cons.prems by (auto split: sum.splits)
  obtain vs where "mapObservableUpdates f us = Inr vs" using Cons.IH [OF zs(2)] by blast
  moreover have "\<exists>v. mapObservableUpdate f u = Inr v" using zs(1) by (cases u) auto
  ultimately show ?case by auto
qed simp

text \<open>The simulation: an update of the bridge's vector updates the slice's timeline in step.\<close>

lemma timeline_simulation:
  assumes "map_of (observers c) i = Some (OnTimeline r)"
    and "timeline_of (store_of enc c) r = map (\<lambda>ev. serializeTimelineItem ev r) xs"
    and "applyObservableUpdates xs us = Inr ys"
  shows "timeline_of (store_of enc (handleObservableUpdate enc i (TimelineDiff us) c)) r =
      map (\<lambda>ev. serializeTimelineItem ev r) ys"
    and "map_of (observers (handleObservableUpdate enc i (TimelineDiff us) c)) i = Some (OnTimeline r)"
proof -
  let ?f = "\<lambda>ev. serializeTimelineItem ev r"
  obtain vs where v: "mapObservableUpdates ?f us = Inr vs" using map_updates_total [OF assms(3)] by blast
  have "applyObservableUpdates (map ?f xs) vs = Inr (map ?f ys)" using map_applys [OF v, of xs] assms(3) by simp
  then show "timeline_of (store_of enc (handleObservableUpdate enc i (TimelineDiff us) c)) r = map ?f ys"
    using assms(1,2) v by (simp add: handleObservableUpdate_def timeline_of_update)
  show "map_of (observers (handleObservableUpdate enc i (TimelineDiff us) c)) i = Some (OnTimeline r)"
    using assms(1) v by (simp add: handleObservableUpdate_def)
qed

lemma timeline_simulations:
  "map_of (observers c) i = Some (OnTimeline r) \<Longrightarrow>
     timeline_of (store_of enc c) r = map (\<lambda>ev. serializeTimelineItem ev r) xs \<Longrightarrow>
     applyObservableUpdates xs (concat batches) = Inr ys \<Longrightarrow>
     timeline_of (store_of enc (fold (\<lambda>us. handleObservableUpdate enc i (TimelineDiff us)) batches c)) r =
       map (\<lambda>ev. serializeTimelineItem ev r) ys"
proof (induction batches arbitrary: c xs)
  case (Cons us batches)
  have split: "applyObservableUpdates xs (us @ ws) =
      (case applyObservableUpdates xs us of Inl e \<Rightarrow> Inl e | Inr zs \<Rightarrow> applyObservableUpdates zs ws)" for xs ws
    by (induction us arbitrary: xs) (auto split: sum.splits)
  obtain zs where zs: "applyObservableUpdates xs us = Inr zs" "applyObservableUpdates zs (concat batches) = Inr ys"
    using Cons.prems(3) by (auto simp: split split: sum.splits)
  show ?case
    using Cons.IH [OF timeline_simulation(2) [OF Cons.prems(1,2) zs(1)] timeline_simulation(1) [OF Cons.prems(1,2) zs(1)] zs(2)]
    by simp
qed simp

text \<open>
  C1: from the reply that opens the observation of a room's timeline, and through any number of
  batches of updates, the timeline of the Matrix slice is the bridge's vector with every item
  serialized in place: as long as the diffs apply to the vector, no index is off.
\<close>

theorem timeline_mirrors_bridge:
  assumes "client_step enc (Reply (CallTimeline r) (Inr (Timeline i initial))) c d"
    and "applyObservableUpdates initial (concat batches) = Inr items"
  shows "timeline_of (store_of enc (fold (\<lambda>us. handleObservableUpdate enc i (TimelineDiff us)) batches d)) r =
    map (\<lambda>item. serializeTimelineItem item r) items"
proof -
  obtain xs t ys rest where "tasks c = xs @ t # ys" "progress t = Waiting (CallTimeline r) rest"
    and d: "d = handle_reply enc (group t) (CallTimeline r) rest (Inr (Timeline i initial)) (c\<lparr>tasks := xs @ ys\<rparr>)"
    using assms(1) by (auto elim: client_stepE)
  have "map_of (observers d) i = Some (OnTimeline r)"
    by (simp add: d handle_reply_def settle_def observe_def update_conv')
  moreover have "timeline_of (store_of enc d) r = map (\<lambda>item. serializeTimelineItem item r) initial"
    by (simp add: d handle_reply_def settle_def timeline_of_update makeInitialResetUpdate_def)
  ultimately show ?thesis using assms(2) by (rule timeline_simulations)
qed

section \<open>Runs\<close>

text \<open>Steps chosen by the position of their task, to compute runs with.\<close>

definition reply_at :: "(string \<Rightarrow> string) \<Rightarrow> nat \<Rightarrow> js_error + reply \<Rightarrow> client \<Rightarrow> client" where
  "reply_at enc n result c =
     (let t = tasks c ! n; rest = c\<lparr>tasks := take n (tasks c) @ drop (Suc n) (tasks c)\<rparr>
      in case progress t of Waiting call ops \<Rightarrow> handle_reply enc (group t) call ops result rest | Ready_to_run ops \<Rightarrow> c)"

definition can_reply :: "nat \<Rightarrow> js_error + reply \<Rightarrow> client \<Rightarrow> bool" where
  "can_reply n result c =
     (n < length (tasks c) \<and>
      (case progress (tasks c ! n) of
         Waiting call ops \<Rightarrow> (case result of Inl _ \<Rightarrow> True | Inr rep \<Rightarrow> fits call rep \<and> new_id rep c)
       | Ready_to_run ops \<Rightarrow> False))"

definition continue_at :: "nat \<Rightarrow> client \<Rightarrow> client" where
  "continue_at n c =
     (let t = tasks c ! n; rest = c\<lparr>tasks := take n (tasks c) @ drop (Suc n) (tasks c)\<rparr>
      in case progress t of Ready_to_run ops \<Rightarrow> run (group t) ops rest | Waiting call ops \<Rightarrow> c)"

datatype choice = Call client_method | ReplyAt nat "js_error + reply" | ContinueAt nat | Deliver int observable_update

fun take_choice :: "(string \<Rightarrow> string) \<Rightarrow> choice \<Rightarrow> client \<Rightarrow> client" where
  "take_choice enc (Call m) c = call_method m c"
| "take_choice enc (ReplyAt n result) c = reply_at enc n result c"
| "take_choice enc (ContinueAt n) c = continue_at n c"
| "take_choice enc (Deliver i u) c = handleObservableUpdate enc i u c"

fun possible :: "choice \<Rightarrow> client \<Rightarrow> bool" where
  "possible (Call m) c = True"
| "possible (ReplyAt n result) c = can_reply n result c"
| "possible (ContinueAt n) c =
     (n < length (tasks c) \<and> (case progress (tasks c ! n) of Ready_to_run ops \<Rightarrow> True | Waiting call ops \<Rightarrow> False))"
| "possible (Deliver i u) c = True"

lemma take_choice_step: "possible ch c \<Longrightarrow> \<exists>e. client_step enc e c (take_choice enc ch c)"
proof (cases ch)
  case (ReplyAt n result)
  assume "possible ch c"
  then have n: "n < length (tasks c)" "can_reply n result c" using ReplyAt by (auto simp: can_reply_def)
  then show ?thesis
    using ReplyAt id_take_nth_drop [OF n(1)]
    by (auto simp: can_reply_def reply_at_def Let_def split: task_state.splits intro!: exI client_step.reply)
next
  case (ContinueAt n)
  assume "possible ch c"
  then have n: "n < length (tasks c)" using ContinueAt by simp
  then show ?thesis
    using ContinueAt id_take_nth_drop [OF n] \<open>possible ch c\<close>
    by (auto simp: continue_at_def Let_def split: task_state.splits intro!: exI client_step.continue)
qed (auto intro: client_step.called client_step.update)

lemma reply_at_step:
  assumes "can_reply n result c" and "progress (tasks c ! n) = Waiting call ops"
  shows "client_step enc (Reply call result) c (reply_at enc n result c)"
proof (rule client_step.reply)
  show "tasks c = take n (tasks c) @ tasks c ! n # drop (Suc n) (tasks c)"
    using assms(1) id_take_nth_drop by (auto simp: can_reply_def)
qed (use assms in \<open>simp_all add: can_reply_def reply_at_def\<close>)

lemma reaches_call: "client_reaches enc c d \<Longrightarrow> client_reaches enc c (call_method m d)"
  by (rule further [OF _ client_step.called])

fun possible_run :: "(string \<Rightarrow> string) \<Rightarrow> choice list \<Rightarrow> client \<Rightarrow> bool" where
  "possible_run enc [] c = True"
| "possible_run enc (ch # chs) c = (possible ch c \<and> possible_run enc chs (take_choice enc ch c))"

lemma run_reaches: "client_reaches enc c0 c \<Longrightarrow> possible_run enc chs c \<Longrightarrow> client_reaches enc c0 (fold (take_choice enc) chs c)"
proof (induction chs arbitrary: c)
  case (Cons ch chs)
  then have "\<exists>e. client_step enc e c (take_choice enc ch c)" using take_choice_step by simp
  then show ?case using Cons further by fastforce
qed simp

definition sample_session :: rpc_account_session where
  "sample_session = \<lparr>ses_userId = ''@me:h'', ses_deviceId = ''D'', ses_displayName = None, ses_avatarUrl = None\<rparr>"

definition no_encoding :: "string \<Rightarrow> string" where
  "no_encoding p = p"

definition started_run :: "choice list" where
  "started_run =
     [Call Start, ReplyAt 0 (Inr Done), ContinueAt 0, ReplyAt 0 (Inr (Session sample_session)), ContinueAt 1,
      ReplyAt 1 (Inr (RoomList 1 []))]"

text \<open>Two refetches of the room list that overlap, then the same new room delivered to both observers.\<close>

definition overlapping_refetches :: "choice list" where
  "overlapping_refetches =
     started_run @
     [Call RefetchRoomList, Call RefetchRoomList, ReplyAt 1 (Inr Done), ReplyAt 1 (Inr Done),
      ContinueAt 1, ContinueAt 1, ReplyAt 1 (Inr (RoomList 2 [])), ReplyAt 1 (Inr (RoomList 3 [])),
      Deliver 2 (RoomListDiff [PushBack (Filled ''!r'')]), Deliver 3 (RoomListDiff [PushBack (Filled ''!r'')])]"

text \<open>
  Two refetches of the room list that overlap leave two observers of the list, as the second one
  to finish its cancellation removes the fake id of the first; one new room then stands twice in the
  room list of the slice.
\<close>

theorem overlapping_refetches_duplicate:
  "\<exists>c. client_reaches no_encoding initialClient c \<and> cl_roomList c = Some 3 \<and>
     map_of (observers c) 2 = Some OnRoomList \<and> map_of (observers c) 3 = Some OnRoomList \<and>
     roomList (store_of no_encoding c) = [Ready ''!r'', Ready ''!r'']"
proof -
  let ?c = "fold (take_choice no_encoding) overlapping_refetches initialClient"
  have "possible_run no_encoding overlapping_refetches initialClient" by code_simp
  then have "client_reaches no_encoding initialClient ?c" by (rule run_reaches [OF here])
  moreover have "cl_roomList ?c = Some 3 \<and> map_of (observers ?c) 2 = Some OnRoomList \<and>
      map_of (observers ?c) 3 = Some OnRoomList \<and> roomList (store_of no_encoding ?c) = [Ready ''!r'', Ready ''!r'']"
    by code_simp
  ultimately show ?thesis by blast
qed

text \<open>
  An update that arrives before the reply that opens its observation is not kept: the client cancels
  the observer, and once the reply and the end of the cancellation have come, the room has an id, no
  handler, and a further observation of it does nothing.
\<close>

definition early_update :: "choice list" where
  "early_update =
     [Call (ObserveRoom ''!r''), Deliver 9 (TimelineDiff []), ReplyAt 0 (Inr (Timeline 9 [])), ReplyAt 2 (Inr Done)]"

theorem early_update_loses_timeline:
  "\<exists>c. client_reaches no_encoding initialClient c \<and> ro_timeline (room_observers_of c ''!r'') = Some 9 \<and>
     map_of (observers c) 9 = None \<and> waiting (CallTimeline ''!r'') c = 0 \<and>
     begin_operation (ObserveRoomTimeline ''!r'') c = (c, None)"
proof -
  let ?c = "fold (take_choice no_encoding) early_update initialClient"
  have "possible_run no_encoding early_update initialClient" by code_simp
  then have "client_reaches no_encoding initialClient ?c" by (rule run_reaches [OF here])
  moreover have "ro_timeline (room_observers_of ?c ''!r'') = Some 9" by code_simp
  moreover have "map_of (observers ?c) 9 = None \<and> waiting (CallTimeline ''!r'') ?c = 0" by code_simp
  moreover have "begin_operation (ObserveRoomTimeline ''!r'') ?c = (?c, None)" using calculation(2) by simp
  ultimately show ?thesis by blast
qed

definition observing :: client where
  "observing = call_method (ObserveRoom ''!r'') initialClient"

lemma observing_reached: "client_reaches enc initialClient observing"
  unfolding observing_def by (rule reaches_call [OF here])

lemma observing_reply:
  assumes "can_reply 0 result observing"
  shows "client_step no_encoding (Reply (CallTimeline ''!r'') result) observing (reply_at no_encoding 0 result observing)"
proof (rule reply_at_step [OF assms])
  show "progress (tasks observing ! 0) = Waiting (CallTimeline ''!r'') []" by code_simp
qed

theorem failed_observation_is_final_witness:
  "ro_timeline (room_observers_of (call_method (ObserveRoom ''!r'') (reply_at no_encoding 0 (Inl TypeError) observing)) ''!r'')
     = Some MAX_SAFE_INTEGER"
proof -
  let ?d = "reply_at no_encoding 0 (Inl TypeError) observing"
  have "can_reply 0 (Inl TypeError) observing" by code_simp
  then have s: "client_step no_encoding (Reply (CallTimeline ''!r'') (Inl TypeError)) observing ?d"
    by (rule observing_reply)
  have "observers ?d = []" by code_simp
  then have h: "\<forall>i. map_of (observers ?d) i \<noteq> Some (OnTimeline ''!r'')" by simp
  have "client_reaches no_encoding ?d (call_method (ObserveRoom ''!r'') ?d)" by (rule reaches_call [OF here])
  from failed_observation_is_final [OF observing_reached s h this] show ?thesis by blast
qed

definition sample_items :: "rpc_timeline_item list" where
  "sample_items = [DayDivider 1, TimelineEvent
     \<lparr>te_id = ''$1'', te_txnId = None, te_eventId = Some ''$1'', te_content = RJson [(''type'', JStr ''m.room.message'')],
      te_localEcho = False, te_timestamp = 5, te_sender = ''@a:h'', te_sendState = None\<rparr>]"

theorem timeline_mirrors_bridge_witness:
  "timeline_of (store_of no_encoding (fold (\<lambda>us. handleObservableUpdate no_encoding 9 (TimelineDiff us)) [[PopFront], [PushBack ReadMarker]]
      (reply_at no_encoding 0 (Inr (Timeline 9 sample_items)) observing))) ''!r'' =
     map (\<lambda>item. serializeTimelineItem item ''!r'') (tl sample_items @ [ReadMarker])"
proof -
  have "can_reply 0 (Inr (Timeline 9 sample_items)) observing" by code_simp
  then have "client_step no_encoding (Reply (CallTimeline ''!r'') (Inr (Timeline 9 sample_items))) observing
      (reply_at no_encoding 0 (Inr (Timeline 9 sample_items)) observing)"
    by (rule observing_reply)
  then show ?thesis
    by (rule timeline_mirrors_bridge) (simp add: sample_items_def)
qed

end
