(* ===== verification/JsPrint.thy ===== *)
theory JsPrint
  imports JsParse
begin

text \<open>
  The text of a number, \<open>String(x)\<close>: the shortest decimal that reads back as the same double, in the
  layout of ECMAScript's Number::toString (digits, a decimal point, or an exponent); and the number at
  the start of a text, \<open>parseInt(s, 10)\<close> and \<open>parseFloat(s)\<close>.
\<close>

section \<open>Shortest digits\<close>

text \<open>The \<open>n\<close> with \<open>10^(n-1) \<le> x < 10^n\<close> of a positive double; 400 steps reach every one.\<close>

fun decimal_exponent :: "nat \<Rightarrow> rat \<Rightarrow> int" where
  "decimal_exponent k x =
     (if 1 \<le> x \<or> k = 0 then int (length (nat_digits (nat \<lfloor>x\<rfloor>))) else decimal_exponent (k - 1) (10 * x) - 1)"

declare decimal_exponent.simps [simp del]

text \<open>The significand of \<open>k\<close> digits nearest to \<open>x\<close>, from the first length whose value rounds to \<open>x\<close>; 17 digits always do.\<close>

definition significand :: "rat \<Rightarrow> int \<Rightarrow> nat \<Rightarrow> int" where
  "significand x n k = \<lfloor>x / 10 powi (n - int k) + 1 / 2\<rfloor>"

fun shortest :: "rat \<Rightarrow> int \<Rightarrow> nat list \<Rightarrow> nat \<times> int" where
  "shortest x n [] = (nat (significand x n 17), n - 17)"
| "shortest x n (j # js) =
     (if rnd (of_int (significand x n j) * 10 powi (n - int j)) = Fin x
      then (nat (significand x n j), n - int j) else shortest x n js)"

definition shortest_digits :: "rat \<Rightarrow> string \<times> int" where
  "shortest_digits x =
     (let n = decimal_exponent 400 x;
          (s, e) = shortest x n [1..<18];
          digits = rev (dropWhile (\<lambda>c. c = CHR ''0'') (rev (nat_digits s)))
      in (digits, e + int (length (nat_digits s))))"

section \<open>Layout\<close>

definition layout :: "string \<Rightarrow> int \<Rightarrow> string" where
  "layout digits n =
     (let k = int (length digits);
          exponent_text = (if 0 < n then ''e+'' else ''e-'') @ nat_digits (nat \<bar>n - 1\<bar>)
      in if k \<le> n \<and> n \<le> 21 then digits @ replicate (nat (n - k)) CHR ''0''
         else if 0 < n \<and> n \<le> 21 then take (nat n) digits @ ''.'' @ drop (nat n) digits
         else if - 6 < n \<and> n \<le> 0 then ''0.'' @ replicate (nat (- n)) CHR ''0'' @ digits
         else if k = 1 then digits @ exponent_text
         else take 1 digits @ ''.'' @ drop 1 digits @ exponent_text)"

fun number_to_string :: "jsnum \<Rightarrow> string" where
  "number_to_string NaN = ''NaN''"
| "number_to_string PInf = ''Infinity''"
| "number_to_string NInf = ''-Infinity''"
| "number_to_string (Fin x) =
     (if x = 0 then ''0''
      else let (digits, n) = shortest_digits \<bar>x\<bar> in (if x < 0 then ''-'' else []) @ layout digits n)"

section \<open>The number at the start of a text\<close>

text \<open>The rest after a sign, and whether it was a minus.\<close>

definition after_sign :: "string \<Rightarrow> bool \<times> string" where
  "after_sign s =
     (case s of
        c # r \<Rightarrow> if c = CHR ''-'' then (True, r) else if c = CHR ''+'' then (False, r) else (False, s)
      | [] \<Rightarrow> (False, []))"

definition js_parse_int :: "string \<Rightarrow> jsnum" where
  "js_parse_int s =
     (let (neg, r) = after_sign (js_trim_start s); ds = takeWhile is_digit_char r
      in if ds = [] then NaN
         else rnd (if neg then - of_nat (digits_value ds) else of_nat (digits_value ds)))"

text \<open>The longest prefix that is a decimal literal: digits, a fraction, and an exponent when it is complete.\<close>

definition decimal_prefix :: "string \<Rightarrow> string" where
  "decimal_prefix s =
     (let whole = takeWhile is_digit_char s;
          r = dropWhile is_digit_char s;
          frac = (case r of c # q \<Rightarrow> if c = CHR ''.'' then c # takeWhile is_digit_char q else [] | [] \<Rightarrow> []);
          r = drop (length frac) r;
          ex = (case r of
                  c # q \<Rightarrow>
                    if c = CHR ''e'' \<or> c = CHR ''E''
                    then let q' = snd (after_sign q); ds = takeWhile is_digit_char q'
                         in if ds = [] then [] else c # take (length q - length q') q @ ds
                    else []
                | [] \<Rightarrow> [])
      in if whole = [] \<and> length frac \<le> 1 then [] else whole @ frac @ ex)"

definition js_parse_float :: "string \<Rightarrow> jsnum" where
  "js_parse_float s =
     (let (neg, r) = after_sign (js_trim_start s)
      in if prefix ''Infinity'' r then (if neg then NInf else PInf)
         else case unsigned_decimal (decimal_prefix r) of
                None \<Rightarrow> NaN
              | Some x \<Rightarrow> rnd (if neg then - x else x))"

text \<open>\<open>s.replace(p, q)\<close> with a global pattern that matches the text \<open>p\<close>: every occurrence;
  the empty pattern and replacement change nothing.\<close>

fun replace_all :: "nat \<Rightarrow> string \<Rightarrow> string \<Rightarrow> string \<Rightarrow> string" where
  "replace_all skip p q [] = []"
| "replace_all skip p q (c # s) =
     (if 0 < skip then replace_all (skip - 1) p q s
      else if p \<noteq> [] \<and> prefix p (c # s) then q @ replace_all (length p - 1) p q s
      else c # replace_all 0 p q s)"

definition js_replace_all :: "string \<Rightarrow> string \<Rightarrow> string \<Rightarrow> string" where
  "js_replace_all s p q = replace_all 0 p q s"

lemma js_replace_all_char: "js_replace_all s [c] [] = filter (\<lambda>x. x \<noteq> c) s"
proof -
  have "replace_all 0 [c] [] s = filter (\<lambda>x. x \<noteq> c) s" by (induction s) auto
  then show ?thesis by (simp add: js_replace_all_def)
qed

end
