(* ===== verification/Wallet.thy ===== *)
theory Wallet
  imports Currency AmountUtils FederationState
begin

text \<open>
  The wallet slice of \<open>ui/common/redux/wallet.ts\<close> and the exchange rates of \<open>ui/common/redux/currency.ts\<close>:
  the account of the stability pool of each federation, what is deposited and withdrawn, and the
  balances the screens show. Amounts are doubles, as in the code. The configuration of the pool is the
  one \<open>selectFederationStabilityPoolConfig\<close> finds; the bridge and its events are arguments.
\<close>

section \<open>State\<close>

record locked_seek =
  ls_initialAmount :: jsnum
  ls_initialAmountCents :: jsnum
  ls_withdrawnAmount :: jsnum
  ls_withdrawnAmountCents :: jsnum
  ls_feesPaidSoFar :: jsnum

record account_info =
  idleBalance :: jsnum
  stagedSeeks :: "jsnum list"
  stagedCancellation :: "jsnum option"
  lockedSeeks :: "locked_seek list"

record pool_config =
  min_allowed_seek :: jsnum
  max_allowed_provide_fee_rate_ppb :: "jsnum option"
  min_allowed_cancellation_bps :: "jsnum option"
  cycle_seconds :: jsnum

record fed_wallet =
  stabilityPoolAccountInfo :: "account_info option"
  cycleStartPrice :: "jsnum option"
  averageFeeRate :: "jsnum option"

type_synonym wallet_state = "fed_wallet jsobj"

definition initialFederationWalletState :: fed_wallet where
  "initialFederationWalletState = \<lparr>stabilityPoolAccountInfo = None, cycleStartPrice = None, averageFeeRate = None\<rparr>"

definition initialWalletState :: wallet_state where
  "initialWalletState = []"

definition getFederationWalletState :: "wallet_state \<Rightarrow> string \<Rightarrow> fed_wallet" where
  "getFederationWalletState state federationId =
     (case obj_get state federationId of None \<Rightarrow> initialFederationWalletState | Some w \<Rightarrow> w)"

section \<open>Reducers\<close>

definition setStabilityPoolAccountInfo :: "string \<Rightarrow> account_info \<Rightarrow> wallet_state \<Rightarrow> wallet_state" where
  "setStabilityPoolAccountInfo federationId info state =
     obj_set federationId ((getFederationWalletState state federationId)\<lparr>stabilityPoolAccountInfo := Some info\<rparr>) state"

definition resetFederationWalletState :: "string \<Rightarrow> wallet_state \<Rightarrow> wallet_state" where
  "resetFederationWalletState federationId state = obj_set federationId initialFederationWalletState state"

definition resetWalletState :: "wallet_state \<Rightarrow> wallet_state" where
  "resetWalletState state = initialWalletState"

text \<open>
  \<open>fetchStabilityPoolAccountInfo.fulfilled\<close> spreads the fields of the account into the state of the
  federation instead of setting its account, so it writes properties the state does not have; what
  the state declares stays as the thunk's own \<open>setStabilityPoolAccountInfo\<close> left it.
\<close>

definition fetchAccountInfoFulfilled :: "string \<Rightarrow> account_info \<Rightarrow> wallet_state \<Rightarrow> wallet_state" where
  "fetchAccountInfoFulfilled federationId info state =
     obj_set federationId (getFederationWalletState state federationId) state"

definition fetchAverageFeeRateFulfilled :: "string \<Rightarrow> jsnum \<Rightarrow> wallet_state \<Rightarrow> wallet_state" where
  "fetchAverageFeeRateFulfilled federationId rate state =
     obj_set federationId ((getFederationWalletState state federationId)\<lparr>averageFeeRate := Some rate\<rparr>) state"

definition fetchCycleStartPriceFulfilled :: "string \<Rightarrow> jsnum \<Rightarrow> wallet_state \<Rightarrow> wallet_state" where
  "fetchCycleStartPriceFulfilled federationId price state =
     obj_set federationId ((getFederationWalletState state federationId)\<lparr>cycleStartPrice := Some price\<rparr>) state"

datatype wallet_action =
    SetAccountInfo string account_info
  | ResetFederationWallet string
  | ResetWallet
  | FetchAccountInfoFulfilled string account_info
  | FetchAverageFeeRateFulfilled string jsnum
  | FetchCycleStartPriceFulfilled string jsnum

fun walletReducer :: "wallet_action \<Rightarrow> wallet_state \<Rightarrow> wallet_state" where
  "walletReducer (SetAccountInfo f i) s = setStabilityPoolAccountInfo f i s"
| "walletReducer (ResetFederationWallet f) s = resetFederationWalletState f s"
| "walletReducer ResetWallet s = resetWalletState s"
| "walletReducer (FetchAccountInfoFulfilled f i) s = fetchAccountInfoFulfilled f i s"
| "walletReducer (FetchAverageFeeRateFulfilled f r) s = fetchAverageFeeRateFulfilled f r s"
| "walletReducer (FetchCycleStartPriceFulfilled f p) s = fetchCycleStartPriceFulfilled f p s"

section \<open>Thunks that fetch\<close>

definition fetchStabilityPoolAccountInfo ::
  "string \<Rightarrow> js_error + account_info \<Rightarrow> wallet_state \<Rightarrow> wallet_state \<times> (js_error + account_info)"
where
  "fetchStabilityPoolAccountInfo federationId accountInfo s =
     (case accountInfo of
        Inl e \<Rightarrow> (s, Inl e)
      | Inr i \<Rightarrow> (fetchAccountInfoFulfilled federationId i (setStabilityPoolAccountInfo federationId i s), Inr i))"

definition fetchStabilityPoolCycleStartPrice :: "js_error + jsnum \<Rightarrow> js_error + jsnum" where
  "fetchStabilityPoolCycleStartPrice priceCents = map_sum id (\<lambda>c. js_div c (FinI 100)) priceCents"

definition fetchStabilityPoolAverageFeeRate :: "js_error + jsnum \<Rightarrow> js_error + jsnum" where
  "fetchStabilityPoolAverageFeeRate feeRate = feeRate"

text \<open>
  The prices and rates are fetched without waiting; only the account's error is the thunk's. The
  replies are taken in the order price, fee rate, account.
\<close>

definition refreshActiveStabilityPool ::
  "'r federation_state \<Rightarrow> js_error + jsnum \<Rightarrow> js_error + jsnum \<Rightarrow> js_error + account_info \<Rightarrow> wallet_state \<Rightarrow>
   wallet_state \<times> (js_error + unit)"
where
  "refreshActiveStabilityPool fs priceCents feeRate accountInfo s =
     (case activeFederationId fs of
        None \<Rightarrow> (s, Inl (Error ''errors.unknown-error''))
      | Some i \<Rightarrow>
          if i = [] then (s, Inl (Error ''errors.unknown-error''))
          else let s1 = (case fetchStabilityPoolCycleStartPrice priceCents of
                           Inl e \<Rightarrow> s | Inr p \<Rightarrow> fetchCycleStartPriceFulfilled i p s);
                   s2 = (case fetchStabilityPoolAverageFeeRate feeRate of Inl e \<Rightarrow> s1 | Inr r \<Rightarrow> fetchAverageFeeRateFulfilled i r s1)
               in (case fetchStabilityPoolAccountInfo i accountInfo s2 of
                     (s3, Inl e) \<Rightarrow> (s3, Inl e) | (s3, Inr _) \<Rightarrow> (s3, Inr ())))"

section \<open>Exchange rates\<close>

text \<open>The wallet of a federation, the active one when none is named.\<close>

definition selectFederationWalletState ::
  "'r federation_state \<Rightarrow> wallet_state \<Rightarrow> string option \<Rightarrow> fed_wallet"
where
  "selectFederationWalletState fs w federationId =
     getFederationWalletState w
       (case (if truthy_str federationId then federationId else selectActiveFederationId fs) of
          None \<Rightarrow> [] | Some i \<Rightarrow> i)"

definition selectStabilityPoolCycleStartPrice ::
  "'r federation_state \<Rightarrow> wallet_state \<Rightarrow> string option \<Rightarrow> jsnum option"
where
  "selectStabilityPoolCycleStartPrice fs w federationId =
     (let i = (if truthy_str federationId then federationId else selectActiveFederationId fs)
      in if truthy_str i then cycleStartPrice (selectFederationWalletState fs w i) else None)"

definition selectStabilityPoolAverageFeeRate ::
  "'r federation_state \<Rightarrow> wallet_state \<Rightarrow> string option \<Rightarrow> jsnum option"
where
  "selectStabilityPoolAverageFeeRate fs w federationId =
     (let i = (if truthy_str federationId then federationId else selectActiveFederationId fs)
      in if truthy_str i then averageFeeRate (selectFederationWalletState fs w i) else None)"

definition selectCurrency :: "'r federation_state \<Rightarrow> currency_state \<Rightarrow> string" where
  "selectCurrency fs cs =
     (if truthy_str (selectedFiatCurrency cs) then the (selectedFiatCurrency cs)
      else the (or_str (getFederationDefaultCurrency (selectFederationMetadata fs)) (Some ''USD'')))"

definition or_number :: "jsnum option \<Rightarrow> jsnum \<Rightarrow> jsnum" where
  "or_number a b = (case a of None \<Rightarrow> b | Some x \<Rightarrow> js_or x b)"

definition selectBtcUsdExchangeRate ::
  "'r federation_state \<Rightarrow> wallet_state \<Rightarrow> currency_state \<Rightarrow> string option \<Rightarrow> jsnum"
where
  "selectBtcUsdExchangeRate fs w cs federationId =
     or_number (selectStabilityPoolCycleStartPrice fs w federationId) (js_or (btcUsdRate cs) (Fin 0))"

text \<open>The double nearest to 0.0016.\<close>

definition CFA_RATE :: jsnum where
  "CFA_RATE = rnd (16 / 10000)"

text \<open>
  A rate the federation fixes for its default currency comes first; a rate that is not known is 0, and
  the price of bitcoin is divided by it.
\<close>

definition selectBtcExchangeRate :: "'r federation_state \<Rightarrow> wallet_state \<Rightarrow> currency_state \<Rightarrow> jsnum" where
  "selectBtcExchangeRate fs w cs =
     (let currency = selectCurrency fs cs;
          metadata = selectFederationMetadata fs;
          usd = selectBtcUsdExchangeRate fs w cs None;
          known = or_number (Option.bind (obj_get (fiatUsdRates cs) currency) id) (Fin 0);
          fixed = (if getFederationDefaultCurrency metadata = Some currency \<and> currency \<noteq> []
                   then or_number (getFederationFixedExchangeRate metadata) (Fin 0) else Fin 0)
      in if js_truthy fixed then fixed
         else let rate = (if currency = ''CFA'' \<and> \<not> js_truthy known then CFA_RATE else known)
              in if currency = ''USD'' then usd else js_div usd rate)"

section \<open>Balances\<close>

definition sum_numbers :: "('a \<Rightarrow> jsnum) \<Rightarrow> 'a list \<Rightarrow> jsnum" where
  "sum_numbers f xs = foldl (\<lambda>result x. js_add result (f x)) (Fin 0) xs"

definition selectTotalLockedMsats :: "account_info option \<Rightarrow> jsnum" where
  "selectTotalLockedMsats info =
     (case info of
        None \<Rightarrow> Fin 0
      | Some a \<Rightarrow>
          sum_numbers (\<lambda>ls. js_sub (js_sub (ls_initialAmount ls) (ls_withdrawnAmount ls)) (ls_feesPaidSoFar ls))
            (lockedSeeks a))"

definition selectTotalLockedCents :: "jsnum \<Rightarrow> account_info option \<Rightarrow> jsnum" where
  "selectTotalLockedCents btcUsdExchangeRate info =
     (case info of
        None \<Rightarrow> Fin 0
      | Some a \<Rightarrow>
          sum_numbers (\<lambda>ls. js_sub (js_sub (ls_initialAmountCents ls) (ls_withdrawnAmountCents ls))
              (js_mul (msatToFiat (ls_feesPaidSoFar ls) btcUsdExchangeRate) (FinI 100)))
            (lockedSeeks a))"

definition selectTotalStagedMsats :: "account_info option \<Rightarrow> jsnum" where
  "selectTotalStagedMsats info =
     or_number (map_option (\<lambda>a. foldl (\<lambda>result ss. to_fixed 0 (js_add result ss)) (Fin 0) (stagedSeeks a)) info) (Fin 0)"

definition selectTotalStagedCents :: "jsnum \<Rightarrow> account_info option \<Rightarrow> jsnum" where
  "selectTotalStagedCents btcUsdExchangeRate info =
     js_mul (msatToFiat (selectTotalStagedMsats info) btcUsdExchangeRate) (FinI 100)"

definition cancelled :: "account_info \<Rightarrow> jsnum option" where
  "cancelled a = (case stagedCancellation a of None \<Rightarrow> None | Some c \<Rightarrow> if js_truthy c then Some c else None)"

definition selectStableBalanceCents :: "jsnum \<Rightarrow> account_info option \<Rightarrow> jsnum" where
  "selectStableBalanceCents rate info =
     (case info of
        None \<Rightarrow> Fin 0
      | Some a \<Rightarrow>
          let balance = selectTotalLockedCents rate info
          in case cancelled a of
               None \<Rightarrow> balance
             | Some c \<Rightarrow> js_sub balance (js_mul balance (js_div c (FinI 10000))))"

definition selectStableBalanceSats :: "jsnum \<Rightarrow> account_info option \<Rightarrow> jsnum" where
  "selectStableBalanceSats rate info = fiatToSat (js_div (selectStableBalanceCents rate info) (FinI 100)) rate"

definition selectStableBalancePendingCents :: "jsnum \<Rightarrow> account_info option \<Rightarrow> jsnum" where
  "selectStableBalancePendingCents rate info =
     (case info of
        None \<Rightarrow> Fin 0
      | Some a \<Rightarrow>
          js_sub (selectTotalStagedCents rate info)
            (case cancelled a of
               None \<Rightarrow> Fin 0
             | Some c \<Rightarrow>
                 to_fixed 2 (js_mul (selectTotalLockedCents rate info) (to_fixed 4 (js_div c (FinI 10000))))))"

definition selectWithdrawableStableBalanceCents :: "jsnum \<Rightarrow> account_info option \<Rightarrow> jsnum" where
  "selectWithdrawableStableBalanceCents rate info =
     js_add (selectStableBalanceCents rate info) (selectStableBalancePendingCents rate info)"

definition selectMinimumWithdrawAmountCents :: "pool_config option \<Rightarrow> jsnum \<Rightarrow> account_info option \<Rightarrow> jsnum" where
  "selectMinimumWithdrawAmountCents config rate info =
     (let minimumBasisPoints = or_number (Option.bind config min_allowed_cancellation_bps) (Fin 0)
      in if js_lt (Fin 0) (selectStableBalancePendingCents rate info) then Fin 0
         else to_fixed 2 (js_mul (selectStableBalanceCents rate info) (to_fixed 4 (js_div minimumBasisPoints (FinI 10000)))))"

text \<open>The same amounts in the selected currency, and in millisatoshis.\<close>

definition selectTotalLockedFiat :: "jsnum \<Rightarrow> jsnum \<Rightarrow> account_info option \<Rightarrow> jsnum" where
  "selectTotalLockedFiat btcUsdExchangeRate btcExchangeRate info =
     convertCentsToOtherFiat (selectTotalLockedCents btcUsdExchangeRate info) btcUsdExchangeRate btcExchangeRate"

definition selectTotalStagedFiat :: "jsnum \<Rightarrow> jsnum \<Rightarrow> account_info option \<Rightarrow> jsnum" where
  "selectTotalStagedFiat btcUsdExchangeRate btcExchangeRate info =
     convertCentsToOtherFiat (selectTotalStagedCents btcUsdExchangeRate info) btcUsdExchangeRate btcExchangeRate"

definition selectStableBalance :: "jsnum \<Rightarrow> jsnum \<Rightarrow> account_info option \<Rightarrow> jsnum" where
  "selectStableBalance btcUsdExchangeRate btcExchangeRate info =
     convertCentsToOtherFiat (selectStableBalanceCents btcUsdExchangeRate info) btcUsdExchangeRate btcExchangeRate"

definition selectStableBalancePending :: "jsnum \<Rightarrow> jsnum \<Rightarrow> account_info option \<Rightarrow> jsnum" where
  "selectStableBalancePending btcUsdExchangeRate btcExchangeRate info =
     convertCentsToOtherFiat (selectStableBalancePendingCents btcUsdExchangeRate info) btcUsdExchangeRate btcExchangeRate"

definition selectWithdrawableStableBalanceMsats :: "jsnum \<Rightarrow> account_info option \<Rightarrow> jsnum" where
  "selectWithdrawableStableBalanceMsats rate info =
     fiatToMsat (js_div (selectWithdrawableStableBalanceCents rate info) (FinI 100)) rate"

definition selectMinimumWithdrawAmountMsats :: "pool_config option \<Rightarrow> jsnum \<Rightarrow> account_info option \<Rightarrow> jsnum" where
  "selectMinimumWithdrawAmountMsats config rate info =
     fiatToMsat (js_div (selectMinimumWithdrawAmountCents config rate info) (FinI 100)) rate"

definition selectMinimumDepositAmount :: "pool_config option \<Rightarrow> jsnum" where
  "selectMinimumDepositAmount config = msatToSat (or_number (map_option min_allowed_seek config) (Fin 0))"

text \<open>The text keys of the deposit time with the number they show; \<open>None\<close> is the number 0 of the code.\<close>

definition selectFormattedDepositTime :: "pool_config option \<Rightarrow> (string \<times> jsnum option) option" where
  "selectFormattedDepositTime config =
     (case config of
        None \<Rightarrow> None
      | Some c \<Rightarrow>
          let seconds = cycle_seconds c
          in Some (if js_le (FinI 3600) seconds then (''more-than-an-hour'', None)
             else if js_lt seconds (FinI 60)
             then (if js_lt (FinI 1) seconds then (''seconds'', Some seconds) else (''one-second'', None))
             else let minutes = js_div (js_round (js_mul (js_div seconds (FinI 60)) (FinI 2))) (FinI 2)
                  in if js_lt (FinI 1) minutes then (''minutes'', Some minutes) else (''one-minute'', None)))"

section \<open>Deposits and withdrawals\<close>

text \<open>The amount with a padding of one satoshi or ten cycles of fees, at most the balance.\<close>

definition max_first_cycle_fee :: "pool_config \<Rightarrow> jsnum \<Rightarrow> jsnum" where
  "max_first_cycle_fee config amount =
     (let maxAllowedFeeRate = or_number (max_allowed_provide_fee_rate_ppb config) (Fin 0);
          fraction = to_fixed 9 (js_div maxAllowedFeeRate (FinI 1000000000))
      in to_fixed 0 (js_mul amount fraction))"

definition amount_to_deposit :: "pool_config \<Rightarrow> jsnum \<Rightarrow> jsnum \<Rightarrow> jsnum" where
  "amount_to_deposit config ecashBalance amount =
     (let leakagePadding = js_max (FinI 1000) (to_fixed 0 (js_mul (FinI 10) (max_first_cycle_fee config amount)));
          amountPlusPadding = to_fixed 0 (js_add amount leakagePadding)
      in js_min ecashBalance amountPlusPadding)"

text \<open>The operation of a deposit, \<open>stabilityPoolDepositToSeek\<close> given the amount and the federation.\<close>

definition increaseStableBalance ::
  "'r federation_state \<Rightarrow> pool_config option \<Rightarrow> (jsnum \<Rightarrow> string \<Rightarrow> js_error + string) \<Rightarrow> jsnum \<Rightarrow>
   js_error + (string \<times> string)"
where
  "increaseStableBalance fs config depositToSeek amount =
     (case selectActiveFederation fs of
        None \<Rightarrow> Inl (Error ''No active federation'')
      | Some f \<Rightarrow>
          if fed_id f = [] then Inl (Error ''No active federation'')
          else case config of
                 None \<Rightarrow> Inl (Error ''No stabilitypool in this federation'')
               | Some c \<Rightarrow>
                   map_sum id (Pair (fed_id f))
                     (depositToSeek (amount_to_deposit c (FinI (selectFederationBalance fs)) amount) (fed_id f)))"

text \<open>
  What a withdrawal takes: basis points of the locked balance and an amount of the staged one. The
  basis points are a quotient by the locked cents and are not limited.
\<close>

definition withdrawal_parts :: "jsnum \<Rightarrow> account_info option \<Rightarrow> jsnum \<Rightarrow> jsnum \<times> jsnum" where
  "withdrawal_parts rate info amount =
     (let staged = selectTotalStagedMsats info
      in if js_le amount staged
         then (Fin 0, if js_lt (js_sub staged amount) (FinI 1000) then staged else amount)
         else let remaining = to_fixed 2 (js_sub amount staged);
                  remainingCents = js_mul (msatToFiat remaining rate) (FinI 100)
              in (to_fixed 0 (js_div (js_mul remainingCents (FinI 10000)) (selectTotalLockedCents rate info)), staged))"

definition decreaseStableBalance ::
  "'r federation_state \<Rightarrow> wallet_state \<Rightarrow> currency_state \<Rightarrow> (jsnum \<Rightarrow> jsnum \<Rightarrow> string \<Rightarrow> js_error + string) \<Rightarrow> jsnum \<Rightarrow>
   js_error + (string \<times> string)"
where
  "decreaseStableBalance fs w cs withdraw amount =
     (case selectActiveFederation fs of
        None \<Rightarrow> Inl (Error ''No active federation'')
      | Some f \<Rightarrow>
          if fed_id f = [] then Inl (Error ''No active federation'')
          else let (lockedBps, unlockedAmount) =
                     withdrawal_parts (selectBtcUsdExchangeRate fs w cs None)
                       (stabilityPoolAccountInfo (selectFederationWalletState fs w None)) amount
               in map_sum id (Pair (fed_id f)) (withdraw lockedBps unlockedAmount (fed_id f)))"

text \<open>The events of an operation, and the first one that settles its promise; \<open>None\<close>: it stays pending.\<close>

datatype deposit_state =
    DepositInitiated | DepositTxAccepted | DepositTxRejected string | DepositPrimaryOutputError string | DepositSuccess

datatype withdrawal_state =
    InvalidOperationType
  | WithdrawUnlockedInitiated
  | WithdrawTxRejected string
  | WithdrawUnlockedAccepted
  | WithdrawPrimaryOutputError string
  | WithdrawSuccess
  | CancellationSubmissionFailure string
  | CancellationInitiated
  | CancellationAccepted

record 'st pool_event =
  pe_federationId :: string
  pe_operationId :: string
  pe_state :: 'st

fun deposit_verdict :: "deposit_state \<Rightarrow> bool option" where
  "deposit_verdict DepositTxAccepted = Some True"
| "deposit_verdict (DepositTxRejected e) = Some False"
| "deposit_verdict _ = None"

fun withdrawal_verdict :: "withdrawal_state \<Rightarrow> bool option" where
  "withdrawal_verdict WithdrawSuccess = Some True"
| "withdrawal_verdict CancellationAccepted = Some True"
| "withdrawal_verdict (WithdrawTxRejected e) = Some False"
| "withdrawal_verdict (CancellationSubmissionFailure e) = Some False"
| "withdrawal_verdict _ = None"

fun operation_outcome ::
  "('st \<Rightarrow> bool option) \<Rightarrow> string \<Rightarrow> string \<Rightarrow> 'st pool_event list \<Rightarrow> (js_error + 'st pool_event) option"
where
  "operation_outcome verdict federationId operationId [] = None"
| "operation_outcome verdict federationId operationId (event # events) =
     (if pe_federationId event = federationId \<and> pe_operationId event = operationId
      then case verdict (pe_state event) of
             None \<Rightarrow> operation_outcome verdict federationId operationId events
           | Some True \<Rightarrow> Some (Inr event)
           | Some False \<Rightarrow> Some (Inl (Error ''Transaction rejected''))
      else operation_outcome verdict federationId operationId events)"

section \<open>The wallets of the federations\<close>

interpretation wallet: keyed_slice getFederationWalletState obj_set
  by unfold_locales (simp add: getFederationWalletState_def)

fun wallet_action_federation :: "wallet_action \<Rightarrow> string option" where
  "wallet_action_federation (SetAccountInfo f i) = Some f"
| "wallet_action_federation (ResetFederationWallet f) = Some f"
| "wallet_action_federation ResetWallet = None"
| "wallet_action_federation (FetchAccountInfoFulfilled f i) = Some f"
| "wallet_action_federation (FetchAverageFeeRateFulfilled f r) = Some f"
| "wallet_action_federation (FetchCycleStartPriceFulfilled f p) = Some f"

lemmas wallet_defs = setStabilityPoolAccountInfo_def resetFederationWalletState_def resetWalletState_def
  fetchAccountInfoFulfilled_def fetchAverageFeeRateFulfilled_def fetchCycleStartPriceFulfilled_def

lemma wallet_frame:
  "wallet_action_federation a \<noteq> None \<Longrightarrow> wallet_action_federation a \<noteq> Some f \<Longrightarrow>
     getFederationWalletState (walletReducer a s) f = getFederationWalletState s f"
  by (cases a) (auto simp: wallet_defs wallet.get_put)

section \<open>Rounding of fees\<close>

lemma to_fixed_0_bounds:
  assumes "0 \<le> q" and "q \<le> of_int b + 1 / 4" and "safe b"
  shows "\<exists>k. to_fixed 0 (Fin q) = FinI k \<and> 0 \<le> k \<and> k \<le> b \<and> \<bar>of_int k - q\<bar> \<le> 1 / 2"
proof -
  define k where "k = \<lfloor>q + 1 / 2\<rfloor>"
  have k: "0 \<le> k" "k \<le> b" using assms(1,2) unfolding k_def by linarith+
  have near: "\<bar>of_int k - q\<bar> \<le> 1 / 2" unfolding k_def abs_le_iff by linarith
  have half: "\<lfloor>1 / 2 :: rat\<rfloor> = 0" by (rule floor_unique) auto
  have b: "(of_int b :: rat) < 2 ^ 53"
    using assms(3) unfolding safe_def by (metis abs_less_iff of_int_less_iff of_int_numeral of_int_power)
  have "q < 10 ^ 21"
  proof -
    have "(2 :: rat) ^ 53 + 1 / 4 < 10 ^ 21" by simp
    then show ?thesis using assms(2) b by linarith
  qed
  moreover have "nearest_decimal 0 q = of_int k"
    using assms(1) half by (cases "q = 0") (simp_all add: nearest_decimal_def sgn_if k_def)
  moreover have "rnd (of_int k) = FinI k" using assms(3) k by (intro rnd_int) (simp add: safe_def)
  ultimately have "to_fixed 0 (Fin q) = FinI k" using assms(1) by simp
  then show ?thesis using k near by blast
qed

lemma rnd_nonneg: "0 \<le> x \<Longrightarrow> rnd x = Fin y \<Longrightarrow> 0 \<le> y"
proof -
  assume x: "0 \<le> x" "rnd x = Fin y"
  have "0 \<le> x / quantum x" using x(1) quantum_pos [of x] by (rule divide_nonneg_pos)
  then have "0 \<le> \<lfloor>x / quantum x\<rfloor>" by simp
  then have "0 \<le> round_half_even (x / quantum x)" by (auto simp: round_half_even_def Let_def)
  then have "0 \<le> of_int (round_half_even (x / quantum x)) * quantum x"
    by (intro mult_nonneg_nonneg) (simp_all add: less_imp_le)
  then show "0 \<le> y" using x(2) by (auto simp: rnd_def Let_def split: if_splits)
qed

text \<open>A fee rate in billionths, read as a fraction: within one unit of the last place of the rate.\<close>

lemma fraction_of_ppb:
  assumes "0 \<le> r" and "r \<le> 1000000000"
  obtains f where "to_fixed 9 (js_div (FinI r) (FinI 1000000000)) = Fin f" "0 \<le> f" "f \<le> 1 + 1 / 2 ^ 53"
    "\<bar>f - of_int r / 1000000000\<bar> \<le> 1 / 2 ^ 53"
proof -
  let ?x = "of_int r / 1000000000 :: rat"
  have r: "(0 :: rat) \<le> of_int r" "of_int r \<le> (1000000000 :: rat)" using assms by simp_all
  then have x: "0 \<le> ?x" "?x \<le> 1" by simp_all
  then have two: "\<bar>?x\<bar> < 2 powi 1" by simp
  have ulp: "(2 :: rat) powi (1 - 54) = 1 / 2 ^ 53" by code_simp
  obtain y where y: "rnd ?x = Fin y" "\<bar>y - ?x\<bar> \<le> 1 / 2 ^ 53"
    by (rule rnd_error [OF two, unfolded ulp]) (simp, simp, blast intro: that)
  have tiny: "(1 / 2 ^ 53 :: rat) < 1 / (2 * 10 ^ 9)" by simp
  then have "\<bar>y - of_int r / 10 ^ 9\<bar> < 1 / (2 * 10 ^ 9)" using y(2) by simp
  then have n: "nearest_decimal 9 y = ?x" using nearest_decimal_close [of y r 9] by simp
  have "\<bar>y\<bar> < 10 ^ 21" using y(2) x tiny by (simp add: abs_if split: if_splits)
  then have "to_fixed 9 (Fin y) = rnd (nearest_decimal 9 y)" by simp
  also have "\<dots> = Fin y" unfolding n by (rule y(1))
  finally have "to_fixed 9 (js_div (FinI r) (FinI 1000000000)) = Fin y" using y(1) by simp
  moreover have "0 \<le> y" using rnd_nonneg x(1) y(1) by blast
  moreover have "y \<le> 1 + 1 / 2 ^ 53" using y(2) x(2) by linarith
  ultimately show thesis using that y(2) by blast
qed

text \<open>The fee of the first cycle is the product of amount and rate, rounded: the rounding of the doubles adds at most an eighth.\<close>

lemma max_first_cycle_fee_bounds:
  assumes "0 \<le> a" and "a < 2 ^ 49"
    and "or_number (max_allowed_provide_fee_rate_ppb config) (Fin 0) = FinI r" "0 \<le> r" "r \<le> 1000000000"
  shows "\<exists>k. max_first_cycle_fee config (FinI a) = FinI k \<and> 0 \<le> k \<and> k \<le> a \<and>
    \<bar>of_int k - of_int a * of_int r / (1000000000 :: rat)\<bar> \<le> 5 / 8"
proof -
  obtain f where f: "to_fixed 9 (js_div (FinI r) (FinI 1000000000)) = Fin f" "0 \<le> f" "f \<le> 1 + 1 / 2 ^ 53"
    "\<bar>f - of_int r / 1000000000\<bar> \<le> 1 / 2 ^ 53"
    using fraction_of_ppb [OF assms(4,5)] .
  have "(of_int a :: rat) < of_int (2 ^ 49)" using assms(2) by (simp only: of_int_less_iff)
  then have a: "(0 :: rat) \<le> of_int a" "(of_int a :: rat) < 2 ^ 49" using assms(1) by simp_all
  have p0: "0 \<le> of_int a * f" using a(1) f(2) by simp
  have "of_int a * f \<le> of_int a * (1 + 1 / 2 ^ 53)" using a(1) f(3) by (rule mult_left_mono [rotated])
  moreover have "of_int a * (1 + 1 / 2 ^ 53) \<le> of_int a + (1 / 16 :: rat)" using a by (simp add: distrib_left)
  ultimately have p: "of_int a * f \<le> of_int a + 1 / 16" by linarith
  have big: "(2 :: rat) powi 50 = 2 ^ 50" by (simp add: power_int_def)
  have "\<bar>of_int a * f\<bar> < 2 powi 50" unfolding big using p p0 a(2) by (simp add: abs_if)
  then obtain q where q: "rnd (of_int a * f) = Fin q" "\<bar>q - of_int a * f\<bar> \<le> 2 powi (50 - 54)"
    by (rule rnd_error) auto
  have sixteenth: "(2 :: rat) powi (50 - 54) = 1 / 16" by code_simp
  then have "q \<le> of_int a + 1 / 4" using q(2) p by linarith
  moreover have "0 \<le> q" using rnd_nonneg [OF p0 q(1)] .
  moreover have "safe a" using assms(1,2) by (simp add: safe_def)
  ultimately obtain k where k: "to_fixed 0 (Fin q) = FinI k" "0 \<le> k" "k \<le> a" "\<bar>of_int k - q\<bar> \<le> 1 / 2"
    using to_fixed_0_bounds by blast
  have "\<bar>of_int a * (f - of_int r / 1000000000)\<bar> \<le> 2 ^ 49 * (1 / 2 ^ 53)"
    unfolding abs_mult using a f(4) by (intro mult_mono) simp_all
  then have "\<bar>of_int a * f - of_int a * of_int r / (1000000000 :: rat)\<bar> \<le> 1 / 16"
    by (simp add: right_diff_distrib)
  then have "\<bar>of_int k - of_int a * of_int r / (1000000000 :: rat)\<bar> \<le> 5 / 8"
    using q(2) k(4) unfolding sixteenth abs_le_iff by linarith
  then show ?thesis using k assms(3) f(1) q(1) by (simp add: max_first_cycle_fee_def)
qed

section \<open>Properties\<close>

text \<open>
  C26: the deposit of \<open>a\<close> millisatoshis, at a highest fee rate of \<open>r\<close> billionths, is exactly the amount
  with its padding, or the balance where that is less. The padding is one satoshi or ten times the fee
  \<open>k\<close> of a cycle, a whole number within five eighths of the exact product of amount and rate. So the
  deposit never exceeds the balance, nor eleven times the amount and a satoshi.
\<close>

theorem deposit_bounds:
  assumes "0 \<le> a" and "a < 2 ^ 49" and "0 \<le> b" and "safe b"
    and "or_number (max_allowed_provide_fee_rate_ppb config) (Fin 0) = FinI r" and "0 \<le> r" and "r \<le> 1000000000"
  shows "\<exists>k. amount_to_deposit config (FinI b) (FinI a) = FinI (min b (a + max 1000 (10 * k))) \<and>
    \<bar>of_int k - of_int a * of_int r / (1000000000 :: rat)\<bar> \<le> 5 / 8 \<and>
    min b (a + max 1000 (10 * k)) \<le> 11 * a + 1000"
proof -
  obtain k where k: "max_first_cycle_fee config (FinI a) = FinI k" "0 \<le> k" "k \<le> a"
    "\<bar>of_int k - of_int a * of_int r / (1000000000 :: rat)\<bar> \<le> 5 / 8"
    using max_first_cycle_fee_bounds assms(1,2,5-7) by blast
  have s: "safe (10 * k)" "safe (a + max 1000 (10 * k))" using assms(1,2) k(2,3) by (auto simp: safe_def max_def)
  have "js_mul (FinI 10) (FinI k) = FinI (10 * k)" using s(1) by (rule js_mul_int)
  then have "amount_to_deposit config (FinI b) (FinI a) = js_min (FinI b) (to_fixed 0 (js_add (FinI a) (js_max (FinI 1000) (FinI (10 * k)))))"
    using s(1) by (simp only: amount_to_deposit_def Let_def k(1) to_fixed_int)
  also have "js_max (FinI 1000) (FinI (10 * k)) = FinI (max 1000 (10 * k))" by (rule js_max_int)
  also have "js_add (FinI a) \<dots> = FinI (a + max 1000 (10 * k))" using s(2) by (rule js_add_int)
  also have "to_fixed 0 \<dots> = FinI (a + max 1000 (10 * k))" using s(2) by (rule to_fixed_int)
  also have "js_min (FinI b) \<dots> = FinI (min b (a + max 1000 (10 * k)))" by (rule js_min_int)
  finally show ?thesis using k(2-4) by (intro exI [of _ k] conjI) auto
qed

definition sample_config :: pool_config where
  "sample_config = \<lparr>min_allowed_seek = FinI 1000, max_allowed_provide_fee_rate_ppb = Some (FinI 30000),
     min_allowed_cancellation_bps = Some (FinI 100), cycle_seconds = FinI 600\<rparr>"

text \<open>Two thousand satoshis at 30000 billionths: a fee of 60, so the padding is the satoshi; two million: ten fees.\<close>

theorem deposit_bounds_witness:
  "amount_to_deposit sample_config (FinI 5000000) (FinI 2000000) = FinI 2001000 \<and>
   amount_to_deposit sample_config (FinI 5000000000) (FinI 2000000000) = FinI 2000600000"
proof -
  have r: "or_number (max_allowed_provide_fee_rate_ppb sample_config) (Fin 0) = FinI 30000"
    by (simp add: sample_config_def or_number_def js_or_def js_truthy_def)
  have near: "k = c" if "\<bar>of_int k - of_int c\<bar> \<le> (5 / 8 :: rat)" for k c
  proof -
    have "\<bar>k - c\<bar> < 1" using that by linarith
    then show ?thesis by simp
  qed
  have "(0 :: int) \<le> 2000000" "(2000000 :: int) < 2 ^ 49" "(0 :: int) \<le> 5000000" "safe 5000000"
    "(0 :: int) \<le> 30000" "(30000 :: int) \<le> 1000000000" by (simp_all add: safe_def)
  from deposit_bounds [OF this(1-4) r this(5,6)] obtain k where
    k: "amount_to_deposit sample_config (FinI 5000000) (FinI 2000000) = FinI (min 5000000 (2000000 + max 1000 (10 * k)))"
      "\<bar>of_int k - of_int 2000000 * of_int 30000 / (1000000000 :: rat)\<bar> \<le> 5 / 8" by blast
  have "(0 :: int) \<le> 2000000000" "(2000000000 :: int) < 2 ^ 49" "(0 :: int) \<le> 5000000000" "safe 5000000000"
    "(0 :: int) \<le> 30000" "(30000 :: int) \<le> 1000000000" by (simp_all add: safe_def)
  from deposit_bounds [OF this(1-4) r this(5,6)] obtain l where
    l: "amount_to_deposit sample_config (FinI 5000000000) (FinI 2000000000) =
        FinI (min 5000000000 (2000000000 + max 1000 (10 * l)))"
      "\<bar>of_int l - of_int 2000000000 * of_int 30000 / (1000000000 :: rat)\<bar> \<le> 5 / 8" by blast
  have "k = 60" "l = 60000" using k(2) l(2) near [of k 60] near [of l 60000] by simp_all
  with k(1) l(1) show ?thesis by simp
qed

text \<open>
  A withdrawal that the staged deposits cover takes nothing of the locked balance, and of the staged
  one the amount asked for, or all of it when less than a satoshi would be left.
\<close>

theorem withdrawal_from_staged:
  assumes "selectTotalStagedMsats info = FinI s" and "0 \<le> a" and "a \<le> s" and "safe s"
  shows "\<exists>u. withdrawal_parts rate info (FinI a) = (Fin 0, FinI u) \<and> a \<le> u \<and> u \<le> s \<and> u < a + 1000 \<and>
    (u = a \<or> u = s)"
proof -
  have "js_sub (FinI s) (FinI a) = FinI (s - a)" using assms by (intro js_sub_int) (simp add: safe_def)
  moreover have "js_lt (FinI (s - a)) (FinI 1000) = (s - a < 1000)" by (rule js_lt_int)
  moreover have "js_le (FinI a) (FinI s)" using assms(3) by simp
  ultimately have "withdrawal_parts rate info (FinI a) = (Fin 0, FinI (if s - a < 1000 then s else a))"
    unfolding withdrawal_parts_def Let_def assms(1) by simp
  then show ?thesis using assms(3) by auto
qed

definition sample_account :: "jsnum list \<Rightarrow> jsnum option \<Rightarrow> int \<Rightarrow> account_info" where
  "sample_account staged cancellation cents =
     \<lparr>idleBalance = Fin 0, stagedSeeks = staged, stagedCancellation = cancellation,
      lockedSeeks = [\<lparr>ls_initialAmount = Fin 0, ls_initialAmountCents = FinI cents, ls_withdrawnAmount = Fin 0,
        ls_withdrawnAmountCents = Fin 0, ls_feesPaidSoFar = Fin 0\<rparr>]\<rparr>"

theorem withdrawal_from_staged_witness:
  "\<exists>u. withdrawal_parts (FinI 60000) (Some (sample_account [FinI 3000, FinI 2500] None 0)) (FinI 5000) = (Fin 0, FinI u) \<and>
    5000 \<le> u \<and> u \<le> 5500 \<and> u < 5000 + 1000 \<and> (u = 5000 \<or> u = 5500)"
proof (rule withdrawal_from_staged)
  show "selectTotalStagedMsats (Some (sample_account [FinI 3000, FinI 2500] None 0)) = FinI 5500"
  proof -
    have fold: "foldl (\<lambda>result ss. to_fixed 0 (js_add result ss)) (FinI 0) [FinI 3000, FinI 2500] = FinI (0 + 3000 + 2500)"
      by (simp only: foldl_Cons foldl_Nil) (subst js_add_int, simp add: safe_def, subst to_fixed_int, simp add: safe_def,
        subst js_add_int, simp add: safe_def, rule to_fixed_int, simp add: safe_def)
    show ?thesis
      using fold by (simp add: selectTotalStagedMsats_def sample_account_def or_number_def js_or_def js_truthy_def
        del: to_fixed.simps js_add.simps)
  qed
qed (simp_all add: safe_def)

text \<open>
  A withdrawal of more than the staged deposits, with nothing locked, asks the bridge for a number of
  basis points that is not a number or infinite: the quotient by the locked cents is not guarded.
\<close>

theorem withdrawal_without_locked_balance:
  assumes "selectTotalLockedCents rate info = Fin 0" and "\<not> js_le amount (selectTotalStagedMsats info)"
  shows "\<forall>bps. fst (withdrawal_parts rate info amount) \<noteq> Fin bps"
proof -
  have "to_fixed 0 (js_div x (Fin 0)) \<noteq> Fin bps" for x bps
    by (cases x) (auto simp: inf_of_sign_def)
  then show ?thesis using assms by (simp add: withdrawal_parts_def Let_def)
qed

theorem withdrawal_without_locked_balance_witness:
  "\<forall>bps. fst (withdrawal_parts (FinI 60000) (Some (sample_account [] None 0)) (FinI 5000)) \<noteq> Fin bps"
proof (rule withdrawal_without_locked_balance)
  show "selectTotalLockedCents (FinI 60000) (Some (sample_account [] None 0)) = Fin 0" by code_simp
  show "\<not> js_le (FinI 5000) (selectTotalStagedMsats (Some (sample_account [] None 0)))" by code_simp
qed

text \<open>
  A cancellation is subtracted twice from the withdrawable balance, once in the stable balance and
  once as a pending withdrawal: with three quarters of a balance of \<open>4n\<close> cents being withdrawn, the stable
  balance is \<open>n\<close>, the pending one \<open>-3n\<close>, and the withdrawable one \<open>-2n\<close>.
\<close>

theorem cancellation_subtracted_twice:
  assumes "safe (4 * n)" and "info = Some (sample_account [] (Some (FinI 7500)) (4 * n))"
  shows "selectStableBalanceCents (Fin r) info = FinI n \<and> selectStableBalancePendingCents (Fin r) info = FinI (- 3 * n) \<and>
    selectWithdrawableStableBalanceCents (Fin r) info = FinI (- 2 * n)"
proof -
  have zero: "rnd 0 = Fin 0" by (simp add: rnd_def)
  have none: "msatToFiat (Fin 0) (Fin r) = Fin 0"
    by (simp add: msatToFiat_def msatToBtc_def msatToSat_def satToBtc_def btcToFiat_def MSATS_PER_SAT_def
        SATS_PER_BTC_def zero nearest_decimal_def)
  have s: "safe n" "safe (3 * n)" "safe (2 * n)" "safe (- (2 * n))" "safe (- (3 * n))" using assms(1) by (auto simp: safe_def)
  have r4: "rnd (of_int (4 * n)) = FinI (4 * n)" using assms(1) by (intro rnd_int) (simp add: safe_def)
  then have r4': "rnd (4 * of_int n) = Fin (4 * of_int n)" by simp
  have locked: "selectTotalLockedCents (Fin r) info = FinI (4 * n)"
    by (simp add: assms(2) sample_account_def selectTotalLockedCents_def sum_numbers_def none zero js_sub_def r4')
  have staged: "selectTotalStagedCents (Fin r) info = Fin 0"
    by (simp add: assms(2) sample_account_def selectTotalStagedCents_def selectTotalStagedMsats_def or_number_def js_or_def
        js_truthy_def none zero)
  have r34: "rnd (3 / 4) = Fin (3 / 4)" using rnd_scaled [of "3 / 4" 53 "3 * 2 ^ 51"] by simp
  have q: "js_div (FinI 7500) (FinI 10000) = Fin (3 / 4)" "to_fixed 4 (Fin (3 / 4)) = Fin (3 / 4)"
  proof -
    have "nearest_decimal 4 (3 / 4 :: rat) = 3 / 4" using nearest_decimal_close [of "3 / 4" 7500 4] by simp
    then show "to_fixed 4 (Fin (3 / 4)) = Fin (3 / 4)" unfolding to_fixed.simps using r34 by (simp only:) simp
  qed (simp add: r34)
  obtain a where a: "info = Some a" and c: "cancelled a = Some (FinI 7500)"
    using assms(2) by (simp add: sample_account_def cancelled_def js_truthy_def)
  have three: "js_mul (FinI (4 * n)) (Fin (3 / 4)) = FinI (3 * n)"
    using rnd_int [of "3 * n"] s(2) by (simp add: safe_def)
  have stable: "selectStableBalanceCents (Fin r) info = FinI n"
  proof -
    have "selectStableBalanceCents (Fin r) info = js_sub (FinI (4 * n)) (FinI (3 * n))"
      using locked three unfolding a selectStableBalanceCents_def by (simp only: option.case Let_def c q)
    also have "\<dots> = FinI n" using js_sub_int [of "4 * n" "3 * n"] s(1) by simp
    finally show ?thesis .
  qed
  have pending: "selectStableBalancePendingCents (Fin r) info = FinI (- 3 * n)"
  proof -
    have "selectStableBalancePendingCents (Fin r) info = js_sub (FinI 0) (to_fixed 2 (FinI (3 * n)))"
      using locked staged three unfolding a selectStableBalancePendingCents_def by (simp only: option.case Let_def c q of_int_0)
    also have "to_fixed 2 (FinI (3 * n)) = FinI (3 * n)" using s(2) by (rule to_fixed_int)
    also have "js_sub (FinI 0) (FinI (3 * n)) = FinI (- 3 * n)" using js_sub_int [of 0 "3 * n"] s(5) by simp
    finally show ?thesis .
  qed
  have "selectWithdrawableStableBalanceCents (Fin r) info = FinI (- 2 * n)"
    using js_add_int [of n "- 3 * n"] s(4) unfolding selectWithdrawableStableBalanceCents_def stable pending by simp
  then show ?thesis using stable pending by blast
qed

theorem cancellation_subtracted_twice_witness:
  "selectWithdrawableStableBalanceCents (FinI 60000) (Some (sample_account [] (Some (FinI 7500)) 10000)) = FinI (- 5000)"
  using cancellation_subtracted_twice [of 2500 "Some (sample_account [] (Some (FinI 7500)) 10000)" 60000]
  by (simp add: safe_def)

text \<open>
  In a currency without a rate, other than the dollar and the CFA franc, and without a rate fixed by
  the federation, the price of bitcoin is infinite, and not a number while the dollar rate is unknown.
\<close>

theorem unknown_rate_is_infinite:
  assumes "selectCurrency fs cs \<notin> {''USD'', ''CFA''}"
    and "Option.bind (obj_get (fiatUsdRates cs) (selectCurrency fs cs)) id = None"
    and "getFederationDefaultCurrency (selectFederationMetadata fs) \<noteq> Some (selectCurrency fs cs)"
    and "selectBtcUsdExchangeRate fs w cs None = Fin u" and "0 \<le> u"
  shows "selectBtcExchangeRate fs w cs = (if u = 0 then NaN else PInf)"
  using assms by (simp add: selectBtcExchangeRate_def Let_def or_number_def js_truthy_def inf_of_sign_def)

theorem unknown_rate_is_infinite_witness:
  "selectBtcExchangeRate (initialFederationState :: unit federation_state) initialWalletState
     (initialCurrencyState\<lparr>selectedFiatCurrency := Some ''EUR'', btcUsdRate := FinI 60000\<rparr>) = PInf"
proof -
  let ?fs = "initialFederationState :: unit federation_state"
  let ?cs = "initialCurrencyState\<lparr>selectedFiatCurrency := Some ''EUR'', btcUsdRate := FinI 60000\<rparr>"
  have c: "selectCurrency ?fs ?cs = ''EUR''" by (simp add: selectCurrency_def truthy_str_def)
  have u: "selectBtcUsdExchangeRate ?fs initialWalletState ?cs None = Fin 60000"
    by code_simp
  have m: "getFederationDefaultCurrency (selectFederationMetadata ?fs) \<noteq> Some ''EUR''"
    by code_simp
  show ?thesis
    using unknown_rate_is_infinite [of ?fs ?cs initialWalletState 60000] c u m
    by (simp add: initialCurrencyState_def)
qed

text \<open>
  A deposit or withdrawal whose output fails (\<open>primaryOutputError\<close>) is never settled: no sequence of
  such events, nor of events of other operations, resolves or rejects the promise.
\<close>

theorem output_error_never_settles:
  assumes "\<forall>e \<in> set ds. pe_operationId e = operationId \<longrightarrow> (\<exists>m. pe_state e = DepositPrimaryOutputError m)"
    and "\<forall>e \<in> set ws. pe_operationId e = operationId \<longrightarrow> (\<exists>m. pe_state e = WithdrawPrimaryOutputError m)"
  shows "operation_outcome deposit_verdict federationId operationId ds = None \<and>
    operation_outcome withdrawal_verdict federationId operationId ws = None"
  using assms by (intro conjI; induction ds; induction ws) auto

theorem output_error_never_settles_witness:
  "operation_outcome deposit_verdict ''f'' ''o'' [\<lparr>pe_federationId = ''f'', pe_operationId = ''o'', pe_state = DepositPrimaryOutputError ''e''\<rparr>] = None \<and>
   operation_outcome withdrawal_verdict ''f'' ''o'' [] = None"
  by (rule output_error_never_settles) simp_all

end
