(* ===== verification/AmountForms.thy ===== *)
theory AmountForms
  imports JsPrint Wallet Settings
begin

text \<open>
  The amount forms of \<open>ui/common/hooks/amount.ts\<close> with the parts of \<open>AmountUtils.ts\<close> that format and
  parse in a locale: the numeric keypad, the fiat entry, the validation, and the smallest and largest
  amounts of a request, a payment, a deposit and a withdrawal. The state of a form is the three React
  states of \<open>useAmountInput\<close> with the amount its caller keeps. What \<open>Intl\<close> prints is the argument \<open>intl\<close>.
\<close>

section \<open>Formatting and parsing in a locale\<close>

text \<open>\<open>Intl.NumberFormat(locale).format\<close>, its currency style, and a currency's number of decimals.\<close>

record intl =
  number_format :: "string option \<Rightarrow> jsnum \<Rightarrow> string"
  currency_format :: "string option \<Rightarrow> string \<Rightarrow> jsnum \<Rightarrow> string"
  plain_currency_format :: "string option \<Rightarrow> string \<Rightarrow> jsnum \<Rightarrow> string"
  currency_decimals :: "string option \<Rightarrow> string \<Rightarrow> jsnum"

datatype symbol_position = symbol_start | symbol_end | symbol_none

definition formatSats :: "intl \<Rightarrow> jsnum \<Rightarrow> string" where
  "formatSats intl sats = number_format intl None sats"

text \<open>\<open>replace(/^(-)?([A-Z]{3})\s*(.+)$/, '$1$3 $2')\<close>: the code of the currency goes to the end.\<close>

definition code_to_end :: "string \<Rightarrow> string" where
  "code_to_end s =
     (let (sign, r) = (case s of c # q \<Rightarrow> if c = CHR ''-'' then ([c], q) else ([], s) | [] \<Rightarrow> ([], []));
          rest = js_trim_start (drop 3 r)
      in if length (takeWhile is_upper (take 3 r)) = 3 \<and> rest \<noteq> [] \<and> list_all (\<lambda>c. \<not> is_newline c) rest
         then sign @ rest @ '' '' @ take 3 r else s)"

definition formatFiat :: "intl \<Rightarrow> jsnum \<Rightarrow> string \<Rightarrow> string option \<Rightarrow> symbol_position \<Rightarrow> string" where
  "formatFiat intl amount currency locale position =
     (if position = symbol_none then plain_currency_format intl locale currency amount
      else let formatted = currency_format intl locale currency amount
           in if position = symbol_end then code_to_end formatted else formatted)"

definition is_number_char :: "char \<Rightarrow> bool" where
  "is_number_char c = (is_digit_char c \<or> char_code c \<in> {178, 179, 185, 188, 189, 190})"

definition getThousandsSeparator :: "intl \<Rightarrow> string option \<Rightarrow> string" where
  "getThousandsSeparator intl locale = filter (\<lambda>c. \<not> is_number_char c) (number_format intl locale (FinI 11111))"

definition getDecimalSeparator :: "intl \<Rightarrow> string option \<Rightarrow> string" where
  "getDecimalSeparator intl locale = filter (\<lambda>c. \<not> is_number_char c) (number_format intl locale (rnd (11 / 10)))"

definition parseFiatString :: "intl \<Rightarrow> string option \<Rightarrow> string \<Rightarrow> jsnum" where
  "parseFiatString intl locale fiat =
     (let thousandSeparator = the (or_str (Some (getThousandsSeparator intl locale)) (Some '',''));
          decimalSeparator = the (or_str (Some (getDecimalSeparator intl locale)) (Some ''.''));
          plain = js_replace (js_replace_all fiat thousandSeparator []) decimalSeparator ''.''
      in js_parse_float (filter (\<lambda>c. is_digit_char c \<or> c = CHR ''.'' \<or> c = CHR ''-'') plain))"

section \<open>The amount input\<close>

text \<open>What a form is given: the exchange rate, the currency and locale of the store, and its limits.\<close>

record amount_config =
  ac_rate :: jsnum
  ac_currency :: string
  ac_locale :: "string option"
  ac_minimum :: "jsnum option"
  ac_maximum :: "jsnum option"

record amount_input =
  ai_isFiat :: bool
  ai_satsValue :: string
  ai_fiatValue :: string
  ai_amount :: jsnum

text \<open>A remembered input type decides, else whether the federation has a currency of its own.\<close>

definition shouldDefaultToFiat :: "string option \<Rightarrow> metadata \<Rightarrow> bool" where
  "shouldDefaultToFiat inputType metadata =
     (if truthy_str inputType then inputType = Some ''fiat''
      else truthy_str (getFederationDefaultCurrency metadata))"

definition initialAmountInput :: "intl \<Rightarrow> amount_config \<Rightarrow> bool \<Rightarrow> jsnum \<Rightarrow> amount_input" where
  "initialAmountInput intl cfg isFiat amount =
     \<lparr>ai_isFiat = isFiat, ai_satsValue = formatSats intl amount,
      ai_fiatValue = formatFiat intl (satToFiat amount (ac_rate cfg)) (ac_currency cfg) (ac_locale cfg) symbol_none,
      ai_amount = amount\<rparr>"

text \<open>The form, and the input type to remember in the store.\<close>

definition setIsFiat :: "bool \<Rightarrow> amount_input \<Rightarrow> amount_input \<times> string" where
  "setIsFiat value s = (s\<lparr>ai_isFiat := value\<rparr>, if value then ''fiat'' else ''sats'')"

definition clampSats :: "jsnum \<Rightarrow> jsnum" where
  "clampSats value = (if value = NaN then Fin 0 else js_round (js_max (Fin 0) value))"

definition handleChangeSats :: "intl \<Rightarrow> amount_config \<Rightarrow> string \<Rightarrow> amount_input \<Rightarrow> amount_input" where
  "handleChangeSats intl cfg value s =
     (let sats = clampSats (js_parse_int (js_replace_all value (getThousandsSeparator intl (ac_locale cfg)) []));
          fiat = js_mul (satToBtc sats) (ac_rate cfg)
      in s\<lparr>ai_amount := sats, ai_satsValue := number_format intl None sats,
           ai_fiatValue := formatFiat intl fiat (ac_currency cfg) (ac_locale cfg) symbol_none\<rparr>)"

text \<open>\<open>value.split(decimalSeparator)[1]?.length || 0\<close> with a separator of one character.\<close>

definition decimals_typed :: "string \<Rightarrow> string \<Rightarrow> nat" where
  "decimals_typed separator value =
     (case separator of
        [c] \<Rightarrow> (case js_split c value of _ # p # _ \<Rightarrow> length p | _ \<Rightarrow> 0)
      | _ \<Rightarrow> 0)"

text \<open>A limit replaces the amount when both are the same to the cent.\<close>

definition snap :: "jsnum option \<Rightarrow> jsnum \<Rightarrow> jsnum \<Rightarrow> jsnum \<Rightarrow> jsnum" where
  "snap limit rate fiat sats =
     (case limit of
        None \<Rightarrow> sats
      | Some l \<Rightarrow>
          if js_eq (to_fixed 2 (js_mul (satToBtc l) rate)) (to_fixed 2 fiat) \<and> js_lt (Fin 0) fiat then l else sats)"

definition handleChangeFiat :: "intl \<Rightarrow> amount_config \<Rightarrow> string \<Rightarrow> amount_input \<Rightarrow> amount_input" where
  "handleChangeFiat intl cfg value s =
     (let parsed = parseFiatString intl (ac_locale cfg) value;
          fiat = (if parsed = NaN \<or> js_lt parsed (Fin 0) then Fin 0 else parsed);
          decimals = currency_decimals intl (ac_locale cfg) (ac_currency cfg);
          valueDecimals = FinI (int (decimals_typed (getDecimalSeparator intl (ac_locale cfg)) value));
          fiat = (if js_lt decimals valueDecimals then js_mul fiat (FinI 10)
                  else if js_lt valueDecimals decimals then js_div fiat (FinI 10) else fiat);
          sats = clampSats (btcToSat (js_div fiat (ac_rate cfg)));
          sats = snap (ac_maximum cfg) (ac_rate cfg) fiat (snap (ac_minimum cfg) (ac_rate cfg) fiat sats)
      in s\<lparr>ai_amount := sats,
           ai_fiatValue := formatFiat intl fiat (ac_currency cfg) (ac_locale cfg) symbol_none,
           ai_satsValue := formatSats intl sats\<rparr>)"

text \<open>The keys of the pad: a blank, the backspace and the digits.\<close>

datatype numpad_button = Blank | Backspace | Digit nat

definition numpadButtons :: "numpad_button list" where
  "numpadButtons = map Digit [1..<10] @ [Blank, Digit 0, Backspace]"

definition handleNumpadPress :: "intl \<Rightarrow> amount_config \<Rightarrow> numpad_button \<Rightarrow> amount_input \<Rightarrow> amount_input" where
  "handleNumpadPress intl cfg button s =
     (let value = (if ai_isFiat s then ai_fiatValue s else ai_satsValue s);
          handleChange = (if ai_isFiat s then handleChangeFiat else handleChangeSats)
      in case button of
           Blank \<Rightarrow> s
         | Backspace \<Rightarrow> handleChange intl cfg (butlast value) s
         | Digit d \<Rightarrow> handleChange intl cfg (value @ nat_digits d) s)"

text \<open>The message of an amount out of its limits: the limit, in satoshis and fiat, and whether to wait for the submit.\<close>

record amount_error =
  ae_i18nKey :: string
  ae_amount :: jsnum
  ae_fiatValue :: jsnum
  ae_onlyShowOnSubmit :: bool

definition exceeds :: "jsnum \<Rightarrow> jsnum option \<Rightarrow> bool" where
  "exceeds a limit = (case limit of None \<Rightarrow> False | Some l \<Rightarrow> js_lt l a)"

definition below :: "jsnum \<Rightarrow> jsnum option \<Rightarrow> bool" where
  "below a limit = (case limit of None \<Rightarrow> False | Some l \<Rightarrow> js_lt a l)"

definition validation :: "amount_config \<Rightarrow> jsnum \<Rightarrow> amount_error option" where
  "validation cfg amount =
     (if exceeds amount (ac_maximum cfg)
      then Some \<lparr>ae_i18nKey = ''errors.invalid-amount-max'', ae_amount = the (ac_maximum cfg),
                 ae_fiatValue = satToFiat (the (ac_maximum cfg)) (ac_rate cfg), ae_onlyShowOnSubmit = False\<rparr>
      else if below amount (ac_minimum cfg)
      then Some \<lparr>ae_i18nKey = ''errors.invalid-amount-min'', ae_amount = the (ac_minimum cfg),
                 ae_fiatValue = satToFiat (the (ac_minimum cfg)) (ac_rate cfg), ae_onlyShowOnSubmit = True\<rparr>
      else None)"

section \<open>Limits of requests\<close>

record lnurl_withdraw =
  lw_minWithdrawable :: "jsnum option"
  lw_maxWithdrawable :: "jsnum option"
  lw_defaultDescription :: "string option"

text \<open>The arguments of a WebLN request; the amounts are texts, as \<open>parseInt\<close> reads them, absent when falsy.\<close>

record request_args =
  ra_amount :: "string option"
  ra_defaultAmount :: "string option"
  ra_minimumAmount :: "string option"
  ra_maximumAmount :: "string option"
  ra_defaultMemo :: "string option"

record request_amount_args =
  rq_lnurlWithdrawal :: "lnurl_withdraw option"
  rq_requestInvoiceArgs :: "request_args option"
  rq_ecashRequest :: "request_args option"

text \<open>A falsy number, 0 or \<open>NaN\<close>, counts as absent.\<close>

definition truthy_num :: "jsnum option \<Rightarrow> bool" where
  "truthy_num a = (case a of None \<Rightarrow> False | Some n \<Rightarrow> js_truthy n)"

definition at_least :: "bool \<Rightarrow> jsnum \<Rightarrow> jsnum \<Rightarrow> jsnum" where
  "at_least given limit m = (if given then js_max limit m else m)"

definition at_most :: "bool \<Rightarrow> jsnum \<Rightarrow> jsnum \<Rightarrow> jsnum" where
  "at_most given limit m = (if given then js_min limit m else m)"

definition args_minimum :: "request_args option \<Rightarrow> jsnum \<Rightarrow> jsnum" where
  "args_minimum args m =
     (case args of None \<Rightarrow> m
      | Some a \<Rightarrow> at_least (truthy_str (ra_minimumAmount a)) (js_parse_int (the (ra_minimumAmount a))) m)"

definition args_maximum :: "request_args option \<Rightarrow> jsnum \<Rightarrow> jsnum" where
  "args_maximum args m =
     (case args of None \<Rightarrow> m
      | Some a \<Rightarrow> at_most (truthy_str (ra_maximumAmount a)) (js_parse_int (the (ra_maximumAmount a))) m)"

definition MAX_ECASH_SATS :: jsnum where
  "MAX_ECASH_SATS = FinI 1000000000000000"

definition useMinMaxRequestAmount :: "jsnum \<Rightarrow> request_amount_args \<Rightarrow> jsnum \<times> jsnum" where
  "useMinMaxRequestAmount maxInvoiceAmount args =
     (let (minimum, maximum) =
            (case rq_lnurlWithdrawal args of
               None \<Rightarrow> (FinI 1, maxInvoiceAmount)
             | Some w \<Rightarrow>
                 (at_least (truthy_num (lw_minWithdrawable w)) (msatToSat (the (lw_minWithdrawable w))) (FinI 1),
                  at_most (truthy_num (lw_maxWithdrawable w)) (msatToSat (the (lw_maxWithdrawable w))) maxInvoiceAmount));
          minimum = args_minimum (rq_requestInvoiceArgs args) minimum;
          maximum = args_maximum (rq_requestInvoiceArgs args) maximum;
          maximum = (if rq_ecashRequest args = None then maximum else MAX_ECASH_SATS)
      in (args_minimum (rq_ecashRequest args) minimum, args_maximum (rq_ecashRequest args) maximum))"

definition truthy_field :: "(request_args \<Rightarrow> string option) \<Rightarrow> request_args option \<Rightarrow> string option" where
  "truthy_field f args = (case args of None \<Rightarrow> None | Some a \<Rightarrow> if truthy_str (f a) then f a else None)"

fun first_amount :: "string option list \<Rightarrow> jsnum" where
  "first_amount [] = Fin 0"
| "first_amount (None # xs) = first_amount xs"
| "first_amount (Some s # xs) = js_parse_int s"

definition getDefaultRequestAmount :: "request_amount_args \<Rightarrow> jsnum" where
  "getDefaultRequestAmount args =
     (case Option.bind (rq_lnurlWithdrawal args) lw_maxWithdrawable of
        Some m \<Rightarrow>
          if js_truthy m then msatToSat m
          else first_amount [truthy_field ra_amount (rq_requestInvoiceArgs args),
                 truthy_field ra_defaultAmount (rq_requestInvoiceArgs args),
                 truthy_field ra_amount (rq_ecashRequest args), truthy_field ra_defaultAmount (rq_ecashRequest args)]
      | None \<Rightarrow>
          first_amount [truthy_field ra_amount (rq_requestInvoiceArgs args),
            truthy_field ra_defaultAmount (rq_requestInvoiceArgs args),
            truthy_field ra_amount (rq_ecashRequest args), truthy_field ra_defaultAmount (rq_ecashRequest args)])"

definition getDefaultRequestMemo :: "request_amount_args \<Rightarrow> string" where
  "getDefaultRequestMemo args =
     (let description = Option.bind (rq_lnurlWithdrawal args) lw_defaultDescription;
          memo = Option.bind (rq_requestInvoiceArgs args) ra_defaultMemo
      in if truthy_str description then the description else if truthy_str memo then the memo else [])"

text \<open>An amount the user cannot change: the last of the three kinds of request that fixes it.\<close>

definition request_exact_amount :: "request_amount_args \<Rightarrow> jsnum option" where
  "request_exact_amount args =
     (let a = (case rq_lnurlWithdrawal args of
                 None \<Rightarrow> None
               | Some w \<Rightarrow>
                   if truthy_num (lw_minWithdrawable w) \<and> lw_minWithdrawable w = lw_maxWithdrawable w
                   then Some (msatToSat (the (lw_minWithdrawable w))) else None);
          b = (case truthy_field ra_amount (rq_requestInvoiceArgs args) of None \<Rightarrow> a | Some s \<Rightarrow> Some (js_parse_int s))
      in case truthy_field ra_amount (rq_ecashRequest args) of None \<Rightarrow> b | Some s \<Rightarrow> Some (js_parse_int s))"

record request_form =
  rf_inputAmount :: jsnum
  rf_memo :: string
  rf_exactAmount :: "jsnum option"
  rf_minimumAmount :: jsnum
  rf_maximumAmount :: jsnum

text \<open>The form when it is opened, which is also what \<open>reset\<close> returns to.\<close>

definition useRequestForm :: "jsnum \<Rightarrow> request_amount_args \<Rightarrow> request_form" where
  "useRequestForm maxInvoiceAmount args =
     (let (minimum, maximum) = useMinMaxRequestAmount maxInvoiceAmount args
      in \<lparr>rf_inputAmount = getDefaultRequestAmount args, rf_memo = getDefaultRequestMemo args,
           rf_exactAmount = request_exact_amount args, rf_minimumAmount = minimum, rf_maximumAmount = maximum\<rparr>)"

section \<open>Limits of payments\<close>

record invoice =
  inv_invoice :: string
  inv_amount :: jsnum
  inv_description :: string

record lnurl_pay =
  lp_domain :: string
  lp_callback :: string
  lp_minSendable :: "jsnum option"
  lp_maxSendable :: "jsnum option"
  lp_description :: "string option"

record bip21 =
  b21_address :: string
  b21_amount :: "jsnum option"
  b21_label :: "string option"
  b21_message :: "string option"

text \<open>What is being paid; the melt of Cashu ecash is its total amount.\<close>

record send_amount_args =
  sa_btcAddress :: "string option"
  sa_bip21Payment :: "bip21 option"
  sa_invoice :: "invoice option"
  sa_lnurlPayment :: "lnurl_pay option"
  sa_cashuTotalAmount :: "jsnum option"

definition useMinMaxSendAmount :: "jsnum \<Rightarrow> send_amount_args \<Rightarrow> jsnum \<times> jsnum" where
  "useMinMaxSendAmount balance args =
     (if js_lt balance (FinI 1000) then (Fin 0, Fin 0)
      else let maximum = msatToSat balance
           in case sa_cashuTotalAmount args of
                Some total_msats \<Rightarrow> (msatToSat total_msats, maximum)
              | None \<Rightarrow>
                  if truthy_num (map_option inv_amount (sa_invoice args))
                  then (msatToSat (the (map_option inv_amount (sa_invoice args))), maximum)
                  else let minSendable = Option.bind (sa_lnurlPayment args) lp_minSendable;
                           maxSendable = Option.bind (sa_lnurlPayment args) lp_maxSendable
                       in (if truthy_num minSendable then msatToSat (the minSendable) else FinI 1,
                           if truthy_num maxSendable then js_min (msatToSat (the maxSendable)) (js_or maximum PInf) else maximum))"

definition useMinMaxWithdrawAmount :: "pool_config option \<Rightarrow> jsnum \<Rightarrow> account_info option \<Rightarrow> jsnum \<times> jsnum" where
  "useMinMaxWithdrawAmount config rate info =
     (msatToSat (selectMinimumWithdrawAmountMsats config rate info), msatToSat (selectWithdrawableStableBalanceMsats rate info))"

definition useMinMaxDepositAmount ::
  "pool_config option \<Rightarrow> jsnum \<Rightarrow> account_info option \<Rightarrow> jsnum \<Rightarrow> jsnum \<Rightarrow> jsnum \<times> jsnum"
where
  "useMinMaxDepositAmount config rate info balanceMSats maxStableBalanceSats =
     (let balanceSats = msatToSat balanceMSats
      in (selectMinimumDepositAmount config,
          if js_eq maxStableBalanceSats (Fin 0) then balanceSats
          else js_min balanceSats (js_max (Fin 0) (js_sub maxStableBalanceSats (selectStableBalanceSats rate info)))))"

text \<open>\<open>stringUtils.truncateMiddleOfString\<close>.\<close>

definition truncateMiddleOfString :: "string \<Rightarrow> nat \<Rightarrow> string" where
  "truncateMiddleOfString s n =
     (if length s \<le> n * 2 then s else take n s @ '' ... '' @ drop (length s - n) s)"

record send_form =
  sf_exactAmount :: "jsnum option"
  sf_description :: "string option"
  sf_sendTo :: "string option"
  sf_minimumAmount :: jsnum
  sf_maximumAmount :: jsnum

definition useSendForm :: "string \<Rightarrow> jsnum \<Rightarrow> send_amount_args \<Rightarrow> send_form" where
  "useSendForm meltText balance args =
     (let (minimum, maximum) = useMinMaxSendAmount balance args;
          short = (\<lambda>s. Some (truncateMiddleOfString s 8));
          form = (\<lambda>exact description to. \<lparr>sf_exactAmount = exact, sf_description = description, sf_sendTo = to,
             sf_minimumAmount = minimum, sf_maximumAmount = maximum\<rparr>);
          rest = (case sa_btcAddress args of
                    Some a \<Rightarrow> form None None (short a)
                  | None \<Rightarrow>
                      (case sa_cashuTotalAmount args of
                         Some t \<Rightarrow> form (Some (msatToSat t)) (Some meltText) None
                       | None \<Rightarrow> form None None None));
          onchain = (case sa_bip21Payment args of
                       Some b \<Rightarrow>
                         if truthy_num (b21_amount b)
                         then form (Some (btcToSat (the (b21_amount b)))) (b21_message b) (short (b21_address b)) else rest
                     | None \<Rightarrow> rest)
      in case sa_invoice args of
           Some i \<Rightarrow> form (Some (msatToSat (inv_amount i))) (Some (inv_description i)) (short (inv_invoice i))
         | None \<Rightarrow>
             (case sa_lnurlPayment args of
                Some l \<Rightarrow>
                  if truthy_num (lp_minSendable l) \<and> lp_minSendable l = lp_maxSendable l
                  then form (Some (msatToSat (the (lp_minSendable l)))) (lp_description l) None else onchain
              | None \<Rightarrow> onchain))"

section \<open>Formatted amounts\<close>

record formatted_amounts =
  formattedFiat :: string
  formattedSats :: string
  formattedUsd :: string
  formattedPrimaryAmount :: string
  formattedSecondaryAmount :: string

definition convertSatsToFormattedFiat ::
  "intl \<Rightarrow> string \<Rightarrow> string option \<Rightarrow> jsnum \<Rightarrow> jsnum \<Rightarrow> symbol_position \<Rightarrow> string"
where
  "convertSatsToFormattedFiat intl currency locale rate sats position =
     formatFiat intl (satToFiat sats rate) currency locale position"

definition convertCentsToFormattedFiat ::
  "intl \<Rightarrow> string \<Rightarrow> string option \<Rightarrow> jsnum \<Rightarrow> jsnum \<Rightarrow> jsnum \<Rightarrow> symbol_position \<Rightarrow> string"
where
  "convertCentsToFormattedFiat intl currency locale usdRate rate cents position =
     formatFiat intl (convertCentsToOtherFiat cents usdRate rate) currency locale position"

definition makeFormattedAmountsFromSats ::
  "intl \<Rightarrow> string \<Rightarrow> string option \<Rightarrow> jsnum \<Rightarrow> jsnum \<Rightarrow> bool \<Rightarrow> jsnum \<Rightarrow> symbol_position \<Rightarrow> formatted_amounts"
where
  "makeFormattedAmountsFromSats intl currency locale rate usdRate showFiat amount position =
     (let fiat = convertSatsToFormattedFiat intl currency locale rate amount position;
          usd = convertSatsToFormattedFiat intl ''USD'' locale usdRate amount position;
          sats = (if position = symbol_none then formatSats intl amount else formatSats intl amount @ '' SATS'')
      in \<lparr>formattedFiat = fiat, formattedSats = sats, formattedUsd = usd,
           formattedPrimaryAmount = (if showFiat then fiat else sats),
           formattedSecondaryAmount = (if showFiat then sats else fiat)\<rparr>)"

definition makeFormattedAmountsFromMSats ::
  "intl \<Rightarrow> string \<Rightarrow> string option \<Rightarrow> jsnum \<Rightarrow> jsnum \<Rightarrow> bool \<Rightarrow> jsnum \<Rightarrow> symbol_position \<Rightarrow> formatted_amounts"
where
  "makeFormattedAmountsFromMSats intl currency locale rate usdRate showFiat amount position =
     makeFormattedAmountsFromSats intl currency locale rate usdRate showFiat (msatToSat amount) position"

text \<open>The balance with both amounts, and its display after the word for it.\<close>

definition formattedBalance :: "formatted_amounts \<Rightarrow> string" where
  "formattedBalance f = formattedPrimaryAmount f @ '' ('' @ formattedSecondaryAmount f @ '')''"

definition useBalanceDisplay :: "string \<Rightarrow> formatted_amounts \<Rightarrow> string" where
  "useBalanceDisplay word f = word @ '': '' @ formattedBalance f"

section \<open>Reading back what was formatted\<close>

text \<open>
  The numbers are grouped by the character the parser removes: without it the format of a whole number
  is its digits, and it ends with a digit.
\<close>

definition grouped_by :: "char \<Rightarrow> intl \<Rightarrow> amount_config \<Rightarrow> bool" where
  "grouped_by c intl cfg \<longleftrightarrow>
     getThousandsSeparator intl (ac_locale cfg) = [c] \<and> \<not> is_digit_char c \<and>
     (\<forall>n. filter (\<lambda>x. x \<noteq> c) (number_format intl None (FinI (int n))) = nat_digits n \<and>
          last (number_format intl None (FinI (int n))) \<noteq> c)"

lemma filter_butlast: "xs \<noteq> [] \<Longrightarrow> P (last xs) \<Longrightarrow> filter P (butlast xs) = butlast (filter P xs)"
  by (induction xs rule: rev_induct) auto

lemma parse_digits:
  assumes "list_all is_digit_char ds" and "ds \<noteq> []" and "digits_value ds < 2 ^ 53"
  shows "js_parse_int ds = FinI (int (digits_value ds))"
proof -
  obtain c cs where ds: "ds = c # cs" using assms(2) by (cases ds) auto
  have c: "is_digit_char c" using assms(1) ds by simp
  then have "\<not> is_space c" "c \<noteq> CHR ''-''" "c \<noteq> CHR ''+''"
    by (auto simp: is_digit_char_def is_space_def char_code_def)
  then have "after_sign (js_trim_start ds) = (False, ds)"
    by (simp add: ds after_sign_def js_trim_start_def)
  moreover have tw: "takeWhile is_digit_char ds = ds" using assms(1) by (simp add: takeWhile_eq_all_conv list_all_iff)
  moreover have "rnd (of_int (int (digits_value ds))) = FinI (int (digits_value ds))"
    using assms(3) by (intro rnd_int) simp
  ultimately show ?thesis using assms(2) by (simp add: js_parse_int_def Let_def tw)
qed

lemma clamp_int: "clampSats (FinI (int n)) = FinI (int n)"
proof -
  have "\<lfloor>of_int (int n) + (1 / 2 :: rat)\<rfloor> = int n" by (rule floor_unique) auto
  then show ?thesis by (simp add: clampSats_def js_max_def)
qed

fun key_value :: "numpad_button \<Rightarrow> nat \<Rightarrow> nat" where
  "key_value Blank n = n"
| "key_value Backspace n = n div 10"
| "key_value (Digit d) n = 10 * n + d"

definition on_pad :: "numpad_button \<Rightarrow> bool" where
  "on_pad b \<longleftrightarrow> b \<in> set numpadButtons"

lemma on_pad_digit: "on_pad (Digit d) \<longleftrightarrow> d < 10"
  by (auto simp: on_pad_def numpadButtons_def)

text \<open>The texts of the sats entry that stand for an amount: formatted, and followed by a key.\<close>

lemma digit_appended:
  assumes "d < 10" and "10 * n + d < 2 ^ 53"
  shows "js_parse_int (nat_digits n @ nat_digits d) = FinI (int (10 * n + d))"
proof -
  have d: "nat_digits d = [char_of (d + 48)]" using assms(1) by (subst nat_digits.simps) simp
  have "digits_value (nat_digits n @ [char_of (d + 48)]) = 10 * n + d"
    using assms(1) by (simp add: digits_value_snoc)
  moreover have "list_all is_digit_char (nat_digits n @ nat_digits d)" using nat_digits_chars by simp
  ultimately show ?thesis using parse_digits [of "nat_digits n @ nat_digits d"] assms(2) d by simp
qed

lemma digits_butlast: "butlast (nat_digits n) = (if n < 10 then [] else nat_digits (n div 10))"
  by (subst nat_digits.simps) simp

lemma press_key:
  assumes "grouped_by c intl cfg" and "on_pad b" and "key_value b n < 2 ^ 53"
    and "\<not> ai_isFiat s" and "ai_amount s = FinI (int n)" and "ai_satsValue s = number_format intl None (FinI (int n))"
  defines "s' \<equiv> handleNumpadPress intl cfg b s"
  shows "ai_amount s' = FinI (int (key_value b n)) \<and>
    ai_satsValue s' = number_format intl None (FinI (int (key_value b n))) \<and> \<not> ai_isFiat s'"
proof -
  let ?f = "number_format intl None (FinI (int n))"
  have sep: "getThousandsSeparator intl (ac_locale cfg) = [c]" and nd: "\<not> is_digit_char c"
    and f: "filter (\<lambda>x. x \<noteq> c) ?f = nat_digits n" "last ?f \<noteq> c"
    using assms(1) unfolding grouped_by_def by blast+
  have ne: "?f \<noteq> []"
  proof
    assume "?f = []"
    then show False using f(1) nat_digits_not_Nil [of n] by simp
  qed
  have changed: "ai_amount (handleChangeSats intl cfg v s) = FinI (int k) \<and>
      ai_satsValue (handleChangeSats intl cfg v s) = number_format intl None (FinI (int k)) \<and>
      \<not> ai_isFiat (handleChangeSats intl cfg v s)"
    if "clampSats (js_parse_int (filter (\<lambda>x. x \<noteq> c) v)) = FinI (int k)" for v k
    using that assms(4) by (simp add: handleChangeSats_def Let_def sep js_replace_all_char)
  show ?thesis
  proof (cases b)
    case Blank
    then show ?thesis using assms(4-6) by (simp add: s'_def handleNumpadPress_def)
  next
    case Backspace
    have b: "filter (\<lambda>x. x \<noteq> c) (butlast ?f) = butlast (nat_digits n)" using ne f by (simp add: filter_butlast)
    have "clampSats (js_parse_int (butlast (nat_digits n))) = FinI (int (n div 10))"
    proof (cases "n < 10")
      case True
      then show ?thesis by (simp add: digits_butlast js_parse_int_def clampSats_def js_trim_start_def after_sign_def)
    next
      case False
      have "n div 10 < 2 ^ 53" using assms(3) Backspace by simp
      then show ?thesis using False parse_digits [of "nat_digits (n div 10)"] nat_digits_chars clamp_int
        by (simp add: digits_butlast)
    qed
    then show ?thesis using changed [of "butlast ?f" "n div 10"] b Backspace assms(4,6) by (simp add: s'_def handleNumpadPress_def)
  next
    case (Digit d)
    then have d: "d < 10" using assms(2) on_pad_digit by simp
    have "filter (\<lambda>x. x \<noteq> c) (nat_digits d) = nat_digits d"
      using nat_digits_chars [of d] nd by (auto simp: filter_id_conv list_all_iff)
    then have "filter (\<lambda>x. x \<noteq> c) (?f @ nat_digits d) = nat_digits n @ nat_digits d" using f(1) by simp
    then have "clampSats (js_parse_int (filter (\<lambda>x. x \<noteq> c) (?f @ nat_digits d))) = FinI (int (10 * n + d))"
      using digit_appended [OF d] assms(3) Digit clamp_int [of "10 * n + d"] by simp
    then show ?thesis using changed [of "?f @ nat_digits d" "10 * n + d"] Digit assms(4,6) by (simp add: s'_def handleNumpadPress_def)
  qed
qed

lemma key_value_bound: "on_pad b \<Longrightarrow> n < 10 ^ k \<Longrightarrow> key_value b n < 10 ^ Suc k"
  by (cases b) (auto simp: on_pad_digit div_le_dividend le_less_trans)

section \<open>Properties\<close>

text \<open>
  C32: where the numbers of the default locale are grouped by the character the form removes, the keypad
  computes decimal arithmetic: from an empty amount, up to fifteen keys give the amount of the digits
  pressed, each backspace dividing by ten, and the text shown is that amount formatted.
\<close>

theorem keypad_arithmetic:
  assumes "grouped_by c intl cfg" and "list_all on_pad bs" and "length bs \<le> 15"
  defines "s \<equiv> fold (handleNumpadPress intl cfg) bs (initialAmountInput intl cfg False (FinI 0))"
    and "n \<equiv> fold key_value bs 0"
  shows "ai_amount s = FinI (int n) \<and> ai_satsValue s = formatSats intl (FinI (int n)) \<and> \<not> ai_isFiat s"
proof -
  have "ai_amount (fold (handleNumpadPress intl cfg) bs (initialAmountInput intl cfg False (FinI 0))) = FinI (int (fold key_value bs 0)) \<and>
    ai_satsValue (fold (handleNumpadPress intl cfg) bs (initialAmountInput intl cfg False (FinI 0))) =
      number_format intl None (FinI (int (fold key_value bs 0))) \<and>
    \<not> ai_isFiat (fold (handleNumpadPress intl cfg) bs (initialAmountInput intl cfg False (FinI 0))) \<and>
    fold key_value bs 0 < 10 ^ length bs"
    using assms(2,3)
  proof (induction bs rule: rev_induct)
    case Nil
    then show ?case by (simp add: initialAmountInput_def formatSats_def)
  next
    case (snoc b bs)
    let ?n = "fold key_value bs 0"
    have ih: "?n < 10 ^ length bs" and b: "on_pad b" using snoc by simp_all
    then have n: "key_value b ?n < 10 ^ length (bs @ [b])" using key_value_bound by simp
    have "(10 :: nat) ^ length (bs @ [b]) \<le> 10 ^ 15" using snoc.prems by (intro power_increasing) simp_all
    then have "key_value b ?n < 2 ^ 53" using n by simp
    then show ?case using press_key [OF assms(1) b] snoc n by simp
  qed
  then show ?thesis by (simp add: s_def n_def formatSats_def)
qed

text \<open>Grouping by commas, as in English.\<close>

fun commas :: "string \<Rightarrow> string" where
  "commas (x # y # z # w # s) = x # y # z # CHR '','' # commas (w # s)"
| "commas s = s"

definition english_format :: "jsnum \<Rightarrow> string" where
  "english_format x = (case x of Fin q \<Rightarrow> rev (commas (rev (nat_digits (nat \<lfloor>q\<rfloor>)))) | _ \<Rightarrow> [])"

definition sample_intl :: intl where
  "sample_intl = \<lparr>number_format = (\<lambda>l. english_format), currency_format = (\<lambda>l c. english_format),
     plain_currency_format = (\<lambda>l c. english_format), currency_decimals = (\<lambda>l c. FinI 2)\<rparr>"

definition sample_form :: amount_config where
  "sample_form = \<lparr>ac_rate = FinI 60000, ac_currency = ''USD'', ac_locale = None, ac_minimum = None, ac_maximum = None\<rparr>"

lemma filter_commas: "\<forall>x \<in> set s. is_digit_char x \<Longrightarrow> filter (\<lambda>x. x \<noteq> CHR '','') (commas s) = s"
  by (induction s rule: commas.induct) (auto simp: is_digit_char_def)

lemma hd_commas: "s \<noteq> [] \<Longrightarrow> commas s \<noteq> [] \<and> hd (commas s) = hd s"
  by (cases s rule: commas.cases) auto

lemma sample_grouped: "grouped_by CHR '','' sample_intl sample_form"
  unfolding grouped_by_def
proof (intro conjI allI)
  show "getThousandsSeparator sample_intl (ac_locale sample_form) = '',''"
    by (simp add: getThousandsSeparator_def sample_intl_def english_format_def nat_digits.simps is_number_char_def
        is_digit_char_def char_code_def)
  show "\<not> is_digit_char CHR '',''" by (simp add: is_digit_char_def)
next
  fix n
  have d: "\<forall>x \<in> set (rev (nat_digits n)). is_digit_char x" using nat_digits_chars [of n] by (simp add: list_all_iff)
  have "filter (\<lambda>x. x \<noteq> CHR '','') (rev (commas (rev (nat_digits n)))) = rev (rev (nat_digits n))"
    using filter_commas [OF d] by (simp add: rev_filter [symmetric])
  then show "filter (\<lambda>x. x \<noteq> CHR '','') (number_format sample_intl None (FinI (int n))) = nat_digits n"
    by (simp add: sample_intl_def english_format_def)
  have h: "commas (rev (nat_digits n)) \<noteq> [] \<and> hd (commas (rev (nat_digits n))) = last (nat_digits n)"
    using hd_commas [of "rev (nat_digits n)"] by (simp add: hd_rev)
  have "last (nat_digits n) \<in> set (rev (nat_digits n))" by simp
  then have "is_digit_char (last (nat_digits n))" using d by blast
  then show "last (number_format sample_intl None (FinI (int n))) \<noteq> CHR '',''"
    using h by (auto simp: sample_intl_def english_format_def last_rev is_digit_char_def)
qed

theorem keypad_arithmetic_witness:
  "ai_amount (fold (handleNumpadPress sample_intl sample_form) [Digit 1, Digit 2, Digit 5, Backspace, Digit 0, Digit 7]
     (initialAmountInput sample_intl sample_form False (FinI 0))) = FinI 1207"
  using keypad_arithmetic [OF sample_grouped, of "[Digit 1, Digit 2, Digit 5, Backspace, Digit 0, Digit 7]"]
  by (simp add: on_pad_def numpadButtons_def)

text \<open>
  The amount shown is formatted in the default locale but read in the one of the store: when the two
  group by different characters, a key after an amount of four digits leaves only what is before the
  first group.
\<close>

theorem foreign_group_truncates:
  assumes "getThousandsSeparator intl (ac_locale cfg) = [c]" and "ai_satsValue s = nat_digits g @ x # rest"
    and "\<not> is_digit_char c" and "x \<noteq> c" and "\<not> is_digit_char x" and "g < 2 ^ 53" and "\<not> ai_isFiat s" and "d < 10"
  shows "ai_amount (handleNumpadPress intl cfg (Digit d) s) = FinI (int g)"
proof -
  have "\<forall>y \<in> set (nat_digits g). is_digit_char y" using nat_digits_chars [of g] by (simp add: list_all_iff)
  then have f: "filter (\<lambda>x. x \<noteq> c) (nat_digits g) = nat_digits g" using assms(3) by (auto simp: filter_id_conv)
  obtain h t where h: "nat_digits g = h # t" by (cases "nat_digits g") auto
  have hd: "is_digit_char h" using nat_digits_chars [of g] h by simp
  then have sg: "\<not> is_space h" "h \<noteq> CHR ''-''" "h \<noteq> CHR ''+''"
    by (auto simp: is_digit_char_def is_space_def char_code_def)
  have "takeWhile is_digit_char (nat_digits g @ x # r) = nat_digits g" for r
    using nat_digits_chars [of g] assms(5) by (simp add: list_all_iff takeWhile_append2)
  moreover have "after_sign (js_trim_start (nat_digits g @ r)) = (False, nat_digits g @ r)" for r
    using sg by (simp add: h after_sign_def js_trim_start_def)
  moreover have "rnd (of_int (int g)) = FinI (int g)" using assms(6) by (intro rnd_int) simp
  ultimately have "js_parse_int (nat_digits g @ x # r) = FinI (int g)" for r
    by (simp add: js_parse_int_def)
  then show ?thesis
    using assms(1,2,4,7) f clamp_int [of g]
    by (simp add: handleNumpadPress_def handleChangeSats_def Let_def js_replace_all_char)
qed

text \<open>
  C33: whatever is being paid, the largest amount of a payment is a whole number of satoshis that the
  balance covers, and below a thousand millisatoshis nothing can be sent.
\<close>

theorem send_within_balance:
  assumes "safe b" and "0 \<le> b"
    and "\<forall>m. Option.bind (sa_lnurlPayment args) lp_maxSendable = Some m \<longrightarrow> (\<exists>k. m = FinI k \<and> 0 \<le> k \<and> safe k)"
  shows "\<exists>k. snd (useMinMaxSendAmount (FinI b) args) = FinI k \<and> 0 \<le> k \<and> 1000 * k \<le> b \<and> (b < 1000 \<longrightarrow> k = 0)"
proof (cases "b < 1000")
  case True
  then show ?thesis using assms(2) js_lt_int [of b 1000] by (intro exI [of _ 0]) (simp add: useMinMaxSendAmount_def)
next
  case False
  let ?max = "Option.bind (sa_lnurlPayment args) lp_maxSendable"
  have lt: "\<not> js_lt (FinI b) (FinI 1000)" using False by simp
  have m: "msatToSat (FinI b) = FinI (b div 1000)" using assms(1) by (rule msatToSat_int)
  have orm: "js_or (FinI (b div 1000)) PInf = FinI (b div 1000)" using False by (simp add: js_or_def)
  have k: "0 \<le> b div 1000" "1000 * (b div 1000) \<le> b" using assms(2) by (simp_all add: pos_imp_zdiv_nonneg_iff)
  have "snd (useMinMaxSendAmount (FinI b) args) = FinI (b div 1000) \<or>
    truthy_num ?max \<and> snd (useMinMaxSendAmount (FinI b) args) = js_min (msatToSat (the ?max)) (FinI (b div 1000))"
    using False by (cases "sa_cashuTotalAmount args") (simp_all add: useMinMaxSendAmount_def Let_def m orm)
  then consider "snd (useMinMaxSendAmount (FinI b) args) = FinI (b div 1000)"
    | n where "?max = Some n" "snd (useMinMaxSendAmount (FinI b) args) = js_min (msatToSat n) (FinI (b div 1000))"
    by (cases ?max) (auto simp: truthy_num_def)
  then show ?thesis
  proof cases
    case 1
    then show ?thesis using k False by blast
  next
    case 2
    obtain j where j: "n = FinI j" "0 \<le> j" "safe j" using assms(3) 2(1) by blast
    have "js_min (msatToSat n) (FinI (b div 1000)) = FinI (min (j div 1000) (b div 1000))"
      using msatToSat_int [OF j(3)] j(1) js_min_int by simp
    moreover have "0 \<le> min (j div 1000) (b div 1000)" using k(1) j(2) by (simp add: pos_imp_zdiv_nonneg_iff)
    moreover have "1000 * min (j div 1000) (b div 1000) \<le> b" using k(2) by (simp add: min_def)
    ultimately show ?thesis using 2(2) False by auto
  qed
qed

definition sample_send :: send_amount_args where
  "sample_send = \<lparr>sa_btcAddress = None, sa_bip21Payment = None, sa_invoice = None,
     sa_lnurlPayment = Some \<lparr>lp_domain = ''d'', lp_callback = ''c'', lp_minSendable = Some (FinI 1500),
       lp_maxSendable = Some (FinI 9000), lp_description = None\<rparr>, sa_cashuTotalAmount = None\<rparr>"

theorem send_within_balance_witness:
  "\<exists>k. snd (useMinMaxSendAmount (FinI 7500) sample_send) = FinI k \<and> 0 \<le> k \<and> 1000 * k \<le> 7500 \<and> (7500 < (1000 :: int) \<longrightarrow> k = 0)"
proof (rule send_within_balance)
  show "\<forall>m. Option.bind (sa_lnurlPayment sample_send) lp_maxSendable = Some m \<longrightarrow> (\<exists>k. m = FinI k \<and> 0 \<le> k \<and> safe k)"
    by (auto simp: sample_send_def safe_def intro!: exI [of _ 9000])
qed (simp_all add: safe_def)

text \<open>The smallest amount of an LNURL payment is its limit rounded down to whole satoshis, so up to a satoshi below it.\<close>

theorem lnurl_minimum_rounded_down:
  assumes "1000 \<le> b" and "sa_cashuTotalAmount args = None" and "sa_invoice args = None"
    and "sa_lnurlPayment args = Some l" and "lp_minSendable l = Some (FinI n)" and "n \<noteq> 0" and "safe n"
  shows "fst (useMinMaxSendAmount (FinI b) args) = FinI (n div 1000)"
  using assms(1-6) msatToSat_int [OF assms(7)] by (simp add: useMinMaxSendAmount_def truthy_num_def js_truthy_def Let_def)

end
