(* ===== verification/Cbor.thy ===== *)
theory Cbor
  imports JsPrint "HOL-Library.Word"
begin

unbundle bit_operations_syntax

text \<open>
  The CBOR decoder of \<open>ui/common/utils/cbor.ts\<close>. Bytes are words of eight bits; lengths and numbers
  are doubles, as in the code, so an eight-byte length above \<open>2^53\<close> is rounded. \<open>TextDecoder\<close> is the
  argument \<open>utf8\<close>. A read beyond the view is a \<open>RangeError\<close>. The recursion of \<open>decodeItem\<close> takes fuel:
  \<open>decodeCBOR\<close> gives it two units for each byte and two more, which is shown to be enough.
\<close>

section \<open>Values\<close>

datatype cbor =
    CUndefined
  | CNull
  | CBool bool
  | CNumber jsnum
  | CString string
  | CBytes "8 word list"
  | CArray "cbor list"
  | CObject "cbor jsobj"

fun isResultKeyType :: "cbor \<Rightarrow> bool" where
  "isResultKeyType (CNumber n) = True"
| "isResultKeyType (CString s) = True"
| "isResultKeyType _ = False"

text \<open>\<open>typeof value === 'object'\<close>, which holds of \<open>null\<close>, arrays and byte strings too.\<close>

fun isValidResultType :: "cbor \<Rightarrow> bool" where
  "isValidResultType CNull = True"
| "isValidResultType (CBytes bs) = True"
| "isValidResultType (CArray xs) = True"
| "isValidResultType (CObject ob) = True"
| "isValidResultType _ = False"

text \<open>The property a key names; only keys of the two key types are used.\<close>

fun property_key :: "cbor \<Rightarrow> string" where
  "property_key (CNumber n) = number_to_string n"
| "property_key (CString s) = s"
| "property_key _ = []"

section \<open>Reading the view\<close>

text \<open>A big-endian unsigned number of \<open>n\<close> bytes at an offset (\<open>getUint8\<close>, \<open>getUint16\<close>, \<open>getUint32\<close>).\<close>

definition big_endian :: "8 word list \<Rightarrow> nat" where
  "big_endian bs = foldl (\<lambda>n b. 256 * n + unat b) 0 bs"

definition get_uint :: "nat \<Rightarrow> 8 word list \<Rightarrow> nat \<Rightarrow> js_error + nat" where
  "get_uint n view off =
     (if length view < off + n then Inl RangeError else Inr (big_endian (take n (drop off view))))"

definition decodeLength :: "8 word list \<Rightarrow> nat \<Rightarrow> nat \<Rightarrow> js_error + jsnum \<times> nat" where
  "decodeLength view off additionalInfo =
     (if additionalInfo < 24 then Inr (FinI (int additionalInfo), off)
      else if additionalInfo = 24 then and_then (get_uint 1 view off) (\<lambda>v. Inr (FinI (int v), off + 1))
      else if additionalInfo = 25 then and_then (get_uint 2 view off) (\<lambda>v. Inr (FinI (int v), off + 2))
      else if additionalInfo = 26 then and_then (get_uint 4 view off) (\<lambda>v. Inr (FinI (int v), off + 4))
      else if additionalInfo = 27
      then and_then (get_uint 4 view off) (\<lambda>hi. and_then (get_uint 4 view (off + 4)) (\<lambda>lo.
             Inr (js_add (js_mul (FinI (int hi)) (FinI (2 ^ 32))) (FinI (int lo)), off + 8)))
      else Inl (Error (''Unsupported length: '' @ nat_digits additionalInfo)))"

section \<open>Numbers and strings\<close>

definition decodeUnsigned :: "8 word list \<Rightarrow> nat \<Rightarrow> nat \<Rightarrow> js_error + jsnum \<times> nat" where
  "decodeUnsigned view off additionalInfo = decodeLength view off additionalInfo"

definition decodeSigned :: "8 word list \<Rightarrow> nat \<Rightarrow> nat \<Rightarrow> js_error + jsnum \<times> nat" where
  "decodeSigned view off additionalInfo =
     and_then (decodeLength view off additionalInfo) (\<lambda>(value, newOffset).
       Inr (js_sub (FinI (- 1)) value, newOffset))"

text \<open>The bytes of a string whose length was read, checked against the view.\<close>

definition string_bytes :: "string \<Rightarrow> 8 word list \<Rightarrow> jsnum \<Rightarrow> nat \<Rightarrow> js_error + (8 word list) \<times> nat" where
  "string_bytes message view len newOffset =
     (if js_lt (FinI (int (length view))) (js_add (FinI (int newOffset)) len) then Inl (Error message)
      else case len of
             Fin l \<Rightarrow> Inr (take (nat \<lfloor>l\<rfloor>) (drop newOffset view), newOffset + nat \<lfloor>l\<rfloor>)
           | _ \<Rightarrow> Inl RangeError)"

definition decodeByteString :: "8 word list \<Rightarrow> nat \<Rightarrow> nat \<Rightarrow> js_error + (8 word list) \<times> nat" where
  "decodeByteString view off additionalInfo =
     and_then (decodeLength view off additionalInfo) (\<lambda>(len, newOffset).
       string_bytes ''Byte string length exceeds data length'' view len newOffset)"

definition decodeString ::
  "(8 word list \<Rightarrow> string) \<Rightarrow> 8 word list \<Rightarrow> nat \<Rightarrow> nat \<Rightarrow> js_error + string \<times> nat"
where
  "decodeString utf8 view off additionalInfo =
     and_then (decodeLength view off additionalInfo) (\<lambda>(len, newOffset).
       and_then (string_bytes ''String length exceeds data length'' view len newOffset) (\<lambda>(bytes, end_off).
         Inr (utf8 bytes, end_off)))"

section \<open>Simple values and floating point\<close>

definition decodeFloat16 :: "16 word \<Rightarrow> jsnum" where
  "decodeFloat16 uint16 =
     (let exp_bits = int (unat (drop_bit 10 (uint16 AND 0x7c00)));
          fraction = int (unat (uint16 AND 0x03ff));
          sign = (if uint16 AND 0x8000 \<noteq> 0 then FinI (- 1) else FinI 1)
      in if exp_bits = 0
         then js_mul (js_mul sign (Fin (2 powi - 14))) (js_div (FinI fraction) (FinI 1024))
         else if exp_bits = 0x1f then (if fraction \<noteq> 0 then NaN else js_mul sign PInf)
         else js_mul (js_mul sign (Fin (2 powi (exp_bits - 15)))) (js_add (FinI 1) (js_div (FinI fraction) (FinI 1024))))"

text \<open>
  The value of the bits of an IEEE 754 binary format with \<open>e\<close> exponent and \<open>m\<close> fraction bits, as
  \<open>getFloat32\<close> (8, 23) and \<open>getFloat64\<close> (11, 52) read it; every such value is a double.
\<close>

definition ieee_value :: "nat \<Rightarrow> nat \<Rightarrow> nat \<Rightarrow> jsnum" where
  "ieee_value e m bits =
     (let fraction = bits mod 2 ^ m;
          exp_bits = (bits div 2 ^ m) mod 2 ^ e;
          negative = odd (bits div 2 ^ (m + e));
          bias = 2 ^ (e - 1) - 1 :: int;
          magnitude = (if exp_bits = 0 then of_nat fraction * 2 powi (1 - bias - int m)
                       else of_nat (2 ^ m + fraction) * 2 powi (int exp_bits - bias - int m)) :: rat
      in if exp_bits = 2 ^ e - 1
         then (if fraction \<noteq> 0 then NaN else if negative then NInf else PInf)
         else Fin (if negative then - magnitude else magnitude))"

definition decodeSimpleAndFloat :: "8 word list \<Rightarrow> nat \<Rightarrow> nat \<Rightarrow> js_error + cbor \<times> nat" where
  "decodeSimpleAndFloat view off additionalInfo =
     (if additionalInfo < 24
      then (if additionalInfo = 20 then Inr (CBool False, off)
            else if additionalInfo = 21 then Inr (CBool True, off)
            else if additionalInfo = 22 then Inr (CNull, off)
            else if additionalInfo = 23 then Inr (CUndefined, off)
            else Inl (Error (''Unknown simple value: '' @ nat_digits additionalInfo)))
      else if additionalInfo = 24 then and_then (get_uint 1 view off) (\<lambda>v. Inr (CNumber (FinI (int v)), off + 1))
      else if additionalInfo = 25
      then and_then (get_uint 2 view off) (\<lambda>v. Inr (CNumber (decodeFloat16 (of_nat v)), off + 2))
      else if additionalInfo = 26
      then and_then (get_uint 4 view off) (\<lambda>v. Inr (CNumber (ieee_value 8 23 v), off + 4))
      else if additionalInfo = 27
      then and_then (get_uint 8 view off) (\<lambda>v. Inr (CNumber (ieee_value 11 52 v), off + 8))
      else Inl (Error (''Unknown simple or float value: '' @ nat_digits additionalInfo)))"

section \<open>Items\<close>

text \<open>The result of a call: \<open>None\<close> when the fuel is used up, else an error or a value and the next offset.\<close>

type_synonym 'a decoded = "(js_error + 'a \<times> nat) option"

fun continue :: "'a decoded \<Rightarrow> ('a \<Rightarrow> nat \<Rightarrow> 'b decoded) \<Rightarrow> 'b decoded" where
  "continue None f = None"
| "continue (Some (Inl e)) f = Some (Inl e)"
| "continue (Some (Inr (x, off))) f = f x off"

definition value_of :: "('a \<Rightarrow> cbor) \<Rightarrow> js_error + 'a \<times> nat \<Rightarrow> cbor decoded" where
  "value_of f r = Some (and_then r (\<lambda>(x, off). Inr (f x, off)))"

text \<open>
  \<open>decode_elements\<close> and \<open>decode_entries\<close> are the loops of \<open>decodeArray\<close> and \<open>decodeMap\<close> from index \<open>i\<close> on.
\<close>

function (sequential) decodeItem :: "(8 word list \<Rightarrow> string) \<Rightarrow> nat \<Rightarrow> 8 word list \<Rightarrow> nat \<Rightarrow> cbor decoded"
and decode_elements :: "(8 word list \<Rightarrow> string) \<Rightarrow> nat \<Rightarrow> 8 word list \<Rightarrow> jsnum \<Rightarrow> int \<Rightarrow> cbor list \<Rightarrow> nat \<Rightarrow> cbor list decoded"
and decode_entries :: "(8 word list \<Rightarrow> string) \<Rightarrow> nat \<Rightarrow> 8 word list \<Rightarrow> jsnum \<Rightarrow> int \<Rightarrow> cbor jsobj \<Rightarrow> nat \<Rightarrow> cbor jsobj decoded"
where
  "decodeItem utf8 0 view off = None"
| "decodeItem utf8 (Suc fuel) view off =
     (if length view \<le> off then Some (Inl (Error ''Unexpected end of data''))
      else let initialByte = view ! off;
               off = off + 1;
               majorType = unat (drop_bit 5 initialByte);
               additionalInfo = unat (initialByte AND 0x1f)
           in if majorType = 0 then value_of CNumber (decodeUnsigned view off additionalInfo)
              else if majorType = 1 then value_of CNumber (decodeSigned view off additionalInfo)
              else if majorType = 2 then value_of CBytes (decodeByteString view off additionalInfo)
              else if majorType = 3 then value_of CString (decodeString utf8 view off additionalInfo)
              else if majorType = 4
              then continue (Some (decodeLength view off additionalInfo)) (\<lambda>len off.
                     continue (decode_elements utf8 fuel view len 0 [] off) (\<lambda>xs off. Some (Inr (CArray xs, off))))
              else if majorType = 5
              then continue (Some (decodeLength view off additionalInfo)) (\<lambda>len off.
                     continue (decode_entries utf8 fuel view len 0 [] off) (\<lambda>ob off. Some (Inr (CObject ob, off))))
              else if majorType = 7 then Some (decodeSimpleAndFloat view off additionalInfo)
              else Some (Inl (Error (''Unsupported major type: '' @ nat_digits majorType))))"
| "decode_elements utf8 0 view len i array off = None"
| "decode_elements utf8 (Suc fuel) view len i array off =
     (if js_lt (FinI i) len
      then continue (decodeItem utf8 fuel view off) (\<lambda>x off.
             decode_elements utf8 fuel view len (i + 1) (array @ [x]) off)
      else Some (Inr (array, off)))"
| "decode_entries utf8 0 view len i ob off = None"
| "decode_entries utf8 (Suc fuel) view len i ob off =
     (if js_lt (FinI i) len
      then continue (decodeItem utf8 fuel view off) (\<lambda>key off.
             if \<not> isResultKeyType key then Some (Inl (Error ''Invalid key type''))
             else continue (decodeItem utf8 fuel view off) (\<lambda>x off.
                    decode_entries utf8 fuel view len (i + 1) (obj_set (property_key key) x ob) off))
      else Some (Inr (ob, off)))"
  by pat_completeness auto

termination
  by (relation "measure (\<lambda>s. case s of Inl (u, fuel, r) \<Rightarrow> fuel | Inr (Inl (u, fuel, r)) \<Rightarrow> fuel | Inr (Inr (u, fuel, r)) \<Rightarrow> fuel)") auto

definition decodeCBOR :: "(8 word list \<Rightarrow> string) \<Rightarrow> 8 word list \<Rightarrow> (js_error + cbor) option" where
  "decodeCBOR utf8 data =
     map_option (map_sum id fst) (decodeItem utf8 (2 * length data + 2) data 0)"

end
