(* ===== verification/CborLaws.thy ===== *)
theory CborLaws
  imports Cbor
begin

text \<open>
  The laws of the CBOR decoder: it always returns (its fuel is enough for every input), it reads back
  what the encoder of RFC 8949, section 3, writes, and its half-precision numbers are those of IEEE 754.
\<close>

section \<open>The decoder returns\<close>

lemma decodeLength_offset: "decodeLength view off i = Inr (n, o') \<Longrightarrow> off \<le> o'"
  by (auto simp: decodeLength_def get_uint_def split: if_splits)

lemma string_bytes_offset: "string_bytes m view len off = Inr (bs, o') \<Longrightarrow> off \<le> o'"
  by (auto simp: string_bytes_def split: if_splits jsnum.splits)

lemma simple_offset: "decodeSimpleAndFloat view off i = Inr (x, o') \<Longrightarrow> off \<le> o'"
  by (auto simp: decodeSimpleAndFloat_def get_uint_def split: if_splits)

lemma and_then_Inr: "and_then r f = Inr y \<longleftrightarrow> (\<exists>x. r = Inr x \<and> f x = Inr y)"
  by (cases r) auto

lemma continue_Some:
  "continue r f = Some (Inr (y, o')) \<longleftrightarrow> (\<exists>x off. r = Some (Inr (x, off)) \<and> f x off = Some (Inr (y, o')))"
  by (cases "(r, f)" rule: continue.cases) auto

lemma continue_None: "continue r f = None \<longleftrightarrow> r = None \<or> (\<exists>x off. r = Some (Inr (x, off)) \<and> f x off = None)"
  by (cases "(r, f)" rule: continue.cases) auto

lemma value_of_Some: "value_of f r = Some (Inr (y, o')) \<longleftrightarrow> (\<exists>x. r = Inr (x, o') \<and> y = f x)"
  by (auto simp: value_of_def and_then_Inr)

lemma decoded_offsets:
  "decodeItem utf8 fuel view off = Some (Inr (x, o')) \<Longrightarrow> off < o'"
  "decode_elements utf8 fuel view len i xs off = Some (Inr (ys, o')) \<Longrightarrow> off \<le> o'"
  "decode_entries utf8 fuel view len i ob off = Some (Inr (ob', o')) \<Longrightarrow> off \<le> o'"
proof (induction fuel arbitrary: off x o' i xs ys ob ob' len)
  case 0
  { case 1 then show ?case by simp }
  { case 2 then show ?case by simp }
  { case 3 then show ?case by simp }
next
  case (Suc fuel)
  { case 1
    then show ?case
      by (auto simp: Let_def continue_Some value_of_Some and_then_Inr decodeUnsigned_def decodeSigned_def
          decodeByteString_def decodeString_def Suc_le_eq [symmetric] split: if_splits
          dest!: decodeLength_offset string_bytes_offset simple_offset Suc.IH(2,3)) }
  { case 2 then show ?case
      by (auto simp: continue_Some split: if_splits dest!: Suc.IH(1) Suc.IH(2)) }
  { case 3 then show ?case
      by (auto simp: continue_Some split: if_splits dest!: Suc.IH(1) Suc.IH(3)) }
qed

lemma decoder_returns:
  "2 * (length view - off) + 1 \<le> fuel \<Longrightarrow> decodeItem utf8 fuel view off \<noteq> None"
  "2 * (length view - off) + 2 \<le> fuel \<Longrightarrow> decode_elements utf8 fuel view len i xs off \<noteq> None"
  "2 * (length view - off) + 2 \<le> fuel \<Longrightarrow> decode_entries utf8 fuel view len i ob off \<noteq> None"
proof (induction fuel arbitrary: off i xs ob len)
  case 0
  { case 1 then show ?case by simp }
  { case 2 then show ?case by simp }
  { case 3 then show ?case by simp }
next
  case (Suc fuel)
  have item: "decodeItem utf8 fuel view off \<noteq> None" if "2 * (length view - off) + 1 \<le> fuel" for off
    using Suc.IH(1) that by blast
  { case 1
    have later: "2 * (length view - o') + 2 \<le> fuel"
      if "decodeLength view (off + 1) a = Inr (n, o')" "\<not> length view \<le> off" for a n o'
      using decodeLength_offset [OF that(1)] that(2) 1 by linarith
    show ?case
      using Suc.IH(2,3) later by (auto simp: Let_def continue_None value_of_def simp del: not_None_eq) }
  { case 2
    have "decode_elements utf8 fuel view len (i + 1) (xs @ [x]) o' \<noteq> None"
      if "decodeItem utf8 fuel view off = Some (Inr (x, o'))" for x o'
    proof -
      have "off < o'" using that by (rule decoded_offsets)
      moreover have "off < length view" using that by (cases fuel) (auto split: if_splits)
      ultimately show ?thesis using 2 by (intro Suc.IH(2)) linarith
    qed
    then show ?case using item [of off] 2 by (auto simp: continue_None simp del: not_None_eq) }
  { case 3
    have "decode_entries utf8 fuel view len (i + 1) (obj_set (property_key k) x ob) o'' \<noteq> None"
      if "decodeItem utf8 fuel view off = Some (Inr (k, o'))" "decodeItem utf8 fuel view o' = Some (Inr (x, o''))" for k x o' o''
    proof -
      have "off < o'" "o' < o''" using that by (auto intro: decoded_offsets)
      moreover have "off < length view" using that(1) by (cases fuel) (auto split: if_splits)
      ultimately show ?thesis using 3 by (intro Suc.IH(3)) linarith
    qed
    moreover have "decodeItem utf8 fuel view o' \<noteq> None" if "decodeItem utf8 fuel view off = Some (Inr (k, o'))" for k o'
    proof -
      have "off < o'" using that by (rule decoded_offsets)
      moreover have "off < length view" using that by (cases fuel) (auto split: if_splits)
      ultimately show ?thesis using 3 by (intro item) linarith
    qed
    ultimately show ?case using item [of off] 3 by (auto simp: continue_None simp del: not_None_eq) }
qed

section \<open>An encoder\<close>

text \<open>The encoding of RFC 8949 with definite lengths and the shortest heads.\<close>

fun big_endian_bytes :: "nat \<Rightarrow> nat \<Rightarrow> 8 word list" where
  "big_endian_bytes 0 n = []"
| "big_endian_bytes (Suc k) n = big_endian_bytes k (n div 256) @ [word_of_nat n]"

definition head_bytes :: "nat \<Rightarrow> nat \<Rightarrow> 8 word list" where
  "head_bytes major n =
     (if n < 24 then [word_of_nat (32 * major + n)]
      else if n < 2 ^ 8 then word_of_nat (32 * major + 24) # big_endian_bytes 1 n
      else if n < 2 ^ 16 then word_of_nat (32 * major + 25) # big_endian_bytes 2 n
      else if n < 2 ^ 32 then word_of_nat (32 * major + 26) # big_endian_bytes 4 n
      else word_of_nat (32 * major + 27) # (big_endian_bytes 4 (n div 2 ^ 32) @ big_endian_bytes 4 (n mod 2 ^ 32)))"

definition ascii_bytes :: "string \<Rightarrow> 8 word list" where
  "ascii_bytes s = map of_char s"

definition encode_number :: "rat \<Rightarrow> 8 word list" where
  "encode_number x = (if 0 \<le> x then head_bytes 0 (nat \<lfloor>x\<rfloor>) else head_bytes 1 (nat (- 1 - \<lfloor>x\<rfloor>)))"

fun encode :: "cbor \<Rightarrow> 8 word list" where
  "encode CUndefined = [0xf7]"
| "encode CNull = [0xf6]"
| "encode (CBool b) = [if b then 0xf5 else 0xf4]"
| "encode (CNumber (Fin x)) = encode_number x"
| "encode (CNumber _) = []"
| "encode (CString s) = head_bytes 3 (length s) @ ascii_bytes s"
| "encode (CBytes bs) = head_bytes 2 (length bs) @ bs"
| "encode (CArray xs) = head_bytes 4 (length xs) @ concat (map encode xs)"
| "encode (CObject ob) =
     head_bytes 5 (length ob) @ concat (map (\<lambda>(k, x). head_bytes 3 (length k) @ ascii_bytes k @ encode x) ob)"

text \<open>Whole numbers below \<open>2^53\<close>, ASCII strings, objects without repeated keys.\<close>

definition ascii :: "string \<Rightarrow> bool" where
  "ascii s = list_all (\<lambda>c. (of_char c :: nat) < 128) s"

fun encodable :: "cbor \<Rightarrow> bool" where
  "encodable (CNumber x) = (case x of Fin q \<Rightarrow> q = of_int \<lfloor>q\<rfloor> \<and> safe \<lfloor>q\<rfloor> | _ \<Rightarrow> False)"
| "encodable (CString s) = ascii s"
| "encodable (CArray xs) = (\<forall>x \<in> set xs. encodable x)"
| "encodable (CObject ob) = (distinct (map fst ob) \<and> (\<forall>(k, x) \<in> set ob. ascii k \<and> encodable x))"
| "encodable _ = True"

section \<open>Reading a head\<close>

lemma length_big_endian_bytes [simp]: "length (big_endian_bytes k n) = k"
  by (induction k arbitrary: n) auto

lemma unat_byte: "unat (word_of_nat n :: 8 word) = n mod 256"
  by (simp add: unat_of_nat)

lemma big_endian_snoc: "big_endian (bs @ [b]) = 256 * big_endian bs + unat b"
  by (simp add: big_endian_def)

lemma big_endian_bytes_inverse: "n < 256 ^ k \<Longrightarrow> big_endian (big_endian_bytes k n) = n"
proof (induction k arbitrary: n)
  case 0
  then show ?case by (simp add: big_endian_def)
next
  case (Suc k)
  have "n div 256 < 256 ^ k" using Suc.prems by (simp add: less_mult_imp_div_less mult.commute)
  then have "big_endian (big_endian_bytes k (n div 256)) = n div 256" by (rule Suc.IH)
  then show ?case by (simp add: big_endian_snoc unat_byte)
qed

lemma get_uint_at: "length bs = n \<Longrightarrow> get_uint n (pre @ bs @ post) (length pre) = Inr (big_endian bs)"
  by (simp add: get_uint_def)

lemma initial_byte:
  assumes "major < 8" and "info < 32"
  shows "unat (drop_bit 5 (word_of_nat (32 * major + info) :: 8 word)) = major"
    and "unat ((word_of_nat (32 * major + info) :: 8 word) AND 0x1f) = info"
proof -
  have n: "(32 * major + info) mod 256 = 32 * major + info" using assms by simp
  have u: "unat (word_of_nat (32 * major + info) :: 8 word) = 32 * major + info"
    using n by (simp only: unat_byte)
  show "unat (drop_bit 5 (word_of_nat (32 * major + info) :: 8 word)) = major"
    unfolding unat_drop_bit_eq u using assms(2) by (simp add: drop_bit_eq_div)
  have mask: "w AND 0x1f = take_bit 5 w" for w :: "8 word"
    by (simp add: take_bit_eq_mask mask_eq_exp_minus_1)
  show "unat ((word_of_nat (32 * major + info) :: 8 word) AND 0x1f) = info"
    unfolding mask unsigned_take_bit_eq u using assms(2) by (simp add: take_bit_eq_mod)
qed

text \<open>The head of an item, split into its first byte and the rest.\<close>

lemma head_read:
  assumes "major < 8" and "n < 2 ^ 53"
  obtains b ext where "head_bytes major n = b # ext"
    and "unat (drop_bit 5 b) = major"
    and "\<And>pre post. decodeLength (pre @ (b # ext) @ post) (Suc (length pre)) (unat (b AND 0x1f)) =
          Inr (FinI (int n), length pre + length (b # ext))"
proof -
  define info where "info = (if n < 24 then n else if n < 2 ^ 8 then 24 else if n < 2 ^ 16 then 25 else if n < 2 ^ 32 then 26 else 27)"
  define ext where "ext = tl (head_bytes major n)"
  let ?b = "word_of_nat (32 * major + info) :: 8 word"
  have h: "head_bytes major n = ?b # ext" by (simp add: head_bytes_def info_def ext_def)
  have i: "info < 32" by (simp add: info_def)
  have at: "get_uint k (pre @ (?b # bs) @ post) (Suc (length pre)) = Inr (big_endian bs)" if "length bs = k" for k bs pre post
    using get_uint_at [OF that, of "pre @ [?b]" post] by simp
  have "decodeLength (pre @ (?b # ext) @ post) (Suc (length pre)) info = Inr (FinI (int n), length pre + length (?b # ext))" for pre post
  proof (cases "n < 2 ^ 32")
    case True
    then show ?thesis
      using at [of ext 1 pre post] at [of ext 2 pre post] at [of ext 4 pre post]
        big_endian_bytes_inverse [of n 1] big_endian_bytes_inverse [of n 2] big_endian_bytes_inverse [of n 4]
      by (auto simp: decodeLength_def info_def ext_def head_bytes_def split: if_splits)
  next
    case False
    let ?hi = "n div 2 ^ 32" and ?lo = "n mod 2 ^ 32"
    have e: "ext = big_endian_bytes 4 ?hi @ big_endian_bytes 4 ?lo" and f: "info = 27"
      using False by (simp_all add: ext_def head_bytes_def info_def)
    have hi: "?hi < 2 ^ 21" using assms(2) by (simp add: div_less_iff_less_mult)
    have g1: "get_uint 4 (pre @ (?b # ext) @ post) (Suc (length pre)) = Inr ?hi"
      using get_uint_at [of "big_endian_bytes 4 ?hi" 4 "pre @ [?b]" "big_endian_bytes 4 ?lo @ post"]
        big_endian_bytes_inverse [of ?hi 4] hi by (simp add: e)
    have g2: "get_uint 4 (pre @ (?b # ext) @ post) (Suc (length pre) + 4) = Inr ?lo"
      using get_uint_at [of "big_endian_bytes 4 ?lo" 4 "pre @ ?b # big_endian_bytes 4 ?hi" post]
        big_endian_bytes_inverse [of ?lo 4] by (simp add: e add.commute)
    have m: "int ?hi * 2 ^ 32 + int ?lo = int n"
    proof -
      have "int (?hi * 2 ^ 32 + ?lo) = int n" by (simp only: div_mult_mod_eq)
      then show ?thesis by (simp only: of_nat_add of_nat_mult of_nat_power of_nat_numeral)
    qed
    have "js_mul (FinI (int ?hi)) (FinI (2 ^ 32)) = FinI (int ?hi * 2 ^ 32)"
    proof (rule js_mul_int)
      have "int ?hi < 2 ^ 21" using hi by (metis of_nat_less_iff of_nat_numeral of_nat_power)
      then show "safe (int ?hi * 2 ^ 32)" by (simp add: safe_def)
    qed
    moreover have "js_add (FinI (int ?hi * 2 ^ 32)) (FinI (int ?lo)) = FinI (int n)"
    proof -
      have "safe (int ?hi * 2 ^ 32 + int ?lo)" using assms(2) unfolding m by (simp add: safe_def)
      then show ?thesis using js_add_int [of "int ?hi * 2 ^ 32" "int ?lo"] unfolding m by blast
    qed
    moreover have "length (?b # ext) = 9" by (simp add: e)
    ultimately show ?thesis using g1 g2 unfolding decodeLength_def f by simp
  qed
  then show thesis using that [OF h] initial_byte [OF assms(1) i] by metis
qed

section \<open>Reading back\<close>

text \<open>What the code relies on: \<open>TextDecoder\<close> leaves ASCII as it is.\<close>

definition ascii_decoder :: "(8 word list \<Rightarrow> string) \<Rightarrow> bool" where
  "ascii_decoder utf8 \<longleftrightarrow> (\<forall>s. ascii s \<longrightarrow> utf8 (ascii_bytes s) = s)"

definition reads :: "(8 word list \<Rightarrow> string) \<Rightarrow> 8 word list \<Rightarrow> cbor \<Rightarrow> bool" where
  "reads utf8 bs v \<longleftrightarrow>
     (\<forall>fuel pre post. 2 * length bs \<le> fuel \<longrightarrow> safe (int (length (pre @ bs @ post))) \<longrightarrow>
        decodeItem utf8 fuel (pre @ bs @ post) (length pre) = Some (Inr (v, length pre + length bs)))"

lemma readsD:
  "reads utf8 bs v \<Longrightarrow> 2 * length bs \<le> fuel \<Longrightarrow> safe (int (length (pre @ bs @ post))) \<Longrightarrow>
     decodeItem utf8 fuel (pre @ bs @ post) (length pre) = Some (Inr (v, length pre + length bs))"
  by (simp add: reads_def)

text \<open>An item starts with its head: what remains is the reading of the body.\<close>

definition item_body :: "(8 word list \<Rightarrow> string) \<Rightarrow> nat \<Rightarrow> 8 word list \<Rightarrow> nat \<Rightarrow> nat \<Rightarrow> nat \<Rightarrow> cbor decoded" where
  "item_body utf8 fuel view major n off =
     (if major = 0 then Some (Inr (CNumber (FinI (int n)), off))
      else if major = 1 then Some (Inr (CNumber (js_sub (FinI (- 1)) (FinI (int n))), off))
      else if major = 2 then value_of CBytes (string_bytes ''Byte string length exceeds data length'' view (FinI (int n)) off)
      else if major = 3 then value_of CString (and_then (string_bytes ''String length exceeds data length'' view (FinI (int n)) off)
         (\<lambda>(bytes, e). Inr (utf8 bytes, e)))
      else if major = 4 then continue (decode_elements utf8 fuel view (FinI (int n)) 0 [] off) (\<lambda>xs off. Some (Inr (CArray xs, off)))
      else continue (decode_entries utf8 fuel view (FinI (int n)) 0 [] off) (\<lambda>ob off. Some (Inr (CObject ob, off))))"

lemma item_by_body:
  assumes "off < length view" and "unat (drop_bit 5 (view ! off)) = major" and "major < 6"
    and "decodeLength view (Suc off) (unat (view ! off AND 0x1f)) = Inr (FinI (int n), o')"
  shows "decodeItem utf8 (Suc fuel) view off = item_body utf8 fuel view major n o'"
proof -
  consider "major = 0" | "major = 1" | "major = 2" | "major = 3" | "major = 4" | "major = 5" using assms(3) by linarith
  then show ?thesis
    using assms
    by cases (simp_all add: item_body_def decodeUnsigned_def decodeSigned_def decodeByteString_def decodeString_def value_of_def)
qed

lemma item_of_head:
  assumes "major < 6" and "n < 2 ^ 53"
  shows "decodeItem utf8 (Suc fuel) (pre @ head_bytes major n @ post) (length pre) =
    item_body utf8 fuel (pre @ head_bytes major n @ post) major n (length pre + length (head_bytes major n))"
proof -
  have m: "major < 8" using assms(1) by simp
  obtain b ext where h: "head_bytes major n = b # ext" "unat (drop_bit 5 b) = major"
    and l: "decodeLength (pre @ (b # ext) @ post) (Suc (length pre)) (unat (b AND 0x1f)) =
          Inr (FinI (int n), length pre + length (b # ext))"
    by (rule head_read [OF m assms(2)]) blast
  show ?thesis unfolding h(1) using assms(1) h(2) l by (intro item_by_body) simp_all
qed

lemma string_bytes_at:
  assumes "safe (int (length (pre @ bs @ post)))"
  shows "string_bytes m (pre @ bs @ post) (FinI (int (length bs))) (length pre) = Inr (bs, length pre + length bs)"
proof -
  have "js_add (FinI (int (length pre))) (FinI (int (length bs))) = FinI (int (length pre) + int (length bs))"
    using assms by (intro js_add_int) (simp add: safe_def)
  then show ?thesis
    by (simp add: string_bytes_def del: js_add.simps)
qed

lemma safe_part: "safe (int n) \<Longrightarrow> m \<le> n \<Longrightarrow> m < 2 ^ 53"
  by (simp add: safe_def)

lemma head_not_Nil [simp]: "head_bytes m n \<noteq> []"
  by (simp add: head_bytes_def)

lemma reads_via_head:
  assumes "major < 6" and "n < 2 ^ 53"
    and "\<And>fuel pre post. 2 * length (head_bytes major n @ body) \<le> Suc fuel \<Longrightarrow>
        safe (int (length ((pre @ head_bytes major n) @ body @ post))) \<Longrightarrow>
        item_body utf8 fuel ((pre @ head_bytes major n) @ body @ post) major n (length (pre @ head_bytes major n)) =
          Some (Inr (v, length (pre @ head_bytes major n) + length body))"
  shows "reads utf8 (head_bytes major n @ body) v"
  unfolding reads_def
proof (intro allI impI)
  fix fuel pre post
  assume f: "2 * length (head_bytes major n @ body) \<le> fuel"
    and s: "safe (int (length (pre @ (head_bytes major n @ body) @ post)))"
  obtain k where k: "fuel = Suc k" using f by (cases fuel) auto
  show "decodeItem utf8 fuel (pre @ (head_bytes major n @ body) @ post) (length pre) =
      Some (Inr (v, length pre + length (head_bytes major n @ body)))"
    using item_of_head [OF assms(1,2), of utf8 k pre "body @ post"] assms(3) [of k pre post] f s
    unfolding k by (simp add: add.assoc del: decodeItem.simps)
qed

lemma reads_string:
  assumes "ascii_decoder utf8" and "ascii s" and "length s < 2 ^ 53"
  shows "reads utf8 (head_bytes 3 (length s) @ ascii_bytes s) (CString s)"
proof (rule reads_via_head)
  fix fuel pre post
  assume safe: "safe (int (length ((pre @ head_bytes 3 (length s)) @ ascii_bytes s @ post)))"
  have "length (ascii_bytes s) = length s" "utf8 (ascii_bytes s) = s"
    using assms by (simp_all add: ascii_bytes_def ascii_decoder_def)
  then show "item_body utf8 fuel ((pre @ head_bytes 3 (length s)) @ ascii_bytes s @ post) 3 (length s)
      (length (pre @ head_bytes 3 (length s))) = Some (Inr (CString s, length (pre @ head_bytes 3 (length s)) + length (ascii_bytes s)))"
    using string_bytes_at [OF safe] by (simp add: item_body_def value_of_def)
qed (use assms in simp_all)

lemma reads_nonempty: "reads utf8 bs v \<Longrightarrow> safe (int (length bs)) \<Longrightarrow> bs \<noteq> []"
proof
  assume r: "reads utf8 bs v" "bs = []"
  have "decodeItem utf8 1 ([] @ bs @ []) (length []) = Some (Inr (v, length [] + length bs))"
    using readsD [OF r(1), of 1 "[]" "[]"] r(2) by (simp add: safe_def)
  then show False using r(2) by (simp add: numeral_eq_Suc)
qed

lemma elements_read:
  assumes "\<forall>x \<in> set ys. reads utf8 (encode x) x" and "safe (int (length (pre @ concat (map encode ys) @ post)))"
    and "2 * length (concat (map encode ys)) < fuel"
  shows "decode_elements utf8 fuel (pre @ concat (map encode ys) @ post) (FinI (i + int (length ys))) i xs (length pre) =
    Some (Inr (xs @ ys, length pre + length (concat (map encode ys))))"
  using assms
proof (induction ys arbitrary: pre fuel i xs)
  case Nil
  then obtain k where "fuel = Suc k" by (cases fuel) auto
  then show ?case by simp
next
  case (Cons y ys)
  obtain k where k: "fuel = Suc k" using Cons.prems(3) by (cases fuel) auto
  have y: "reads utf8 (encode y) y" using Cons.prems(1) by simp
  have "encode y \<noteq> []" using y Cons.prems(2) by (intro reads_nonempty) (auto simp: safe_def)
  then have pos: "0 < length (encode y)" by simp
  have "decodeItem utf8 k (pre @ encode y @ (concat (map encode ys) @ post)) (length pre) =
      Some (Inr (y, length pre + length (encode y)))"
    using Cons.prems(2,3) k by (intro readsD [OF y]) simp_all
  moreover have "decode_elements utf8 k ((pre @ encode y) @ concat (map encode ys) @ post)
      (FinI ((i + 1) + int (length ys))) (i + 1) (xs @ [y]) (length (pre @ encode y)) =
    Some (Inr ((xs @ [y]) @ ys, length (pre @ encode y) + length (concat (map encode ys))))"
    using Cons.prems k pos by (intro Cons.IH) (simp_all del: length_greater_0_conv)
  ultimately show ?case unfolding k by (simp add: add.assoc add.left_commute)
qed

lemma obj_set_new: "k \<notin> fst ` set ob \<Longrightarrow> obj_set k v ob = ob @ [(k, v)]"
  unfolding obj_set_def by (induction ob) auto

lemma entries_read:
  assumes "\<forall>(k, x) \<in> set ys. reads utf8 (encode x) x \<and> ascii k" and "ascii_decoder utf8"
    and "distinct (map fst (obs @ ys))"
    and "safe (int (length (pre @ concat (map (\<lambda>(k, x). head_bytes 3 (length k) @ ascii_bytes k @ encode x) ys) @ post)))"
    and "2 * length (concat (map (\<lambda>(k, x). head_bytes 3 (length k) @ ascii_bytes k @ encode x) ys)) < fuel"
  shows "decode_entries utf8 fuel (pre @ concat (map (\<lambda>(k, x). head_bytes 3 (length k) @ ascii_bytes k @ encode x) ys) @ post)
      (FinI (i + int (length ys))) i obs (length pre) =
    Some (Inr (obs @ ys, length pre + length (concat (map (\<lambda>(k, x). head_bytes 3 (length k) @ ascii_bytes k @ encode x) ys))))"
  using assms(1,3-)
proof (induction ys arbitrary: pre fuel i obs)
  case Nil
  then obtain k where "fuel = Suc k" by (cases fuel) auto
  then show ?case by simp
next
  case (Cons e ys)
  obtain key x where e: "e = (key, x)" by (cases e)
  obtain n where n: "fuel = Suc n" using Cons.prems(4) by (cases fuel) auto
  let ?rest = "concat (map (\<lambda>(k, x). head_bytes 3 (length k) @ ascii_bytes k @ encode x) ys)"
  let ?key = "head_bytes 3 (length key) @ ascii_bytes key"
  have x: "reads utf8 (encode x) x" and a: "ascii key" using Cons.prems(1) e by auto
  have k: "reads utf8 ?key (CString key)"
    using assms(2) a Cons.prems(3) e by (intro reads_string) (simp_all add: safe_def ascii_bytes_def)
  have pos: "0 < length (head_bytes 3 (length key))" by simp
  have "decodeItem utf8 n (pre @ ?key @ (encode x @ ?rest @ post)) (length pre) =
      Some (Inr (CString key, length pre + length ?key))"
    using Cons.prems(3,4) n e by (intro readsD [OF k]) simp_all
  moreover have "decodeItem utf8 n ((pre @ ?key) @ encode x @ (?rest @ post)) (length (pre @ ?key)) =
      Some (Inr (x, length (pre @ ?key) + length (encode x)))"
    using Cons.prems(3,4) n e by (intro readsD [OF x]) simp_all
  moreover have "obj_set key x obs = obs @ [(key, x)]"
    using Cons.prems(2) e by (intro obj_set_new) simp
  moreover have "decode_entries utf8 n ((pre @ ?key @ encode x) @ ?rest @ post)
      (FinI ((i + 1) + int (length ys))) (i + 1) (obs @ [(key, x)]) (length (pre @ ?key @ encode x)) =
    Some (Inr ((obs @ [(key, x)]) @ ys, length (pre @ ?key @ encode x) + length ?rest))"
    using Cons.prems n e pos by (intro Cons.IH) (simp_all del: length_greater_0_conv)
  ultimately show ?case unfolding n e by (simp add: add.assoc add.left_commute)
qed

lemma reads_simple:
  assumes "unat (drop_bit 5 b) = 7" and "unat (b AND 0x1f) = i"
    and "\<And>view off. decodeSimpleAndFloat view off i = Inr (v, off)"
  shows "reads utf8 [b] v"
  unfolding reads_def
proof (intro allI impI)
  fix fuel pre post
  assume "2 * length [b] \<le> fuel"
  then obtain k where k: "fuel = Suc k" by (cases fuel) auto
  have "(pre @ [b] @ post) ! length pre = b" by simp
  then show "decodeItem utf8 fuel (pre @ [b] @ post) (length pre) = Some (Inr (v, length pre + length [b]))"
    unfolding k decodeItem.simps Let_def using assms by simp
qed

lemma simple_bytes:
  "unat (drop_bit 5 (0xf4 :: 8 word)) = 7" "unat ((0xf4 :: 8 word) AND 0x1f) = 20"
  "unat (drop_bit 5 (0xf5 :: 8 word)) = 7" "unat ((0xf5 :: 8 word) AND 0x1f) = 21"
  "unat (drop_bit 5 (0xf6 :: 8 word)) = 7" "unat ((0xf6 :: 8 word) AND 0x1f) = 22"
  "unat (drop_bit 5 (0xf7 :: 8 word)) = 7" "unat ((0xf7 :: 8 word) AND 0x1f) = 23"
  by code_simp+

lemma reads_simple_values:
  "reads utf8 [0xf4] (CBool False)" "reads utf8 [0xf5] (CBool True)" "reads utf8 [0xf6] CNull" "reads utf8 [0xf7] CUndefined"
  by (rule reads_simple [OF simple_bytes(1,2)], simp add: decodeSimpleAndFloat_def,
      rule reads_simple [OF simple_bytes(3,4)], simp add: decodeSimpleAndFloat_def,
      rule reads_simple [OF simple_bytes(5,6)], simp add: decodeSimpleAndFloat_def,
      rule reads_simple [OF simple_bytes(7,8)], simp add: decodeSimpleAndFloat_def)

lemma concat_length: "x \<in> set xs \<Longrightarrow> length (f x) \<le> length (concat (map f xs))"
  by (induction xs) auto

lemma concat_count: "\<forall>x \<in> set xs. f x \<noteq> [] \<Longrightarrow> length xs \<le> length (concat (map f xs))"
proof (induction xs)
  case (Cons x xs)
  then show ?case by (cases "f x") auto
qed simp

lemma encode_not_Nil: "encodable v \<Longrightarrow> encode v \<noteq> []"
  by (cases v) (auto simp: encode_number_def split: jsnum.splits)

text \<open>Every item of at most \<open>2^53\<close> bytes is read back.\<close>

lemma encode_reads:
  assumes "ascii_decoder utf8" and "encodable v" and "length (encode v) < 2 ^ 53"
  shows "reads utf8 (encode v) v"
  using assms(2,3)
proof (induction v)
  case (CNumber x)
  then obtain n where x: "x = FinI n" "safe n" by (auto split: jsnum.splits)
  show ?case
  proof (cases "0 \<le> n")
    case True
    then have "reads utf8 (head_bytes 0 (nat n) @ []) (CNumber x)"
      using x by (intro reads_via_head) (simp_all add: safe_def item_body_def)
    then show ?thesis using True x(1) by (simp add: encode_number_def)
  next
    case False
    have "js_sub (FinI (- 1)) (FinI (int (nat (- 1 - n)))) = FinI n"
      using False x(2) js_sub_int [of "- 1" "- 1 - n"] by simp
    then have "reads utf8 (head_bytes 1 (nat (- 1 - n)) @ []) (CNumber x)"
      using False x by (intro reads_via_head) (simp_all add: safe_def item_body_def)
    then show ?thesis using False x(1) by (simp add: encode_number_def)
  qed
next
  case (CString s)
  then show ?case using reads_string [OF assms(1), of s] by (simp add: ascii_bytes_def)
next
  case (CBytes bs)
  have "reads utf8 (head_bytes 2 (length bs) @ bs) (CBytes bs)"
  proof (rule reads_via_head)
    fix fuel pre post
    assume safe: "safe (int (length ((pre @ head_bytes 2 (length bs)) @ bs @ post)))"
    show "item_body utf8 fuel ((pre @ head_bytes 2 (length bs)) @ bs @ post) 2 (length bs)
      (length (pre @ head_bytes 2 (length bs))) = Some (Inr (CBytes bs, length (pre @ head_bytes 2 (length bs)) + length bs))"
      using string_bytes_at [OF safe] by (simp add: item_body_def value_of_def)
  qed (use CBytes in simp_all)
  then show ?case by simp
next
  case (CArray xs)
  have all: "\<forall>x \<in> set xs. reads utf8 (encode x) x"
  proof
    fix x
    assume x: "x \<in> set xs"
    then have "length (encode x) < 2 ^ 53" using CArray.prems(2) concat_length [OF x, of encode] by simp
    then show "reads utf8 (encode x) x" using x CArray.prems(1) by (intro CArray.IH) simp_all
  qed
  have n: "length xs \<le> length (concat (map encode xs))"
    using CArray.prems(1) encode_not_Nil by (intro concat_count) simp
  have "reads utf8 (head_bytes 4 (length xs) @ concat (map encode xs)) (CArray xs)"
  proof (rule reads_via_head)
    fix fuel pre post
    assume f: "2 * length (head_bytes 4 (length xs) @ concat (map encode xs)) \<le> Suc fuel"
      and s: "safe (int (length ((pre @ head_bytes 4 (length xs)) @ concat (map encode xs) @ post)))"
    have "2 * length (concat (map encode xs)) < fuel" using f by (cases "head_bytes 4 (length xs)") auto
    from elements_read [OF all s this, of 0 "[]"]
    show "item_body utf8 fuel ((pre @ head_bytes 4 (length xs)) @ concat (map encode xs) @ post) 4 (length xs)
      (length (pre @ head_bytes 4 (length xs))) = Some (Inr (CArray xs, length (pre @ head_bytes 4 (length xs)) + length (concat (map encode xs))))"
      by (simp add: item_body_def)
  qed (use CArray n in simp_all)
  then show ?case by simp
next
  case (CObject ob)
  let ?f = "\<lambda>(k, x). head_bytes 3 (length k) @ ascii_bytes k @ encode x"
  have all: "\<forall>(k, x) \<in> set ob. reads utf8 (encode x) x \<and> ascii k"
  proof
    fix e
    assume e: "e \<in> set ob"
    obtain k x where kx: "e = (k, x)" by (cases e)
    have "length (encode x) < 2 ^ 53" using CObject.prems(2) concat_length [OF e, of ?f] kx by simp
    moreover have "encodable x" "ascii k" using CObject.prems(1) e kx by auto
    ultimately show "case e of (k, x) \<Rightarrow> reads utf8 (encode x) x \<and> ascii k"
      using CObject.IH [OF e, of x] kx by simp
  qed
  have d: "distinct (map fst ([] @ ob))" using CObject.prems(1) by simp
  have n: "length ob \<le> length (concat (map ?f ob))"
    by (intro concat_count) auto
  have "reads utf8 (head_bytes 5 (length ob) @ concat (map ?f ob)) (CObject ob)"
  proof (rule reads_via_head)
    fix fuel pre post
    assume f: "2 * length (head_bytes 5 (length ob) @ concat (map ?f ob)) \<le> Suc fuel"
      and s: "safe (int (length ((pre @ head_bytes 5 (length ob)) @ concat (map ?f ob) @ post)))"
    have "2 * length (concat (map ?f ob)) < fuel" using f by (cases "head_bytes 5 (length ob)") auto
    from entries_read [OF all assms(1) d s this, of 0]
    show "item_body utf8 fuel ((pre @ head_bytes 5 (length ob)) @ concat (map ?f ob) @ post) 5 (length ob)
      (length (pre @ head_bytes 5 (length ob))) = Some (Inr (CObject ob, length (pre @ head_bytes 5 (length ob)) + length (concat (map ?f ob))))"
      by (simp add: item_body_def)
  qed (use CObject n in simp_all)
  then show ?case by simp
qed (auto intro: reads_simple_values)

section \<open>Exact doubles and the fields of a half-precision number\<close>

text \<open>A whole number below \<open>2^53\<close> scaled by a power of two is a double.\<close>

lemma rnd_dyadic:
  assumes "\<bar>n\<bar> < 2 ^ 53" and "- 1074 \<le> k" and "k \<le> 970"
  shows "rnd (of_int n * 2 powi k) = Fin (of_int n * 2 powi k)"
proof (cases "n = 0")
  case True
  then show ?thesis by (simp add: rnd_def)
next
  case False
  let ?x = "of_int n * 2 powi k :: rat"
  let ?d = "max (exponent \<bar>?x\<bar> - 52) (- 1074)"
  have n: "\<bar>of_int n :: rat\<bar> < 2 powi 53"
    using assms(1) by (metis of_int_abs of_int_less_iff of_int_numeral of_int_power power_int_numeral)
  have "\<bar>?x\<bar> = \<bar>of_int n\<bar> * 2 powi k" by (simp add: abs_mult)
  also have "\<dots> < 2 powi 53 * 2 powi k" using n by (rule mult_strict_right_mono) simp
  also have "\<dots> = 2 powi (53 + k)" by (simp add: power_int_add)
  finally have x: "\<bar>?x\<bar> < 2 powi (53 + k)" .
  then have "exponent \<bar>?x\<bar> < 53 + k" using False by (intro exponent_less) auto
  then have d: "?d \<le> k" using assms(2) by simp
  have "?x / quantum ?x = of_int n * (2 powi k * 2 powi (- ?d))"
    by (simp add: quantum_def power_int_minus divide_inverse)
  also have "(2 :: rat) powi k * 2 powi (- ?d) = 2 powi (k - ?d)"
    using power_int_add [of "2 :: rat" k "- ?d"] by simp
  also have "of_int n * (2 :: rat) powi (k - ?d) = of_int (n * 2 ^ nat (k - ?d))"
    using d by (simp add: power_int_def)
  finally have r: "?x / quantum ?x = of_int (n * 2 ^ nat (k - ?d))" .
  then have "of_int (round_half_even (?x / quantum ?x)) * quantum ?x = ?x"
    by (metis nonzero_divide_eq_eq order_less_irrefl quantum_pos round_half_even_of_int)
  moreover have "\<bar>?x\<bar> < 2 ^ 1024"
  proof -
    note x
    also have "(2::rat) powi (53 + k) \<le> 2 powi 1024" using assms(3) by (intro powi2_mono) simp
    finally show ?thesis by (simp add: power_int_def)
  qed
  ultimately show ?thesis using False by (simp add: rnd_def Let_def)
qed

lemma rnd_dyadic': "x = of_int n * 2 powi k \<Longrightarrow> \<bar>n\<bar> < 2 ^ 53 \<Longrightarrow> - 1074 \<le> k \<Longrightarrow> k \<le> 970 \<Longrightarrow> rnd x = Fin x"
  using rnd_dyadic by simp

lemma half_fields:
  fixes x :: "16 word"
  shows "unat (drop_bit 10 (x AND 0x7c00)) = (unat x div 2 ^ 10) mod 2 ^ 5"
    and "unat (x AND 0x03ff) = unat x mod 2 ^ 10"
    and "x AND 0x8000 \<noteq> 0 \<longleftrightarrow> odd (unat x div 2 ^ 15)"
proof -
  have exp_bits: "drop_bit 10 (x AND 0x7c00) = take_bit 5 (drop_bit 10 x)"
  proof -
    have "drop_bit 10 (0x7c00 :: 16 word) = mask 5" by code_simp
    then show ?thesis by (simp only: drop_bit_and take_bit_eq_mask)
  qed
  show "unat (drop_bit 10 (x AND 0x7c00)) = (unat x div 2 ^ 10) mod 2 ^ 5"
    unfolding exp_bits unsigned_take_bit_eq unat_drop_bit_eq by (simp add: take_bit_eq_mod drop_bit_eq_div)
  have "(0x03ff :: 16 word) = mask 10" by code_simp
  then have fraction: "x AND 0x03ff = take_bit 10 x" by (simp only: take_bit_eq_mask)
  show "unat (x AND 0x03ff) = unat x mod 2 ^ 10"
    unfolding fraction unsigned_take_bit_eq by (simp add: take_bit_eq_mod)
  have "bit x 15 \<longleftrightarrow> bit (unat x) 15" by (simp add: bit_unsigned_iff)
  then have sign: "bit x 15 \<longleftrightarrow> odd (unat x div 2 ^ 15)" by (simp only: bit_iff_odd)
  have "(0x8000 :: 16 word) = 2 ^ 15" by code_simp
  then show "x AND 0x8000 \<noteq> 0 \<longleftrightarrow> odd (unat x div 2 ^ 15)"
    by (simp only: and_exp_eq_0_iff_not_bit not_not sign)
qed

section \<open>Properties\<close>

lemma unat_ascii: "(of_char c :: nat) < 128 \<Longrightarrow> unat (of_char c :: 8 word) = of_char c"
  using unat_byte [of "of_char c"] by (simp add: of_nat_of_char)

text \<open>C27: the decoder returns a value or an error on every input: its fuel is enough.\<close>

theorem decodeCBOR_returns: "\<exists>r. decodeCBOR utf8 data = Some r"
  using decoder_returns(1) [of data 0 "2 * length data + 2" utf8] by (auto simp: decodeCBOR_def)

text \<open>
  C8: what the encoder of RFC 8949 writes for booleans, \<open>null\<close>, \<open>undefined\<close>, safe whole numbers, byte
  strings, ASCII strings, and arrays and objects of them is decoded to the same value, whatever bytes
  follow it.
\<close>

theorem cbor_roundtrip:
  assumes "ascii_decoder utf8" and "encodable v" and "safe (int (length (encode v @ rest)))"
  shows "decodeCBOR utf8 (encode v @ rest) = Some (Inr v)"
proof -
  have "reads utf8 (encode v) v" using assms by (intro encode_reads) (simp_all add: safe_def)
  then have "decodeItem utf8 (2 * length (encode v @ rest) + 2) ([] @ encode v @ rest) (length []) =
      Some (Inr (v, length [] + length (encode v)))"
    using readsD [of utf8 "encode v" v "2 * length (encode v @ rest) + 2" "[]" rest] assms(3) by simp
  then show ?thesis by (simp add: decodeCBOR_def del: decodeItem.simps)
qed

theorem cbor_roundtrip_witness:
  "decodeCBOR (map (\<lambda>b. char_of (unat b)))
     (encode (CObject [(''a'', CArray [CNumber (FinI (- 500)), CBytes [1, 2]]), (''u'', CString ''sat'')]) @ [7]) =
   Some (Inr (CObject [(''a'', CArray [CNumber (FinI (- 500)), CBytes [1, 2]]), (''u'', CString ''sat'')]))"
proof (rule cbor_roundtrip)
  show "ascii_decoder (map (\<lambda>b. char_of (unat b)))"
    by (auto simp: ascii_decoder_def ascii_def ascii_bytes_def list_all_iff unat_ascii intro!: map_idI)
qed (simp_all add: ascii_def safe_def encode_number_def head_bytes_def ascii_bytes_def)

text \<open>
  The half-precision numbers are computed with products and quotients of doubles, none of which
  rounds: the result is the value IEEE 754 gives to the 16 bits.
\<close>

theorem float16_is_ieee: "decodeFloat16 x = ieee_value 5 10 (unat x)"
proof -
  define e f where "e = (unat x div 2 ^ 10) mod 2 ^ 5" and "f = unat x mod 2 ^ 10"
  define s :: int where "s = (if odd (unat x div 2 ^ 15) then - 1 else 1)"
  have s1: "\<bar>s\<bar> = 1" by (simp add: s_def)
  have e: "e < 32" and f: "f < 1024" by (simp_all add: e_def f_def)
  have ten: "(2 :: rat) powi - 10 = 1 / 1024" by code_simp
  have "rnd (of_nat f / 1024) = Fin (of_nat f / 1024)"
    by (rule rnd_dyadic' [where n = "int f" and k = "- 10"], simp only: ten, simp, use f in simp_all)
  then have frac: "js_div (FinI (int f)) (FinI 1024) = Fin (of_nat f / 1024)" by simp
  have "rnd (of_nat (1024 + f) / 1024) = Fin (of_nat (1024 + f) / 1024)"
    by (rule rnd_dyadic' [where n = "int (1024 + f)" and k = "- 10"], simp only: ten, simp, use f in simp_all)
  moreover have "(1 :: rat) + of_nat f / 1024 = of_nat (1024 + f) / 1024" by (simp add: add_divide_distrib)
  ultimately have one: "js_add (FinI 1) (Fin (of_nat f / 1024)) = Fin (of_nat (1024 + f) / 1024)" by (simp only: js_add.simps of_int_1)
  have sgn_mul: "js_mul (FinI s) (Fin (2 powi k)) = Fin (of_int s * 2 powi k)" if "- 14 \<le> k" "k \<le> 16" for k
    using rnd_dyadic [of s k] s1 that by simp
  have mul: "js_mul (Fin (of_int s * 2 powi k)) (Fin (of_nat n / 1024)) = Fin (of_int s * (of_nat n * 2 powi (k - 10)))"
    if "- 14 \<le> k" "k \<le> 16" "n < 2048" for k n
  proof -
    have "(2 :: rat) powi (k - 10) = 2 powi k / 1024" using power_int_add [of "2 :: rat" k "- 10"] by (simp only: ten) simp
    then have p: "(of_int s * 2 powi k) * (of_nat n / 1024) = (of_int (s * int n) * 2 powi (k - 10) :: rat)" by simp
    have "\<bar>s * int n\<bar> < 2 ^ 53" using s1 that(3) by (simp add: abs_mult)
    then have "rnd (of_int (s * int n) * 2 powi (k - 10)) = Fin (of_int (s * int n) * 2 powi (k - 10))"
      using that by (intro rnd_dyadic) simp_all
    then show ?thesis by (simp only: js_mul.simps p) (simp add: mult.assoc)
  qed
  have "decodeFloat16 x =
    (if e = 0 then js_mul (js_mul (FinI s) (Fin (2 powi - 14))) (js_div (FinI (int f)) (FinI 1024))
     else if e = 31 then (if f \<noteq> 0 then NaN else js_mul (FinI s) PInf)
     else js_mul (js_mul (FinI s) (Fin (2 powi (int e - 15)))) (js_add (FinI 1) (js_div (FinI (int f)) (FinI 1024))))"
    unfolding decodeFloat16_def Let_def half_fields e_def [symmetric] f_def [symmetric] by (simp add: s_def)
  also have "\<dots> = (if e = 31 then (if f \<noteq> 0 then NaN else if s = - 1 then NInf else PInf)
      else Fin (of_int s * (if e = 0 then of_nat f * 2 powi - 24 else of_nat (1024 + f) * 2 powi (int e - 25))))"
  proof -
    consider "e = 0" | "e = 31" | "e \<noteq> 0" "e \<noteq> 31" by blast
    then show ?thesis
    proof cases
      case 1
      have "js_mul (js_mul (FinI s) (Fin (2 powi - 14))) (Fin (of_nat f / 1024)) = Fin (of_int s * (of_nat f * 2 powi - 24))"
        using f by (subst sgn_mul) (use mul [of "- 14" f] in simp_all)
      then show ?thesis using 1 by (simp only: frac) simp
    next
      case 2
      then show ?thesis using s1 by (auto simp: inf_of_sign_def abs_if split: if_splits)
    next
      case 3
      have k: "- 14 \<le> int e - 15" "int e - 15 \<le> 16" using 3 e by linarith+
      have "js_mul (js_mul (FinI s) (Fin (2 powi (int e - 15)))) (Fin (of_nat (1024 + f) / 1024)) =
          Fin (of_int s * (of_nat (1024 + f) * 2 powi (int e - 25)))"
        using f mul [OF k, of "1024 + f"] by (subst sgn_mul [OF k]) simp
      then show ?thesis using 3 by (simp only: frac one) simp
    qed
  qed
  also have "\<dots> = ieee_value 5 10 (unat x)"
    unfolding ieee_value_def Let_def e_def [symmetric] f_def [symmetric] by (simp add: s_def)
  finally show ?thesis .
qed

end
