(* ===== verification/Cashu.thy ===== *)
theory Cashu
  imports CborLaws MatrixUtils AmountUtils
begin

text \<open>
  Cashu ecash, \<open>ui/common/utils/cashu.ts\<close>: reading the two token formats, and melting the tokens into
  the federation over lightning. \<open>Buffer\<close>'s base64 and hex, \<open>JSON.parse\<close> of the text of a buffer and
  \<open>TextDecoder\<close> are the fields of an environment; the bridge and the mint are the fields of another.
  A computation that calls them returns the calls in order with its result. Values of a legacy token are
  not validated by the code, so they stay JSON values, \<open>None\<close> for \<open>undefined\<close>.
\<close>

section \<open>Values of parsed JSON\<close>

text \<open>Reading a property and an index: of \<open>null\<close> and \<open>undefined\<close> a \<open>TypeError\<close>.\<close>

fun json_prop :: "string \<Rightarrow> json option \<Rightarrow> js_error + json option" where
  "json_prop k None = Inl TypeError"
| "json_prop k (Some JNull) = Inl TypeError"
| "json_prop k (Some (JObj fs)) = Inr (map_of fs k)"
| "json_prop k (Some _) = Inr None"

fun json_first :: "json option \<Rightarrow> js_error + json option" where
  "json_first None = Inl TypeError"
| "json_first (Some JNull) = Inl TypeError"
| "json_first (Some (JObj fs)) = Inr (map_of fs ''0'')"
| "json_first (Some (JArr xs)) = Inr (case xs of [] \<Rightarrow> None | x # _ \<Rightarrow> Some x)"
| "json_first (Some (JStr s)) = Inr (case s of [] \<Rightarrow> None | c # _ \<Rightarrow> Some (JStr [c]))"
| "json_first (Some _) = Inr None"

fun json_truthy :: "json option \<Rightarrow> bool" where
  "json_truthy None = False"
| "json_truthy (Some JNull) = False"
| "json_truthy (Some (JBool b)) = b"
| "json_truthy (Some (JNum n)) = js_truthy n"
| "json_truthy (Some (JStr s)) = (s \<noteq> [])"
| "json_truthy (Some _) = True"

text \<open>The text and the number of a value, and the operator \<open>+\<close>.\<close>

fun json_text :: "json \<Rightarrow> string" where
  "json_text JNull = ''null''"
| "json_text (JBool b) = (if b then ''true'' else ''false'')"
| "json_text (JNum n) = number_to_string n"
| "json_text (JStr s) = s"
| "json_text (JArr xs) = js_join '','' (map (\<lambda>x. if x = JNull then [] else json_text x) xs)"
| "json_text (JObj fs) = ''[object Object]''"

fun json_number :: "json option \<Rightarrow> jsnum" where
  "json_number None = NaN"
| "json_number (Some JNull) = Fin 0"
| "json_number (Some (JBool b)) = (if b then FinI 1 else Fin 0)"
| "json_number (Some (JNum n)) = n"
| "json_number (Some x) = js_number (json_text x)"

definition is_text :: "json option \<Rightarrow> bool" where
  "is_text x = (case x of Some (JStr s) \<Rightarrow> True | Some (JArr xs) \<Rightarrow> True | Some (JObj fs) \<Rightarrow> True | _ \<Rightarrow> False)"

definition js_plus :: "json \<Rightarrow> json option \<Rightarrow> json" where
  "js_plus a b =
     (if is_text (Some a) \<or> is_text b
      then JStr (json_text a @ (case b of None \<Rightarrow> ''undefined'' | Some x \<Rightarrow> json_text x))
      else JNum (js_add (json_number (Some a)) (json_number b)))"

text \<open>\<open>x.length > 0\<close> of a value that is not \<open>null\<close>.\<close>

definition has_elements :: "json option \<Rightarrow> js_error + bool" where
  "has_elements x =
     (case x of
        Some (JArr xs) \<Rightarrow> Inr (xs \<noteq> [])
      | Some (JStr s) \<Rightarrow> Inr (s \<noteq> [])
      | _ \<Rightarrow> and_then (json_prop ''length'' x) (\<lambda>n. Inr (js_lt (Fin 0) (json_number n))))"

section \<open>Tokens\<close>

record cashu_env =
  ce_base64 :: "string \<Rightarrow> 8 word list"
  ce_json :: "8 word list \<Rightarrow> js_error + json"
  ce_utf8 :: "8 word list \<Rightarrow> string"
  ce_hex :: "8 word list \<Rightarrow> string"

text \<open>The mint and, for each token, its proofs.\<close>

record cashu_payload =
  py_mint :: "json option"
  py_token :: "json option list"

definition uri_prefixes :: "string list" where
  "uri_prefixes = [''web+cashu://'', ''cashu://'', ''cashu:'']"

definition validateCashuTokens :: "string \<Rightarrow> js_error + string" where
  "validateCashuTokens raw =
     (let token = foldl (\<lambda>t p. if js_starts_with t p then drop (length p) t else t) raw uri_prefixes
      in if \<not> js_starts_with token ''cashuA'' \<and> \<not> js_starts_with token ''cashuB''
         then Inl (Error ''Invalid cashu token'') else Inr token)"

definition bufferFromBase64Url :: "cashu_env \<Rightarrow> string \<Rightarrow> 8 word list" where
  "bufferFromBase64Url env str = ce_base64 env (js_replace (js_replace str ''-'' ''+'') ''_'' ''/'')"

text \<open>\<open>token[0].mint\<close> and \<open>token[0].proofs\<close> of the \<open>token\<close> of a parsed legacy token.\<close>

definition first_token :: "json option \<Rightarrow> js_error + cashu_payload" where
  "first_token token =
     and_then (json_first token) (\<lambda>t. and_then (json_prop ''mint'' t) (\<lambda>mint.
       and_then (json_prop ''proofs'' t) (\<lambda>proofs. Inr \<lparr>py_mint = mint, py_token = [proofs]\<rparr>)))"

definition decodeCashuTokenLegacy :: "cashu_env \<Rightarrow> string \<Rightarrow> js_error + cashu_payload" where
  "decodeCashuTokenLegacy env token =
     and_then (ce_json env (bufferFromBase64Url env (js_replace token ''cashuA'' ''''))) (\<lambda>parsed.
       case parsed of
         JObj fs \<Rightarrow>
           (case map_of fs ''token'' of
              Some (JArr ts) \<Rightarrow> first_token (Some (JArr ts))
            | _ \<Rightarrow>
                if map_of fs ''proofs'' = None \<or> map_of fs ''mints'' = None
                then Inl (Error ''No valid ecash proofs found'')
                else and_then (has_elements (map_of fs ''mints'')) (\<lambda>some.
                       if \<not> some then Inl (Error ''No valid ecash proofs found'')
                       else and_then (json_first (map_of fs ''mints'')) (\<lambda>mint. and_then (json_prop ''url'' mint) (\<lambda>url.
                         if json_truthy url then first_token (map_of fs ''token'')
                         else Inl (Error ''No valid ecash proofs found'')))))
       | JArr xs \<Rightarrow> Inl (Error ''v1 cashu tokens are not supported'')
       | _ \<Rightarrow> Inl TypeError)"

section \<open>Tokens of version 4\<close>

fun field :: "string \<Rightarrow> cbor \<Rightarrow> js_error + cbor" where
  "field k CNull = Inl TypeError"
| "field k CUndefined = Inl TypeError"
| "field k (CObject ob) = Inr (case obj_get ob k of None \<Rightarrow> CUndefined | Some x \<Rightarrow> x)"
| "field k _ = Inr CUndefined"

text \<open>\<open>k in x\<close> of a value that passed \<open>isValidResultType\<close>.\<close>

fun has_field :: "string \<Rightarrow> cbor \<Rightarrow> js_error + bool" where
  "has_field k (CObject ob) = Inr (obj_get ob k \<noteq> None)"
| "has_field k CNull = Inl TypeError"
| "has_field k _ = Inr False"

text \<open>A condition on a property: \<open>false\<close> ends the validation, else it goes on.\<close>

definition require :: "js_error + bool \<Rightarrow> js_error + bool \<Rightarrow> js_error + bool" where
  "require a b = and_then a (\<lambda>x. if x then b else Inr False)"

definition field_is :: "(cbor \<Rightarrow> bool) \<Rightarrow> string \<Rightarrow> cbor \<Rightarrow> js_error + bool" where
  "field_is P k x = and_then (field k x) (\<lambda>v. Inr (P v))"

fun all_valid :: "('a \<Rightarrow> js_error + bool) \<Rightarrow> 'a list \<Rightarrow> js_error + bool" where
  "all_valid P [] = Inr True"
| "all_valid P (x # xs) = require (P x) (all_valid P xs)"

definition is_string :: "cbor \<Rightarrow> bool" where "is_string x = (case x of CString s \<Rightarrow> True | _ \<Rightarrow> False)"
definition is_number :: "cbor \<Rightarrow> bool" where "is_number x = (case x of CNumber n \<Rightarrow> True | _ \<Rightarrow> False)"
definition is_bytes :: "cbor \<Rightarrow> bool" where "is_bytes x = (case x of CBytes b \<Rightarrow> True | _ \<Rightarrow> False)"
definition is_array :: "cbor \<Rightarrow> bool" where "is_array x = (case x of CArray xs \<Rightarrow> True | _ \<Rightarrow> False)"

fun elements :: "cbor \<Rightarrow> cbor list" where
  "elements (CArray xs) = xs"
| "elements _ = []"

definition valid_proof :: "cbor \<Rightarrow> js_error + bool" where
  "valid_proof proof =
     (if \<not> isValidResultType proof then Inr False
      else require (field_is is_number ''a'' proof) (require (field_is is_string ''s'' proof)
        (require (field_is is_bytes ''c'' proof)
          (require (field_is (\<lambda>d. d = CUndefined \<or> isValidResultType d) ''d'' proof)
            (field_is (\<lambda>w. w = CUndefined \<or> is_string w) ''w'' proof)))))"

definition valid_token :: "cbor \<Rightarrow> js_error + bool" where
  "valid_token token =
     (if \<not> isValidResultType token then Inr False
      else require (require (has_field ''i'' token) (has_field ''p'' token))
        (require (field_is is_bytes ''i'' token) (require (field_is is_array ''p'' token)
          (and_then (field ''p'' token) (\<lambda>p. all_valid valid_proof (elements p))))))"

definition isValidCashuV4Token :: "cbor \<Rightarrow> js_error + bool" where
  "isValidCashuV4Token decoded =
     (if \<not> isValidResultType decoded then Inr False
      else require (field_is is_string ''m'' decoded) (require (field_is is_string ''u'' decoded)
        (require (field_is (\<lambda>d. is_string d \<or> d = CUndefined) ''d'' decoded)
          (require (field_is is_array ''t'' decoded)
            (and_then (field ''t'' decoded) (\<lambda>t. all_valid valid_token (elements t)))))))"

fun json_of :: "cbor \<Rightarrow> json" where
  "json_of (CNumber n) = JNum n"
| "json_of (CString s) = JStr s"
| "json_of _ = JNull"

fun hex_of :: "cashu_env \<Rightarrow> cbor \<Rightarrow> json" where
  "hex_of env (CBytes b) = JStr (ce_hex env b)"
| "hex_of env _ = JNull"

definition the_field :: "string \<Rightarrow> cbor \<Rightarrow> cbor" where
  "the_field k x = (case field k x of Inr v \<Rightarrow> v | Inl _ \<Rightarrow> CUndefined)"

definition parseSingleCashuV4Token :: "cashu_env \<Rightarrow> cbor \<Rightarrow> json option" where
  "parseSingleCashuV4Token env token =
     Some (JArr (map (\<lambda>proof. JObj
       [(''id'', hex_of env (the_field ''i'' token)), (''amount'', json_of (the_field ''a'' proof)),
        (''secret'', json_of (the_field ''s'' proof)), (''C'', hex_of env (the_field ''c'' proof))])
       (elements (the_field ''p'' token))))"

definition coerceCashuV4TokensArray :: "cashu_env \<Rightarrow> cbor list \<Rightarrow> json option list" where
  "coerceCashuV4TokensArray env tokens = map (parseSingleCashuV4Token env) tokens"

text \<open>The decoder always returns (\<open>decodeCBOR_returns\<close>), so the last case is never taken.\<close>

definition decodeCashuTokenV4 :: "cashu_env \<Rightarrow> string \<Rightarrow> js_error + cashu_payload" where
  "decodeCashuTokenV4 env token =
     (case decodeCBOR (ce_utf8 env) (bufferFromBase64Url env (js_replace token ''cashuB'' '''')) of
        Some parsedToken \<Rightarrow>
          and_then parsedToken (\<lambda>parsed.
            if \<not> isValidResultType parsed then Inl (Error ''Invalid cashu token'')
            else and_then (isValidCashuV4Token parsed) (\<lambda>ok.
              if \<not> ok then Inl (Error ''Invalid cashu token'')
              else Inr \<lparr>py_mint = Some (json_of (the_field ''m'' parsed)),
                         py_token = coerceCashuV4TokensArray env (elements (the_field ''t'' parsed))\<rparr>))
      | None \<Rightarrow> Inl RangeError)"

definition decodeCashuTokens :: "cashu_env \<Rightarrow> string \<Rightarrow> js_error + cashu_payload" where
  "decodeCashuTokens env raw =
     and_then (validateCashuTokens raw) (\<lambda>token.
       if js_starts_with token ''cashuA'' then decodeCashuTokenLegacy env token else decodeCashuTokenV4 env token)"

section \<open>Melting\<close>

record mint_quote =
  mq_quote :: string
  mq_amount :: jsnum
  mq_fee_reserve :: jsnum

datatype cashu_call =
    GenerateInvoice jsnum string string
  | MeltQuoteRequest "json option" string
  | MeltRequest "json option" string "json option"

record cashu_services =
  cs_generateInvoice :: "jsnum \<Rightarrow> string \<Rightarrow> string \<Rightarrow> js_error + string"
  cs_meltQuote :: "json option \<Rightarrow> string \<Rightarrow> js_error + mint_quote"
  cs_melt :: "json option \<Rightarrow> string \<Rightarrow> json option \<Rightarrow> js_error + json"

type_synonym ('c, 'a) with_calls = "'c list \<times> (js_error + 'a)"

definition calling :: "'c \<Rightarrow> js_error + 'a \<Rightarrow> ('c, 'a) with_calls" where
  "calling c r = ([c], r)"

fun afterwards :: "('c, 'a) with_calls \<Rightarrow> ('a \<Rightarrow> ('c, 'b) with_calls) \<Rightarrow> ('c, 'b) with_calls" where
  "afterwards (cs, Inl e) f = (cs, Inl e)"
| "afterwards (cs, Inr x) f = (case f x of (ds, r) \<Rightarrow> (cs @ ds, r))"

definition getMeltQuote :: "cashu_services \<Rightarrow> json option \<Rightarrow> string \<Rightarrow> (cashu_call, mint_quote) with_calls" where
  "getMeltQuote sv mintHost invoice = calling (MeltQuoteRequest mintHost invoice) (cs_meltQuote sv mintHost invoice)"

definition generateMeltInvoice :: "cashu_services \<Rightarrow> jsnum \<Rightarrow> string \<Rightarrow> (cashu_call, string) with_calls" where
  "generateMeltInvoice sv amount federationId =
     calling (GenerateInvoice amount ''cashu melt'' federationId) (cs_generateInvoice sv amount ''cashu melt'' federationId)"

definition getInvoiceFee :: "cashu_services \<Rightarrow> jsnum \<Rightarrow> string \<Rightarrow> json option \<Rightarrow> (cashu_call, jsnum) with_calls" where
  "getInvoiceFee sv amountMsats federationId mintHost =
     afterwards (generateMeltInvoice sv amountMsats federationId) (\<lambda>invoice.
       afterwards (getMeltQuote sv mintHost invoice) (\<lambda>q. ([], Inr (satToMsat (mq_fee_reserve q)))))"

text \<open>The amount, the id and the fees of the quote for the amount without the fees of a first quote.\<close>

definition getUpdatedMeltQuote ::
  "cashu_services \<Rightarrow> jsnum \<Rightarrow> string \<Rightarrow> json option \<Rightarrow> (cashu_call, jsnum \<times> string \<times> jsnum) with_calls"
where
  "getUpdatedMeltQuote sv totalTokensSats federationId mintHost =
     (let amountMsats = satToMsat totalTokensSats
      in afterwards (getInvoiceFee sv amountMsats federationId mintHost) (\<lambda>targetFee.
           afterwards (generateMeltInvoice sv (js_sub amountMsats targetFee) federationId) (\<lambda>candidateInvoice.
             afterwards (getMeltQuote sv mintHost candidateInvoice) (\<lambda>q.
               ([], Inr (satToMsat (mq_amount q), mq_quote q, satToMsat (mq_fee_reserve q)))))))"

record melt_quote =
  ml_mintHost :: "json option"
  ml_quote :: string
  ml_inputs :: "json option"
  ml_amountMsats :: jsnum
  ml_feesMsats :: jsnum

record melt_summary =
  ms_quotes :: "melt_quote list"
  ms_totalFees :: jsnum
  ms_totalAmount :: jsnum

text \<open>\<open>proofs.reduce((sum, proof) => sum + proof.amount, 0)\<close> on unvalidated proofs.\<close>

definition total_amount :: "json option \<Rightarrow> js_error + json" where
  "total_amount proofs =
     (case proofs of
        Some (JArr ps) \<Rightarrow>
          foldl (\<lambda>sum p. and_then sum (\<lambda>s. and_then (json_prop ''amount'' (Some p)) (\<lambda>a. Inr (js_plus s a))))
            (Inr (JNum (Fin 0))) ps
      | _ \<Rightarrow> Inl TypeError)"

fun melt_quotes :: "cashu_services \<Rightarrow> string \<Rightarrow> json option \<Rightarrow> json option list \<Rightarrow> (cashu_call, melt_quote list) with_calls" where
  "melt_quotes sv federationId mintHost [] = ([], Inr [])"
| "melt_quotes sv federationId mintHost (proofs # tokens) =
     afterwards ([], total_amount proofs) (\<lambda>totalTokensSats.
       afterwards (getUpdatedMeltQuote sv (json_number (Some totalTokensSats)) federationId mintHost) (\<lambda>(amount, quote, fees).
         afterwards (melt_quotes sv federationId mintHost tokens) (\<lambda>quotes.
           ([], Inr (\<lparr>ml_mintHost = mintHost, ml_quote = quote, ml_inputs = proofs, ml_amountMsats = amount,
                      ml_feesMsats = fees\<rparr> # quotes)))))"

definition getMeltQuotes :: "cashu_services \<Rightarrow> cashu_payload \<Rightarrow> string option \<Rightarrow> (cashu_call, melt_summary) with_calls" where
  "getMeltQuotes sv tokens federationId =
     (if \<not> truthy_str federationId then ([], Inl (Error ''No federation id''))
      else afterwards (melt_quotes sv (the federationId) (py_mint tokens) (py_token tokens)) (\<lambda>quotes.
             ([], Inr \<lparr>ms_quotes = quotes,
               ms_totalFees = foldl (\<lambda>sum q. js_add sum (ml_feesMsats q)) (Fin 0) quotes,
               ms_totalAmount = foldl (\<lambda>sum q. js_add sum (ml_amountMsats q)) (Fin 0) quotes\<rparr>)))"

definition meltTokens :: "cashu_services \<Rightarrow> melt_quote \<Rightarrow> (cashu_call, json) with_calls" where
  "meltTokens sv q =
     calling (MeltRequest (ml_mintHost q) (ml_quote q) (ml_inputs q)) (cs_melt sv (ml_mintHost q) (ml_quote q) (ml_inputs q))"

fun execute_melts :: "cashu_services \<Rightarrow> jsnum \<Rightarrow> melt_quote list \<Rightarrow> (cashu_call, jsnum) with_calls" where
  "execute_melts sv totalMelted [] = ([], Inr totalMelted)"
| "execute_melts sv totalMelted (q # qs) =
     afterwards (meltTokens sv q) (\<lambda>meltData.
       afterwards ([], json_prop ''paid'' (Some meltData)) (\<lambda>paid.
         if \<not> json_truthy paid then ([], Inl (Error ''Payment failed''))
         else execute_melts sv (js_add totalMelted (ml_amountMsats q)) qs))"

definition executeMelts :: "cashu_services \<Rightarrow> melt_summary \<Rightarrow> (cashu_call, jsnum) with_calls" where
  "executeMelts sv summary = execute_melts sv (Fin 0) (ms_quotes summary)"

section \<open>Lemmas\<close>

definition melt_call :: "melt_quote \<Rightarrow> cashu_call" where
  "melt_call q = MeltRequest (ml_mintHost q) (ml_quote q) (ml_inputs q)"

definition is_paid :: "cashu_services \<Rightarrow> melt_quote \<Rightarrow> bool" where
  "is_paid sv q =
     (case cs_melt sv (ml_mintHost q) (ml_quote q) (ml_inputs q) of
        Inl _ \<Rightarrow> False | Inr d \<Rightarrow> (case json_prop ''paid'' (Some d) of Inr p \<Rightarrow> json_truthy p | Inl _ \<Rightarrow> False))"

lemma execute_melts_split:
  "fst (execute_melts sv acc qs) = map melt_call (takeWhile (is_paid sv) qs @ take 1 (dropWhile (is_paid sv) qs))"
  "list_all (is_paid sv) qs \<Longrightarrow>
     snd (execute_melts sv acc qs) = Inr (foldl (\<lambda>sum q. js_add sum (ml_amountMsats q)) acc qs)"
  "\<not> list_all (is_paid sv) qs \<Longrightarrow> \<exists>e. snd (execute_melts sv acc qs) = Inl e"
proof (induction qs arbitrary: acc)
  case Nil
  { case 1 then show ?case by simp }
  { case 2 then show ?case by simp }
  { case 3 then show ?case by simp }
next
  case (Cons q qs)
  have step: "execute_melts sv acc (q # qs) =
    (if is_paid sv q
     then (melt_call q # fst (execute_melts sv (js_add acc (ml_amountMsats q)) qs),
           snd (execute_melts sv (js_add acc (ml_amountMsats q)) qs))
     else ([melt_call q], snd (execute_melts sv acc (q # qs))))" and
    fails: "\<not> is_paid sv q \<Longrightarrow> \<exists>e. snd (execute_melts sv acc (q # qs)) = Inl e" for acc
    by (auto simp: is_paid_def meltTokens_def calling_def melt_call_def split: sum.splits prod.splits)
  { case 1 show ?case using Cons.IH(1) by (subst step) simp }
  { case 2 then show ?case using Cons.IH(2) by (subst step) simp }
  { case 3 then show ?case using Cons.IH(3) fails step by (cases "is_paid sv q") (auto simp del: execute_melts.simps) }
qed

section \<open>Properties\<close>

text \<open>
  C31: the melts are requested in order up to the first that is not paid: the total is returned when all
  are paid, and an error otherwise, although the melts requested before it have been paid.
\<close>

theorem melts_stop_at_first_unpaid:
  "fst (executeMelts sv summary) =
     map melt_call (takeWhile (is_paid sv) (ms_quotes summary) @ take 1 (dropWhile (is_paid sv) (ms_quotes summary))) \<and>
   (if list_all (is_paid sv) (ms_quotes summary)
    then snd (executeMelts sv summary) = Inr (foldl (\<lambda>sum q. js_add sum (ml_amountMsats q)) (Fin 0) (ms_quotes summary))
    else \<exists>e. snd (executeMelts sv summary) = Inl e)"
  using execute_melts_split [where acc = "Fin 0"] by (simp add: executeMelts_def)

text \<open>The CBOR value of a token of version 4: the mint, the unit, and for each keyset its id and proofs.\<close>

definition v4_proof :: "jsnum \<times> string \<times> 8 word list \<Rightarrow> cbor" where
  "v4_proof p = (case p of (a, s, c) \<Rightarrow> CObject [(''a'', CNumber a), (''s'', CString s), (''c'', CBytes c)])"

definition v4_token :: "8 word list \<times> (jsnum \<times> string \<times> 8 word list) list \<Rightarrow> cbor" where
  "v4_token t = (case t of (i, ps) \<Rightarrow> CObject [(''i'', CBytes i), (''p'', CArray (map v4_proof ps))])"

definition v4_value :: "string \<Rightarrow> string \<Rightarrow> (8 word list \<times> (jsnum \<times> string \<times> 8 word list) list) list \<Rightarrow> cbor" where
  "v4_value m u ts = CObject [(''m'', CString m), (''u'', CString u), (''t'', CArray (map v4_token ts))]"

definition v4_proofs :: "cashu_env \<Rightarrow> 8 word list \<times> (jsnum \<times> string \<times> 8 word list) list \<Rightarrow> json option" where
  "v4_proofs env t = (case t of (i, ps) \<Rightarrow> Some (JArr (map (\<lambda>(a, s, c). JObj
     [(''id'', JStr (ce_hex env i)), (''amount'', JNum a), (''secret'', JStr s), (''C'', JStr (ce_hex env c))]) ps)))"

lemmas v4_defs = v4_value_def v4_token_def v4_proof_def field_is_def require_def obj_get_def the_field_def
  is_string_def is_number_def is_bytes_def is_array_def

lemma valid_v4_proof: "valid_proof (v4_proof p) = Inr True"
  by (cases p) (simp add: valid_proof_def v4_defs)

lemma all_valid_map: "(\<And>x. x \<in> set xs \<Longrightarrow> P (f x) = Inr True) \<Longrightarrow> all_valid P (map f xs) = Inr True"
  by (induction xs) (auto simp: require_def)

lemma valid_v4_token: "valid_token (v4_token t) = Inr True"
  by (cases t) (simp add: valid_token_def v4_token_def field_is_def require_def obj_get_def is_bytes_def is_array_def
      all_valid_map valid_v4_proof)

lemma valid_v4_value: "isValidCashuV4Token (v4_value m u ts) = Inr True"
  by (simp add: isValidCashuV4Token_def v4_value_def field_is_def require_def obj_get_def is_string_def is_array_def
      all_valid_map valid_v4_token)

lemma parse_v4_token: "parseSingleCashuV4Token env (v4_token t) = v4_proofs env t"
  by (cases t) (auto simp: parseSingleCashuV4Token_def v4_defs v4_proofs_def)

text \<open>
  C30: a token of version 4, with any of the URI prefixes, whose base64 text stands for the CBOR of a
  mint, a unit and proofs, is decoded to the mint and the same proofs, their keyset ids and signatures
  in hexadecimal.
\<close>

theorem cashu_v4_roundtrip:
  assumes "ascii_decoder (ce_utf8 env)" and "encodable (v4_value m u ts)" and "safe (int (length (encode (v4_value m u ts))))"
    and "bufferFromBase64Url env body = encode (v4_value m u ts)"
    and "raw = scheme @ ''cashuB'' @ body" and "scheme \<in> set ([] # uri_prefixes)"
  shows "decodeCashuTokens env raw = Inr \<lparr>py_mint = Some (JStr m), py_token = map (v4_proofs env) ts\<rparr>"
proof -
  have v: "validateCashuTokens raw = Inr (''cashuB'' @ body)"
    using assms(5,6) by (auto simp: validateCashuTokens_def uri_prefixes_def js_starts_with_def)
  have "decodeCBOR (ce_utf8 env) (encode (v4_value m u ts) @ []) = Some (Inr (v4_value m u ts))"
    using assms(1-3) by (intro cbor_roundtrip) simp_all
  then have "decodeCashuTokenV4 env (''cashuB'' @ body) = Inr \<lparr>py_mint = Some (JStr m), py_token = map (v4_proofs env) ts\<rparr>"
    using assms(4) valid_v4_value [of m u ts]
    by (simp add: decodeCashuTokenV4_def coerceCashuV4TokensArray_def o_def parse_v4_token)
      (simp add: v4_value_def the_field_def obj_get_def parse_v4_token)
  then show ?thesis by (simp add: decodeCashuTokens_def v js_starts_with_def)
qed

definition sample_v4 :: cbor where
  "sample_v4 = v4_value ''https://mint'' ''sat'' [([0, 255], [(FinI 8, ''s1'', [3]), (FinI 2, ''s2'', [4])])]"

definition sample_env :: "json \<Rightarrow> cashu_env" where
  "sample_env parsed = \<lparr>ce_base64 = (\<lambda>s. if s = ''o2Ft/w+='' then encode sample_v4 else []), ce_json = (\<lambda>b. Inr parsed),
     ce_utf8 = map (\<lambda>b. char_of (unat b)), ce_hex = (\<lambda>bs. concat (map (\<lambda>b. nat_digits (unat b)) bs))\<rparr>"

theorem cashu_v4_roundtrip_witness:
  "decodeCashuTokens (sample_env JNull) ''cashu:cashuBo2Ft_w-='' =
     Inr \<lparr>py_mint = Some (JStr ''https://mint''),
          py_token = map (v4_proofs (sample_env JNull)) [([0, 255], [(FinI 8, ''s1'', [3]), (FinI 2, ''s2'', [4])])]\<rparr>"
proof (rule cashu_v4_roundtrip [where scheme = "''cashu:''" and body = "''o2Ft_w-=''" and u = "''sat''"])
  show "ascii_decoder (ce_utf8 (sample_env JNull))"
    by (auto simp: sample_env_def ascii_decoder_def ascii_def ascii_bytes_def list_all_iff unat_ascii intro!: map_idI)
  show "encodable (v4_value ''https://mint'' ''sat'' [([0, 255], [(FinI 8, ''s1'', [3]), (FinI 2, ''s2'', [4])])])"
    by (simp add: v4_value_def v4_token_def v4_proof_def ascii_def safe_def)
  show "safe (int (length (encode (v4_value ''https://mint'' ''sat'' [([0, 255], [(FinI 8, ''s1'', [3]), (FinI 2, ''s2'', [4])])]))))"
    by (simp add: v4_value_def v4_token_def v4_proof_def safe_def encode_number_def head_bytes_def ascii_bytes_def)
  show "bufferFromBase64Url (sample_env JNull) ''o2Ft_w-='' =
      encode (v4_value ''https://mint'' ''sat'' [([0, 255], [(FinI 8, ''s1'', [3]), (FinI 2, ''s2'', [4])])])"
    by (simp add: bufferFromBase64Url_def sample_env_def sample_v4_def)
qed (simp_all add: uri_prefixes_def)

text \<open>
  Of a legacy token only the first entry is read: the proofs of the other mints are not part of the
  payload, so they are never melted.
\<close>

theorem legacy_token_first_mint_only:
  assumes "ce_json env (bufferFromBase64Url env text) = Inr (JObj fs)" and "map_of fs ''token'' = Some (JArr (JObj entry # others))"
  shows "decodeCashuTokens env (''cashuA'' @ text) =
    Inr \<lparr>py_mint = map_of entry ''mint'', py_token = [map_of entry ''proofs'']\<rparr>"
  using assms
  by (simp add: decodeCashuTokens_def validateCashuTokens_def uri_prefixes_def js_starts_with_def
      decodeCashuTokenLegacy_def first_token_def)

definition sample_legacy :: json where
  "sample_legacy = JObj [(''token'', JArr [JObj [(''mint'', JStr ''a''), (''proofs'', JArr [])],
     JObj [(''mint'', JStr ''b''), (''proofs'', JArr [JNull])]])]"

theorem legacy_token_first_mint_only_witness:
  "decodeCashuTokens (sample_env sample_legacy) ''cashuAe30'' = Inr \<lparr>py_mint = Some (JStr ''a''), py_token = [Some (JArr [])]\<rparr>"
  using legacy_token_first_mint_only [of "sample_env sample_legacy" "''e30''" "[(''token'', JArr [JObj [(''mint'', JStr ''a''), (''proofs'', JArr [])],
     JObj [(''mint'', JStr ''b''), (''proofs'', JArr [JNull])]])]" "[(''mint'', JStr ''a''), (''proofs'', JArr [])]"]
  by (simp add: sample_env_def sample_legacy_def)

text \<open>A token of version 2 (proofs and mints, no \<open>token\<close>) is recognised and then read as one of version 3, which throws.\<close>

theorem v2_tokens_throw:
  assumes "ce_json env (bufferFromBase64Url env text) = Inr (JObj fs)" and "map_of fs ''token'' = None"
    and "map_of fs ''proofs'' \<noteq> None" and "map_of fs ''mints'' = Some (JArr (JObj mint # mints))"
    and "json_truthy (map_of mint ''url'')"
  shows "decodeCashuTokens env (''cashuA'' @ text) = Inl TypeError"
  using assms
  by (simp add: decodeCashuTokens_def validateCashuTokens_def uri_prefixes_def js_starts_with_def
      decodeCashuTokenLegacy_def first_token_def has_elements_def)

end
