(* ===== verification/InputParser.thy ===== *)
theory InputParser
  imports AmountForms Cashu
begin

text \<open>
  The reading of scanned and pasted input, \<open>ui/common/utils/parser.ts\<close>, with the validation of
  identifiers and the legacy chat links of \<open>validation.ts\<close> and \<open>xmpp.ts\<close>. Ten parsers run at once and
  the first that returns something wins, so a result depends on the order in which their promises
  settle: that order is an argument. The bridge, the LNURL and address libraries, the URL constructor
  and the query parser are the fields of an environment.
\<close>

section \<open>Parsed data\<close>

datatype parsed =
    Bolt11 invoice "string option"
  | Bolt12
  | LnurlPay lnurl_pay "string list list" "string option" "string option"
  | LnurlWithdraw string string string "string option" "jsnum option" "jsnum option"
  | LnurlAuth string string string
  | BitcoinAddress string
  | Bip21 bip21
  | CashuEcash string
  | FedimintEcash string
  | FedimintInvite string
  | LegacyFediChatMember string
  | LegacyFediChatGroup string
  | CommunityInvite string
  | FediChatUser string "string option"
  | FediChatRoom string
  | Website string
  | UnknownData "string option"

text \<open>The kinds usable before joining a federation, and those blocked during a recovery.\<close>

fun allowed_before_federation :: "parsed \<Rightarrow> bool" where
  "allowed_before_federation (FediChatRoom i) = True"
| "allowed_before_federation (FediChatUser i d) = True"
| "allowed_before_federation (FedimintInvite i) = True"
| "allowed_before_federation (CommunityInvite i) = True"
| "allowed_before_federation (Website u) = True"
| "allowed_before_federation (UnknownData m) = True"
| "allowed_before_federation _ = False"

fun blocked_during_recovery :: "parsed \<Rightarrow> bool" where
  "blocked_during_recovery (Bolt11 i f) = True"
| "blocked_during_recovery (LnurlPay l m d t) = True"
| "blocked_during_recovery (LnurlWithdraw a b c d e f) = True"
| "blocked_during_recovery _ = False"

fun legacy_code :: "parsed \<Rightarrow> bool" where
  "legacy_code (LegacyFediChatGroup i) = True"
| "legacy_code (LegacyFediChatMember i) = True"
| "legacy_code _ = False"

section \<open>The environment\<close>

text \<open>What \<open>getLnurlParams\<close> resolves to: a response without a tag, or the parameters of a tag.\<close>

datatype lnurl_params =
    NoTag string "string option"
  | PayRequest string string "string list list" "jsnum option" "jsnum option"
  | WithdrawRequest string string string "string option" "jsnum option" "jsnum option"
  | Login string string string
  | OtherTag string

datatype query_value = Scalar "string option" | Many "string option list"

record parser_env =
  en_decodeInvoice :: "string \<Rightarrow> string option \<Rightarrow> js_error + invoice"
  en_validateEcash :: "string \<Rightarrow> js_error + unit"
  en_matrixUserProfile :: "string \<Rightarrow> js_error + string option"
  en_getLnurlParams :: "string \<Rightarrow> js_error + lnurl_params"
  en_validateBitcoinAddress :: "string \<Rightarrow> bool"
  en_valid_url :: "string \<Rightarrow> bool"
  en_query :: "string \<Rightarrow> (string \<times> query_value) list"
  en_translate :: "string \<Rightarrow> string option \<Rightarrow> string"

section \<open>Strings\<close>

text \<open>\<open>raw.replace(new RegExp(`^${protocol}:\/?\/?`, 'i'), '')\<close>.\<close>

definition stripProtocol :: "string \<Rightarrow> string \<Rightarrow> string" where
  "stripProtocol raw protocol =
     (case strip_prefix_ci (protocol @ '':'') raw of
        None \<Rightarrow> raw
      | Some r \<Rightarrow> (let s = takeWhile (\<lambda>c. c = CHR ''/'') (take 2 r) in drop (length s) r))"

text \<open>\<open>/^[^@\s]+@[^@\s]+\.[^@\s]+$/\<close>: one \<open>@\<close>, no spaces, and a dot inside what follows the \<open>@\<close>.\<close>

definition isValidInternetIdentifier :: "string \<Rightarrow> bool" where
  "isValidInternetIdentifier s =
     (case js_split (CHR ''@'') s of
        [user, domain] \<Rightarrow>
          user \<noteq> [] \<and> list_all (\<lambda>c. \<not> is_space c) s \<and> domain \<noteq> [] \<and>
          CHR ''.'' \<in> set (tl (butlast domain))
      | _ \<Rightarrow> False)"

definition validateWebsiteUrl :: "parser_env \<Rightarrow> string \<Rightarrow> bool" where
  "validateWebsiteUrl env url =
     ((js_starts_with (js_lower url) ''http://'' \<or> js_starts_with (js_lower url) ''https://'') \<and> en_valid_url env url)"

definition is_alphanumeric :: "char \<Rightarrow> bool" where
  "is_alphanumeric c = (is_digit_char c \<or> is_upper c \<or> is_lower c)"

text \<open>\<open>/^(?:ln(?:bc|tb|tbs|bcrt))[0-9a-zA-Z]{30,}$/\<close>: the longer prefixes leave fewer of the thirty characters.\<close>

definition isBolt11 :: "string \<Rightarrow> bool" where
  "isBolt11 raw =
     (js_starts_with raw ''ln'' \<and> \<not> js_starts_with raw ''lno'' \<and> \<not> js_starts_with raw ''lnurl'' \<and>
      list_ex (\<lambda>p. prefix p raw \<and> 30 \<le> length (drop (length p) raw) \<and> list_all is_alphanumeric (drop (length p) raw))
        [''lnbc'', ''lntb'', ''lntbs'', ''lnbcrt''])"

section \<open>Legacy chat links\<close>

fun after_first :: "string \<Rightarrow> string \<Rightarrow> string option" where
  "after_first p [] = (if p = [] then Some [] else None)"
| "after_first p (c # s) = (if prefix p (c # s) then Some (drop (length p) (c # s)) else after_first p s)"

fun before_first :: "string \<Rightarrow> string \<Rightarrow> string" where
  "before_first p [] = []"
| "before_first p (c # s) = (if prefix p (c # s) then [] else c # before_first p s)"

text \<open>\<open>link.split(p)[1]\<close>: what is between the first two occurrences.\<close>

definition second_part :: "string \<Rightarrow> string \<Rightarrow> string option" where
  "second_part p link = map_option (before_first p) (after_first p link)"

definition encodeGroupInvitationLink :: "string \<Rightarrow> string" where
  "encodeGroupInvitationLink groupId = ''fedi:group:'' @ groupId @ '':::''"

definition decodeGroupInvitationLink :: "string \<Rightarrow> js_error + string" where
  "decodeGroupInvitationLink link =
     (let afterPrefix = second_part ''fedi:group:'' link
      in if \<not> truthy_str afterPrefix then Inl (Error ''feature.chat.invalid-group'')
         else let a = the afterPrefix;
                  groupId = (if drop (length a - 3) a \<noteq> '':::'' then a else take (length a - 3) a)
              in if groupId = [] then Inl (Error ''feature.chat.invalid-group'') else Inr groupId)"

definition encodeDirectChatLink :: "string \<Rightarrow> string" where
  "encodeDirectChatLink memberId = ''fedi:member:'' @ memberId @ '':::''"

definition decodeDirectChatLink :: "string \<Rightarrow> js_error + string" where
  "decodeDirectChatLink link =
     (let afterPrefix = second_part ''fedi:member:'' link
      in if \<not> truthy_str afterPrefix then Inl (Error ''feature.chat.invalid-member'')
         else let memberId = take (length (the afterPrefix) - 3) (the afterPrefix)
              in if memberId = [] then Inl (Error ''feature.chat.invalid-member'') else Inr memberId)"

section \<open>The parsers\<close>

text \<open>A parser returns data or \<open>undefined\<close>, or rejects. The ones below catch every error, so none rejects.\<close>

text \<open>\<open>decodedMetadata.find(m => m[0] === key)?.[1]\<close>.\<close>

definition metadata_value :: "string \<Rightarrow> string list list \<Rightarrow> string option" where
  "metadata_value key ms =
     (case find (\<lambda>m. m \<noteq> [] \<and> hd m = key) ms of Some (_ # v # _) \<Rightarrow> Some v | _ \<Rightarrow> None)"

text \<open>\<open>decodedMetadata.find(m => m[0].startsWith('image/'))?.[1]\<close>: an empty entry before the image throws.\<close>

fun image_value :: "string list list \<Rightarrow> js_error + string option" where
  "image_value [] = Inr None"
| "image_value ([] # ms) = Inl TypeError"
| "image_value ((k # vs) # ms) =
     (if js_starts_with k ''image/'' then Inr (case vs of [] \<Rightarrow> None | v # _ \<Rightarrow> Some v) else image_value ms)"

definition not_an_lnurl :: "string \<Rightarrow> bool" where
  "not_an_lnurl reason =
     list_ex (js_includes reason) [''Invalid URL'', ''invalid lnurl'', ''invalid JSON'', ''Network request failed'']"

text \<open>The address that \<open>getLnurlParams\<close> is asked for, if any.\<close>

definition lnurl_request :: "parser_env \<Rightarrow> string \<Rightarrow> string option" where
  "lnurl_request env raw =
     (let lnRaw = js_lower (stripProtocol raw ''lightning'')
      in if js_starts_with lnRaw ''lnurl'' \<or> js_starts_with lnRaw ''keyauth'' then Some lnRaw
         else if isValidInternetIdentifier lnRaw
         then (case js_split (CHR ''@'') lnRaw of
                 username # domain # _ \<Rightarrow>
                   if username \<noteq> [] \<and> domain \<noteq> []
                   then Some (''https://'' @ domain @ ''/.well-known/lnurlp/'' @ username) else None
               | _ \<Rightarrow> None)
         else if validateWebsiteUrl env raw then Some raw else None)"

definition website :: "parser_env \<Rightarrow> string \<Rightarrow> parsed option" where
  "website env raw = (if validateWebsiteUrl env raw then Some (Website raw) else None)"

fun lnurl_result :: "parser_env \<Rightarrow> string \<Rightarrow> lnurl_params \<Rightarrow> parsed option" where
  "lnurl_result env raw (NoTag status reason) =
     (if status \<noteq> ''ERROR'' then None
      else case reason of
             None \<Rightarrow> None
           | Some r \<Rightarrow> if not_an_lnurl r then website env raw else Some (UnknownData (Some r)))"
| "lnurl_result env raw (PayRequest domain callback metadata minimum maximum) =
     (case image_value metadata of
        Inl e \<Rightarrow> None
      | Inr thumbnail \<Rightarrow>
          Some (LnurlPay \<lparr>lp_domain = domain, lp_callback = callback, lp_minSendable = minimum, lp_maxSendable = maximum,
              lp_description = metadata_value ''text/plain'' metadata\<rparr>
            metadata (metadata_value ''text/long-desc'' metadata) thumbnail))"
| "lnurl_result env raw (WithdrawRequest domain callback k1 description minimum maximum) =
     Some (LnurlWithdraw domain callback k1 description minimum maximum)"
| "lnurl_result env raw (Login domain callback k1) = Some (LnurlAuth domain callback k1)"
| "lnurl_result env raw (OtherTag tag) =
     Some (UnknownData (Some (en_translate env ''feature.parser.unsupported-lnurl'' (Some tag))))"

definition parseLnurl :: "parser_env \<Rightarrow> string \<Rightarrow> parsed option" where
  "parseLnurl env raw =
     (if js_starts_with (js_lower raw) ''fedi:'' then None
      else case lnurl_request env raw of
             None \<Rightarrow> website env raw
           | Some url \<Rightarrow>
               (case en_getLnurlParams env url of Inl e \<Rightarrow> None | Inr params \<Rightarrow> lnurl_result env raw params))"

definition parseBolt11 :: "parser_env \<Rightarrow> string \<Rightarrow> string option \<Rightarrow> parsed option" where
  "parseBolt11 env raw federationId =
     (let lnRaw = js_lower (stripProtocol raw ''lightning'')
      in if \<not> isBolt11 lnRaw then None
         else case en_decodeInvoice env lnRaw federationId of
                Inr decoded \<Rightarrow> Some (Bolt11 decoded None)
              | Inl (Error message) \<Rightarrow>
                  if js_includes message ''Invoice missing amount''
                  then Some (UnknownData (Some (en_translate env ''feature.parser.unsupported-bolt11-zero-amount'' None)))
                  else None
              | Inl _ \<Rightarrow> None)"

definition parseBolt12 :: "string \<Rightarrow> parsed option" where
  "parseBolt12 raw =
     (if js_starts_with (js_lower (stripProtocol raw ''lightning'')) ''lno1'' then Some Bolt12 else None)"

definition parseBitcoinAddress :: "parser_env \<Rightarrow> string \<Rightarrow> parsed option" where
  "parseBitcoinAddress env raw = (if en_validateBitcoinAddress env raw then Some (BitcoinAddress raw) else None)"

definition query_param :: "(string \<times> query_value) list \<Rightarrow> string \<Rightarrow> string option" where
  "query_param params key =
     (case map_of params key of
        None \<Rightarrow> None
      | Some (Scalar v) \<Rightarrow> if truthy_str v then v else None
      | Some (Many []) \<Rightarrow> None
      | Some (Many (v # _)) \<Rightarrow> v)"

definition parseBip21 :: "parser_env \<Rightarrow> string \<Rightarrow> string option \<Rightarrow> parsed option" where
  "parseBip21 env raw federationId =
     (if \<not> js_starts_with (js_lower raw) ''bitcoin:'' then None
      else let parts = js_split (CHR ''?'') (stripProtocol raw ''bitcoin'');
               btcAddress = hd parts
           in if \<not> en_validateBitcoinAddress env btcAddress then None
              else let param = query_param (en_query env (case parts of _ # q # _ \<Rightarrow> q | _ \<Rightarrow> []));
                       amount = param ''amount'';
                       plain = Bip21 \<lparr>b21_address = btcAddress,
                         b21_amount = (if truthy_str amount then Some (js_parse_float (the amount)) else None),
                         b21_label = param ''label'', b21_message = param ''message''\<rparr>
                   in if truthy_str (param ''lightning'')
                      then (if \<not> truthy_str federationId then None
                            else case en_decodeInvoice env (the (param ''lightning'')) federationId of
                                   Inr decoded \<Rightarrow> Some (Bolt11 decoded (Some btcAddress))
                                 | Inl e \<Rightarrow> Some plain)
                      else Some plain)"

definition parseFediUri :: "parser_env \<Rightarrow> string \<Rightarrow> parsed option" where
  "parseFediUri env raw =
     (if \<not> js_starts_with (js_lower raw) ''fedi:'' then None
      else case decodeFediMatrixRoomUri raw of
             Inr i \<Rightarrow> Some (FediChatRoom i)
           | Inl e \<Rightarrow>
               (case and_then (decodeFediMatrixUserUri raw) (\<lambda>i. and_then (en_matrixUserProfile env i) (\<lambda>d. Inr (i, d))) of
                  Inr (i, d) \<Rightarrow> Some (FediChatUser i d)
                | Inl e \<Rightarrow>
                    (case decodeDirectChatLink raw of
                       Inr i \<Rightarrow> Some (LegacyFediChatMember i)
                     | Inl e \<Rightarrow>
                         (case decodeGroupInvitationLink raw of
                            Inr i \<Rightarrow> Some (LegacyFediChatGroup i)
                          | Inl e \<Rightarrow> None))))"

definition parseFedimintInvite :: "string \<Rightarrow> parsed option" where
  "parseFedimintInvite raw = (if js_starts_with (js_lower raw) ''fed1'' then Some (FedimintInvite raw) else None)"

definition parseCommunityInvite :: "string \<Rightarrow> parsed option" where
  "parseCommunityInvite raw =
     (if js_starts_with (js_lower raw) ''fedi:community'' then Some (CommunityInvite raw) else None)"

definition parseFedimintEcash :: "parser_env \<Rightarrow> string \<Rightarrow> parsed option" where
  "parseFedimintEcash env raw =
     (if js_starts_with raw ''cashu'' then None
      else case en_validateEcash env raw of Inl e \<Rightarrow> None | Inr _ \<Rightarrow> Some (FedimintEcash raw))"

definition parseCashuEcash :: "string \<Rightarrow> parsed option" where
  "parseCashuEcash raw = (case validateCashuTokens raw of Inl e \<Rightarrow> None | Inr _ \<Rightarrow> Some (CashuEcash raw))"

section \<open>All of them at once\<close>

definition parser_results :: "parser_env \<Rightarrow> string \<Rightarrow> string option \<Rightarrow> parsed option list" where
  "parser_results env raw federationId =
     [parseBolt11 env raw federationId, parseBolt12 raw, parseLnurl env raw, parseBitcoinAddress env raw,
      parseBip21 env raw federationId, parseFediUri env raw, parseFedimintInvite raw, parseCommunityInvite raw,
      parseFedimintEcash env raw, parseCashuEcash raw]"

text \<open>
  What the promise resolves to when the parsers settle in the given order: the first data, or unknown
  data when all of them have settled without any.
\<close>

fun first_settled :: "parsed option list \<Rightarrow> parsed" where
  "first_settled [] = UnknownData None"
| "first_settled (None # rs) = first_settled rs"
| "first_settled (Some r # rs) = r"

definition parseUserInput :: "parser_env \<Rightarrow> nat list \<Rightarrow> string \<Rightarrow> string option \<Rightarrow> parsed" where
  "parseUserInput env order raw federationId =
     first_settled (map (\<lambda>i. parser_results env (js_trim raw) federationId ! i) order)"

section \<open>Lemmas\<close>

definition any_order :: "nat list \<Rightarrow> bool" where
  "any_order order \<longleftrightarrow> mset order = mset [0..<10]"

lemma first_settled_in: "first_settled rs = r \<Longrightarrow> Some r \<in> set rs \<or> (r = UnknownData None \<and> (\<forall>x \<in> set rs. x = None))"
  by (induction rs rule: first_settled.induct) auto

lemma any_order_set: "any_order order \<Longrightarrow> set order = {0..<10}"
  unfolding any_order_def by (metis set_mset_mset set_upt)

lemma parser_results_nth:
  assumes "any_order order"
  shows "set (map (\<lambda>i. parser_results env raw f ! i) order) = set (parser_results env raw f)"
proof -
  have "length (parser_results env raw f) = 10" by (simp add: parser_results_def)
  then have "map (\<lambda>i. parser_results env raw f ! i) [0..<10] = parser_results env raw f"
    using map_nth [of "parser_results env raw f"] by simp
  then have "set (map (\<lambda>i. parser_results env raw f ! i) [0..<10]) = set (parser_results env raw f)" by simp
  then show ?thesis using any_order_set [OF assms] by simp
qed

text \<open>The number of the parser an input belongs to by its prefix.\<close>

definition parser_of :: "string \<Rightarrow> nat" where
  "parser_of raw =
     (let l = js_lower raw; ln = js_lower (stripProtocol raw ''lightning'')
      in if prefix ''lightning:'' l \<or> prefix ''ln'' l
         then (if prefix ''lnb'' ln \<or> prefix ''lnt'' ln then 0 else if prefix ''lno'' ln then 1 else 2)
         else if prefix ''keyauth'' l \<or> prefix ''http'' l then 2
         else if prefix ''bitcoin:'' l then 4
         else if prefix ''fedi:community'' l then 7
         else if prefix ''fedi:'' l then 5
         else if prefix ''fed1'' l then 6
         else 9)"

lemma strip_prefix_ci_lower: "strip_prefix_ci p s = Some r \<Longrightarrow> prefix p (js_lower s)"
  unfolding strip_prefix_ci_def js_lower_def by (metis option.distinct(1) take_is_prefix take_map)

lemma stripProtocol_lower:
  "js_lower (stripProtocol raw ''lightning'') = js_lower raw \<or> prefix ''lightning:'' (js_lower raw)"
  by (auto simp: stripProtocol_def split: option.splits dest: strip_prefix_ci_lower)

lemma after_first_includes: "p \<noteq> [] \<Longrightarrow> (after_first p s \<noteq> None) = js_includes s p"
  by (induction s) auto

lemma direct_link: "decodeDirectChatLink raw = Inr i \<Longrightarrow> js_includes raw ''fedi:member:''"
  using after_first_includes [of "''fedi:member:''" raw]
  by (auto simp: decodeDirectChatLink_def second_part_def truthy_str_def Let_def split: if_splits option.splits)

lemma group_link: "decodeGroupInvitationLink raw = Inr i \<Longrightarrow> js_includes raw ''fedi:group:''"
  using after_first_includes [of "''fedi:group:''" raw]
  by (auto simp: decodeGroupInvitationLink_def second_part_def truthy_str_def Let_def split: if_splits option.splits)

lemma cashu_prefix: "validateCashuTokens raw = Inr t \<Longrightarrow> prefix ''cashu'' raw \<or> prefix ''web'' raw"
  by (auto simp: validateCashuTokens_def uri_prefixes_def js_starts_with_def Let_def split: if_splits elim!: prefixE)

lemma lower_prefix: "prefix p s \<Longrightarrow> prefix (js_lower p) (js_lower s)"
  by (auto simp: js_lower_def elim!: prefixE)

lemma bolt11_prefix: "isBolt11 s \<Longrightarrow> prefix ''lnb'' s \<or> prefix ''lnt'' s"
  by (auto simp: isBolt11_def elim!: prefixE)

text \<open>Two different beginnings exclude each other.\<close>

lemma prefix_conflict: "prefix p s \<Longrightarrow> prefix q s \<Longrightarrow> \<not> prefix p q \<Longrightarrow> \<not> prefix q p \<Longrightarrow> False"
  using prefix_same_cases by blast

definition unambiguous :: "parser_env \<Rightarrow> string \<Rightarrow> bool" where
  "unambiguous env raw \<longleftrightarrow>
     \<not> en_validateBitcoinAddress env raw \<and> (\<forall>u. en_validateEcash env raw \<noteq> Inr u) \<and>
     (js_starts_with (js_lower raw) ''fedi:'' \<or> \<not> isValidInternetIdentifier (js_lower (stripProtocol raw ''lightning''))) \<and>
     \<not> js_includes raw ''fedi:member:'' \<and> \<not> js_includes raw ''fedi:group:''"

lemma parsers_by_prefix:
  assumes "unambiguous env raw"
  shows "parseBolt11 env raw f \<noteq> None \<Longrightarrow> parser_of raw = 0"
    and "parseBolt12 raw \<noteq> None \<Longrightarrow> parser_of raw = 1"
    and "parseLnurl env raw \<noteq> None \<Longrightarrow> parser_of raw = 2"
    and "parseBitcoinAddress env raw = None"
    and "parseBip21 env raw f \<noteq> None \<Longrightarrow> parser_of raw = 4"
    and "parseFediUri env raw \<noteq> None \<Longrightarrow> parser_of raw = 5"
    and "parseFedimintInvite raw \<noteq> None \<Longrightarrow> parser_of raw = 6"
    and "parseCommunityInvite raw \<noteq> None \<Longrightarrow> parser_of raw = 7"
    and "parseFedimintEcash env raw = None"
    and "parseCashuEcash raw \<noteq> None \<Longrightarrow> parser_of raw = 9"
proof -
  let ?l = "js_lower raw" and ?ln = "js_lower (stripProtocol raw ''lightning'')"
  have ln: "prefix ''lightning:'' ?l \<or> prefix ''ln'' ?l" if "prefix ''ln'' ?ln"
    using that stripProtocol_lower [of raw] by auto
  have ln3: "prefix ''ln'' ?ln" if "prefix (CHR ''l'' # CHR ''n'' # p) ?ln" for p
    using that by (auto elim!: prefixE)
  { assume "parseBolt11 env raw f \<noteq> None"
    then have "isBolt11 ?ln" by (auto simp: parseBolt11_def Let_def split: if_splits)
    then have "prefix ''lnb'' ?ln \<or> prefix ''lnt'' ?ln" by (rule bolt11_prefix)
    then show "parser_of raw = 0" using ln ln3 by (auto simp: parser_of_def Let_def) }
  { assume "parseBolt12 raw \<noteq> None"
    then have b: "prefix ''lno1'' ?ln" by (auto simp: parseBolt12_def js_starts_with_def split: if_splits)
    then have "prefix ''lno'' ?ln" by (auto elim!: prefixE)
    moreover have "\<not> prefix ''lnb'' ?ln" "\<not> prefix ''lnt'' ?ln" using b by (auto elim!: prefixE)
    ultimately show "parser_of raw = 1" using ln ln3 by (auto simp: parser_of_def Let_def) }
  { assume r: "parseLnurl env raw \<noteq> None"
    then have nf: "\<not> prefix ''fedi:'' ?l" by (auto simp: parseLnurl_def js_starts_with_def split: if_splits)
    then have ni: "\<not> isValidInternetIdentifier ?ln" using assms by (auto simp: unambiguous_def js_starts_with_def)
    have web: "prefix ''http'' ?l" if "validateWebsiteUrl env raw"
      using that by (auto simp: validateWebsiteUrl_def js_starts_with_def elim!: prefixE)
    have "prefix ''lnurl'' ?ln \<or> prefix ''keyauth'' ?ln \<or> prefix ''http'' ?l"
      using r ni web
      by (auto simp: parseLnurl_def lnurl_request_def website_def Let_def js_starts_with_def split: if_splits option.splits)
    then consider "prefix ''lnurl'' ?ln" | "prefix ''keyauth'' ?ln" | "prefix ''http'' ?l" by blast
    then show "parser_of raw = 2"
    proof cases
      case 1
      then have "\<not> prefix ''lnb'' ?ln" "\<not> prefix ''lnt'' ?ln" "\<not> prefix ''lno'' ?ln" by (auto elim!: prefixE)
      then show ?thesis using 1 ln ln3 by (auto simp: parser_of_def Let_def)
    next
      case 2
      then have "\<not> prefix ''lnb'' ?ln" "\<not> prefix ''lnt'' ?ln" "\<not> prefix ''lno'' ?ln" by (auto elim!: prefixE)
      then show ?thesis using 2 stripProtocol_lower [of raw] by (auto simp: parser_of_def Let_def)
    next
      case 3
      then have "\<not> prefix ''lightning:'' ?l" "\<not> prefix ''ln'' ?l" by (auto elim!: prefixE)
      then show ?thesis using 3 by (simp add: parser_of_def Let_def)
    qed }
  show "parseBitcoinAddress env raw = None" using assms by (simp add: unambiguous_def parseBitcoinAddress_def)
  { assume "parseBip21 env raw f \<noteq> None"
    then have "prefix ''bitcoin:'' ?l" by (auto simp: parseBip21_def js_starts_with_def split: if_splits)
    then show "parser_of raw = 4" by (elim prefixE) (simp add: parser_of_def Let_def) }
  { assume r: "parseFediUri env raw \<noteq> None"
    then have p: "prefix ''fedi:'' ?l" by (auto simp: parseFediUri_def js_starts_with_def split: if_splits)
    have "\<not> prefix ''fedi:community'' ?l"
    proof
      assume c: "prefix ''fedi:community'' ?l"
      have "\<nexists>x. strip_prefix_ci q raw = Some x" if "q \<in> {''fedi:room:'', ''fedi://room:'', ''fedi:user:'', ''fedi://user:''}" for q
      proof (cases "strip_prefix_ci q raw")
        case (Some r)
        then have "prefix q (js_lower raw)" by (rule strip_prefix_ci_lower)
        then have False using prefix_conflict [OF c, of q] that by auto
        then show ?thesis ..
      qed simp
      then have "strip_prefix_ci ''fedi:room:'' raw = None" "strip_prefix_ci ''fedi://room:'' raw = None"
        "strip_prefix_ci ''fedi:user:'' raw = None" "strip_prefix_ci ''fedi://user:'' raw = None" by auto
      then have "decodeFediMatrixRoomUri raw = Inl invalid_room" "decodeFediMatrixUserUri raw = Inl invalid_member"
        by (simp_all add: decodeFediMatrixRoomUri_def decodeFediMatrixUserUri_def)
      moreover obtain e1 e2 where "decodeDirectChatLink raw = Inl e1" "decodeGroupInvitationLink raw = Inl e2"
        using assms direct_link [of raw] group_link [of raw]
        by (cases "decodeDirectChatLink raw"; cases "decodeGroupInvitationLink raw") (auto simp: unambiguous_def)
      ultimately show False using r by (simp add: parseFediUri_def split: if_splits)
    qed
    then show "parser_of raw = 5" using p by (auto simp: parser_of_def Let_def elim!: prefixE) }
  { assume "parseFedimintInvite raw \<noteq> None"
    then have "prefix ''fed1'' ?l" by (auto simp: parseFedimintInvite_def js_starts_with_def split: if_splits)
    then show "parser_of raw = 6" by (elim prefixE) (simp add: parser_of_def Let_def) }
  { assume "parseCommunityInvite raw \<noteq> None"
    then have "prefix ''fedi:community'' ?l" by (auto simp: parseCommunityInvite_def js_starts_with_def split: if_splits)
    then show "parser_of raw = 7" by (elim prefixE) (simp add: parser_of_def Let_def) }
  show "parseFedimintEcash env raw = None" using assms
    by (auto simp: unambiguous_def parseFedimintEcash_def split: sum.splits)
  { assume "parseCashuEcash raw \<noteq> None"
    then have "prefix ''cashu'' raw \<or> prefix ''web'' raw"
      by (auto simp: parseCashuEcash_def split: sum.splits dest: cashu_prefix)
    then have "prefix ''cashu'' ?l \<or> prefix ''web'' ?l"
      using lower_prefix [of "''cashu''" raw] lower_prefix [of "''web''" raw] by (simp add: js_lower_def to_lower_char_def is_upper_def char_code_def) blast
    then show "parser_of raw = 9" by (elim disjE prefixE) (simp_all add: parser_of_def Let_def) }
qed

text \<open>Of the ten parsers, at most one returns data for an unambiguous input.\<close>

lemma one_parser:
  assumes "unambiguous env raw" and "i < 10" and "parser_results env raw f ! i \<noteq> None"
  shows "i = parser_of raw"
proof -
  have "i \<in> {0, 1, 2, 3, 4, 5, 6, 7, 8, 9}" using assms(2) by auto
  then show ?thesis using assms(3) parsers_by_prefix(1,5) [OF assms(1), of f] parsers_by_prefix(2-4,6-) [OF assms(1)]
    by (elim insertE emptyE) (simp_all add: parser_results_def)
qed

lemma first_settled_unique: "set rs \<subseteq> {None, Some r} \<Longrightarrow> Some r \<in> set rs \<Longrightarrow> first_settled rs = r"
  by (induction rs rule: first_settled.induct) auto

lemma first_settled_none: "set rs \<subseteq> {None} \<Longrightarrow> first_settled rs = UnknownData None"
  by (induction rs rule: first_settled.induct) auto

text \<open>The data of the parser an unambiguous input belongs to, whatever the order.\<close>

lemma parse_of_parser:
  assumes "any_order order" and "unambiguous env (js_trim raw)"
  shows "parseUserInput env order raw f =
    (case parser_results env (js_trim raw) f ! parser_of (js_trim raw) of None \<Rightarrow> UnknownData None | Some r \<Rightarrow> r)"
proof -
  let ?rs = "parser_results env (js_trim raw) f" and ?i = "parser_of (js_trim raw)"
  let ?os = "map (\<lambda>i. ?rs ! i) order"
  have i: "?i < 10" by (simp add: parser_of_def Let_def)
  have mem: "x \<in> set ?os \<longleftrightarrow> (\<exists>j < 10. x = ?rs ! j)" for x
    using any_order_set [OF assms(1)] by auto
  have only: "x = ?rs ! ?i" if "x \<in> set ?os" "x \<noteq> None" for x
  proof -
    from that(1) have "\<exists>j < 10. x = ?rs ! j" by (rule mem [THEN iffD1])
    then obtain j where j: "j < 10" "x = ?rs ! j" by (elim exE conjE)
    have "?rs ! j \<noteq> None" using that(2) unfolding j(2) .
    then have "j = ?i" by (rule one_parser [OF assms(2) j(1)])
    then show ?thesis using j(2) by metis
  qed
  show ?thesis
  proof (cases "?rs ! ?i")
    case None
    then have "set ?os \<subseteq> {None}" using only by (metis singleton_iff subsetI)
    then show ?thesis using None by (simp add: parseUserInput_def first_settled_none)
  next
    case (Some r)
    have "set ?os \<subseteq> {None, Some r}" using only Some by auto
    moreover have "Some r \<in> set ?os" using mem [of "Some r"] i Some by metis
    ultimately have "first_settled ?os = r" by (rule first_settled_unique)
    then show ?thesis using Some by (simp add: parseUserInput_def)
  qed
qed

section \<open>Properties\<close>

text \<open>A test environment: it knows one address, fails on everything else and answers no profile.\<close>

definition sample_env :: parser_env where
  "sample_env = \<lparr>en_decodeInvoice = (\<lambda>i f. Inl (Error ''offline'')), en_validateEcash = (\<lambda>e. Inl (Error ''no ecash'')),
     en_matrixUserProfile = (\<lambda>i. Inl (Error ''offline'')), en_getLnurlParams = (\<lambda>u. Inr (OtherTag ''channelRequest'')),
     en_validateBitcoinAddress = (\<lambda>a. a = ''bc1address''), en_valid_url = (\<lambda>u. True),
     en_query = (\<lambda>q. []), en_translate = (\<lambda>k t. k)\<rparr>"

text \<open>
  Whatever the order in which the ten parsers settle, \<open>parseUserInput\<close> resolves: to the data one of
  them returned for the trimmed input, or to unknown data without a message exactly when none of
  them returned anything.
\<close>

theorem parse_always_resolves:
  assumes "any_order order"
  shows "Some (parseUserInput env order raw f) \<in> set (parser_results env (js_trim raw) f) \<or>
    (parseUserInput env order raw f = UnknownData None \<and> (\<forall>r \<in> set (parser_results env (js_trim raw) f). r = None))"
  using first_settled_in [OF refl, of "map (\<lambda>i. parser_results env (js_trim raw) f ! i) order"]
  unfolding parseUserInput_def parser_results_nth [OF assms, of env "js_trim raw" f] .

lemma parse_always_resolves_witness:
  "Some (parseUserInput sample_env [9, 8, 7, 6, 5, 4, 3, 2, 1, 0] '' fed1abc '' None) \<in>
     set (parser_results sample_env ''fed1abc'' None)"
proof -
  have "any_order [9, 8, 7, 6, 5, 4, 3, 2, 1, 0]" by (simp add: any_order_def upt_rec numeral_eq_Suc)
  note r = parse_always_resolves [OF this, of sample_env "'' fed1abc ''" None]
  have t: "js_trim '' fed1abc '' = ''fed1abc''" by code_simp
  have "Some (FedimintInvite ''fed1abc'') \<in> set (parser_results sample_env ''fed1abc'' None)" by code_simp
  then show ?thesis using r unfolding t by auto
qed

text \<open>
  C34: The parsers race, but for an input that is not an on-chain address, not Fedimint ecash, not of the form
  of a lightning address and without a legacy chat link inside, at most one of them returns data, so
  the result is the same in every order: what the parser named by the prefix of the input returns.
\<close>

theorem parse_order_irrelevant:
  assumes "any_order order" and "any_order order'" and "unambiguous env (js_trim raw)"
  shows "parseUserInput env order raw f = parseUserInput env order' raw f \<and>
    parseUserInput env order raw f =
      (case parser_results env (js_trim raw) f ! parser_of (js_trim raw) of None \<Rightarrow> UnknownData None | Some r \<Rightarrow> r)"
  using assms parse_of_parser by simp_all

lemma parse_order_irrelevant_witness:
  "parseUserInput sample_env [0..<10] ''FED1abc'' None = parseUserInput sample_env (rev [0..<10]) ''FED1abc'' None"
proof (rule parse_order_irrelevant [THEN conjunct1])
  show "unambiguous sample_env (js_trim ''FED1abc'')"
    by (simp add: unambiguous_def sample_env_def) code_simp
qed (simp_all add: any_order_def)

text \<open>
  A lightning address is also read by the parsers that look only at a prefix: an address whose user
  name starts with \<open>fed1\<close> is an LNURL answer in one order and the invite code of a federation in another.
\<close>

theorem lightning_address_races:
  "parseUserInput sample_env [0..<10] ''fed1sat@pay.example'' None \<noteq>
   parseUserInput sample_env (rev [0..<10]) ''fed1sat@pay.example'' None"
proof -
  have "js_trim ''fed1sat@pay.example'' = ''fed1sat@pay.example''" by code_simp
  moreover have "parser_results sample_env ''fed1sat@pay.example'' None =
      [None, None, Some (UnknownData (Some ''feature.parser.unsupported-lnurl'')), None, None, None,
       Some (FedimintInvite ''fed1sat@pay.example''), None, None, None]"
    by code_simp
  ultimately show ?thesis by (simp add: parseUserInput_def upt_rec numeral_eq_Suc)
qed

text \<open>
  A website link with one \<open>@\<close> in its path is taken for a lightning address: whatever the
  libraries answer, the request goes to the host named after the \<open>@\<close>, not to the website.
\<close>

theorem website_taken_for_address:
  "lnurl_request env ''https://medium.example/@alice.bob'' =
     Some ''https://alice.bob/.well-known/lnurlp/https://medium.example/''"
  by (simp add: lnurl_request_def stripProtocol_def strip_prefix_ci_def js_lower_def to_lower_char_def is_upper_def
      char_code_def js_starts_with_def isValidInternetIdentifier_def is_space_def Let_def)

text \<open>Legacy links decode to the identifier they were made of, when it does not contain the beginning of a link.\<close>

lemma before_first_none: "p \<noteq> [] \<Longrightarrow> \<not> js_includes s p \<Longrightarrow> before_first p s = s"
  by (induction s) auto

lemma second_part_link:
  assumes "p \<noteq> []" and "\<not> js_includes s p"
  shows "second_part p (p @ s) = Some s"
proof -
  have "after_first p (p @ s) = Some s" using assms(1) by (cases p) simp_all
  then show ?thesis using before_first_none [OF assms] by (simp add: second_part_def)
qed

lemma legacy_links_roundtrip:
  assumes "i \<noteq> []"
  shows "\<not> js_includes (i @ '':::'') ''fedi:group:'' \<Longrightarrow> decodeGroupInvitationLink (encodeGroupInvitationLink i) = Inr i"
    and "\<not> js_includes (i @ '':::'') ''fedi:member:'' \<Longrightarrow> decodeDirectChatLink (encodeDirectChatLink i) = Inr i"
  using assms second_part_link [of "''fedi:group:''" "i @ '':::''"] second_part_link [of "''fedi:member:''" "i @ '':::''"]
  by (simp_all add: decodeGroupInvitationLink_def encodeGroupInvitationLink_def decodeDirectChatLink_def
      encodeDirectChatLink_def truthy_str_def Let_def)

text \<open>A group link without the suffix keeps its identifier, a member link loses the last three characters of it.\<close>

lemma link_without_suffix:
  "decodeGroupInvitationLink ''fedi:group:abcdef'' = Inr ''abcdef''"
  "decodeDirectChatLink ''fedi:member:abcdef'' = Inr ''abc''"
  by code_simp+

end
