(* ===== verification/Pay.thy ===== *)
theory Pay
  imports InputParser
begin

text \<open>
  Payments from parsed input: \<open>ui/common/hooks/pay.ts\<close> with the LNURL requests of
  \<open>ui/common/utils/lnurl.ts\<close>. The React states of the hook are a record; an operation returns the calls it
  makes of the bridge and the network, in order, with its outcome. What they answer is an environment.
\<close>

section \<open>Calls\<close>

datatype pay_call =
    DecodeInvoice string string
  | PayInvoice json string
  | PayAddress string jsnum string
  | SignLnurlMessage string string
  | NewInvoice jsnum string string
  | Fetch string
  | CashuCall cashu_call

record pay_fees =
  pf_fediFee :: jsnum
  pf_networkFee :: jsnum
  pf_federationFee :: jsnum

record pay_env =
  pe_decodeInvoice :: "string \<Rightarrow> string \<Rightarrow> js_error + invoice \<times> pay_fees option"
  pe_payInvoice :: "json \<Rightarrow> string \<Rightarrow> js_error + string"
  pe_payAddress :: "string \<Rightarrow> jsnum \<Rightarrow> string \<Rightarrow> js_error + string"
  pe_previewPayAddress :: "string \<Rightarrow> jsnum \<Rightarrow> string \<Rightarrow> js_error + pay_fees"
  pe_signLnurlMessage :: "string \<Rightarrow> string \<Rightarrow> js_error + string \<times> string"
  pe_generateInvoice :: "jsnum \<Rightarrow> string \<Rightarrow> string \<Rightarrow> js_error + string"
  pe_url :: "string \<Rightarrow> js_error + string"
  pe_set_param :: "string \<Rightarrow> string \<Rightarrow> string \<Rightarrow> string"
  pe_fetch_json :: "string \<Rightarrow> js_error + json"
  pe_cashu :: cashu_env
  pe_services :: cashu_services

definition cashu_calls :: "(cashu_call, 'a) with_calls \<Rightarrow> (pay_call, 'a) with_calls" where
  "cashu_calls c = (map CashuCall (fst c), snd c)"

definition now :: "js_error + 'a \<Rightarrow> ('c, 'a) with_calls" where
  "now r = ([], r)"

section \<open>LNURL\<close>

text \<open>\<open>new Error(res.reason || 'errors.unknown-error')\<close>.\<close>

definition service_error :: "json option \<Rightarrow> js_error" where
  "service_error reason = Error (if json_truthy reason then json_text (the reason) else ''errors.unknown-error'')"

definition lnurlCallback :: "pay_env \<Rightarrow> string \<Rightarrow> (pay_call, unit) with_calls" where
  "lnurlCallback env url =
     afterwards (calling (Fetch url) (pe_fetch_json env url)) (\<lambda>res.
       afterwards (now (json_prop ''status'' (Some res))) (\<lambda>lower.
         afterwards (now (json_prop ''STATUS'' (Some res))) (\<lambda>upper.
           (case (if json_truthy lower then lower else upper) of
              Some (JStr status) \<Rightarrow>
                if js_lower status = ''ok'' then now (Inr ())
                else afterwards (now (json_prop ''reason'' (Some res))) (\<lambda>reason. now (Inl (service_error reason)))
            | _ \<Rightarrow> now (Inl TypeError)))))"

definition lnurlAuth :: "pay_env \<Rightarrow> string \<Rightarrow> string \<Rightarrow> string \<Rightarrow> (pay_call, unit) with_calls" where
  "lnurlAuth env domain callback k1 =
     afterwards (calling (SignLnurlMessage k1 domain) (pe_signLnurlMessage env k1 domain)) (\<lambda>(signature, pubkey).
       afterwards (now (pe_url env callback)) (\<lambda>url.
         lnurlCallback env (pe_set_param env (pe_set_param env url ''sig'' signature) ''key'' pubkey)))"

text \<open>The identifier of the payment is the preimage.\<close>

definition lnurlPay :: "pay_env \<Rightarrow> string \<Rightarrow> lnurl_pay \<Rightarrow> jsnum \<Rightarrow> (pay_call, string) with_calls" where
  "lnurlPay env federationId lnurlData amount =
     afterwards (now (pe_url env (lp_callback lnurlData))) (\<lambda>url.
       let request = pe_set_param env url ''amount'' (number_to_string amount)
       in afterwards (calling (Fetch request) (pe_fetch_json env request)) (\<lambda>res.
            afterwards (now (json_prop ''pr'' (Some res))) (\<lambda>pr.
              afterwards (now (json_prop ''status'' (Some res))) (\<lambda>status.
                if \<not> json_truthy pr \<or> status = Some (JStr ''ERROR'')
                then afterwards (now (json_prop ''reason'' (Some res))) (\<lambda>reason. now (Inl (service_error reason)))
                else calling (PayInvoice (the pr) federationId) (pe_payInvoice env (the pr) federationId)))))"

definition lnurlWithdraw ::
  "pay_env \<Rightarrow> string \<Rightarrow> string \<Rightarrow> string \<Rightarrow> jsnum \<Rightarrow> string option \<Rightarrow> (pay_call, string) with_calls"
where
  "lnurlWithdraw env federationId callback k1 amount note =
     (let memo = (if truthy_str note then the note else [])
      in afterwards (calling (NewInvoice amount memo federationId) (pe_generateInvoice env amount memo federationId)) (\<lambda>invoice.
           afterwards (now (pe_url env callback)) (\<lambda>url.
             afterwards (lnurlCallback env (pe_set_param env (pe_set_param env url ''k1'' k1) ''pr'' invoice)) (\<lambda>_.
               now (Inr invoice)))))"

section \<open>The payment form\<close>

datatype omni_input =
    OBolt11 string
  | OLnurlPay lnurl_pay
  | OBip21 bip21
  | OBitcoinAddress string
  | OCashuEcash string

record omni_state =
  om_feeDetails :: "pay_fees option"
  om_invoice :: "invoice option"
  om_cashuMeltSummary :: "melt_summary option"
  om_lnurlPayment :: "lnurl_pay option"
  om_bip21Payment :: "bip21 option"
  om_btcAddress :: "string option"
  om_inputAmount :: jsnum

definition initial_omni :: omni_state where
  "initial_omni = \<lparr>om_feeDetails = None, om_invoice = None, om_cashuMeltSummary = None, om_lnurlPayment = None,
     om_bip21Payment = None, om_btcAddress = None, om_inputAmount = Fin 0\<rparr>"

definition resetOmniPaymentState :: "omni_state \<Rightarrow> omni_state" where
  "resetOmniPaymentState s =
     s\<lparr>om_feeDetails := None, om_invoice := None, om_lnurlPayment := None, om_btcAddress := None,
       om_bip21Payment := None, om_inputAmount := Fin 0, om_cashuMeltSummary := None\<rparr>"

definition isReadyToPay :: "omni_state \<Rightarrow> bool" where
  "isReadyToPay s =
     (om_invoice s \<noteq> None \<or> om_lnurlPayment s \<noteq> None \<or> om_btcAddress s \<noteq> None \<or> om_bip21Payment s \<noteq> None \<or>
      om_cashuMeltSummary s \<noteq> None)"

text \<open>What the form shows: \<open>useSendForm\<close> of the states.\<close>

definition omni_args :: "omni_state \<Rightarrow> send_amount_args" where
  "omni_args s = \<lparr>sa_btcAddress = om_btcAddress s, sa_bip21Payment = om_bip21Payment s, sa_invoice = om_invoice s,
     sa_lnurlPayment = om_lnurlPayment s, sa_cashuTotalAmount = map_option ms_totalAmount (om_cashuMeltSummary s)\<rparr>"

definition omni_form :: "string \<Rightarrow> jsnum \<Rightarrow> omni_state \<Rightarrow> send_form" where
  "omni_form meltText balance s = useSendForm meltText balance (omni_args s)"

text \<open>The effect that asks for the fees of an on-chain payment of an exact amount.\<close>

definition getOnchainFeeDetails :: "pay_env \<Rightarrow> string option \<Rightarrow> jsnum option \<Rightarrow> omni_state \<Rightarrow> omni_state" where
  "getOnchainFeeDetails env federationId exactAmount s =
     (if truthy_num exactAmount \<and> truthy_str federationId \<and> om_btcAddress s \<noteq> None
      then (case pe_previewPayAddress env (the (om_btcAddress s)) (the exactAmount) (the federationId) of
              Inr fees \<Rightarrow> s\<lparr>om_feeDetails := Some fees\<rparr>
            | Inl e \<Rightarrow> s\<lparr>om_feeDetails := None\<rparr>)
      else s)"

text \<open>What an input changes once its data has arrived; the data is awaited before any state is set.\<close>

definition handleOmniInput ::
  "pay_env \<Rightarrow> string option \<Rightarrow> omni_input \<Rightarrow> (pay_call, omni_state \<Rightarrow> omni_state) with_calls"
where
  "handleOmniInput env federationId input =
     (case input of
        OBolt11 i \<Rightarrow>
          if \<not> truthy_str federationId then now (Inr id)
          else afterwards (calling (DecodeInvoice i (the federationId)) (pe_decodeInvoice env i (the federationId)))
            (\<lambda>(decoded, fee). now (Inr (\<lambda>s.
               let s1 = (if js_truthy (inv_amount decoded) then s\<lparr>om_inputAmount := msatToSat (inv_amount decoded)\<rparr> else s);
                   s2 = s1\<lparr>om_invoice := Some decoded\<rparr>
               in if fee \<noteq> None then s2\<lparr>om_feeDetails := fee\<rparr> else s2)))
      | OLnurlPay d \<Rightarrow> now (Inr (\<lambda>s.
          (if truthy_num (lp_minSendable d) then s\<lparr>om_inputAmount := msatToSat (the (lp_minSendable d))\<rparr> else s)
            \<lparr>om_lnurlPayment := Some d\<rparr>))
      | OBip21 d \<Rightarrow> now (Inr (\<lambda>s.
          (if truthy_num (b21_amount d) \<and> truthy_str federationId
           then s\<lparr>om_inputAmount := btcToSat (the (b21_amount d))\<rparr> else s)
            \<lparr>om_bip21Payment := Some d, om_btcAddress := Some (b21_address d)\<rparr>))
      | OBitcoinAddress a \<Rightarrow> now (Inr (\<lambda>s. s\<lparr>om_btcAddress := Some a\<rparr>))
      | OCashuEcash token \<Rightarrow>
          if \<not> truthy_str federationId then now (Inr id)
          else afterwards (now (decodeCashuTokens (pe_cashu env) token)) (\<lambda>tokens.
            afterwards (cashu_calls (getMeltQuotes (pe_services env) tokens federationId)) (\<lambda>meltSummary.
              now (Inr (\<lambda>s. s\<lparr>om_cashuMeltSummary := Some meltSummary,
                om_inputAmount := msatToSat (ms_totalAmount meltSummary),
                om_feeDetails := Some \<lparr>pf_fediFee = Fin 0, pf_networkFee = ms_totalFees meltSummary,
                                        pf_federationFee = Fin 0\<rparr>\<rparr>)))))"

datatype pay_result = Preimage string | Txid string | Melted jsnum

definition result_as :: "('a \<Rightarrow> pay_result) \<Rightarrow> ('c, 'a) with_calls \<Rightarrow> ('c, pay_result) with_calls" where
  "result_as k c = afterwards c (\<lambda>r. now (Inr (k r)))"

definition handleOmniSend :: "pay_env \<Rightarrow> string option \<Rightarrow> omni_state \<Rightarrow> jsnum \<Rightarrow> (pay_call, pay_result) with_calls" where
  "handleOmniSend env federationId s amount =
     (if \<not> truthy_str federationId then now (Inl (Error ''Must have a federation ID to send''))
      else let f = the federationId;
               onchain = (\<lambda>a. result_as Txid (calling (PayAddress a amount f) (pe_payAddress env a amount f)))
           in case om_invoice s of
                Some i \<Rightarrow> result_as Preimage (calling (PayInvoice (JStr (inv_invoice i)) f) (pe_payInvoice env (JStr (inv_invoice i)) f))
              | None \<Rightarrow>
                  (case om_lnurlPayment s of
                     Some l \<Rightarrow> result_as Preimage (lnurlPay env f l (satToMsat amount))
                   | None \<Rightarrow>
                       (case om_bip21Payment s of
                          Some b \<Rightarrow> onchain (b21_address b)
                        | None \<Rightarrow>
                            (case om_btcAddress s of
                               Some a \<Rightarrow> onchain a
                             | None \<Rightarrow>
                                 (case om_cashuMeltSummary s of
                                    Some m \<Rightarrow> result_as Melted (cashu_calls (executeMelts (pe_services env) m))
                                  | None \<Rightarrow> now (Inl (Error
                                      ''Requires invoice, lnurl payment, bip21 payment, or btc address to send'')))))))"

section \<open>Lemmas\<close>

lemma now_simps [simp]: "afterwards (now (Inr x)) k = k x" "afterwards (now (Inl e)) k = now (Inl e)" "snd (now r) = r" "fst (now r) = []"
  by (simp_all add: now_def split: prod.splits)

lemma afterwards_Inr:
  "snd (afterwards c k) = Inr r \<longleftrightarrow> (\<exists>x. snd c = Inr x \<and> snd (k x) = Inr r)"
  by (cases c; cases "snd c") (auto split: prod.splits)

lemma calls_afterwards:
  "fst (afterwards c k) = fst c @ (case snd c of Inl e \<Rightarrow> [] | Inr x \<Rightarrow> fst (k x))"
  by (cases c; cases "snd c") (auto split: prod.splits)

lemma calling_simps [simp]: "fst (calling c r) = [c]" "snd (calling c r) = r"
  by (simp_all add: calling_def)

lemma result_as_calls [simp]: "fst (result_as k c) = fst c"
  by (simp add: result_as_def calls_afterwards split: sum.splits)

lemmas omni_form_defs = omni_form_def omni_args_def useSendForm_def Let_def split_beta

lemma reset_is_initial [simp]: "resetOmniPaymentState s = initial_omni"
  by (simp add: resetOmniPaymentState_def initial_omni_def)

text \<open>What one input makes of the initial state.\<close>

lemma input_states:
  assumes "f \<noteq> []" and "snd (handleOmniInput env (Some f) i) = Inr upd"
  shows "i = OBolt11 raw \<Longrightarrow> \<exists>d fee. pe_decodeInvoice env raw f = Inr (d, fee) \<and>
           upd initial_omni = initial_omni\<lparr>om_feeDetails := fee, om_invoice := Some d,
             om_inputAmount := (if js_truthy (inv_amount d) then msatToSat (inv_amount d) else Fin 0)\<rparr>"
    and "i = OCashuEcash token \<Longrightarrow> \<exists>m fees. upd initial_omni = initial_omni\<lparr>om_feeDetails := fees,
           om_cashuMeltSummary := Some m, om_inputAmount := msatToSat (ms_totalAmount m)\<rparr>"
  using assms by (auto simp: handleOmniInput_def afterwards_Inr Let_def initial_omni_def)

definition paid_to :: "pay_call list \<Rightarrow> string option" where
  "paid_to cs = (case cs of
     [PayInvoice (JStr i) f] \<Rightarrow> Some i
   | [PayAddress a amount f] \<Rightarrow> Some a
   | _ \<Rightarrow> None)"

section \<open>Properties\<close>

text \<open>
  C35: After a reset, one input that is accepted makes the form ready; the amount is preset to the exact
  amount shown, and the recipient shown, shortened, is the invoice or the address that is paid.
\<close>

theorem one_input_pays_what_is_shown:
  assumes "f \<noteq> []" and "snd (handleOmniInput env (Some f) i) = Inr upd"
    and "\<And>raw d fee. i = OBolt11 raw \<Longrightarrow> pe_decodeInvoice env raw f = Inr (d, fee) \<Longrightarrow> inv_amount d \<noteq> NaN"
  shows "isReadyToPay (upd (resetOmniPaymentState s)) \<and>
    (\<forall>a. sf_exactAmount (omni_form t balance (upd (resetOmniPaymentState s))) = Some a \<longrightarrow>
       om_inputAmount (upd (resetOmniPaymentState s)) = a) \<and>
    (\<forall>r. sf_sendTo (omni_form t balance (upd (resetOmniPaymentState s))) = Some r \<longrightarrow>
       (\<exists>recipient. paid_to (fst (handleOmniSend env (Some f) (upd (resetOmniPaymentState s)) amount)) = Some recipient \<and>
          r = truncateMiddleOfString recipient 8))"
proof (cases i)
  case (OBolt11 raw)
  then obtain d fee where d: "pe_decodeInvoice env raw f = Inr (d, fee)"
    and u: "upd initial_omni = initial_omni\<lparr>om_feeDetails := fee, om_invoice := Some d,
      om_inputAmount := (if js_truthy (inv_amount d) then msatToSat (inv_amount d) else Fin 0)\<rparr>"
    using input_states(1) [OF assms(1,2)] by blast
  have "msatToSat (inv_amount d) = Fin 0" if "\<not> js_truthy (inv_amount d)"
    using that assms(3) [OF OBolt11 d] msatToSat_int [of 0] by (cases "inv_amount d") (auto simp: js_truthy_def safe_def)
  then show ?thesis using u assms(1)
    by (auto simp: omni_form_defs isReadyToPay_def handleOmniSend_def paid_to_def)
next
  case (OCashuEcash token)
  then show ?thesis using input_states(2) [OF assms(1,2)]
    by (auto simp: omni_form_defs isReadyToPay_def initial_omni_def)
next
  case (OLnurlPay d)
  then have "upd = (\<lambda>s. (if truthy_num (lp_minSendable d) then s\<lparr>om_inputAmount := msatToSat (the (lp_minSendable d))\<rparr> else s)
      \<lparr>om_lnurlPayment := Some d\<rparr>)"
    using assms(2) by (simp add: handleOmniInput_def)
  then show ?thesis by (auto simp: omni_form_defs isReadyToPay_def initial_omni_def)
next
  case (OBip21 b)
  then have "upd = (\<lambda>s. (if truthy_num (b21_amount b) then s\<lparr>om_inputAmount := btcToSat (the (b21_amount b))\<rparr> else s)
      \<lparr>om_bip21Payment := Some b, om_btcAddress := Some (b21_address b)\<rparr>)"
    using assms(1,2) by (simp add: handleOmniInput_def)
  then show ?thesis using assms(1)
    by (auto simp: omni_form_defs isReadyToPay_def handleOmniSend_def paid_to_def initial_omni_def)
next
  case (OBitcoinAddress a)
  then have "upd = (\<lambda>s. s\<lparr>om_btcAddress := Some a\<rparr>)" using assms(2) by (simp add: handleOmniInput_def)
  then show ?thesis using assms(1)
    by (auto simp: omni_form_defs isReadyToPay_def handleOmniSend_def paid_to_def initial_omni_def)
qed

text \<open>A bridge that answers every request, for two invoices and a service.\<close>

definition sample_bridge :: "json \<Rightarrow> pay_env" where
  "sample_bridge answer = \<lparr>pe_decodeInvoice = (\<lambda>i f. Inr (\<lparr>inv_invoice = i, inv_amount = FinI 21000, inv_description = ''tea''\<rparr>, None)),
     pe_payInvoice = (\<lambda>i f. Inr ''preimage''), pe_payAddress = (\<lambda>a n f. Inr ''txid''),
     pe_previewPayAddress = (\<lambda>a n f. Inl (Error ''offline'')), pe_signLnurlMessage = (\<lambda>k d. Inl (Error ''offline'')),
     pe_generateInvoice = (\<lambda>a m f. Inl (Error ''offline'')), pe_url = Inr, pe_set_param = (\<lambda>u k v. u @ ''?'' @ k @ ''='' @ v),
     pe_fetch_json = (\<lambda>u. Inr answer), pe_cashu = Cashu.sample_env answer,
     pe_services = \<lparr>cs_generateInvoice = (\<lambda>a m f. Inl TypeError), cs_meltQuote = (\<lambda>h i. Inl TypeError), cs_melt = (\<lambda>h q i. Inl TypeError)\<rparr>\<rparr>"

lemma one_input_pays_what_is_shown_witness:
  "\<exists>upd. snd (handleOmniInput (sample_bridge JNull) (Some ''fed'') (OBolt11 ''lnbc1'')) = Inr upd \<and>
     isReadyToPay (upd (resetOmniPaymentState initial_omni))"
proof -
  obtain upd where u: "snd (handleOmniInput (sample_bridge JNull) (Some ''fed'') (OBolt11 ''lnbc1'')) = Inr upd"
    by (simp add: handleOmniInput_def afterwards_Inr sample_bridge_def)
  have "isReadyToPay (upd (resetOmniPaymentState initial_omni))"
    by (rule one_input_pays_what_is_shown [OF _ u, THEN conjunct1]) (auto simp: sample_bridge_def)
  then show ?thesis using u by blast
qed

text \<open>
  An LNURL payment pays exactly when the service answers with an invoice and no error, and it pays
  the invoice answered: neither its amount nor anything else of it is compared with the amount asked for.
\<close>

theorem lnurl_pays_what_the_service_answers:
  "PayInvoice i g \<in> set (fst (lnurlPay env f d amount)) \<longleftrightarrow>
     g = f \<and> (\<exists>url res status. pe_url env (lp_callback d) = Inr url \<and>
       pe_fetch_json env (pe_set_param env url ''amount'' (number_to_string amount)) = Inr res \<and>
       json_prop ''pr'' (Some res) = Inr (Some i) \<and> json_truthy (Some i) \<and>
       json_prop ''status'' (Some res) = Inr status \<and> status \<noteq> Some (JStr ''ERROR''))"
proof (cases "pe_url env (lp_callback d)")
  case (Inr url)
  then show ?thesis
  proof (cases "pe_fetch_json env (pe_set_param env url ''amount'' (number_to_string amount))")
    case res: (Inr res)
    then show ?thesis
    proof (cases "json_prop ''pr'' (Some res)")
      case pr: (Inr p)
      then show ?thesis using Inr res
        by (cases p; cases "json_prop ''status'' (Some res)"; cases "json_prop ''reason'' (Some res)")
          (auto simp: lnurlPay_def Let_def calls_afterwards now_def calling_def)
    qed (simp add: Inr lnurlPay_def Let_def calls_afterwards now_def calling_def)
  qed (simp add: Inr lnurlPay_def Let_def calls_afterwards now_def calling_def)
qed (simp add: lnurlPay_def)

text \<open>
  The form keeps the data of earlier inputs: a payment request without an amount followed by a plain
  address shows the second address and pays the first.
\<close>

theorem stale_request_is_paid:
  assumes "f \<noteq> []" and "b21_amount b = None"
    and "Inr first = snd (handleOmniInput env (Some f) (OBip21 b))"
    and "Inr later = snd (handleOmniInput env (Some f) (OBitcoinAddress a))"
  shows "sf_sendTo (omni_form t balance (later (first (resetOmniPaymentState s)))) = Some (truncateMiddleOfString a 8) \<and>
    fst (handleOmniSend env (Some f) (later (first (resetOmniPaymentState s))) amount) = [PayAddress (b21_address b) amount f]"
  using assms by (auto simp: handleOmniInput_def omni_form_defs handleOmniSend_def initial_omni_def truthy_num_def)

lemma stale_request_is_paid_witness:
  "fst (handleOmniSend (sample_bridge JNull) (Some ''fed'')
     (initial_omni\<lparr>om_bip21Payment := Some \<lparr>b21_address = ''bc1first'', b21_amount = None, b21_label = None, b21_message = None\<rparr>,
        om_btcAddress := Some ''bc1second''\<rparr>) (FinI 500)) = [PayAddress ''bc1first'' (FinI 500) ''fed'']"
  using stale_request_is_paid [where f = "''fed''" and env = "sample_bridge JNull" and a = "''bc1second''" and s = initial_omni
      and b = "\<lparr>b21_address = ''bc1first'', b21_amount = None, b21_label = None, b21_message = None\<rparr>" and amount = "FinI 500"]
  by (simp add: handleOmniInput_def truthy_num_def)

end
