(* ===== verification/Export.thy ===== *)
theory Export
  imports AmountForms Transactions
begin

text \<open>
  The export of transactions: \<open>ui/common/utils/csv.ts\<close> and \<open>useExportTransactions\<close> of
  \<open>ui/common/hooks/transactions.ts\<close>. The text of a date is that of \<open>Date.prototype.toISOString\<close>;
  the formatter of amounts, the base64 of UTF-8 and the messages of the engine's own errors are arguments.
  A reader of comma-separated values after RFC 4180 says what a text means.
\<close>

section \<open>Dates\<close>

definition padded :: "nat \<Rightarrow> int \<Rightarrow> string" where
  "padded k n = (let ds = nat_digits (nat n) in replicate (k - length ds) CHR ''0'' @ ds)"

text \<open>Year, month and day of a day counted from 1970-01-01 in the proleptic Gregorian calendar, years from March.\<close>

definition civil_date :: "int \<Rightarrow> int \<times> int \<times> int" where
  "civil_date days =
     (let z = days + 719468;
          e = z mod 146097;
          y = (e - e div 1460 + e div 36524 - e div 146096) div 365;
          d = e - (365 * y + y div 4 - y div 100);
          m = (5 * d + 2) div 153;
          month = (if m < 10 then m + 3 else m - 9)
      in (y + z div 146097 * 400 + (if month \<le> 2 then 1 else 0), month, d - (153 * m + 2) div 5 + 1))"

definition iso_year :: "int \<Rightarrow> string" where
  "iso_year y =
     (if 0 \<le> y \<and> y \<le> 9999 then padded 4 y
      else (if y < 0 then ''-'' else ''+'') @ padded 6 \<bar>y\<bar>)"

text \<open>\<open>new Date(ms).toISOString()\<close>: beyond a hundred million days it throws.\<close>

definition toISOString :: "int \<Rightarrow> js_error + string" where
  "toISOString ms =
     (if 8640000000000000 < \<bar>ms\<bar> then Inl RangeError
      else let (y, m, d) = civil_date (ms div 86400000); t = ms mod 86400000
           in Inr (iso_year y @ ''-'' @ padded 2 m @ ''-'' @ padded 2 d @ ''T'' @ padded 2 (t div 3600000) @ '':'' @
                   padded 2 (t div 60000 mod 60) @ '':'' @ padded 2 (t div 1000 mod 60) @ ''.'' @ padded 3 (t mod 1000) @ ''Z''))"

section \<open>Comma-separated values\<close>

type_synonym 'a csv_columns = "(string \<times> ('a \<Rightarrow> js_error + string)) list"

abbreviation dquote :: char where "dquote \<equiv> CHR 0x22"

abbreviation crlf :: string where "crlf \<equiv> [CHR 0x0D, CHR 0x0A]"

definition csv_value :: "string \<Rightarrow> string" where
  "csv_value v = [dquote] @ js_replace_all v [dquote] [dquote, dquote] @ [dquote]"

text \<open>The two loops of \<open>makeCSV\<close>, with the text built so far; a value that throws ends them.\<close>

fun csv_row :: "bool \<Rightarrow> 'a csv_columns \<Rightarrow> 'a \<Rightarrow> string \<Rightarrow> js_error + string" where
  "csv_row first [] item csv = Inr csv"
| "csv_row first ((n, getValue) # columns) item csv =
     (let csv1 = (if first then csv else csv @ '','')
      in and_then (getValue item) (\<lambda>v. csv_row False columns item (csv1 @ csv_value v)))"

fun csv_rows :: "'a csv_columns \<Rightarrow> 'a list \<Rightarrow> string \<Rightarrow> js_error + string" where
  "csv_rows columns [] csv = Inr csv"
| "csv_rows columns (item # items) csv =
     and_then (csv_row True columns item (csv @ crlf)) (\<lambda>csv'. csv_rows columns items csv')"

definition makeCSV :: "'a list \<Rightarrow> 'a csv_columns \<Rightarrow> js_error + string" where
  "makeCSV items columns = csv_rows columns items (js_join '','' (map fst columns))"

section \<open>The history\<close>

text \<open>The transactions that are settled, by the first kind of state they have.\<close>

definition exported :: "transaction \<Rightarrow> bool" where
  "exported txn =
     (case tx_lnState txn of
        Some st \<Rightarrow> st \<in> {LnSuccess, LnClaimed, LnFunded}
      | None \<Rightarrow>
          (case tx_stabilityPoolState txn of
             Some st \<Rightarrow> (case st of CompleteDeposit a b \<Rightarrow> True | CompleteWithdrawal a \<Rightarrow> True | _ \<Rightarrow> False)
           | None \<Rightarrow>
               (case tx_onchainState txn of
                  Some st \<Rightarrow> (case st of OnchainSucceeded \<Rightarrow> True | OnchainClaimed i \<Rightarrow> True | _ \<Rightarrow> False)
                | None \<Rightarrow> tx_oobState txn = Some OobSuccess)))"

definition history_columns :: "(jsnum \<Rightarrow> symbol_position \<Rightarrow> formatted_amounts) \<Rightarrow> transaction csv_columns" where
  "history_columns formatted =
     [(''ID'', \<lambda>tx. Inr (tx_id tx)),
      (''Created at'', \<lambda>tx. toISOString (tx_createdAt tx * 1000)),
      (''Direction'', \<lambda>tx. Inr (case tx_direction tx of Send \<Rightarrow> ''send'' | Receive \<Rightarrow> ''receive'')),
      (''Type'', \<lambda>tx. Inr (if tx_bitcoin tx \<noteq> None then ''on-chain'' else if tx_lightning tx \<noteq> None then ''lightning'' else ''ecash'')),
      (''Amount (fiat)'', \<lambda>tx. Inr (formattedFiat (formatted (FinI (tx_amount tx)) symbol_end))),
      (''Amount (sats)'', \<lambda>tx. Inr (number_to_string (js_round (js_div (FinI (tx_amount tx)) (FinI 1000))))),
      (''Notes'', \<lambda>tx. Inr (tx_notes tx))]"

definition makeTransactionHistoryCSV ::
  "transaction list \<Rightarrow> (jsnum \<Rightarrow> symbol_position \<Rightarrow> formatted_amounts) \<Rightarrow> js_error + string"
where
  "makeTransactionHistoryCSV txs formatted =
     makeCSV (filter exported (order_asc tx_createdAt txs)) (history_columns formatted)"

definition makeBase64CSVUri :: "(string \<Rightarrow> string) \<Rightarrow> string \<Rightarrow> string" where
  "makeBase64CSVUri base64 csv = ''data:text/csv;base64,'' @ base64 csv"

definition makeCSVFilename :: "string \<Rightarrow> string" where
  "makeCSVFilename name =
     filter (\<lambda>c. is_upper c \<or> is_lower c \<or> is_digit_char c \<or> c = CHR ''-'')
       (map (\<lambda>c. if is_space c then CHR ''-'' else c) (js_lower name)) @ ''.csv''"

section \<open>The export of a federation\<close>

datatype export_result = Exported string string | ExportFailed string

text \<open>\<open>fetchTransactions\<close> of \<open>useTransactionHistory\<close>, for the active federation.\<close>

definition fetchActiveTransactions ::
  "(string \<Rightarrow> int option \<Rightarrow> int \<Rightarrow> js_error + transaction list) \<Rightarrow> string option \<Rightarrow> txs_state \<Rightarrow> int option \<Rightarrow> bool \<Rightarrow>
   js_error + transaction list"
where
  "fetchActiveTransactions listTransactions activeId state limit fetchMore =
     (if \<not> truthy_str activeId then Inl (Error ''errors.unknown-error'')
      else fetchTransactions listTransactions (the activeId) limit fetchMore state)"

definition exportTransactions ::
  "(string \<Rightarrow> int option \<Rightarrow> int \<Rightarrow> js_error + transaction list) \<Rightarrow> (js_error \<Rightarrow> string) \<Rightarrow> (string \<Rightarrow> string) \<Rightarrow>
   (jsnum \<Rightarrow> symbol_position \<Rightarrow> formatted_amounts) \<Rightarrow> string option \<Rightarrow> txs_state \<Rightarrow> string option \<Rightarrow> export_result"
where
  "exportTransactions listTransactions error_text base64 formatter activeId state federationName =
     (case and_then (fetchActiveTransactions listTransactions activeId state (Some 10000) False) (\<lambda>txs.
             and_then (makeTransactionHistoryCSV txs formatter) (\<lambda>csv.
               Inr (makeBase64CSVUri base64 csv,
                    makeCSVFilename (if truthy_str federationName then ''transactions-'' @ the federationName else ''transactions''))))
      of Inr (uri, fileName) \<Rightarrow> Exported uri fileName
       | Inl e \<Rightarrow> ExportFailed (error_text e))"

section \<open>Reading comma-separated values\<close>

text \<open>
  A reader after RFC 4180: whether it is between quotes, the field and the record read so far. Between
  quotes two of them stand for one; outside, a comma ends a field and CR LF ends a record.
\<close>

function csv_read :: "bool \<Rightarrow> string \<Rightarrow> string list \<Rightarrow> string \<Rightarrow> string list list" where
  "csv_read quoted field row [] = [row @ [field]]"
| "csv_read quoted field row (c # s) =
     (if quoted
      then (if c \<noteq> dquote then csv_read True (field @ [c]) row s
            else if s \<noteq> [] \<and> hd s = dquote then csv_read True (field @ [dquote]) row (tl s)
            else csv_read False field row s)
      else if c = dquote then csv_read True field row s
      else if c = CHR '','' then csv_read False [] (row @ [field]) s
      else if c = CHR 0x0D \<and> s \<noteq> [] \<and> hd s = CHR 0x0A then (row @ [field]) # csv_read False [] [] (tl s)
      else csv_read False (field @ [c]) row s)"
  by pat_completeness auto
termination by (relation "measure (\<lambda>(q, f, r, s). length s)") (auto simp: less_Suc_eq_le)

section \<open>Lemmas\<close>

lemma escape_chars: "js_replace_all v [c] [c, c] = concat (map (\<lambda>x. if x = c then [c, c] else [x]) v)"
proof -
  have "replace_all 0 [c] [c, c] v = concat (map (\<lambda>x. if x = c then [c, c] else [x]) v)" by (induction v) auto
  then show ?thesis by (simp add: js_replace_all_def)
qed

lemma read_quoted:
  assumes "s = [] \<or> hd s \<noteq> dquote"
  shows "csv_read True field row (js_replace_all v [dquote] [dquote, dquote] @ dquote # s) = csv_read False (field @ v) row s"
  using assms by (induction v arbitrary: field) (auto simp: escape_chars)

lemma read_value:
  assumes "s = [] \<or> hd s \<noteq> dquote"
  shows "csv_read False field row (csv_value v @ s) = csv_read False (field @ v) row s"
  using read_quoted [OF assms] by (simp add: csv_value_def)

text \<open>The text of a row: its values, quoted, with commas between.\<close>

definition row_text :: "string list \<Rightarrow> string" where
  "row_text vs = js_join '','' (map csv_value vs)"

definition row_values :: "'a csv_columns \<Rightarrow> 'a \<Rightarrow> (js_error + string) list" where
  "row_values columns item = map (\<lambda>(n, getValue). getValue item) columns"

lemma csv_row_rest:
  "csv_row False columns item csv = Inr csv' \<longleftrightarrow>
    (\<exists>vs. row_values columns item = map Inr vs \<and> csv' = csv @ concat (map (\<lambda>v. CHR '','' # csv_value v) vs))"
proof (induction columns arbitrary: csv)
  case (Cons c columns)
  obtain n g where c: "c = (n, g)" by (cases c)
  show ?case
  proof (cases "g item")
    case (Inr v)
    then show ?thesis using Cons.IH by (auto simp: c row_values_def Cons_eq_map_conv)
  qed (auto simp: c row_values_def Cons_eq_map_conv)
qed (auto simp: row_values_def)

lemma join_values: "js_join '','' (v # vs) = v @ concat (map (\<lambda>w. CHR '','' # w) vs)"
  by (induction vs arbitrary: v) simp_all

lemma csv_row_first:
  assumes "columns \<noteq> []"
  shows "csv_row True columns item csv = Inr csv' \<longleftrightarrow>
    (\<exists>vs. row_values columns item = map Inr vs \<and> csv' = csv @ row_text vs)"
proof -
  obtain n g cs where c: "columns = (n, g) # cs" using assms by (cases columns) auto
  show ?thesis
  proof (cases "g item")
    case (Inr v)
    then show ?thesis
      by (auto simp: c csv_row_rest row_values_def Cons_eq_map_conv row_text_def join_values comp_def)
  qed (auto simp: c row_values_def Cons_eq_map_conv)
qed

lemma read_row:
  assumes "s = [] \<or> hd s = CHR 0x0D"
  shows "csv_read False [] row (js_join '','' (map csv_value (v # vs)) @ s) = csv_read False (last (v # vs)) (row @ butlast (v # vs)) s"
proof (induction vs arbitrary: v row)
  case Nil
  then show ?case using read_value [of s "[]" row v] assms by auto
next
  case (Cons w vs)
  then show ?case using read_value [of "'','' @ js_join '','' (map csv_value (w # vs)) @ s" "[]" row v] by simp
qed

lemma csv_rows_text:
  assumes "columns \<noteq> []"
  shows "csv_rows columns items csv = Inr csv' \<longleftrightarrow>
    (\<exists>vss. map (row_values columns) items = map (map Inr) vss \<and> csv' = csv @ concat (map (\<lambda>vs. crlf @ row_text vs) vss))"
proof (induction items arbitrary: csv)
  case (Cons item items)
  show ?case
  proof (cases "csv_row True columns item (csv @ crlf)")
    case (Inl e)
    then have "\<nexists>vs. row_values columns item = map Inr vs" using csv_row_first [OF assms, of item "csv @ crlf"] by auto
    then show ?thesis using Inl by (auto simp: Cons_eq_map_conv)
  next
    case (Inr csv1)
    then obtain vs where vs: "row_values columns item = map Inr vs" "csv1 = csv @ crlf @ row_text vs"
      using csv_row_first [OF assms, of item "csv @ crlf"] by auto
    have inj: "map Inr vs = map Inr ws \<longleftrightarrow> vs = ws" for ws :: "string list"
      by (metis inj_Inr inj_map_eq_map)
    show ?thesis using Inr vs Cons.IH by (auto simp: Cons_eq_map_conv inj)
  qed
qed auto

lemma read_rows:
  assumes "list_all (\<lambda>vs. vs \<noteq> []) vss"
  shows "csv_read False field row (concat (map (\<lambda>vs. crlf @ row_text vs) vss)) = (row @ [field]) # vss"
  using assms
proof (induction vss arbitrary: field row)
  case (Cons vs vss)
  let ?rest = "concat (map (\<lambda>vs. crlf @ row_text vs) vss)"
  obtain v ws where vs: "vs = v # ws" using Cons.prems by (cases vs) auto
  have "?rest = [] \<or> hd ?rest = CHR 0x0D" by (cases vss) simp_all
  then have "csv_read False [] [] (row_text vs @ ?rest) = csv_read False (last vs) (butlast vs) ?rest"
    using read_row [of ?rest "[]" v ws] by (simp add: vs row_text_def)
  then show ?case using Cons by (simp add: vs)
qed simp

text \<open>Column names need no quotes: they hold no quote, comma or end of line.\<close>

definition plain_name :: "string \<Rightarrow> bool" where
  "plain_name n = list_all (\<lambda>c. c \<noteq> dquote \<and> c \<noteq> CHR '','' \<and> c \<noteq> CHR 0x0D) n"

lemma read_plain: "plain_name n \<Longrightarrow> csv_read False field row (n @ s) = csv_read False (field @ n) row s"
  by (induction n arbitrary: field) (auto simp: plain_name_def)

lemma read_header:
  "list_all plain_name (n # ns) \<Longrightarrow>
   csv_read False [] row (js_join '','' (n # ns) @ s) = csv_read False (last (n # ns)) (row @ butlast (n # ns)) s"
proof (induction ns arbitrary: n row)
  case (Cons m ns)
  then show ?case using read_plain [of n "[]" row "'','' @ js_join '','' (m # ns) @ s"] by simp
qed (simp add: read_plain)

section \<open>Properties\<close>

text \<open>
  C36: Reading the CSV text of \<open>makeCSV\<close> by RFC 4180 gives back the names of the columns and the values of
  every item, whatever quotes, commas and line ends the values hold.
\<close>

theorem csv_roundtrip:
  assumes "makeCSV items columns = Inr csv" and "columns \<noteq> []" and "list_all plain_name (map fst columns)"
  shows "csv_read False [] [] csv = map fst columns # map (\<lambda>item. map projr (row_values columns item)) items"
proof -
  obtain vss where vss: "map (row_values columns) items = map (map Inr) vss"
    and csv: "csv = js_join '','' (map fst columns) @ concat (map (\<lambda>vs. crlf @ row_text vs) vss)"
    using assms(1) csv_rows_text [OF assms(2)] by (auto simp: makeCSV_def)
  obtain n ns where names: "map fst columns = n # ns" using assms(2) by (cases columns) auto
  have "vs \<noteq> []" if "vs \<in> set vss" for vs
  proof -
    have "map Inr vs \<in> set (map (row_values columns) items)" using that unfolding vss by simp
    then have "length vs = length columns" by (auto simp: row_values_def dest: map_eq_imp_length_eq)
    then show ?thesis using assms(2) by auto
  qed
  then have "list_all (\<lambda>vs. vs \<noteq> []) vss" by (simp add: list_all_iff)
  then have "csv_read False [] [] csv = map fst columns # vss"
    using read_header [of n ns "[]"] assms(3) read_rows by (simp add: csv names)
  moreover have "map (\<lambda>item. map projr (row_values columns item)) items = map (map projr) (map (row_values columns) items)"
    by simp
  moreover have "\<dots> = vss" unfolding vss by (simp add: comp_def)
  ultimately show ?thesis by (simp only:)
qed

lemma csv_roundtrip_witness:
  "csv_read False [] [] (projr (makeCSV [''say \"a, b\"'', []] [(''ID'', Inr), (''Copy'', \<lambda>x. Inr (x @ crlf))])) =
     [[''ID'', ''Copy''], [''say \"a, b\"'', ''say \"a, b\"'' @ crlf], [[], crlf]]"
proof -
  let ?cs = "[(''ID'', Inr), (''Copy'', \<lambda>x. Inr (x @ crlf))] :: string csv_columns"
  obtain csv where c: "makeCSV [''say \"a, b\"'', []] ?cs = Inr csv" by (simp add: makeCSV_def Let_def)
  show ?thesis using csv_roundtrip [OF c] by (simp add: c row_values_def plain_name_def)
qed

text \<open>
  The rows of the exported history are the settled transactions, each once, oldest first, those of the same
  second in the order given; the first column is the id, the last one the notes as the user wrote them.
\<close>

theorem history_rows:
  assumes "makeTransactionHistoryCSV txs formatted = Inr csv"
  shows "map (\<lambda>r. (hd r, last r)) (tl (csv_read False [] [] csv)) =
      map (\<lambda>tx. (tx_id tx, tx_notes tx)) (filter exported (order_asc tx_createdAt txs)) \<and>
    sorted (map tx_createdAt (filter exported (order_asc tx_createdAt txs)))"
proof -
  have "csv_read False [] [] csv = map fst (history_columns formatted) #
      map (\<lambda>tx. map projr (row_values (history_columns formatted) tx)) (filter exported (order_asc tx_createdAt txs))"
    using assms by (intro csv_roundtrip) (simp_all add: makeTransactionHistoryCSV_def history_columns_def plain_name_def)
  then show ?thesis
    by (simp add: row_values_def history_columns_def comp_def sorted_filter)
qed

definition sample_oob :: "string \<Rightarrow> int \<Rightarrow> oob_state \<Rightarrow> transaction" where
  "sample_oob i t st = \<lparr>tx_id = i, tx_createdAt = t, tx_amount = 1500, tx_fediFeeStatus = None, tx_direction = Receive,
     tx_notes = ''tea, \"two\"'', tx_onchainState = None, tx_bitcoin = None, tx_lnState = None, tx_lightning = None,
     tx_withdrawal = None, tx_stabilityPoolState = None, tx_oobState = Some st\<rparr>"

definition sample_formatter :: "jsnum \<Rightarrow> symbol_position \<Rightarrow> formatted_amounts" where
  "sample_formatter a p = \<lparr>formattedFiat = ''1.00 USD'', formattedSats = ''2'', formattedUsd = ''1'',
     formattedPrimaryAmount = [], formattedSecondaryAmount = []\<rparr>"

lemma history_rows_witness:
  "\<exists>csv. makeTransactionHistoryCSV [sample_oob ''b'' 951782400 OobSuccess, sample_oob ''a'' 0 OobSuccess, sample_oob ''c'' 1 OobDone]
       sample_formatter = Inr csv \<and>
     map (\<lambda>r. (hd r, last r)) (tl (csv_read False [] [] csv)) = [(''a'', ''tea, \"two\"''), (''b'', ''tea, \"two\"'')]"
proof -
  let ?txs = "[sample_oob ''b'' 951782400 OobSuccess, sample_oob ''a'' 0 OobSuccess, sample_oob ''c'' 1 OobDone]"
  have f: "filter exported (order_asc tx_createdAt ?txs) = [sample_oob ''a'' 0 OobSuccess, sample_oob ''b'' 951782400 OobSuccess]"
    by (simp add: order_asc_def sample_oob_def exported_def)
  obtain csv where csv: "makeTransactionHistoryCSV ?txs sample_formatter = Inr csv"
    unfolding makeTransactionHistoryCSV_def f
    by (simp add: makeCSV_def history_columns_def Let_def toISOString_def sample_oob_def split_beta)
  have "map (\<lambda>tx. (tx_id tx, tx_notes tx)) [sample_oob ''a'' 0 OobSuccess, sample_oob ''b'' 951782400 OobSuccess] =
      [(''a'', ''tea, \"two\"''), (''b'', ''tea, \"two\"'')]"
    by (simp add: sample_oob_def)
  then show ?thesis using history_rows [OF csv] csv unfolding f by auto
qed

text \<open>Ecash that was received ends in another state than the ones exported: it is missing.\<close>

lemma received_ecash_missing: "\<not> exported (sample_oob i t OobDone)"
  by (simp add: exported_def sample_oob_def)

text \<open>
  The export asked for a federation holds the transactions of the active federation; only the name of the file
  is that of the federation asked for.
\<close>

theorem export_is_of_active_federation:
  assumes "exportTransactions listTransactions error_text base64 formatted (Some f) state (Some name) = Exported uri fileName"
    and "name \<noteq> []"
  shows "\<exists>txs csv. listTransactions f None 10000 = Inr txs \<and> makeTransactionHistoryCSV txs formatted = Inr csv \<and>
    uri = makeBase64CSVUri base64 csv \<and> fileName = makeCSVFilename (''transactions-'' @ name)"
proof -
  have fetch: "fetchActiveTransactions listTransactions (Some f) state (Some 10000) False =
      (if f = [] then Inl (Error ''errors.unknown-error'') else listTransactions f None 10000)"
    by (simp add: fetchActiveTransactions_def fetchTransactions_def Let_def)
  obtain txs where txs: "f \<noteq> []" "listTransactions f None 10000 = Inr txs"
    using assms(1) unfolding exportTransactions_def fetch
    by (cases "listTransactions f None 10000") (auto split: if_splits)
  then obtain csv where "makeTransactionHistoryCSV txs formatted = Inr csv"
    using assms(1) unfolding exportTransactions_def fetch
    by (cases "makeTransactionHistoryCSV txs formatted") auto
  then show ?thesis using assms txs unfolding exportTransactions_def fetch by auto
qed

lemma export_is_of_active_federation_witness:
  "exportTransactions (\<lambda>f t n. if f = ''fed1'' then Inr [] else Inl TypeError) (\<lambda>e. []) id sample_formatter (Some ''fed1'') [] (Some ''My Bank'') =
     Exported (''data:text/csv;base64,'' @ projr (makeCSV [] (history_columns sample_formatter))) ''transactions-my-bank.csv''"
proof -
  let ?l = "(\<lambda>f t n. if f = ''fed1'' then Inr [] else Inl TypeError) :: string \<Rightarrow> int option \<Rightarrow> int \<Rightarrow> js_error + transaction list"
  have name: "makeCSVFilename ''transactions-My Bank'' = ''transactions-my-bank.csv''" by code_simp
  obtain uri fileName where e: "exportTransactions ?l (\<lambda>e. []) id sample_formatter (Some ''fed1'') [] (Some ''My Bank'') = Exported uri fileName"
    by (simp add: exportTransactions_def fetchActiveTransactions_def fetchTransactions_def makeTransactionHistoryCSV_def
        order_asc_def makeCSV_def)
  have "\<exists>txs csv. ?l ''fed1'' None 10000 = Inr txs \<and> makeTransactionHistoryCSV txs sample_formatter = Inr csv \<and>
      uri = makeBase64CSVUri id csv \<and> fileName = makeCSVFilename (''transactions-'' @ ''My Bank'')"
    by (rule export_is_of_active_federation [OF e]) simp
  then have "uri = ''data:text/csv;base64,'' @ projr (makeCSV [] (history_columns sample_formatter))"
    and "fileName = ''transactions-my-bank.csv''"
    by (auto simp: name makeBase64CSVUri_def makeTransactionHistoryCSV_def order_asc_def)
  then show ?thesis using e by simp
qed

lemma civil_dates:
  "civil_date 0 = (1970, 1, 1)" "civil_date (- 1) = (1969, 12, 31)" "civil_date 11016 = (2000, 2, 29)"
  by code_simp+

end
