(* ===== verification/LogStore.thy ===== *)
theory LogStore
  imports JsPrint JsString
begin

text \<open>
  The log of \<open>ui/common/utils/log.ts\<close>: items are cached and saved to the storage of the platform when twenty
  have come together or after a pause. A save awaits a read and then a write of the storage, and other
  items can be logged in between; the steps of a run are the calls and the answers in any order.
\<close>

section \<open>Items\<close>

datatype log_level = LogDebug | LogInfo | LogWarn | LogError

text \<open>
  A logged value that is not of a primitive type comes with what \<open>JSON.stringify\<close> makes of it (nothing for a
  function) or throws, and its \<open>toString()\<close> if it has one.
\<close>

datatype log_arg =
    ArgText string
  | ArgNumber jsnum
  | ArgBool bool
  | ArgNull
  | ArgOther "js_error + string option" "string option"

datatype stored_arg = StText string | StNumber jsnum | StBool bool | StNull | StUndefined

record log_item =
  li_timestamp :: int
  li_level :: log_level
  li_context :: string
  li_message :: stored_arg
  li_extra :: "stored_arg list option"

definition MAX_LOGS_STORED :: nat where "MAX_LOGS_STORED = 15000"

definition MAX_MESSAGE_LENGTH :: nat where "MAX_MESSAGE_LENGTH = 1000"

definition MAX_ERROR_MESSAGE_LENGTH :: nat where "MAX_ERROR_MESSAGE_LENGTH = 2000"

text \<open>Long texts are cut; a level is always given by the callers.\<close>

fun cut_text :: "log_level \<Rightarrow> stored_arg \<Rightarrow> stored_arg" where
  "cut_text level (StText s) =
     (if MAX_MESSAGE_LENGTH < length s
      then StText (take (if level = LogError then MAX_ERROR_MESSAGE_LENGTH else MAX_MESSAGE_LENGTH) s @ ''...'')
      else StText s)"
| "cut_text level a = a"

fun serialized :: "log_arg \<Rightarrow> stored_arg" where
  "serialized (ArgText s) = StText s"
| "serialized (ArgNumber n) = StNumber n"
| "serialized (ArgBool b) = StBool b"
| "serialized ArgNull = StNull"
| "serialized (ArgOther (Inr (Some s)) t) = StText s"
| "serialized (ArgOther (Inr None) t) = StUndefined"
| "serialized (ArgOther (Inl e) t) = StText (if truthy_str t then the t else ''undefined'')"

definition formatArgForStorage :: "log_arg \<Rightarrow> log_level \<Rightarrow> stored_arg" where
  "formatArgForStorage arg level = cut_text level (serialized arg)"

definition log_item_of :: "int \<Rightarrow> log_level \<Rightarrow> string \<Rightarrow> string \<Rightarrow> log_arg list \<Rightarrow> log_item" where
  "log_item_of now level context message extra =
     \<lparr>li_timestamp = now, li_level = level, li_context = context, li_message = formatArgForStorage (ArgText message) level,
      li_extra = (if extra = [] then None else Some (map (\<lambda>e. formatArgForStorage e level) extra))\<rparr>"

text \<open>What \<open>JSON.parse\<close> reads of what \<open>JSON.stringify\<close> wrote: in an array neither \<open>undefined\<close> nor an infinite number survives.\<close>

fun json_arg :: "stored_arg \<Rightarrow> stored_arg" where
  "json_arg StUndefined = StNull"
| "json_arg (StNumber (Fin x)) = StNumber (Fin x)"
| "json_arg (StNumber n) = StNull"
| "json_arg a = a"

definition jsonified :: "log_item \<Rightarrow> log_item" where
  "jsonified i = i\<lparr>li_extra := map_option (map json_arg) (li_extra i)\<rparr>"

section \<open>The cache and the storage\<close>

text \<open>A save awaits the answer of \<open>getItem\<close> or, with the logs it writes, of \<open>setItem\<close>.\<close>

datatype save_phase = Reading | Writing "log_item list"

record log_state =
  lg_configured :: bool
  lg_stored :: "log_item list option"
  lg_cached :: "log_item list"
  lg_timer :: bool
  lg_saves :: "save_phase list"

definition initial_log :: log_state where
  "initial_log = \<lparr>lg_configured = False, lg_stored = None, lg_cached = [], lg_timer = False, lg_saves = []\<rparr>"

definition configureLogging :: "log_state \<Rightarrow> log_state" where
  "configureLogging s = s\<lparr>lg_configured := True\<rparr>"

text \<open>Without a storage the save rejects before it reads.\<close>

definition saveLogsToStorage :: "log_state \<Rightarrow> log_state" where
  "saveLogsToStorage s = (if lg_configured s then s\<lparr>lg_saves := lg_saves s @ [Reading]\<rparr> else s)"

definition innerLog :: "log_item \<Rightarrow> log_state \<Rightarrow> log_state" where
  "innerLog i s =
     (let s1 = s\<lparr>lg_cached := lg_cached s @ [i], lg_timer := False\<rparr>
      in if 20 \<le> length (lg_cached s1) then saveLogsToStorage s1 else s1\<lparr>lg_timer := True\<rparr>)"

definition timer_fires :: "log_state \<Rightarrow> log_state" where
  "timer_fires s = (if lg_timer s then saveLogsToStorage (s\<lparr>lg_timer := False\<rparr>) else s)"

text \<open>What a read that fails answers instead of the logs.\<close>

definition retrieval_error :: "int \<Rightarrow> log_arg \<Rightarrow> log_item" where
  "retrieval_error now err =
     \<lparr>li_timestamp = now, li_level = LogError, li_context = ''common/utils/log'',
      li_message = StText ''Encountered an error during log retrieval from storage. Some logging may be missing.'',
      li_extra = Some [formatArgForStorage err LogError]\<rparr>"

definition getLogsFromStorage :: "(int \<times> log_arg) option \<Rightarrow> log_state \<Rightarrow> log_item list" where
  "getLogsFromStorage failure s =
     (case failure of
        Some (now, err) \<Rightarrow> [retrieval_error now err]
      | None \<Rightarrow> (case lg_stored s of None \<Rightarrow> [] | Some logs \<Rightarrow> logs))"

text \<open>\<open>logs.slice(-n)\<close>.\<close>

definition last_of :: "nat \<Rightarrow> 'a list \<Rightarrow> 'a list" where
  "last_of n xs = drop (length xs - n) xs"

definition read_answered :: "nat \<Rightarrow> (int \<times> log_arg) option \<Rightarrow> log_state \<Rightarrow> log_state" where
  "read_answered k failure s =
     (if k < length (lg_saves s) \<and> lg_saves s ! k = Reading
      then s\<lparr>lg_saves := (lg_saves s)[k := Writing (last_of MAX_LOGS_STORED (getLogsFromStorage failure s @ lg_cached s))]\<rparr>
      else s)"

definition remove_at :: "nat \<Rightarrow> 'a list \<Rightarrow> 'a list" where
  "remove_at k xs = take k xs @ drop (Suc k) xs"

definition write_answered :: "nat \<Rightarrow> bool \<Rightarrow> log_state \<Rightarrow> log_state" where
  "write_answered k success s =
     (if k < length (lg_saves s)
      then (case lg_saves s ! k of
              Reading \<Rightarrow> s
            | Writing logs \<Rightarrow>
                if success then s\<lparr>lg_stored := Some (map jsonified logs), lg_cached := [], lg_saves := remove_at k (lg_saves s)\<rparr>
                else s\<lparr>lg_saves := remove_at k (lg_saves s)\<rparr>)
      else s)"

datatype log_event =
    Configure
  | Logged log_item
  | TimerFires
  | SaveCalled
  | ReadAnswered nat "(int \<times> log_arg) option"
  | WriteAnswered nat bool

fun log_step :: "log_event \<Rightarrow> log_state \<Rightarrow> log_state" where
  "log_step Configure s = configureLogging s"
| "log_step (Logged i) s = innerLog i s"
| "log_step TimerFires s = timer_fires s"
| "log_step SaveCalled s = saveLogsToStorage s"
| "log_step (ReadAnswered k failure) s = read_answered k failure s"
| "log_step (WriteAnswered k success) s = write_answered k success s"

text \<open>The export reads the stored logs and adds the cached ones.\<close>

definition exported_logs :: "(int \<times> log_arg) option \<Rightarrow> log_state \<Rightarrow> js_error + log_item list" where
  "exported_logs failure s =
     (if \<not> lg_configured s then Inl (Error ''Logging storage not initialized'')
      else Inr (getLogsFromStorage failure s @ lg_cached s))"

section \<open>Lemmas\<close>

lemma length_last_of [simp]: "length (last_of n xs) = min n (length xs)"
  by (simp add: last_of_def)

lemma length_remove_at: "k < length xs \<Longrightarrow> length (remove_at k xs) = length xs - 1"
  by (simp add: remove_at_def)

lemma set_remove_at: "set (remove_at k xs) \<subseteq> set xs"
  unfolding remove_at_def using set_take_subset [of k xs] set_drop_subset [of "Suc k" xs] by auto

lemma last_of_append: "\<exists>dropped. xs = dropped @ last_of n xs \<and> (dropped \<noteq> [] \<longrightarrow> length (last_of n xs) = n)"
  by (rule exI [of _ "take (length xs - n) xs"]) (auto simp: last_of_def)

text \<open>The invariant of the bounds: what is stored or being written is never longer than the limit.\<close>

definition bounded_saves :: "log_state \<Rightarrow> bool" where
  "bounded_saves s \<longleftrightarrow>
     (\<forall>logs. lg_stored s = Some logs \<longrightarrow> length logs \<le> MAX_LOGS_STORED) \<and>
     (\<forall>logs. Writing logs \<in> set (lg_saves s) \<longrightarrow> length logs \<le> MAX_LOGS_STORED)"

lemma bounded_step: "bounded_saves s \<Longrightarrow> bounded_saves (log_step e s)"
proof (cases e)
  case (ReadAnswered k failure)
  assume "bounded_saves s"
  then show ?thesis
    by (auto simp: ReadAnswered read_answered_def bounded_saves_def dest!: subsetD [OF set_update_subset_insert])
next
  case (WriteAnswered k success)
  assume b: "bounded_saves s"
  have "length logs \<le> MAX_LOGS_STORED" if "k < length (lg_saves s)" "lg_saves s ! k = Writing logs" for logs
    using b that nth_mem [OF that(1)] by (simp add: bounded_saves_def)
  then show ?thesis using b set_remove_at [of k "lg_saves s"]
    by (auto simp: WriteAnswered write_answered_def bounded_saves_def split: save_phase.splits)
qed (auto simp: bounded_saves_def configureLogging_def innerLog_def timer_fires_def saveLogsToStorage_def Let_def)

text \<open>The logs kept, oldest first: those stored and then those cached, as the storage would hold them.\<close>

definition kept_logs :: "log_state \<Rightarrow> log_item list" where
  "kept_logs s = (case lg_stored s of None \<Rightarrow> [] | Some logs \<Rightarrow> logs) @ map jsonified (lg_cached s)"

definition stored_json :: "log_state \<Rightarrow> bool" where
  "stored_json s \<longleftrightarrow> (\<forall>logs. lg_stored s = Some logs \<longrightarrow> map jsonified logs = logs)"

lemma json_arg_idem [simp]: "json_arg (json_arg a) = json_arg a"
  by (cases a rule: json_arg.cases) simp_all

lemma jsonified_idem [simp]: "jsonified (jsonified i) = jsonified i"
  by (simp add: jsonified_def option.map_comp comp_def)

lemma last_of_map: "last_of n (map f xs) = map f (last_of n xs)"
  by (simp add: last_of_def drop_map)

lemma stored_json_step: "stored_json s \<Longrightarrow> stored_json (log_step e s)"
  by (cases e) (auto simp: stored_json_def configureLogging_def innerLog_def timer_fires_def saveLogsToStorage_def
      read_answered_def write_answered_def Let_def split: save_phase.splits)



interpretation bounded_log: reducer initial_log log_step "\<lambda>e. True" bounded_saves
  by unfold_locales (simp_all add: bounded_step, simp add: bounded_saves_def initial_log_def)

interpretation json_log: reducer initial_log log_step "\<lambda>e. True" stored_json
  by unfold_locales (simp_all add: stored_json_step, simp add: stored_json_def initial_log_def)

text \<open>An item is nowhere: not stored, not cached and not in a write under way.\<close>

definition nowhere :: "log_item \<Rightarrow> log_state \<Rightarrow> bool" where
  "nowhere i s \<longleftrightarrow> jsonified i \<notin> jsonified ` (set (case lg_stored s of None \<Rightarrow> [] | Some logs \<Rightarrow> logs) \<union> set (lg_cached s)) \<and>
     (\<forall>logs. Writing logs \<in> set (lg_saves s) \<longrightarrow> jsonified i \<notin> jsonified ` set logs)"

lemma set_last_of: "set (last_of n xs) \<subseteq> set xs"
  by (simp add: last_of_def set_drop_subset)

lemma nowhere_step:
  assumes "nowhere i s" and "\<And>j. e = Logged j \<Longrightarrow> jsonified j \<noteq> jsonified i" and "li_context i \<noteq> ''common/utils/log''"
  shows "nowhere i (log_step e s)"
proof (cases e)
  case (Logged j)
  then show ?thesis using assms(1) assms(2) [of j]
    by (auto simp: nowhere_def innerLog_def saveLogsToStorage_def Let_def)
next
  case (ReadAnswered k failure)
  have "jsonified i \<noteq> jsonified (retrieval_error now err)" for now err
  proof
    assume "jsonified i = jsonified (retrieval_error now err)"
    then have "li_context (jsonified (retrieval_error now err)) = li_context (jsonified i)" by simp
    then show False using assms(3) by (simp add: jsonified_def retrieval_error_def)
  qed
  then have "jsonified i \<notin> jsonified ` set (getLogsFromStorage (Some p) s)" for p
    by (cases p) (simp add: getLogsFromStorage_def)
  moreover have "jsonified i \<notin> jsonified ` set (getLogsFromStorage None s)" "jsonified i \<notin> jsonified ` set (lg_cached s)"
    using assms(1) by (simp_all add: nowhere_def getLogsFromStorage_def image_Un)
  ultimately have "jsonified i \<notin> jsonified ` set (getLogsFromStorage failure s @ lg_cached s)"
    by (cases failure) (simp_all only: set_append image_Un Un_iff simp_thms)
  then have new: "jsonified i \<notin> jsonified ` set (last_of MAX_LOGS_STORED (getLogsFromStorage failure s @ lg_cached s))"
    by (rule contra_subsetD [OF image_mono [OF set_last_of]])
  have "l = n \<or> Writing l \<in> set (lg_saves s)" if "Writing l \<in> set ((lg_saves s)[k := Writing n])" for l n
    using subsetD [OF set_update_subset_insert that] by auto
  then show ?thesis using assms(1) new
    unfolding ReadAnswered log_step.simps read_answered_def nowhere_def by (simp split: if_splits) blast
next
  case (WriteAnswered k success)
  have "jsonified i \<notin> jsonified ` set (map jsonified logs)" if "k < length (lg_saves s)" "lg_saves s ! k = Writing logs" for logs
    using assms(1) that nth_mem [OF that(1)] by (auto simp: nowhere_def image_image)
  then show ?thesis using assms(1) set_remove_at [of k "lg_saves s"]
    by (auto simp: WriteAnswered write_answered_def nowhere_def split: save_phase.splits)
qed (use assms(1) in \<open>auto simp: nowhere_def configureLogging_def timer_fires_def saveLogsToStorage_def\<close>)

lemma nowhere_run:
  assumes "nowhere i s" and "\<And>j. Logged j \<in> set es \<Longrightarrow> jsonified j \<noteq> jsonified i" and "li_context i \<noteq> ''common/utils/log''"
  shows "nowhere i (fold log_step es s)"
  using assms(1,2)
proof (induction es arbitrary: s)
  case (Cons e es)
  have "nowhere i (log_step e s)" by (rule nowhere_step [OF Cons.prems(1) _ assms(3)]) (use Cons.prems(2) in auto)
  then show ?case using Cons by simp
qed simp

text \<open>
  An item that is cached, and neither stored nor in a write under way, stays so until a save reads the
  logs or a write succeeds; a write that succeeds first loses it.
\<close>

definition only_cached :: "log_item \<Rightarrow> log_state \<Rightarrow> bool" where
  "only_cached i s \<longleftrightarrow> i \<in> set (lg_cached s) \<and> nowhere i (s\<lparr>lg_cached := []\<rparr>)"

fun reads_or_stores :: "log_event \<Rightarrow> bool" where
  "reads_or_stores (ReadAnswered k failure) = True"
| "reads_or_stores (WriteAnswered k success) = success"
| "reads_or_stores _ = False"

lemma only_cached_logged: "nowhere i s \<Longrightarrow> only_cached i (innerLog i s)"
  by (auto simp: only_cached_def nowhere_def innerLog_def saveLogsToStorage_def Let_def)

lemma only_cached_step: "only_cached i s \<Longrightarrow> \<not> reads_or_stores e \<Longrightarrow> only_cached i (log_step e s)"
proof (cases e)
  case (WriteAnswered k success)
  assume "only_cached i s" and "\<not> reads_or_stores e"
  then show ?thesis using set_remove_at [of k "lg_saves s"]
    by (auto simp: WriteAnswered only_cached_def nowhere_def write_answered_def split: save_phase.splits)
qed (auto simp: only_cached_def nowhere_def configureLogging_def innerLog_def timer_fires_def saveLogsToStorage_def Let_def)

lemma only_cached_run:
  "only_cached i s \<Longrightarrow> list_all (\<lambda>e. \<not> reads_or_stores e) es \<Longrightarrow> only_cached i (fold log_step es s)"
  by (induction es arbitrary: s) (simp_all add: only_cached_step)

lemma only_cached_written:
  assumes "only_cached i s" and "k < length (lg_saves s)" and "lg_saves s ! k = Writing logs"
  shows "nowhere i (write_answered k True s)"
proof -
  have "Writing logs \<in> set (lg_saves s)" using nth_mem [OF assms(2)] assms(3) by simp
  then show ?thesis using assms set_remove_at [of k "lg_saves s"]
    by (auto simp: only_cached_def nowhere_def write_answered_def image_image)
qed

section \<open>Properties\<close>

text \<open>C38: In every run the storage holds at most fifteen thousand items, however saves interleave.\<close>

theorem log_storage_bounded:
  "length (case lg_stored (fold log_step es initial_log) of None \<Rightarrow> [] | Some logs \<Rightarrow> logs) \<le> MAX_LOGS_STORED"
proof -
  have "bounded_saves (fold log_step es initial_log)" by (rule bounded_log.run_invar) (simp add: list_all_iff)
  then show ?thesis by (auto simp: bounded_saves_def split: option.splits)
qed

text \<open>
  C20: A save that nothing interrupts empties the cache and loses nothing but the oldest items beyond the
  limit: the logs kept before it end with the logs kept after it, and if any is dropped the storage is full.
\<close>

theorem save_alone_keeps_logs:
  assumes "lg_configured s" and "lg_saves s = []" and "s = fold log_step es initial_log"
  shows "\<exists>dropped. kept_logs s = dropped @ kept_logs (fold log_step [SaveCalled, ReadAnswered 0 None, WriteAnswered 0 True] s) \<and>
    lg_cached (fold log_step [SaveCalled, ReadAnswered 0 None, WriteAnswered 0 True] s) = [] \<and>
    (dropped \<noteq> [] \<longrightarrow> length (kept_logs (fold log_step [SaveCalled, ReadAnswered 0 None, WriteAnswered 0 True] s)) = MAX_LOGS_STORED)"
proof -
  let ?old = "case lg_stored s of None \<Rightarrow> [] | Some logs \<Rightarrow> logs"
  have "stored_json s" unfolding assms(3) by (rule json_log.run_invar) (simp add: list_all_iff)
  then have old: "map jsonified ?old = ?old" by (auto simp: stored_json_def split: option.splits)
  have k: "kept_logs (fold log_step [SaveCalled, ReadAnswered 0 None, WriteAnswered 0 True] s) =
      last_of MAX_LOGS_STORED (map jsonified (?old @ lg_cached s))"
    using assms(1,2) by (simp del: map_append add: saveLogsToStorage_def read_answered_def write_answered_def
        getLogsFromStorage_def kept_logs_def last_of_map)
  have "kept_logs s = map jsonified (?old @ lg_cached s)" using old by (simp add: kept_logs_def)
  then show ?thesis using last_of_append [of "kept_logs s" MAX_LOGS_STORED] assms(1,2) unfolding k
    by (auto simp: saveLogsToStorage_def read_answered_def write_answered_def)
qed

definition sample_log :: "string \<Rightarrow> log_item" where
  "sample_log m = log_item_of 7 LogInfo ''ui'' m [ArgOther (Inr None) None]"

lemma save_alone_keeps_logs_witness:
  "lg_stored (fold log_step [Configure, Logged (sample_log ''a''), Logged (sample_log ''b''), SaveCalled, ReadAnswered 0 None,
     WriteAnswered 0 True] initial_log) = Some [jsonified (sample_log ''a''), jsonified (sample_log ''b'')]"
proof -
  let ?s = "fold log_step [Configure, Logged (sample_log ''a''), Logged (sample_log ''b'')] initial_log"
  have s: "lg_configured ?s" "lg_saves ?s = []" "kept_logs ?s = [jsonified (sample_log ''a''), jsonified (sample_log ''b'')]"
    by (simp_all add: configureLogging_def innerLog_def initial_log_def Let_def kept_logs_def)
  let ?t = "fold log_step [SaveCalled, ReadAnswered 0 None, WriteAnswered 0 True] ?s"
  obtain dropped where d: "kept_logs ?s = dropped @ kept_logs ?t" "lg_cached ?t = []"
      "dropped \<noteq> [] \<longrightarrow> length (kept_logs ?t) = MAX_LOGS_STORED"
    using save_alone_keeps_logs [OF s(1,2) refl] by blast
  have "length (kept_logs ?t) \<le> 2" using d(1) s(3) by (metis length_append le_add2 length_Cons list.size(3) numeral_2_eq_2)
  then have "dropped = []" using d(3) by (auto simp: MAX_LOGS_STORED_def)
  then have "kept_logs ?t = [jsonified (sample_log ''a''), jsonified (sample_log ''b'')]" using d(1) s(3) by simp
  then show ?thesis using d(2) by (auto simp: kept_logs_def split: option.splits)
qed

text \<open>
  C37: An item is lost when a write is answered with success before a save has read the cache that holds
  it: until then it is cached, whatever else is logged, started or failed; then the cache is emptied,
  and in no later state is the item stored, cached or written unless it is logged again.
\<close>

theorem logged_while_saving_is_lost:
  assumes "nowhere i s" and "list_all (\<lambda>e. \<not> reads_or_stores e) between"
    and "t = fold log_step (Logged i # between) s"
    and "k < length (lg_saves t)" and "lg_saves t ! k = Writing logs"
    and "li_context i \<noteq> ''common/utils/log''" and "\<And>j. Logged j \<in> set es \<Longrightarrow> jsonified j \<noteq> jsonified i"
  shows "i \<in> set (lg_cached t) \<and> nowhere i (fold log_step (WriteAnswered k True # es) t)"
proof -
  have t: "only_cached i t"
    unfolding assms(3) using assms(1,2) by (simp add: only_cached_run only_cached_logged)
  then have cached: "i \<in> set (lg_cached t)" by (simp add: only_cached_def)
  have "nowhere i (write_answered k True t)" using t assms(4,5) by (rule only_cached_written)
  then show ?thesis
    using cached nowhere_run [OF _ assms(7,6)] by simp
qed

text \<open>A second item is logged while the first is written, and a second save is called before that write is answered.\<close>

lemma logged_while_saving_is_lost_witness:
  "nowhere (sample_log ''b'') (fold log_step [Configure, Logged (sample_log ''a''), SaveCalled, ReadAnswered 0 None,
     Logged (sample_log ''b''), SaveCalled, TimerFires, WriteAnswered 0 True, ReadAnswered 0 None, WriteAnswered 0 True] initial_log)"
proof -
  let ?s = "fold log_step [Configure, Logged (sample_log ''a''), SaveCalled, ReadAnswered 0 None] initial_log"
  let ?t = "fold log_step (Logged (sample_log ''b'') # [SaveCalled, TimerFires]) ?s"
  have ab: "jsonified (sample_log ''a'') \<noteq> jsonified (sample_log ''b'')"
    by (simp add: sample_log_def jsonified_def log_item_of_def formatArgForStorage_def MAX_MESSAGE_LENGTH_def)
  have s: "nowhere (sample_log ''b'') ?s"
    using ab by (simp add: configureLogging_def innerLog_def initial_log_def saveLogsToStorage_def read_answered_def
        getLogsFromStorage_def last_of_def MAX_LOGS_STORED_def Let_def nowhere_def eq_commute)
  have t: "lg_saves ?t = [Writing [sample_log ''a''], Reading, Reading]"
    by (simp add: configureLogging_def innerLog_def initial_log_def saveLogsToStorage_def read_answered_def timer_fires_def
        getLogsFromStorage_def last_of_def MAX_LOGS_STORED_def Let_def)
  have "sample_log ''b'' \<in> set (lg_cached ?t) \<and>
      nowhere (sample_log ''b'') (fold log_step (WriteAnswered 0 True # [ReadAnswered 0 None, WriteAnswered 0 True]) ?t)"
    by (rule logged_while_saving_is_lost [where logs = "[sample_log ''a'']", OF s _ refl])
      (use t in \<open>simp_all add: sample_log_def log_item_of_def\<close>)
  then show ?thesis by simp
qed

text \<open>The text of an error between the two limits gets the dots although nothing is cut.\<close>

lemma error_text_not_cut:
  "MAX_MESSAGE_LENGTH < length s \<Longrightarrow> length s \<le> MAX_ERROR_MESSAGE_LENGTH \<Longrightarrow>
   formatArgForStorage (ArgText s) LogError = StText (s @ ''...'')"
  by (simp add: formatArgForStorage_def)

end
