(* ===== verification/TextDetect.thy ===== *)
theory TextDetect
  imports Prelude "HOL-Library.Word"
begin

text \<open>
  The detection of text files of \<open>ui/common/utils/istextorbinary.ts\<close>: three chunks of a buffer, widened to
  whole UTF-8 characters, are decoded and searched for control and replacement characters. The decoder
  \<open>buffer.toString('utf8')\<close> is an argument that answers the char codes. UTF-8 text is never taken for binary.
\<close>

section \<open>Bytes of UTF-8\<close>

definition isFirstByteOf4ByteChar :: "8 word \<Rightarrow> bool" where
  "isFirstByteOf4ByteChar byte = (drop_bit 3 byte = 30)"

definition isFirstByteOf3ByteChar :: "8 word \<Rightarrow> bool" where
  "isFirstByteOf3ByteChar byte = (drop_bit 4 byte = 14)"

definition isFirstByteOf2ByteChar :: "8 word \<Rightarrow> bool" where
  "isFirstByteOf2ByteChar byte = (drop_bit 5 byte = 6)"

definition isLaterByteOfUtf8 :: "8 word \<Rightarrow> bool" where
  "isLaterByteOfUtf8 byte = (drop_bit 6 byte = 2)"

text \<open>\<open>buf[i]\<close>: \<open>undefined\<close> beyond the end, which every shift takes for zero.\<close>

definition byte_at :: "8 word list \<Rightarrow> nat \<Rightarrow> 8 word" where
  "byte_at buf i = (if i < length buf then buf ! i else 0)"

section \<open>Chunks\<close>

text \<open>The beginning of a chunk, nothing for \<open>-1\<close>.\<close>

definition getChunkBegin :: "8 word list \<Rightarrow> nat \<Rightarrow> nat option" where
  "getChunkBegin buf chunkBegin =
     (if chunkBegin = 0 then Some 0
      else if \<not> isLaterByteOfUtf8 (byte_at buf chunkBegin) then Some chunkBegin
      else if 3 \<le> chunkBegin \<and> isFirstByteOf4ByteChar (byte_at buf (chunkBegin - 3)) then Some (chunkBegin - 3)
      else if 2 \<le> chunkBegin \<and>
        (isFirstByteOf4ByteChar (byte_at buf (chunkBegin - 2)) \<or> isFirstByteOf3ByteChar (byte_at buf (chunkBegin - 2)))
      then Some (chunkBegin - 2)
      else if 1 \<le> chunkBegin \<and>
        (isFirstByteOf4ByteChar (byte_at buf (chunkBegin - 1)) \<or> isFirstByteOf3ByteChar (byte_at buf (chunkBegin - 1)) \<or>
         isFirstByteOf2ByteChar (byte_at buf (chunkBegin - 1)))
      then Some (chunkBegin - 1)
      else None)"

definition getChunkEnd :: "8 word list \<Rightarrow> nat \<Rightarrow> nat" where
  "getChunkEnd buf chunkEnd =
     (if chunkEnd = length buf then chunkEnd
      else if 3 \<le> chunkEnd \<and> isFirstByteOf4ByteChar (byte_at buf (chunkEnd - 3)) then chunkEnd + 1
      else if 2 \<le> chunkEnd \<and> isFirstByteOf4ByteChar (byte_at buf (chunkEnd - 2)) then chunkEnd + 2
      else if 2 \<le> chunkEnd \<and> isFirstByteOf3ByteChar (byte_at buf (chunkEnd - 2)) then chunkEnd + 1
      else if 1 \<le> chunkEnd \<and> isFirstByteOf4ByteChar (byte_at buf (chunkEnd - 1)) then chunkEnd + 3
      else if 1 \<le> chunkEnd \<and> isFirstByteOf3ByteChar (byte_at buf (chunkEnd - 1)) then chunkEnd + 2
      else if 1 \<le> chunkEnd \<and> isFirstByteOf2ByteChar (byte_at buf (chunkEnd - 1)) then chunkEnd + 1
      else chunkEnd)"

datatype encoding = Utf8 | Binary

text \<open>The encoding of the chunk that begins at a given place.\<close>

definition chunk_encoding :: "(8 word list \<Rightarrow> nat list) \<Rightarrow> 8 word list \<Rightarrow> nat \<Rightarrow> nat \<Rightarrow> encoding" where
  "chunk_encoding decode buf chunkLength chunkBegin =
     (case getChunkBegin buf chunkBegin of
        None \<Rightarrow> Binary
      | Some b \<Rightarrow>
          (let e = getChunkEnd buf (min (length buf) (b + chunkLength))
           in if length buf < e then Binary
              else if list_ex (\<lambda>charCode. charCode = 65533 \<or> charCode \<le> 8) (decode (take (e - b) (drop b buf)))
              then Binary else Utf8))"

definition getBufferEncoding ::
  "(8 word list \<Rightarrow> nat list) \<Rightarrow> 8 word list option \<Rightarrow> nat option \<Rightarrow> nat option \<Rightarrow> encoding option"
where
  "getBufferEncoding decode buffer optLength optBegin =
     (case buffer of
        None \<Rightarrow> None
      | Some buf \<Rightarrow>
          (let chunkLength = (case optLength of None \<Rightarrow> 24 | Some l \<Rightarrow> l)
           in case optBegin of
                Some b \<Rightarrow> Some (chunk_encoding decode buf chunkLength b)
              | None \<Rightarrow>
                  (let first = chunk_encoding decode buf chunkLength 0
                   in if first \<noteq> Utf8 then Some first
                      else let middle = chunk_encoding decode buf chunkLength (length buf div 2 - chunkLength)
                           in if middle \<noteq> Utf8 then Some middle
                              else Some (chunk_encoding decode buf chunkLength (length buf - chunkLength)))))"

section \<open>UTF-8\<close>

text \<open>The bytes and the UTF-16 code units of a Unicode scalar value.\<close>

definition scalar :: "nat \<Rightarrow> bool" where
  "scalar c \<longleftrightarrow> c < 0xD800 \<or> 0xE000 \<le> c \<and> c < 0x110000"

definition to_byte :: "nat \<Rightarrow> 8 word" where
  "to_byte n = of_nat n"

definition utf8 :: "nat \<Rightarrow> 8 word list" where
  "utf8 c =
     (if c < 0x80 then [to_byte c]
      else if c < 0x800 then [to_byte (192 + c div 64), to_byte (128 + c mod 64)]
      else if c < 0x10000 then [to_byte (224 + c div 4096), to_byte (128 + c div 64 mod 64), to_byte (128 + c mod 64)]
      else [to_byte (240 + c div 262144), to_byte (128 + c div 4096 mod 64), to_byte (128 + c div 64 mod 64),
            to_byte (128 + c mod 64)])"

definition utf16 :: "nat \<Rightarrow> nat list" where
  "utf16 c = (if c < 0x10000 then [c] else [0xD800 + (c - 0x10000) div 1024, 0xDC00 + (c - 0x10000) mod 1024])"

text \<open>The length a byte announces: none for ASCII, one for a later byte.\<close>

definition byte_kind :: "8 word \<Rightarrow> nat" where
  "byte_kind b =
     (let n = unat b in if n < 128 then 0 else if n < 192 then 1 else if n < 224 then 2 else if n < 240 then 3
                        else if n < 248 then 4 else 5)"

lemma unat_drop: "unat (drop_bit k (b :: 8 word)) = unat b div 2 ^ k"
  by (simp only: unat_drop_bit_eq) (simp add: drop_bit_eq_div)

lemma nat_div_iff: "0 < k \<Longrightarrow> (n :: nat) div k = q \<longleftrightarrow> q * k \<le> n \<and> n < (q + 1) * k"
  by (metis Suc_eq_plus1 div_nat_eqI dividend_less_times_div mult.commute mult_Suc_right div_times_less_eq_dividend)

lemma byte_kinds:
  "isFirstByteOf4ByteChar b \<longleftrightarrow> byte_kind b = 4" "isFirstByteOf3ByteChar b \<longleftrightarrow> byte_kind b = 3"
  "isFirstByteOf2ByteChar b \<longleftrightarrow> byte_kind b = 2" "isLaterByteOfUtf8 b \<longleftrightarrow> byte_kind b = 1"
proof -
  have eq: "drop_bit k b = w \<longleftrightarrow> unat w * 2 ^ k \<le> unat b \<and> unat b < (unat w + 1) * 2 ^ k" for k and w :: "8 word"
    by (metis unat_drop word_unat_eq_iff nat_div_iff zero_less_numeral zero_less_power)
  have w: "unat (30 :: 8 word) = 30" "unat (14 :: 8 word) = 14" "unat (6 :: 8 word) = 6" "unat (2 :: 8 word) = 2" by simp_all
  show "isFirstByteOf4ByteChar b \<longleftrightarrow> byte_kind b = 4" "isFirstByteOf3ByteChar b \<longleftrightarrow> byte_kind b = 3"
    "isFirstByteOf2ByteChar b \<longleftrightarrow> byte_kind b = 2" "isLaterByteOfUtf8 b \<longleftrightarrow> byte_kind b = 1"
    unfolding isFirstByteOf4ByteChar_def isFirstByteOf3ByteChar_def isFirstByteOf2ByteChar_def isLaterByteOfUtf8_def eq w
      byte_kind_def Let_def by (simp_all add: not_less)
qed

lemma unat_to_byte: "n < 256 \<Longrightarrow> unat (to_byte n) = n"
  by (simp add: to_byte_def unat_of_nat take_bit_nat_eq_self)

text \<open>A character is one ASCII byte, or a byte that announces its length and later bytes.\<close>

definition char_bytes :: "8 word list \<Rightarrow> bool" where
  "char_bytes bs \<longleftrightarrow> bs \<noteq> [] \<and> length bs \<le> 4 \<and> byte_kind (hd bs) = (if length bs = 1 then 0 else length bs) \<and>
     list_all (\<lambda>b. byte_kind b = 1) (tl bs)"

lemma kind_byte:
  "n < 128 \<Longrightarrow> byte_kind (to_byte n) = 0" "n < 64 \<Longrightarrow> byte_kind (to_byte (128 + n)) = 1"
  "n < 32 \<Longrightarrow> byte_kind (to_byte (192 + n)) = 2" "n < 16 \<Longrightarrow> byte_kind (to_byte (224 + n)) = 3"
  "n < 8 \<Longrightarrow> byte_kind (to_byte (240 + n)) = 4"
  by (simp_all add: byte_kind_def unat_to_byte)

lemma utf8_char:
  assumes "c < 0x110000"
  shows "char_bytes (utf8 c)"
proof -
  have "c < 0x800 \<Longrightarrow> c div 64 < 32" "c < 0x10000 \<Longrightarrow> c div 4096 < 16" "c div 262144 < 8"
    using assms by (auto simp: less_mult_imp_div_less)
  then show ?thesis by (auto simp: utf8_def char_bytes_def kind_byte)
qed

section \<open>Places between characters\<close>

definition boundary :: "8 word list list \<Rightarrow> nat \<Rightarrow> bool" where
  "boundary chars p \<longleftrightarrow> (\<exists>k. p = length (concat (take k chars)))"

lemma boundary_0 [simp]: "boundary chars 0"
  by (auto simp: boundary_def intro: exI [of _ 0])

lemma boundary_end [simp]: "boundary chars (length (concat chars))"
  by (auto simp: boundary_def intro: exI [of _ "length chars"])

text \<open>Every place lies in a character.\<close>

lemma place_in_char:
  assumes "p < length (concat chars)"
  obtains a c z j where "chars = a @ c # z" "j < length c" "p = length (concat a) + j"
proof -
  have "\<exists>a c z j. chars = a @ c # z \<and> j < length c \<and> p = length (concat a) + j"
    using assms
  proof (induction chars arbitrary: p)
    case (Cons d ds)
    show ?case
    proof (cases "p < length d")
      case True
      then show ?thesis by (intro exI [of _ "[]"] exI [of _ d] exI [of _ ds] exI [of _ p]) simp
    next
      case False
      then have "p - length d < length (concat ds)" using Cons.prems by simp
      from Cons.IH [OF this] obtain a c z j where "ds = a @ c # z" "j < length c" "p - length d = length (concat a) + j" by blast
      then show ?thesis using False by (intro exI [of _ "d # a"] exI [of _ c] exI [of _ z] exI [of _ j]) simp
    qed
  qed simp
  then show thesis using that by blast
qed

lemma in_char:
  assumes "list_all char_bytes chars" and "chars = a @ c # z" and "i < length c"
  shows "byte_at (concat chars) (length (concat a) + i) = c ! i"
    and "byte_kind (c ! i) = (if i = 0 then if length c = 1 then 0 else length c else 1)"
    and "length c \<le> 4" and "boundary chars (length (concat a))" and "boundary chars (length (concat a) + length c)"
proof -
  show "byte_at (concat chars) (length (concat a) + i) = c ! i"
    using assms(2,3) by (simp add: byte_at_def nth_append)
  have c: "char_bytes c" using assms(1,2) by simp
  then show "length c \<le> 4" by (simp add: char_bytes_def)
  show "byte_kind (c ! i) = (if i = 0 then if length c = 1 then 0 else length c else 1)"
    using c assms(3) by (cases c; cases i) (auto simp: char_bytes_def list_all_length)
  show "boundary chars (length (concat a))" using assms(2) by (auto simp: boundary_def intro: exI [of _ "length a"])
  show "boundary chars (length (concat a) + length c)"
    using assms(2) by (auto simp: boundary_def intro: exI [of _ "Suc (length a)"])
qed

text \<open>What a byte says of the places around it.\<close>

lemma first_byte:
  assumes "list_all char_bytes chars" and "p < length (concat chars)" and "byte_kind (byte_at (concat chars) p) = n" and "n \<noteq> 1"
  shows "boundary chars p" and "2 \<le> n \<Longrightarrow> boundary chars (p + n)"
proof -
  obtain a c z j where c: "chars = a @ c # z" "j < length c" "p = length (concat a) + j"
    using place_in_char [OF assms(2)] .
  note f = in_char [OF assms(1) c(1,2)]
  have "j = 0" using f(1,2) assms(3,4) c(3) by (auto split: if_splits)
  then show "boundary chars p" using f(4) c(3) by simp
  show "boundary chars (p + n)" if "2 \<le> n"
    using f(1,2,5) assms(3) c(3) \<open>j = 0\<close> that by (auto split: if_splits)
qed

lemma later_byte:
  assumes "list_all char_bytes chars" and "p < length (concat chars)" and "byte_kind (byte_at (concat chars) p) = 1"
  obtains j where "j \<in> {1, 2, 3}" "j \<le> p" "j < byte_kind (byte_at (concat chars) (p - j))" "byte_kind (byte_at (concat chars) (p - j)) \<le> 4"
proof -
  obtain a c z j where c: "chars = a @ c # z" "j < length c" "p = length (concat a) + j"
    using place_in_char [OF assms(2)] .
  note f = in_char [OF assms(1) c(1,2)]
  have l: "0 < length c" using c(2) by auto
  note g = in_char [OF assms(1) c(1) l]
  have j: "j \<noteq> 0"
  proof
    assume "j = 0"
    then have "byte_kind (c ! 0) = 1" using assms(3) f(1) c(3) by simp
    then show False using g(2) l by (simp split: if_splits)
  qed
  have pj: "p - j = length (concat a) + 0" using c(3) by simp
  have k: "byte_kind (byte_at (concat chars) (p - j)) = length c"
    unfolding pj g(1) g(2) using j c(2) by simp
  have "j = 1 \<or> j = 2 \<or> j = 3" using j f(3) c(2) by linarith
  then show thesis using that [of j] c(2,3) f(3) k by simp
qed

lemma kind_in_buffer: "byte_kind (byte_at buf p) \<noteq> 0 \<Longrightarrow> p < length buf"
  by (auto simp: byte_at_def byte_kind_def split: if_splits)

lemma chunk_begin_boundary:
  assumes "list_all char_bytes chars" and "p \<le> length (concat chars)"
  shows "\<exists>b. getChunkBegin (concat chars) p = Some b \<and> boundary chars b"
proof (cases "p = 0 \<or> byte_kind (byte_at (concat chars) p) \<noteq> 1")
  case True
  then have "getChunkBegin (concat chars) p = Some p" by (auto simp: getChunkBegin_def byte_kinds)
  moreover have "boundary chars p"
    using True first_byte(1) [OF assms(1) _ refl] assms(2) by (cases "p = length (concat chars)"; cases "p = 0") simp_all
  ultimately show ?thesis by blast
next
  case False
  then have p: "p < length (concat chars)" using kind_in_buffer [of "concat chars" p] by simp
  let ?k = "\<lambda>i. byte_kind (byte_at (concat chars) (p - i))"
  obtain j where j: "j \<in> {1, 2, 3}" "j \<le> p" "j < ?k j" "?k j \<le> 4" using later_byte [OF assms(1) p] False by auto
  have lead: "boundary chars (p - i)" if "?k i = n" "n \<noteq> 1" for i n
    using first_byte(1) [OF assms(1) _ that] p by simp
  have some: "3 \<le> p \<and> ?k 3 = 4 \<or> 2 \<le> p \<and> (?k 2 = 4 \<or> ?k 2 = 3) \<or> 1 \<le> p \<and> (?k 1 = 4 \<or> ?k 1 = 3 \<or> ?k 1 = 2)"
    using j by (elim insertE emptyE) (simp_all, linarith+)
  let ?a = "3 \<le> p \<and> ?k 3 = 4" and ?b = "2 \<le> p \<and> (?k 2 = 4 \<or> ?k 2 = 3)"
  consider "?a" | "\<not> ?a" "?b" | "\<not> ?a" "\<not> ?b" "1 \<le> p \<and> (?k 1 = 4 \<or> ?k 1 = 3 \<or> ?k 1 = 2)"
    using some by blast
  then show ?thesis
  proof cases
    case 1
    then show ?thesis using False lead [of 3 4] by (simp add: getChunkBegin_def byte_kinds)
  next
    case 2
    then have "getChunkBegin (concat chars) p = Some (p - 2)" using False by (auto simp: getChunkBegin_def byte_kinds)
    moreover have "boundary chars (p - 2)" using 2 lead [of 2 4] lead [of 2 3] by auto
    ultimately show ?thesis by blast
  next
    case 3
    then have "getChunkBegin (concat chars) p = Some (p - 1)" using False by (auto simp: getChunkBegin_def byte_kinds)
    moreover have "boundary chars (p - 1)" using 3 lead [of 1 4] lead [of 1 3] lead [of 1 2] by auto
    ultimately show ?thesis by blast
  qed
qed

lemma chunk_end_boundary:
  assumes "list_all char_bytes chars" and "p \<le> length (concat chars)"
  shows "boundary chars (getChunkEnd (concat chars) p)"
proof (cases "p = length (concat chars)")
  case True
  then show ?thesis by (simp add: getChunkEnd_def)
next
  case False
  then have p: "p < length (concat chars)" using assms(2) by simp
  let ?k = "\<lambda>i. byte_kind (byte_at (concat chars) (p - i))"
  have lead: "boundary chars (p + m)" if "i \<le> p" "?k i = n" "2 \<le> n" "n = m + i" for i n m
  proof -
    have "boundary chars (p - i + n)" using first_byte(2) [OF assms(1) _ that(2)] p that(3) by simp
    then show ?thesis using that(1,4) by simp
  qed
  let ?e = "getChunkEnd (concat chars) p"
  let ?a = "3 \<le> p \<and> ?k 3 = 4" and ?b = "2 \<le> p \<and> ?k 2 = 4" and ?c = "2 \<le> p \<and> ?k 2 = 3"
  let ?d = "1 \<le> p \<and> ?k 1 = 4" and ?f = "1 \<le> p \<and> ?k 1 = 3" and ?g = "1 \<le> p \<and> ?k 1 = 2"
  have e: "?e = (if ?a then p + 1 else if ?b then p + 2 else if ?c then p + 1 else if ?d then p + 3
      else if ?f then p + 2 else if ?g then p + 1 else p)"
    using False by (simp add: getChunkEnd_def byte_kinds)
  have "boundary chars p" if "\<not> ?a" "\<not> ?b" "\<not> ?c" "\<not> ?d" "\<not> ?f" "\<not> ?g"
  proof (rule first_byte(1) [OF assms(1) p refl], rule notI)
    assume "byte_kind (byte_at (concat chars) p) = 1"
    then obtain j where j: "j \<in> {1, 2, 3}" "j \<le> p" "j < ?k j" "?k j \<le> 4" using later_byte [OF assms(1) p] by auto
    then have "?a \<or> ?b \<or> ?c \<or> ?d \<or> ?f \<or> ?g" by (elim insertE emptyE) (simp_all, linarith+)
    then show False using that by blast
  qed
  moreover have "?a \<Longrightarrow> boundary chars (p + 1)" by (elim conjE, rule lead [of 3 4 1]) simp_all
  moreover have "?b \<Longrightarrow> boundary chars (p + 2)" by (elim conjE, rule lead [of 2 4 2]) simp_all
  moreover have "?c \<Longrightarrow> boundary chars (p + 1)" by (elim conjE, rule lead [of 2 3 1]) simp_all
  moreover have "?d \<Longrightarrow> boundary chars (p + 3)" by (elim conjE, rule lead [of 1 4 3]) simp_all
  moreover have "?f \<Longrightarrow> boundary chars (p + 2)" by (elim conjE, rule lead [of 1 3 2]) simp_all
  moreover have "?g \<Longrightarrow> boundary chars (p + 1)" by (elim conjE, rule lead [of 1 2 1]) simp_all
  ultimately show ?thesis unfolding e by (simp only: if_split) blast
qed

lemma boundary_le: "boundary chars p \<Longrightarrow> p \<le> length (concat chars)"
proof -
  assume "boundary chars p"
  then obtain k where k: "p = length (concat (take k chars))" by (auto simp: boundary_def)
  have "length (concat chars) = length (concat (take k chars)) + length (concat (drop k chars))"
    by (metis append_take_drop_id concat_append length_append)
  then show ?thesis using k by simp
qed

text \<open>A chunk between two such places is a text of its own.\<close>

lemma chunk_is_text:
  assumes "boundary chars b" and "boundary chars e"
  shows "\<exists>m n. take (e - b) (drop b (concat chars)) = concat (take n (drop m chars))"
proof -
  obtain m n where m: "b = length (concat (take m chars))" and n: "e = length (concat (take n chars))"
    using assms by (auto simp: boundary_def)
  have drop: "drop b (concat chars) = concat (drop m chars)" unfolding m
    by (metis append_eq_conv_conj append_take_drop_id concat_append)
  show ?thesis
  proof (cases "m \<le> n")
    case True
    then have "take n chars = take m chars @ take (n - m) (drop m chars)" by (metis le_add_diff_inverse take_add)
    then have "e = b + length (concat (take (n - m) (drop m chars)))" using m n by simp
    moreover have "concat (drop m chars) = concat (take (n - m) (drop m chars)) @ concat (drop (n - m) (drop m chars))"
      by (metis append_take_drop_id concat_append)
    ultimately have "take (e - b) (concat (drop m chars)) = concat (take (n - m) (drop m chars))" by simp
    then show ?thesis using drop by metis
  next
    case False
    then have "take m chars = take n chars @ take (m - n) (drop n chars)" by (metis le_add_diff_inverse nat_le_linear take_add)
    then have "e \<le> b" using m n by simp
    then have "take (e - b) (drop b (concat chars)) = concat (take 0 (drop m chars))" by simp
    then show ?thesis by blast
  qed
qed

section \<open>Properties\<close>

text \<open>Text: scalar values without control characters up to 8 and without the replacement character.\<close>

definition plain_char :: "nat \<Rightarrow> bool" where
  "plain_char c \<longleftrightarrow> scalar c \<and> 8 < c \<and> c \<noteq> 65533"

definition decodes_utf8 :: "(8 word list \<Rightarrow> nat list) \<Rightarrow> bool" where
  "decodes_utf8 decode \<longleftrightarrow> (\<forall>cs. list_all scalar cs \<longrightarrow> decode (concat (map utf8 cs)) = concat (map utf16 cs))"

lemma utf16_plain: "plain_char c \<Longrightarrow> u \<in> set (utf16 c) \<Longrightarrow> 8 < u \<and> u \<noteq> 65533"
proof -
  assume c: "plain_char c" "u \<in> set (utf16 c)"
  have "(c - 0x10000) div 1024 < 1024" if "0x10000 \<le> c"
    using c(1) that by (intro less_mult_imp_div_less) (auto simp: plain_char_def scalar_def)
  moreover have "(c - 0x10000) mod 1024 < 1024" by simp
  ultimately show ?thesis using c by (auto simp: utf16_def plain_char_def split: if_splits)
qed

lemma chunk_is_utf8:
  assumes "decodes_utf8 decode" and "list_all plain_char cs" and "p \<le> length (concat (map utf8 cs))"
  shows "chunk_encoding decode (concat (map utf8 cs)) n p = Utf8"
proof -
  let ?chars = "map utf8 cs"
  have chars: "list_all char_bytes ?chars"
    using assms(2) utf8_char by (auto simp: list_all_iff plain_char_def scalar_def)
  obtain b where b: "getChunkBegin (concat ?chars) p = Some b" "boundary ?chars b"
    using chunk_begin_boundary [OF chars assms(3)] by blast
  let ?e = "getChunkEnd (concat ?chars) (min (length (concat ?chars)) (b + n))"
  have e: "boundary ?chars ?e" by (rule chunk_end_boundary [OF chars]) simp
  obtain i j where ij: "take (?e - b) (drop b (concat ?chars)) = concat (take j (drop i ?chars))"
    using chunk_is_text [OF b(2) e] by blast
  let ?text = "take j (drop i cs)"
  have sub: "set ?text \<subseteq> set cs" by (meson set_drop_subset set_take_subset subset_trans)
  have "list_all scalar ?text" using sub assms(2) by (auto simp: list_all_iff plain_char_def)
  then have "decode (concat (map utf8 ?text)) = concat (map utf16 ?text)" using assms(1) by (simp add: decodes_utf8_def)
  then have d: "decode (take (?e - b) (drop b (concat ?chars))) = concat (map utf16 ?text)" unfolding ij by (simp add: take_map drop_map)
  have "8 < u \<and> u \<noteq> 65533" if "u \<in> set (concat (map utf16 ?text))" for u
    using that sub assms(2) utf16_plain by (auto simp: list_all_iff)
  then have "\<not> list_ex (\<lambda>u. u = 65533 \<or> u \<le> 8) (concat (map utf16 ?text))" by (auto simp: list_ex_iff not_le simp del: set_concat)
  then show ?thesis using b(1) d boundary_le [OF e] by (simp add: chunk_encoding_def Let_def)
qed

text \<open>
  C39: Text is never taken for binary: a buffer that holds the UTF-8 of any text without the control characters
  up to 8 and the replacement character has the encoding \<open>utf8\<close>, whatever its length, the length of
  the chunks, and however the chunks cut its characters.
\<close>

theorem text_is_utf8:
  assumes "decodes_utf8 decode" and "list_all plain_char cs"
  shows "getBufferEncoding decode (Some (concat (map utf8 cs))) chunkLength None = Some Utf8"
  using chunk_is_utf8 [OF assms] by (simp add: getBufferEncoding_def Let_def split: option.split)

text \<open>A decoder of well-formed UTF-8, to see that the hypothesis can hold.\<close>

fun sample_decoder :: "nat list \<Rightarrow> nat list" where
  "sample_decoder [] = []"
| "sample_decoder (a # s) =
     (if a < 192 then a # sample_decoder s
      else case s of
             [] \<Rightarrow> [65533]
           | b # s2 \<Rightarrow>
               if a < 224 then ((a - 192) * 64 + (b - 128)) # sample_decoder s2
               else case s2 of
                      [] \<Rightarrow> [65533]
                    | c # s3 \<Rightarrow>
                        if a < 240 then ((a - 224) * 4096 + (b - 128) * 64 + (c - 128)) # sample_decoder s3
                        else case s3 of
                               [] \<Rightarrow> [65533]
                             | d # s4 \<Rightarrow> utf16 ((a - 240) * 262144 + (b - 128) * 4096 + (c - 128) * 64 + (d - 128)) @ sample_decoder s4)"

lemma sample_decoder_char:
  assumes "scalar c"
  shows "sample_decoder (map unat (utf8 c) @ s) = utf16 c @ sample_decoder s"
proof -
  have c: "c < 0x110000" using assms by (auto simp: scalar_def)
  have b: "c < 0x800 \<Longrightarrow> c div 64 < 32" "c < 0x10000 \<Longrightarrow> c div 4096 < 16" "c div 262144 < 8"
    using c by (auto simp: less_mult_imp_div_less)
  have two: "c div 64 * 64 + c mod 64 = c" by simp
  have split: "n div (m * 64) * 64 + n div m mod 64 = n div m" for n m :: nat
    by (simp add: div_mult2_eq)
  have three: "c div 4096 * 4096 + c div 64 mod 64 * 64 + c mod 64 = c"
  proof -
    have s: "c div 4096 * 64 + c div 64 mod 64 = c div 64" using split [of c 64] by simp
    have "c div 4096 * 4096 + c div 64 mod 64 * 64 + c mod 64 = (c div 4096 * 64 + c div 64 mod 64) * 64 + c mod 64" by simp
    also have "\<dots> = c" unfolding s by simp
    finally show ?thesis .
  qed
  have four: "c div 262144 * 262144 + c div 4096 mod 64 * 4096 + c div 64 mod 64 * 64 + c mod 64 = c"
  proof -
    have s: "c div 262144 * 64 + c div 4096 mod 64 = c div 4096" using split [of c 4096] by simp
    have "c div 262144 * 262144 + c div 4096 mod 64 * 4096 = (c div 262144 * 64 + c div 4096 mod 64) * 4096" by simp
    also have "\<dots> = c div 4096 * 4096" unfolding s by simp
    finally show ?thesis using three by linarith
  qed
  consider "c < 0x80" | "0x80 \<le> c" "c < 0x800" | "0x800 \<le> c" "c < 0x10000" | "0x10000 \<le> c" by linarith
  then show ?thesis
  proof cases
    case 1
    then show ?thesis by (simp add: utf8_def utf16_def unat_to_byte)
  next
    case 2
    then show ?thesis by (simp add: utf8_def utf16_def unat_to_byte b)
  next
    case 3
    then show ?thesis by (simp add: utf8_def utf16_def unat_to_byte b three)
  next
    case 4
    have "c div 262144 < 16" using b(3) by linarith
    then show ?thesis using 4 by (simp add: utf8_def unat_to_byte b four)
  qed
qed

lemma sample_decodes: "decodes_utf8 (\<lambda>bs. sample_decoder (map unat bs))"
proof -
  have "sample_decoder (map unat (concat (map utf8 cs))) = concat (map utf16 cs)" if "list_all scalar cs" for cs
    using that by (induction cs) (simp_all add: sample_decoder_char)
  then show ?thesis by (simp add: decodes_utf8_def)
qed

lemma text_is_utf8_witness:
  "getBufferEncoding (\<lambda>bs. sample_decoder (map unat bs)) (Some (concat (map utf8 [128512, 8364, 233, 97, 128512]))) (Some 5) None = Some Utf8"
  using text_is_utf8 [OF sample_decodes, of "[128512, 8364, 233, 97, 128512]" "Some 5"] by (simp add: plain_char_def scalar_def)

text \<open>A control character in the first chunk makes a buffer binary, no buffer has no encoding.\<close>

lemma encodings_of_others:
  "getBufferEncoding decode None l b = None"
  "getBufferEncoding (\<lambda>bs. sample_decoder (map unat bs)) (Some [80, 75, 3, 4]) None None = Some Binary"
  by (simp_all add: getBufferEncoding_def chunk_encoding_def getChunkBegin_def getChunkEnd_def)

end
