(* ===== verification/Encryption.thy ===== *)
theory Encryption
  imports Prelude "HOL-Library.Word" "HOL-Library.Char_ord"
begin

text \<open>
  The encryption of legacy chat messages, \<open>ui/common/utils/EncryptionUtils.ts\<close>. The boxes of TweetNaCl, the hash,
  base64, hexadecimal and UTF-8 are the fields of a record; the loop that reads the bytes of a hash out
  of its words is the code's own and may a priori not end, so it is a partial function.
\<close>

unbundle bit_operations_syntax

type_synonym bytes = "8 word list"

record word_array =
  wa_words :: "32 word list"
  wa_sigBytes :: nat

record key_pair =
  kp_publicKey :: string
  kp_privateKey :: string

record crypto =
  cr_sha256 :: "string \<Rightarrow> word_array"
  cr_fromSecretKey :: "bytes \<Rightarrow> bytes \<times> bytes"
  cr_before :: "bytes \<Rightarrow> bytes \<Rightarrow> bytes"
  cr_after :: "bytes \<Rightarrow> bytes \<Rightarrow> bytes \<Rightarrow> bytes"
  cr_open :: "bytes \<Rightarrow> bytes \<Rightarrow> bytes \<Rightarrow> bytes option"
  cr_toHex :: "bytes \<Rightarrow> string"
  cr_fromHex :: "string \<Rightarrow> bytes"
  cr_encodeBase64 :: "bytes \<Rightarrow> string"
  cr_decodeBase64 :: "string \<Rightarrow> bytes"
  cr_decodeUTF8 :: "string \<Rightarrow> bytes"
  cr_encodeUTF8 :: "bytes \<Rightarrow> string"

definition nonceLength :: nat where "nonceLength = 24"

section \<open>The bytes of a hash\<close>

text \<open>\<open>words[j]\<close>, which the masks turn into zero beyond the end.\<close>

definition word_at :: "32 word list \<Rightarrow> nat \<Rightarrow> 32 word" where
  "word_at words j = (if j < length words then words ! j else 0)"

text \<open>The four assignments of an iteration; after each the loop ends when all bytes are there.\<close>

partial_function (option) bytes_loop :: "32 word list \<Rightarrow> nat \<Rightarrow> nat \<Rightarrow> nat \<Rightarrow> bytes \<Rightarrow> bytes option" where
  "bytes_loop words l i j result =
     (if i = l then Some result
      else let w = word_at words j; r1 = result[i := ucast (drop_bit 24 (w AND 0xff000000))]
           in if i + 1 = l then Some r1
              else let r2 = r1[i + 1 := ucast (drop_bit 16 (w AND 0x00ff0000))]
                   in if i + 2 = l then Some r2
                      else let r3 = r2[i + 2 := ucast (drop_bit 8 (w AND 0x0000ff00))]
                           in if i + 3 = l then Some r3
                              else bytes_loop words l (i + 4) (j + 1) (r3[i + 3 := ucast (w AND 0x000000ff)]))"

definition word_array_bytes :: "word_array \<Rightarrow> bytes option" where
  "word_array_bytes a = bytes_loop (wa_words a) (wa_sigBytes a) 0 0 (replicate (wa_sigBytes a) 0)"

definition sha256_bytes :: "crypto \<Rightarrow> string \<Rightarrow> bytes option" where
  "sha256_bytes lib message = word_array_bytes (cr_sha256 lib message)"

section \<open>Keys and messages\<close>

definition generateDeterministicKeyPair :: "crypto \<Rightarrow> string \<Rightarrow> key_pair option" where
  "generateDeterministicKeyPair lib seed =
     map_option (\<lambda>secret. case cr_fromSecretKey lib secret of (public, private) \<Rightarrow>
         \<lparr>kp_publicKey = cr_toHex lib public, kp_privateKey = cr_toHex lib private\<rparr>)
       (sha256_bytes lib seed)"

definition encryptMessage :: "crypto \<Rightarrow> bytes \<Rightarrow> string \<Rightarrow> string \<Rightarrow> string \<Rightarrow> string" where
  "encryptMessage lib nonce message publicKey privateKey =
     (let sharedKey = cr_before lib (cr_fromHex lib publicKey) (cr_fromHex lib privateKey);
          encrypted = cr_after lib (cr_decodeUTF8 lib message) nonce sharedKey
      in cr_encodeBase64 lib (nonce @ encrypted))"

definition decryptMessage :: "crypto \<Rightarrow> string \<Rightarrow> string \<Rightarrow> string \<Rightarrow> js_error + string" where
  "decryptMessage lib messageWithNonce publicKey privateKey =
     (let received = cr_decodeBase64 lib messageWithNonce;
          nonce = take nonceLength received;
          message = drop nonceLength (take (length messageWithNonce) received);
          sharedKey = cr_before lib (cr_fromHex lib publicKey) (cr_fromHex lib privateKey)
      in case cr_open lib message nonce sharedKey of
           None \<Rightarrow> Inl (Error ''Could not decrypt message'')
         | Some decrypted \<Rightarrow> Inr (cr_encodeUTF8 lib decrypted))"

section \<open>Lemmas\<close>

text \<open>The byte of a word array at a place: big-endian within each word, zero beyond the words.\<close>

definition array_byte :: "32 word list \<Rightarrow> nat \<Rightarrow> 8 word" where
  "array_byte words i = ucast (drop_bit (24 - 8 * (i mod 4)) (word_at words (i div 4)))"

lemma masked_bytes:
  "(ucast (drop_bit 24 (w AND 0xff000000)) :: 8 word) = ucast (drop_bit 24 (w :: 32 word))"
  "(ucast (drop_bit 16 (w AND 0x00ff0000)) :: 8 word) = ucast (drop_bit 16 w)"
  "(ucast (drop_bit 8 (w AND 0x0000ff00)) :: 8 word) = ucast (drop_bit 8 w)"
  "(ucast (w AND 0x000000ff) :: 8 word) = ucast w"
proof -
  have low: "(ucast (v AND 0xff) :: 8 word) = ucast v" for v :: "32 word"
  proof -
    have ff: "(0xff :: 32 word) = mask 8" by (simp add: mask_eq_exp_minus_1)
    show ?thesis unfolding ff by (rule bit_word_eqI) (auto simp: bit_simps)
  qed
  have "drop_bit 24 (w AND 0xff000000) = drop_bit 24 w AND 0xff" "drop_bit 16 (w AND 0x00ff0000) = drop_bit 16 w AND 0xff"
    "drop_bit 8 (w AND 0x0000ff00) = drop_bit 8 w AND 0xff" by (simp_all add: drop_bit_and)
  then show "(ucast (drop_bit 24 (w AND 0xff000000)) :: 8 word) = ucast (drop_bit 24 w)"
    "(ucast (drop_bit 16 (w AND 0x00ff0000)) :: 8 word) = ucast (drop_bit 16 w)"
    "(ucast (drop_bit 8 (w AND 0x0000ff00)) :: 8 word) = ucast (drop_bit 8 w)"
    "(ucast (w AND 0x000000ff) :: 8 word) = ucast w"
    using low by simp_all
qed

lemma word_place: "n < 4 \<Longrightarrow> (4 * j + n) div 4 = j" "n < 4 \<Longrightarrow> (4 * j + n) mod 4 = n" for n j :: nat
  by simp_all

text \<open>From the start of a word on, the loop writes the bytes that are left and returns.\<close>

lemma bytes_loop_returns:
  assumes "length result = l" and "4 * j \<le> l"
  shows "bytes_loop words l (4 * j) j result = Some (take (4 * j) result @ map (array_byte words) [4 * j..<l])"
  using assms
proof (induction "l - 4 * j" arbitrary: j result rule: less_induct)
  case less
  let ?b = "array_byte words"
  define r where "r n = fold (\<lambda>k r. r[4 * j + k := ?b (4 * j + k)]) [0..<n] result" for n
  have bytes: "?b (4 * j) = ucast (drop_bit 24 (word_at words j))" "?b (4 * j + 1) = ucast (drop_bit 16 (word_at words j))"
    "?b (4 * j + 2) = ucast (drop_bit 8 (word_at words j))" "?b (4 * j + 3) = ucast (word_at words j)"
    using word_place [of 0 j] word_place [of 1 j] word_place [of 2 j] word_place [of 3 j]
    unfolding array_byte_def by (simp_all only: zero_less_numeral one_less_numeral_iff numeral_less_iff semiring_norm add_0_right) simp_all
  have written: "take (4 * j + n) (r n) = take (4 * j) result @ map ?b [4 * j..<4 * j + n] \<and> length (r n) = l"
    if "4 * j + n \<le> l" for n
    using that
  proof (induction n)
    case (Suc n)
    then have ih: "4 * j + n < length (r n)" "take (4 * j + n) (r n) = take (4 * j) result @ map ?b [4 * j..<4 * j + n]" "length (r n) = l"
      by simp_all
    have rn: "r (Suc n) = (r n)[4 * j + n := ?b (4 * j + n)]" by (simp add: r_def)
    have "take (4 * j + Suc n) (r (Suc n)) = take (4 * j + n) (r n) @ [?b (4 * j + n)]"
      using ih(1) by (simp add: rn take_Suc_conv_app_nth)
    then show ?case using ih by (simp add: rn)
  qed (use less.prems in \<open>simp add: r_def\<close>)
  have done_at: "Some (r n) = Some (take (4 * j) result @ map ?b [4 * j..<l])" if "4 * j + n = l" for n
  proof -
    have w: "take (4 * j + n) (r n) = take (4 * j) result @ map ?b [4 * j..<4 * j + n]" "length (r n) = l"
      using written [of n] that by simp_all
    have "take (4 * j + n) (r n) = r n" by (rule take_all) (simp add: w(2) that)
    then have "r n = take (4 * j) result @ map ?b [4 * j..<4 * j + n]" using w(1) by (rule trans [OF sym])
    then show ?thesis unfolding that by (rule arg_cong)
  qed
  have steps: "bytes_loop words l (4 * j) j result =
      (if 4 * j = l then Some (r 0) else if 4 * j + 1 = l then Some (r 1) else if 4 * j + 2 = l then Some (r 2)
       else if 4 * j + 3 = l then Some (r 3) else bytes_loop words l (4 * (j + 1)) (j + 1) (r 4))"
  proof -
    have rs: "r 0 = result" "r 1 = result[4 * j := ?b (4 * j)]" "r 2 = result[4 * j := ?b (4 * j), 4 * j + 1 := ?b (4 * j + 1)]"
      "r 3 = result[4 * j := ?b (4 * j), 4 * j + 1 := ?b (4 * j + 1), 4 * j + 2 := ?b (4 * j + 2)]"
      "r 4 = result[4 * j := ?b (4 * j), 4 * j + 1 := ?b (4 * j + 1), 4 * j + 2 := ?b (4 * j + 2), 4 * j + 3 := ?b (4 * j + 3)]"
      by (simp_all add: r_def upt_rec numeral_eq_Suc)
    have next4: "4 * (j + 1) = 4 * j + 4" by simp
    show ?thesis unfolding rs next4
      by (subst bytes_loop.simps) (simp only: Let_def masked_bytes bytes)
  qed
  show ?case
  proof (cases "4 * j + 4 \<le> l")
    case True
    have "bytes_loop words l (4 * (j + 1)) (j + 1) (r 4) = Some (take (4 * (j + 1)) (r 4) @ map ?b [4 * (j + 1)..<l])"
      by (rule less.hyps) (use True written [of 4] in auto)
    also have "take (4 * (j + 1)) (r 4) = take (4 * j) result @ map ?b [4 * j..<4 * j + 4]"
      using written [of 4] True by (simp add: add.commute)
    also have "(take (4 * j) result @ map ?b [4 * j..<4 * j + 4]) @ map ?b [4 * (j + 1)..<l] = take (4 * j) result @ map ?b [4 * j..<l]"
    proof -
      have "[4 * j..<l] = [4 * j..<4 * j + 4] @ [4 * (j + 1)..<l]"
        using upt_add_eq_append [of "4 * j" "4 * j + 4" "l - (4 * j + 4)"] True by (simp add: algebra_simps)
      then show ?thesis by simp
    qed
    finally show ?thesis using steps True by simp
  next
    case False
    then consider "4 * j + 0 = l" | "4 * j + 1 = l" | "4 * j + 2 = l" | "4 * j + 3 = l" using less.prems(2) by linarith
    then show ?thesis
    proof cases
      case 1
      have "bytes_loop words l (4 * j) j result = Some (r 0)" unfolding steps using 1 by simp
      then show ?thesis using done_at [OF 1] by (rule trans)
    next
      case 2
      then have "4 * j \<noteq> l" by linarith
      then have "bytes_loop words l (4 * j) j result = Some (r 1)" unfolding steps using 2 by (simp only: simp_thms if_True if_False)
      then show ?thesis using done_at [OF 2] by (rule trans)
    next
      case 3
      then have "4 * j \<noteq> l" "4 * j + 1 \<noteq> l" by linarith+
      then have "bytes_loop words l (4 * j) j result = Some (r 2)" unfolding steps using 3 by (simp only: simp_thms if_True if_False)
      then show ?thesis using done_at [OF 3] by (rule trans)
    next
      case 4
      then have "4 * j \<noteq> l" "4 * j + 1 \<noteq> l" "4 * j + 2 \<noteq> l" by linarith+
      then have "bytes_loop words l (4 * j) j result = Some (r 3)" unfolding steps using 4 by (simp only: simp_thms if_True if_False)
      then show ?thesis using done_at [OF 4] by (rule trans)
    qed
  qed
qed

section \<open>Properties\<close>

text \<open>
  C40: The endless loop that copies the bytes of a hash returns for every word array, with exactly the
  number of bytes it announces, in big-endian order, zeros where words are missing.
\<close>

theorem sha256_bytes_returns:
  "sha256_bytes lib message =
     Some (map (array_byte (wa_words (cr_sha256 lib message))) [0..<wa_sigBytes (cr_sha256 lib message)])"
  using bytes_loop_returns [of "replicate n 0" n 0 for n] by (simp add: sha256_bytes_def word_array_bytes_def)

text \<open>What the libraries promise for a pair of key pairs and a nonce.\<close>

definition nacl_laws :: "crypto \<Rightarrow> bytes \<Rightarrow> key_pair \<Rightarrow> key_pair \<Rightarrow> bool" where
  "nacl_laws lib nonce a b \<longleftrightarrow>
     length nonce = nonceLength \<and>
     cr_before lib (cr_fromHex lib (kp_publicKey b)) (cr_fromHex lib (kp_privateKey a)) =
       cr_before lib (cr_fromHex lib (kp_publicKey a)) (cr_fromHex lib (kp_privateKey b)) \<and>
     (\<forall>m n k. cr_open lib (cr_after lib m n k) n k = Some m) \<and>
     (\<forall>bs. cr_decodeBase64 lib (cr_encodeBase64 lib bs) = bs \<and> length bs \<le> length (cr_encodeBase64 lib bs)) \<and>
     (\<forall>t. cr_encodeUTF8 lib (cr_decodeUTF8 lib t) = t)"

text \<open>
  What one key pair encrypts for another, with a fresh nonce in front and as base64, the other decrypts
  to the same text; the end of the slice, taken from the length of the text, never cuts the box.
\<close>

theorem encrypted_message_roundtrip:
  assumes "nacl_laws lib nonce a b"
  shows "decryptMessage lib (encryptMessage lib nonce message (kp_publicKey b) (kp_privateKey a)) (kp_publicKey a) (kp_privateKey b) =
    Inr message"
proof -
  let ?k = "cr_before lib (cr_fromHex lib (kp_publicKey a)) (cr_fromHex lib (kp_privateKey b))"
  let ?box = "cr_after lib (cr_decodeUTF8 lib message) nonce ?k"
  have e: "encryptMessage lib nonce message (kp_publicKey b) (kp_privateKey a) = cr_encodeBase64 lib (nonce @ ?box)"
    using assms by (simp add: encryptMessage_def nacl_laws_def)
  have "length (nonce @ ?box) \<le> length (cr_encodeBase64 lib (nonce @ ?box))" using assms unfolding nacl_laws_def by blast
  moreover have "cr_decodeBase64 lib (cr_encodeBase64 lib (nonce @ ?box)) = nonce @ ?box" using assms by (simp add: nacl_laws_def)
  ultimately have "decryptMessage lib (cr_encodeBase64 lib (nonce @ ?box)) (kp_publicKey a) (kp_privateKey b) =
      (case cr_open lib (drop nonceLength (nonce @ ?box)) (take nonceLength (nonce @ ?box)) ?k of
         None \<Rightarrow> Inl (Error ''Could not decrypt message'') | Some d \<Rightarrow> Inr (cr_encodeUTF8 lib d))"
    by (simp add: decryptMessage_def)
  also have "\<dots> = Inr message" using assms by (simp add: nacl_laws_def)
  finally show ?thesis using e by simp
qed

text \<open>Libraries that keep the laws: the shared key is the sum of the keys, a box is the text with the key behind it.\<close>

definition text_bytes :: "string \<Rightarrow> bytes" where
  "text_bytes = map (\<lambda>c. of_nat (of_char c))"

definition bytes_text :: "bytes \<Rightarrow> string" where
  "bytes_text = map (\<lambda>b. char_of (unat b))"

definition sample_crypto :: crypto where
  "sample_crypto = \<lparr>cr_sha256 = (\<lambda>m. \<lparr>wa_words = [0x01020304, 0xfffefdfc], wa_sigBytes = 6\<rparr>),
     cr_fromSecretKey = (\<lambda>s. (s, s)), cr_before = (\<lambda>p s. map2 (+) p s), cr_after = (\<lambda>m n k. m @ k),
     cr_open = (\<lambda>c n k. Some (take (length c - length k) c)), cr_toHex = bytes_text, cr_fromHex = text_bytes,
     cr_encodeBase64 = bytes_text, cr_decodeBase64 = text_bytes, cr_decodeUTF8 = text_bytes, cr_encodeUTF8 = bytes_text\<rparr>"

lemma text_of_bytes: "text_bytes (bytes_text bs) = bs" "bytes_text (text_bytes t) = t" "length (bytes_text bs) = length bs"
proof -
  have "unat b < 2 ^ 8" for b :: "8 word" by (rule order_less_le_trans [OF unsigned_less]) simp
  then have "unat b mod 256 = unat b" for b :: "8 word" by simp
  then show "text_bytes (bytes_text bs) = bs" by (simp add: text_bytes_def bytes_text_def comp_def)
  have "unat (of_nat (of_char c) :: 8 word) = of_char c" for c by (simp add: unat_of_nat take_bit_eq_mod)
  then show "bytes_text (text_bytes t) = t" by (simp add: text_bytes_def bytes_text_def comp_def)
qed (simp add: bytes_text_def)

lemma encrypted_message_roundtrip_witness:
  "decryptMessage sample_crypto (encryptMessage sample_crypto (replicate 24 7) ''hello'' ''bob'' ''alice'') ''alice'' ''bob'' = Inr ''hello''"
proof -
  have "map2 (+) (text_bytes ''bob'') (text_bytes ''alice'') = map2 (+) (text_bytes ''alice'') (text_bytes ''bob'')"
    by (simp add: text_bytes_def add.commute)
  then have "nacl_laws sample_crypto (replicate 24 7) \<lparr>kp_publicKey = ''alice'', kp_privateKey = ''alice''\<rparr> \<lparr>kp_publicKey = ''bob'', kp_privateKey = ''bob''\<rparr>"
    by (simp add: nacl_laws_def sample_crypto_def text_of_bytes nonceLength_def)
  from encrypted_message_roundtrip [OF this, of "''hello''"] show ?thesis by simp
qed

end
