(* ===== verification/ModMetadata.thy ===== *)
theory ModMetadata
  imports Cashu
begin

text \<open>
  The default title and icon of a mod, \<open>fetchMetadataFromUrl\<close> of \<open>ui/common/utils/fedimods.ts\<close>: the web app
  manifest of the page first, then its tags, then the host name and \<open>/favicon.ico\<close>. What the network
  answers and the URL constructor are the fields of an environment; every step may throw, and what was
  found before is kept.
\<close>

section \<open>The environment\<close>

record response =
  rs_ok :: bool
  rs_text :: "js_error + string"
  rs_json :: "js_error + json"

record web =
  web_fetch :: "string \<Rightarrow> js_error + response"
  web_resolve :: "string \<Rightarrow> string \<Rightarrow> js_error + string"
  web_origin :: "string \<Rightarrow> js_error + string"
  web_hostname :: "string \<Rightarrow> js_error + string"

section \<open>Patterns\<close>

text \<open>\<open>s.replace(/\/+$/, '')\<close>.\<close>

definition trim_slashes :: "string \<Rightarrow> string" where
  "trim_slashes s = rev (dropWhile (\<lambda>c. c = CHR ''/'') (rev s))"

text \<open>\<open>html.match(/<link[^>]*>/g)\<close>; the number says how many characters belong to the last match.\<close>

fun link_tags_from :: "nat \<Rightarrow> string \<Rightarrow> string list" where
  "link_tags_from skip [] = []"
| "link_tags_from skip (c # s) =
     (if 0 < skip then link_tags_from (skip - 1) s
      else if prefix ''<link'' (c # s) \<and> CHR ''>'' \<in> set (drop 4 s)
      then (let inner = takeWhile (\<lambda>x. x \<noteq> CHR ''>'') (drop 4 s)
            in (''<link'' @ inner @ ''>'') # link_tags_from (5 + length inner) s)
      else link_tags_from 0 s)"

definition link_tags :: "string \<Rightarrow> string list" where
  "link_tags html = link_tags_from 0 html"

text \<open>The first group of a pattern \<open>p([^stop]*)close\<close>.\<close>

fun capture :: "string \<Rightarrow> char \<Rightarrow> string \<Rightarrow> string \<Rightarrow> string option" where
  "capture p stop close [] = None"
| "capture p stop close (c # s) =
     (if prefix p (c # s) \<and> prefix close (dropWhile (\<lambda>x. x \<noteq> stop) (drop (length p) (c # s)))
      then Some (takeWhile (\<lambda>x. x \<noteq> stop) (drop (length p) (c # s)))
      else capture p stop close s)"

abbreviation dquote :: char where "dquote \<equiv> CHR 0x22"

definition quoted :: "string \<Rightarrow> string" where
  "quoted s = [dquote] @ s @ [dquote]"

definition rel_matches :: "string \<Rightarrow> string \<Rightarrow> bool" where
  "rel_matches rel tag = js_includes tag (''rel='' @ quoted rel)"

definition tag_href :: "string \<Rightarrow> string option" where
  "tag_href tag = capture (''href='' @ [dquote]) dquote [dquote] tag"

section \<open>The tags of the page\<close>

definition relValues :: "string list" where
  "relValues = [''apple-touch-icon'', ''icon'', ''shortcut icon'']"

text \<open>The links tried for an icon, in their order: the first that answers is taken, an error ends the search.\<close>

definition icon_links :: "string \<Rightarrow> string list" where
  "icon_links html =
     concat (map (\<lambda>rel. concat (map (\<lambda>tag. if rel_matches rel tag then (case tag_href tag of None \<Rightarrow> [] | Some h \<Rightarrow> [h]) else [])
       (link_tags html))) relValues)"

fun first_icon :: "web \<Rightarrow> string \<Rightarrow> string list \<Rightarrow> js_error + string" where
  "first_icon w urlOrigin [] = Inr []"
| "first_icon w urlOrigin (h # hs) =
     and_then (web_resolve w h urlOrigin) (\<lambda>href.
       let linkedIconUrl = trim_slashes href
       in and_then (web_fetch w linkedIconUrl) (\<lambda>linkedIconResponse.
            if rs_ok linkedIconResponse then Inr linkedIconUrl else first_icon w urlOrigin hs))"

definition parseHtmlForIcon :: "web \<Rightarrow> string \<Rightarrow> string \<Rightarrow> js_error + string" where
  "parseHtmlForIcon w html urlOrigin = first_icon w urlOrigin (icon_links html)"

definition title_matches :: "string \<Rightarrow> string option list" where
  "title_matches html =
     [capture (''<meta name='' @ quoted ''application-name'' @ '' content='' @ [dquote]) dquote [dquote] html,
      capture (''<meta name='' @ quoted ''apple-mobile-web-app-title'' @ '' content='' @ [dquote]) dquote [dquote] html,
      capture ''<title>'' (CHR ''<'') ''</title>'' html]"

definition parseHtmlForTitle :: "string \<Rightarrow> string" where
  "parseHtmlForTitle html = (case find truthy_str (title_matches html) of Some (Some t) \<Rightarrow> t | _ \<Rightarrow> [])"

definition parseHtmlForWebAppManifest :: "web \<Rightarrow> string \<Rightarrow> string \<Rightarrow> js_error + string" where
  "parseHtmlForWebAppManifest w html urlOrigin =
     (case find (\<lambda>tag. rel_matches ''manifest'' tag \<and> tag_href tag \<noteq> None) (link_tags html) of
        None \<Rightarrow> Inr []
      | Some tag \<Rightarrow> web_resolve w (the (tag_href tag)) urlOrigin)"

section \<open>The manifest\<close>

text \<open>\<open>Math.max(...icon.sizes.split('x').map(Number))\<close>.\<close>

definition icon_size :: "json \<Rightarrow> js_error + jsnum" where
  "icon_size icon =
     and_then (json_prop ''sizes'' (Some icon)) (\<lambda>sizes.
       case sizes of
         Some (JStr s) \<Rightarrow> Inr (foldl js_max NInf (map js_number (js_split (CHR ''x'') s)))
       | _ \<Rightarrow> Inl TypeError)"

fun larger_icon :: "json \<Rightarrow> json list \<Rightarrow> js_error + json" where
  "larger_icon prev [] = Inr prev"
| "larger_icon prev (current # icons) =
     and_then (icon_size prev) (\<lambda>prevSize. and_then (icon_size current) (\<lambda>currentSize.
       larger_icon (if js_lt prevSize currentSize then current else prev) icons))"

definition largestIcon :: "json option \<Rightarrow> js_error + json option" where
  "largestIcon icons =
     (case icons of
        Some (JArr []) \<Rightarrow> Inr None
      | Some (JArr (i # is)) \<Rightarrow> and_then (larger_icon i is) (\<lambda>l. Inr (Some l))
      | Some (JStr (c # s)) \<Rightarrow> Inl TypeError
      | Some (JObj fs) \<Rightarrow> if js_lt (Fin 0) (json_number (map_of fs ''length'')) then Inl TypeError else Inr None
      | _ \<Rightarrow> Inr None)"

text \<open>\<open>a || ''\<close>.\<close>

definition or_empty :: "json option \<Rightarrow> json" where
  "or_empty a = (if json_truthy a then the a else JStr [])"

definition fetchTitleAndIconFromManifest :: "web \<Rightarrow> string \<Rightarrow> js_error + json \<times> json" where
  "fetchTitleAndIconFromManifest w manifestUrl =
     and_then (web_fetch w (trim_slashes manifestUrl)) (\<lambda>r.
       if \<not> rs_ok r then Inl (Error (''Failed to fetch manifest from '' @ manifestUrl))
       else and_then (rs_json r) (\<lambda>manifest.
         and_then (json_prop ''name'' (Some manifest)) (\<lambda>name.
           and_then (json_prop ''icons'' (Some manifest)) (\<lambda>icons.
             and_then (largestIcon icons) (\<lambda>largest.
               case largest of
                 None \<Rightarrow> Inr (or_empty name, JStr [])
               | Some JNull \<Rightarrow> Inr (or_empty name, JStr [])
               | Some icon \<Rightarrow> and_then (json_prop ''src'' (Some icon)) (\<lambda>src. Inr (or_empty name, or_empty src)))))))"

section \<open>All steps\<close>

record metadata =
  fetchedIcon :: string
  fetchedTitle :: json

text \<open>A step that assigns; when it throws, what was assigned before is the result.\<close>

definition step_or :: "metadata \<Rightarrow> js_error + 'a \<Rightarrow> ('a \<Rightarrow> metadata) \<Rightarrow> metadata" where
  "step_or m r k = (case r of Inl e \<Rightarrow> m | Inr x \<Rightarrow> k x)"

text \<open>The icon of the page when the manifest gave none: its links, then the one at the root.\<close>

definition page_icon :: "web \<Rightarrow> string \<Rightarrow> string \<Rightarrow> string \<Rightarrow> metadata \<Rightarrow> metadata" where
  "page_icon w html urlOrigin trimmedUrl m =
     (if fetchedIcon m \<noteq> [] then m
      else step_or m (parseHtmlForIcon w html urlOrigin) (\<lambda>icon.
        let m = m\<lparr>fetchedIcon := icon\<rparr>
        in if icon \<noteq> [] then m
           else step_or m (web_resolve w ''/favicon.ico'' trimmedUrl) (\<lambda>faviconUrl.
             step_or m (web_fetch w faviconUrl) (\<lambda>r. if rs_ok r then m\<lparr>fetchedIcon := faviconUrl\<rparr> else m))))"

definition page_title :: "web \<Rightarrow> string \<Rightarrow> string \<Rightarrow> metadata \<Rightarrow> (metadata \<Rightarrow> metadata) \<Rightarrow> metadata" where
  "page_title w html trimmedUrl m k =
     (if json_truthy (Some (fetchedTitle m)) then k m
      else let m = m\<lparr>fetchedTitle := JStr (parseHtmlForTitle html)\<rparr>
           in if parseHtmlForTitle html \<noteq> [] then k m
              else step_or m (web_hostname w trimmedUrl) (\<lambda>hostname. k (m\<lparr>fetchedTitle := JStr hostname\<rparr>)))"

definition fetchMetadataFromUrl :: "web \<Rightarrow> string \<Rightarrow> metadata" where
  "fetchMetadataFromUrl w url =
     (let none = \<lparr>fetchedIcon = [], fetchedTitle = JStr []\<rparr>;
          trimmedUrl = trim_slashes url
      in step_or none (web_fetch w trimmedUrl) (\<lambda>htmlResponse.
           if \<not> rs_ok htmlResponse then none
           else step_or none (rs_text htmlResponse) (\<lambda>html.
             step_or none (web_origin w trimmedUrl) (\<lambda>urlOrigin.
               step_or none (parseHtmlForWebAppManifest w html urlOrigin) (\<lambda>manifestUrl.
                 let rest = (\<lambda>m. page_title w html trimmedUrl m (page_icon w html urlOrigin trimmedUrl))
                 in if manifestUrl = [] then rest none
                    else step_or none (fetchTitleAndIconFromManifest w manifestUrl) (\<lambda>(title, icon).
                      let m = none\<lparr>fetchedTitle := title\<rparr>
                      in if \<not> json_truthy (Some icon) then rest m
                         else step_or m (web_resolve w (json_text icon) urlOrigin) (\<lambda>href. rest (m\<lparr>fetchedIcon := href\<rparr>))))))))"

section \<open>Lemmas\<close>

text \<open>Whether a link answers.\<close>

definition answers :: "web \<Rightarrow> string \<Rightarrow> string \<Rightarrow> bool" where
  "answers w urlOrigin h =
     (case web_resolve w h urlOrigin of
        Inl e \<Rightarrow> False
      | Inr href \<Rightarrow> (case web_fetch w (trim_slashes href) of Inl e \<Rightarrow> False | Inr r \<Rightarrow> rs_ok r))"

lemma first_icon_answers:
  "first_icon w urlOrigin hs = Inr icon \<Longrightarrow> icon \<noteq> [] \<Longrightarrow>
   \<exists>before h after href. hs = before @ h # after \<and> list_all (\<lambda>b. \<not> answers w urlOrigin b) before \<and> answers w urlOrigin h \<and>
     web_resolve w h urlOrigin = Inr href \<and> icon = trim_slashes href"
proof (induction hs)
  case (Cons h hs)
  obtain href where href: "web_resolve w h urlOrigin = Inr href" using Cons.prems(1) by (cases "web_resolve w h urlOrigin") auto
  obtain r where r: "web_fetch w (trim_slashes href) = Inr r"
    using Cons.prems(1) href by (cases "web_fetch w (trim_slashes href)") (auto simp: Let_def)
  show ?case
  proof (cases "rs_ok r")
    case True
    then have "answers w urlOrigin h" "icon = trim_slashes href" using Cons.prems(1) href r by (simp_all add: answers_def Let_def)
    then show ?thesis using href by (intro exI [of _ "[]"] exI [of _ h] exI [of _ hs] exI [of _ href]) simp
  next
    case False
    then have n: "\<not> answers w urlOrigin h" and "first_icon w urlOrigin hs = Inr icon"
      using Cons.prems(1) href r by (simp_all add: answers_def Let_def)
    then obtain before k after hk where
      "hs = before @ k # after" "list_all (\<lambda>b. \<not> answers w urlOrigin b) before" "answers w urlOrigin k"
      "web_resolve w k urlOrigin = Inr hk" "icon = trim_slashes hk"
      using Cons.IH Cons.prems(2) by blast
    then show ?thesis using n by (intro exI [of _ "h # before"] exI [of _ k] exI [of _ after] exI [of _ hk]) simp
  qed
qed simp

lemma larger_icon_result:
  assumes "larger_icon prev icons = Inr icon" and "\<And>i. i \<in> set (prev # icons) \<Longrightarrow> icon_size i = Inr (size_of i) \<and> size_of i \<noteq> NaN"
  shows "icon \<in> set (prev # icons) \<and> (\<forall>i \<in> set (prev # icons). \<not> js_lt (size_of icon) (size_of i))"
  using assms
proof (induction icons arbitrary: prev)
  case Nil
  have "\<not> js_lt n n" for n by (cases n) simp_all
  then show ?case using Nil by simp
next
  case (Cons current icons)
  let ?next = "if js_lt (size_of prev) (size_of current) then current else prev"
  have s: "icon_size prev = Inr (size_of prev)" "icon_size current = Inr (size_of current)" using Cons.prems(2) by simp_all
  then have l: "larger_icon ?next icons = Inr icon" using Cons.prems(1) by simp
  have p: "icon_size i = Inr (size_of i) \<and> size_of i \<noteq> NaN" if "i \<in> set (?next # icons)" for i
    using that Cons.prems(2) [of i] by (auto split: if_splits)
  have ih: "icon \<in> set (?next # icons)" "\<forall>i \<in> set (?next # icons). \<not> js_lt (size_of icon) (size_of i)"
    using Cons.IH [OF l p] by blast+
  have nan: "size_of prev \<noteq> NaN" "size_of current \<noteq> NaN" "size_of icon \<noteq> NaN" using ih(1) Cons.prems(2) by (auto split: if_splits)
  have trans: "\<not> js_lt a c" if "\<not> js_lt a b" "\<not> js_lt b c" "b \<noteq> NaN" "a \<noteq> NaN" "c \<noteq> NaN" for a b c
    using that by (cases a; cases b; cases c) simp_all
  have asym: "\<not> js_lt b a" if "js_lt a b" for a b using that by (cases a; cases b) auto
  have "\<not> js_lt (size_of icon) (size_of prev)" "\<not> js_lt (size_of icon) (size_of current)"
  proof -
    show "\<not> js_lt (size_of icon) (size_of prev)"
    proof (cases "js_lt (size_of prev) (size_of current)")
      case True
      then have "\<not> js_lt (size_of icon) (size_of current)" using ih(2) by simp
      then show ?thesis using trans [OF _ asym [OF True] nan(2) nan(3) nan(1)] by simp
    qed (use ih(2) in simp)
    show "\<not> js_lt (size_of icon) (size_of current)"
    proof (cases "js_lt (size_of prev) (size_of current)")
      case False
      then have "\<not> js_lt (size_of icon) (size_of prev)" using ih(2) by simp
      then show ?thesis using trans [OF _ False nan(1) nan(3) nan(2)] by simp
    qed (use ih(2) in simp)
  qed
  then show ?case using ih by (simp split: if_splits) blast+
qed

section \<open>Properties\<close>

text \<open>
  The icon taken from the tags of a page is a link that answered: every link before it, touch icons
  first, then icons, then shortcut icons, each in the order of the page, was asked and did not.
\<close>

theorem icon_is_first_that_answers:
  assumes "parseHtmlForIcon w html urlOrigin = Inr icon" and "icon \<noteq> []"
  shows "\<exists>before h after href. icon_links html = before @ h # after \<and> list_all (\<lambda>b. \<not> answers w urlOrigin b) before \<and>
    answers w urlOrigin h \<and> web_resolve w h urlOrigin = Inr href \<and> icon = trim_slashes href"
  using assms unfolding parseHtmlForIcon_def by (rule first_icon_answers)

text \<open>Of the icons of a manifest whose sizes are numbers, one of the largest is taken.\<close>

lemma manifest_icon_is_largest:
  assumes "largestIcon (Some (JArr icons)) = Inr (Some icon)"
    and "\<And>i. i \<in> set icons \<Longrightarrow> icon_size i = Inr (size_of i) \<and> size_of i \<noteq> NaN"
  shows "icon \<in> set icons \<and> (\<forall>i \<in> set icons. \<not> js_lt (size_of icon) (size_of i))"
proof -
  obtain i js where icons: "icons = i # js" using assms(1) by (cases icons) (simp_all add: largestIcon_def)
  then have "larger_icon i js = Inr icon"
    using assms(1) by (cases "larger_icon i js") (simp_all add: largestIcon_def)
  then show ?thesis using larger_icon_result [of i js icon size_of] assms(2) icons by auto
qed

text \<open>An icon for any size in front keeps all others out: its size is not a number, and nothing is larger.\<close>

definition sample_icon :: "string \<Rightarrow> json" where
  "sample_icon sizes = JObj [(''src'', JStr (sizes @ ''.png'')), (''sizes'', JStr sizes)]"

lemma any_size_icon_wins:
  "largestIcon (Some (JArr [sample_icon ''any'', sample_icon ''192x192''])) = Inr (Some (sample_icon ''any''))"
proof -
  have "js_number ''any'' = NaN" by code_simp
  then show ?thesis by (simp add: largestIcon_def sample_icon_def icon_size_def js_max_def Let_def)
qed

definition sample_web :: web where
  "sample_web = \<lparr>web_fetch = (\<lambda>u. if u = ''https://m/b.png''
       then Inr \<lparr>rs_ok = True, rs_text = Inl TypeError, rs_json = Inl TypeError\<rparr>
       else Inr \<lparr>rs_ok = False, rs_text = Inl TypeError, rs_json = Inl TypeError\<rparr>),
     web_resolve = (\<lambda>h b. Inr (b @ ''/'' @ h)), web_origin = (\<lambda>u. Inr u), web_hostname = (\<lambda>u. Inr u)\<rparr>"

definition sample_html :: string where
  "sample_html = ''<link rel=\"icon\" href=\"a.png\"><link href=\"b.png/\" rel=\"apple-touch-icon\">''"

lemma icon_is_first_that_answers_witness:
  "\<exists>before h after href. icon_links sample_html = before @ h # after \<and> list_all (\<lambda>b. \<not> answers sample_web ''https://m'' b) before \<and>
     answers sample_web ''https://m'' h \<and> web_resolve sample_web h ''https://m'' = Inr href \<and> ''https://m/b.png'' = trim_slashes href"
proof (rule icon_is_first_that_answers)
  show "parseHtmlForIcon sample_web sample_html ''https://m'' = Inr ''https://m/b.png''" by code_simp
qed simp

end
