(* ===== verification/ChatSelectors.thy ===== *)
theory ChatSelectors
  imports ChatState FederationState
begin

text \<open>
  The selectors of \<open>ui/common/redux/chat.ts\<close>: what the screens of the legacy XMPP chat show of the
  chat state of a federation. A selector reads the chat slice and, where no federation is named, the
  active one; memoisation by \<open>createSelector\<close> does not change what is returned. The list of chats
  is assembled from the messages from the latest down, as the code does; a message that belongs
  to no chat makes it throw, which is an \<open>Inl\<close>.
\<close>

section \<open>Fields of the chat state\<close>

definition selectFederationChatState ::
  "chat_state \<Rightarrow> 'r federation_state \<Rightarrow> string option \<Rightarrow> fed_chat" where
  "selectFederationChatState s fs federationId =
     getFederationChatState s
       (case or_str federationId (selectActiveFederationId fs) of None \<Rightarrow> [] | Some i \<Rightarrow> i)"

definition selectAuthenticatedMember :: "chat_state \<Rightarrow> 'r federation_state \<Rightarrow> chat_member option" where
  "selectAuthenticatedMember s fs = authenticatedMember (selectFederationChatState s fs None)"

definition selectAllChatMessages ::
  "chat_state \<Rightarrow> 'r federation_state \<Rightarrow> string option \<Rightarrow> chat_message list" where
  "selectAllChatMessages s fs federationId = messages (selectFederationChatState s fs federationId)"

definition selectAllChatMembers :: "chat_state \<Rightarrow> 'r federation_state \<Rightarrow> chat_member list" where
  "selectAllChatMembers s fs = membersSeen (selectFederationChatState s fs None)"

definition selectAllChatGroups :: "chat_state \<Rightarrow> 'r federation_state \<Rightarrow> chat_group list" where
  "selectAllChatGroups s fs = groups (selectFederationChatState s fs None)"

definition selectChatLastReadMessageTimestamps ::
  "chat_state \<Rightarrow> 'r federation_state \<Rightarrow> string option \<Rightarrow> int jsobj" where
  "selectChatLastReadMessageTimestamps s fs federationId =
     lastReadMessageTimestamps (selectFederationChatState s fs federationId)"

definition selectChatLastSeenMessageTimestamp ::
  "chat_state \<Rightarrow> 'r federation_state \<Rightarrow> string option \<Rightarrow> int option" where
  "selectChatLastSeenMessageTimestamp s fs federationId =
     lastSeenMessageTimestamp (selectFederationChatState s fs federationId)"

definition selectChatConnectionOptions :: "'r federation_state \<Rightarrow> xmpp_connection_options option" where
  "selectChatConnectionOptions fs =
     (let chatServerDomain = getFederationChatServerDomain (selectFederationMetadata fs)
      in if truthy_str chatServerDomain then Some (makeChatServerOptions (the chatServerDomain)) else None)"

definition selectChatMemberMap :: "chat_state \<Rightarrow> 'r federation_state \<Rightarrow> chat_member jsobj" where
  "selectChatMemberMap s fs =
     foldl (\<lambda>prev member. obj_set (member_id member) member prev) [] (selectAllChatMembers s fs)"

definition selectChatGroupMap :: "chat_state \<Rightarrow> 'r federation_state \<Rightarrow> chat_group jsobj" where
  "selectChatGroupMap s fs =
     foldl (\<lambda>prev group. obj_set (group_id group) group prev) [] (selectAllChatGroups s fs)"

definition selectLatestChatMessage :: "chat_state \<Rightarrow> 'r federation_state \<Rightarrow> chat_message option" where
  "selectLatestChatMessage s fs = getLatestMessage (selectAllChatMessages s fs None)"

definition selectLatestChatMessageTimestamp :: "chat_state \<Rightarrow> 'r federation_state \<Rightarrow> int option" where
  "selectLatestChatMessageTimestamp s fs = map_option msg_sentAt (selectLatestChatMessage s fs)"

definition selectOrderedChatMessages :: "chat_state \<Rightarrow> 'r federation_state \<Rightarrow> chat_message list" where
  "selectOrderedChatMessages s fs = order_desc msg_sentAt (selectAllChatMessages s fs None)"

section \<open>The list of chats\<close>

text \<open>The name, the members and the broadcast flag of a chat; \<open>None\<close> when its member was not seen.\<close>

definition chat_header ::
  "chat_member jsobj \<Rightarrow> chat_group jsobj \<Rightarrow> string \<Rightarrow> chat_type \<Rightarrow> (string \<times> string list \<times> bool) option" where
  "chat_header memberMap groupMap i ty =
     (case ty of
        direct \<Rightarrow> map_option (\<lambda>member. (member_username member, [i], False)) (obj_get memberMap i)
      | group \<Rightarrow>
          Some (the (or_str (map_option group_name (obj_get groupMap i)) (Some ''Chat'')), [],
                Option.bind (obj_get groupMap i) group_broadcastOnly = Some True))"

text \<open>A chat met for the first time, on its latest message.\<close>

definition new_chat ::
  "int \<Rightarrow> string \<Rightarrow> chat_type \<Rightarrow> (string \<times> string list \<times> bool) \<Rightarrow> chat_message \<Rightarrow> chat_with_latest_message" where
  "new_chat lastReadTimestamp i ty header m =
     (case header of (name, members, broadcastOnly) \<Rightarrow>
        let chat = \<lparr>chat_id = i, chat_name = name, chat_members = members, chat_type_of = ty,
                    chat_broadcastOnly = broadcastOnly, chat_latestMessage = Some m,
                    chat_hasNewMessages = (lastReadTimestamp < msg_sentAt m),
                    chat_latestPaymentUpdate = None, chat_joinedAt = None\<rparr>
        in if payment_updatedAt m \<noteq> 0
           then chat\<lparr>chat_latestPaymentUpdate := Some m,
                     chat_hasNewMessages :=
                       (if chat_hasNewMessages chat then True else lastReadTimestamp < payment_updatedAt m)\<rparr>
           else chat)"

text \<open>lodash \<open>uniq\<close> keeps the first of equal elements.\<close>

definition uniq :: "'a list \<Rightarrow> 'a list" where
  "uniq xs = rev (remdups (rev xs))"

text \<open>A chat that exists already, on an older message: its members and its latest payment update.\<close>

definition update_chat ::
  "int \<Rightarrow> string list \<Rightarrow> chat_message \<Rightarrow> chat_with_latest_message \<Rightarrow> chat_with_latest_message" where
  "update_chat lastReadTimestamp members m chat =
     (let chat = chat\<lparr>chat_members := uniq (chat_members chat @ members)\<rparr>
      in if msg_payment m = None then chat
         else let latest =
                    (if payment_updatedAt m >
                        (case chat_latestPaymentUpdate chat of None \<Rightarrow> 0 | Some u \<Rightarrow> payment_updatedAt u)
                     then Some m else chat_latestPaymentUpdate chat)
              in case latest of
                   None \<Rightarrow> chat
                 | Some u \<Rightarrow>
                     if payment_updatedAt u = 0 then chat
                     else chat\<lparr>chat_latestPaymentUpdate := Some u,
                               chat_hasNewMessages :=
                                 (if chat_hasNewMessages chat then True
                                  else lastReadTimestamp < payment_updatedAt u)\<rparr>)"

fun assemble_chats ::
  "chat_member jsobj \<Rightarrow> chat_group jsobj \<Rightarrow> chat_member option \<Rightarrow> int jsobj \<Rightarrow>
   chat_with_latest_message jsobj \<Rightarrow> chat_message list \<Rightarrow> js_error + chat_with_latest_message jsobj"
where
  "assemble_chats memberMap groupMap me lastRead chatMap [] = Inr chatMap"
| "assemble_chats memberMap groupMap me lastRead chatMap (m # rest) =
     (case getChatInfoFromMessage m (case me of None \<Rightarrow> [] | Some a \<Rightarrow> member_id a) of
        Inl e \<Rightarrow> Inl e
      | Inr (i, ty) \<Rightarrow>
          assemble_chats memberMap groupMap me lastRead
            (if Some i = map_option member_id me then chatMap
             else case chat_header memberMap groupMap i ty of
                    None \<Rightarrow> chatMap
                  | Some header \<Rightarrow>
                      let lastReadTimestamp = or_zero (obj_get lastRead i)
                      in case obj_get chatMap i of
                           None \<Rightarrow> obj_set i (new_chat lastReadTimestamp i ty header m) chatMap
                         | Some chat \<Rightarrow> obj_set i (update_chat lastReadTimestamp (fst (snd header)) m chat) chatMap)
            rest)"

definition chat_of_group :: "chat_group \<Rightarrow> chat_with_latest_message" where
  "chat_of_group g =
     \<lparr>chat_id = group_id g, chat_name = group_name g, chat_members = [], chat_type_of = group,
      chat_broadcastOnly = (group_broadcastOnly g = Some True), chat_latestMessage = None,
      chat_hasNewMessages = False, chat_latestPaymentUpdate = None, chat_joinedAt = Some (group_joinedAt g)\<rparr>"

definition add_groups ::
  "chat_group jsobj \<Rightarrow> chat_with_latest_message jsobj \<Rightarrow> chat_with_latest_message jsobj" where
  "add_groups groupMap chatMap =
     foldl (\<lambda>chatMap groupId.
              if obj_get chatMap groupId \<noteq> None then chatMap
              else case obj_get groupMap groupId of
                     None \<Rightarrow> chatMap
                   | Some g \<Rightarrow> obj_set groupId (chat_of_group g) chatMap)
       chatMap (obj_keys groupMap)"

definition chat_activity :: "chat_with_latest_message \<Rightarrow> int" where
  "chat_activity c =
     (case chat_latestMessage c of Some m \<Rightarrow> msg_sentAt m | None \<Rightarrow> or_zero (chat_joinedAt c))"

definition selectOrderedChatList ::
  "chat_state \<Rightarrow> 'r federation_state \<Rightarrow> js_error + chat_with_latest_message list" where
  "selectOrderedChatList s fs =
     (let memberMap = selectChatMemberMap s fs;
          groupMap = selectChatGroupMap s fs
      in case assemble_chats memberMap groupMap (selectAuthenticatedMember s fs)
                (selectChatLastReadMessageTimestamps s fs None) [] (selectOrderedChatMessages s fs) of
           Inl e \<Rightarrow> Inl e
         | Inr chatMap \<Rightarrow> Inr (order_desc chat_activity (obj_values (add_groups groupMap chatMap))))"

definition selectIsChatEmpty :: "chat_state \<Rightarrow> 'r federation_state \<Rightarrow> js_error + bool" where
  "selectIsChatEmpty s fs = map_sum id (\<lambda>chats. length chats = 0) (selectOrderedChatList s fs)"

definition selectChat ::
  "chat_state \<Rightarrow> 'r federation_state \<Rightarrow> string \<Rightarrow> js_error + chat_with_latest_message option" where
  "selectChat s fs i = map_sum id (find (\<lambda>c. chat_id c = i)) (selectOrderedChatList s fs)"

section \<open>Members and messages\<close>

text \<open>The loop of \<open>selectRecentChatMembers\<close>, with its \<open>continue\<close>s and its \<open>break\<close>.\<close>

fun recent_members ::
  "chat_member jsobj \<Rightarrow> chat_member option \<Rightarrow> int \<Rightarrow> chat_member list \<Rightarrow> chat_message list \<Rightarrow> chat_member list"
where
  "recent_members memberMap me limit recent [] = recent"
| "recent_members memberMap me limit recent (m # rest) =
     (let member = obj_get memberMap
            (if truthy_str (msg_sentTo m) \<and> msg_sentTo m \<noteq> map_option member_id me
             then the (msg_sentTo m) else msg_sentBy m)
      in if truthy_str (msg_sentIn m) then recent_members memberMap me limit recent rest
         else case member of
                None \<Rightarrow> recent_members memberMap me limit recent rest
              | Some a \<Rightarrow>
                  if list_ex (\<lambda>b. member_id b = member_id a) recent
                  then recent_members memberMap me limit recent rest
                  else if Some (member_id a) = map_option member_id me
                  then recent_members memberMap me limit recent rest
                  else let recent = recent @ [a]
                       in if int (length recent) \<ge> limit then recent
                          else recent_members memberMap me limit recent rest)"

definition selectRecentChatMembers ::
  "chat_state \<Rightarrow> 'r federation_state \<Rightarrow> int option \<Rightarrow> chat_member list" where
  "selectRecentChatMembers s fs limit =
     recent_members (selectChatMemberMap s fs) (selectAuthenticatedMember s fs)
       (if truthy_int limit then the limit else 4) [] (selectOrderedChatMessages s fs)"

definition selectChatMessages :: "chat_state \<Rightarrow> 'r federation_state \<Rightarrow> string \<Rightarrow> chat_message list" where
  "selectChatMessages s fs chatId =
     (let me = map_option member_id (selectAuthenticatedMember s fs)
      in filter (\<lambda>m. msg_sentIn m = Some chatId \<or>
                     msg_sentBy m = chatId \<and> \<not> truthy_str (msg_sentIn m) \<or>
                     Some (msg_sentBy m) = me \<and> msg_sentTo m = Some chatId)
           (selectAllChatMessages s fs None))"

definition selectChatMember :: "chat_state \<Rightarrow> 'r federation_state \<Rightarrow> string \<Rightarrow> chat_member option" where
  "selectChatMember s fs memberId = find (\<lambda>m. member_id m = memberId) (selectAllChatMembers s fs)"

definition selectChatMembersWithHistory :: "chat_state \<Rightarrow> 'r federation_state \<Rightarrow> chat_member list" where
  "selectChatMembersWithHistory s fs =
     (let memberIdMap =
            foldl (\<lambda>ids m.
                     if truthy_str (msg_sentIn m) then ids
                     else let ids = obj_set (msg_sentBy m) True ids
                          in if truthy_str (msg_sentTo m) then obj_set (the (msg_sentTo m)) True ids else ids)
              [] (selectAllChatMessages s fs None)
      in filter (\<lambda>m. obj_get memberIdMap (member_id m) = Some True) (selectAllChatMembers s fs))"

definition selectChatGroup :: "chat_state \<Rightarrow> 'r federation_state \<Rightarrow> string \<Rightarrow> chat_group option" where
  "selectChatGroup s fs groupId = find (\<lambda>g. group_id g = groupId) (selectAllChatGroups s fs)"

definition selectHasUnseenMessages :: "chat_state \<Rightarrow> 'r federation_state \<Rightarrow> bool" where
  "selectHasUnseenMessages s fs =
     (let latest = selectLatestChatMessageTimestamp s fs
      in truthy_int latest \<and> or_zero (selectChatLastSeenMessageTimestamp s fs None) < or_zero latest)"

definition selectChatDefaultGroupIds ::
  "(string \<Rightarrow> js_error + string list) \<Rightarrow> 'r federation_state \<Rightarrow> string list" where
  "selectChatDefaultGroupIds parse fs =
     (case selectActiveFederation fs of
        None \<Rightarrow> [] | Some f \<Rightarrow> getFederationGroupChats parse (fed_meta f))"

section \<open>Facts about the list of chats\<close>

definition my_id :: "chat_member option \<Rightarrow> string" where
  "my_id me = (case me of None \<Rightarrow> [] | Some a \<Rightarrow> member_id a)"

definition type_for :: "string \<Rightarrow> chat_message \<Rightarrow> chat_type" where
  "type_for my m = snd (projr (getChatInfoFromMessage m my))"

text \<open>What a message of a chat does to the entry of that chat.\<close>

definition chat_step ::
  "chat_member jsobj \<Rightarrow> chat_group jsobj \<Rightarrow> int \<Rightarrow> string \<Rightarrow> chat_type \<Rightarrow>
   chat_with_latest_message option \<Rightarrow> chat_message \<Rightarrow> chat_with_latest_message option" where
  "chat_step memberMap groupMap lastReadTimestamp i ty c m =
     (case chat_header memberMap groupMap i ty of
        None \<Rightarrow> c
      | Some header \<Rightarrow>
          Some (case c of None \<Rightarrow> new_chat lastReadTimestamp i ty header m
                | Some chat \<Rightarrow> update_chat lastReadTimestamp (fst (snd header)) m chat))"

lemma assemble_chats_get:
  assumes "assemble_chats mm gm me lr cm ms = Inr cm'"
  shows "obj_get cm' k =
    (if Some k = map_option member_id me then obj_get cm k
     else foldl (\<lambda>c m. chat_step mm gm (or_zero (obj_get lr k)) k (type_for (my_id me) m) c m)
            (obj_get cm k) (filter (in_chat (my_id me) k) ms))"
  using assms
proof (induction ms arbitrary: cm)
  case Nil
  then show ?case by simp
next
  case (Cons m ms)
  obtain i ty where i: "getChatInfoFromMessage m (my_id me) = Inr (i, ty)"
    using Cons.prems by (auto simp: my_id_def split: sum.splits)
  have m: "in_chat (my_id me) k m \<longleftrightarrow> i = k" "type_for (my_id me) m = ty"
    using i by (auto simp: in_chat_def type_for_def)
  show ?case
    using Cons.prems i Cons.IH
    by (cases "Some i = map_option member_id me"; cases "chat_header mm gm i ty"; cases "obj_get cm i")
      (auto simp: m chat_step_def Let_def my_id_def [symmetric])
qed

lemma assemble_chats_valid:
  "assemble_chats mm gm me lr cm ms = Inr cm' \<Longrightarrow> m \<in> set ms \<Longrightarrow>
   \<exists>k ty. getChatInfoFromMessage m (my_id me) = Inr (k, ty)"
  by (induction ms arbitrary: cm) (auto simp: my_id_def split: sum.splits)

lemma new_chat_fields [simp]:
  "chat_id (new_chat lr i ty h m) = i"
  "chat_latestMessage (new_chat lr i ty h m) = Some m"
  by (simp_all add: new_chat_def Let_def split: prod.split)

lemma update_chat_fields [simp]:
  "chat_id (update_chat lr ms m c) = chat_id c"
  "chat_latestMessage (update_chat lr ms m c) = chat_latestMessage c"
  by (simp_all add: update_chat_def Let_def split: option.split)

lemma assemble_chats_keyed:
  "assemble_chats mm gm me lr cm ms = Inr cm' \<Longrightarrow> keyed_by chat_id cm \<Longrightarrow> keyed_by chat_id cm'"
  by (induction ms arbitrary: cm)
    (auto simp: Let_def keyed_by_set keyed_by_get split: sum.splits option.splits if_splits)

lemma chat_of_group_id [simp]: "chat_id (chat_of_group g) = group_id g"
  by (simp add: chat_of_group_def)

lemma add_groups_keyed:
  assumes "keyed_by group_id gm" and "keyed_by chat_id cm"
  shows "keyed_by chat_id (add_groups gm cm)"
proof -
  have "keyed_by chat_id (foldl (\<lambda>cm i. if obj_get cm i \<noteq> None then cm
      else case obj_get gm i of None \<Rightarrow> cm | Some g \<Rightarrow> obj_set i (chat_of_group g) cm) cm ks)" for ks
    using assms(2)
    by (induction ks arbitrary: cm)
      (auto simp: keyed_by_get [OF assms(1)] keyed_by_set split: option.splits)
  then show ?thesis by (simp add: add_groups_def)
qed

lemma add_groups_get:
  "obj_get (add_groups gm cm) k =
   (case obj_get cm k of Some c \<Rightarrow> Some c | None \<Rightarrow> map_option chat_of_group (obj_get gm k))"
proof -
  have "obj_get (foldl (\<lambda>cm i. if obj_get cm i \<noteq> None then cm
      else case obj_get gm i of None \<Rightarrow> cm | Some g \<Rightarrow> obj_set i (chat_of_group g) cm) cm ks) k =
    (case obj_get cm k of Some c \<Rightarrow> Some c
     | None \<Rightarrow> if k \<in> set ks then map_option chat_of_group (obj_get gm k) else None)" for ks
    by (induction ks arbitrary: cm) (auto split: option.splits)
  moreover have "k \<notin> set (obj_keys gm) \<Longrightarrow> obj_get gm k = None"
    by (auto simp: obj_keys_def dest: obj_get_in)
      (metis obj_get_in image_eqI fst_conv not_None_eq)
  ultimately show ?thesis by (auto simp: add_groups_def split: option.splits)
qed

text \<open>The highest time stamp a message brings: when it was sent or its payment updated.\<close>

definition newer_than :: "int \<Rightarrow> chat_message \<Rightarrow> bool" where
  "newer_than lastReadTimestamp m =
     (lastReadTimestamp < msg_sentAt m \<or> lastReadTimestamp < payment_updatedAt m)"

text \<open>
  The entry of a chat after the messages \<open>ms\<close>, the latest first: it shows the first one, has news
  exactly when one is newer than what was read, and shows the latest update of a payment.
\<close>

definition chat_entry :: "int \<Rightarrow> chat_message \<Rightarrow> chat_message set \<Rightarrow> chat_with_latest_message \<Rightarrow> bool" where
  "chat_entry lr first ms c =
     (chat_latestMessage c = Some first \<and>
      (chat_hasNewMessages c \<longleftrightarrow> lr < msg_sentAt first \<or> (\<exists>m\<in>ms. lr < payment_updatedAt m)) \<and>
      (\<forall>u. chat_latestPaymentUpdate c = Some u \<longrightarrow> u \<in> ms) \<and>
      (\<forall>m\<in>ms. payment_updatedAt m > 0 \<longrightarrow>
         (\<exists>u. chat_latestPaymentUpdate c = Some u \<and> payment_updatedAt m \<le> payment_updatedAt u)))"

lemma new_chat_entry: "0 \<le> lr \<Longrightarrow> chat_entry lr m {m} (new_chat lr i ty h m)"
  by (auto simp: chat_entry_def new_chat_def Let_def split: prod.split)

lemma no_payment_no_update: "msg_payment m = None \<Longrightarrow> payment_updatedAt m = 0"
  by (simp add: payment_updatedAt_def)

lemma update_chat_entry:
  assumes "0 \<le> lr" and "chat_entry lr first ms c"
  shows "chat_entry lr first (insert m ms) (update_chat lr members m c)"
proof (cases "msg_payment m = None")
  case True
  then show ?thesis
    using assms by (auto simp: chat_entry_def update_chat_def no_payment_no_update)
next
  case False
  show ?thesis
  proof (cases "chat_latestPaymentUpdate c")
    case None
    then show ?thesis
      using assms False by (fastforce simp: chat_entry_def update_chat_def Let_def not_less)
  next
    case (Some u)
    then have "u \<in> ms" using assms(2) by (simp add: chat_entry_def)
    then show ?thesis
      using assms False Some
      by (fastforce simp: chat_entry_def update_chat_def Let_def not_less)
  qed
qed

lemma fold_chat_entry:
  assumes "0 \<le> lr" and "chat_entry lr first ms c"
    and "\<forall>m\<in>set rest. chat_header mm gm k (ty m) \<noteq> None"
  shows "\<exists>c'. foldl (\<lambda>c m. chat_step mm gm lr k (ty m) c m) (Some c) rest = Some c' \<and>
    chat_entry lr first (ms \<union> set rest) c'"
  using assms(2,3)
proof (induction rest arbitrary: c ms)
  case Nil
  then show ?case by simp
next
  case (Cons m rest)
  obtain h where h: "chat_header mm gm k (ty m) = Some h" using Cons.prems(2) by auto
  have "chat_entry lr first (insert m ms) (update_chat lr (fst (snd h)) m c)"
    by (rule update_chat_entry [OF assms(1) Cons.prems(1)])
  then show ?case using Cons.IH [of "insert m ms"] Cons.prems(2) h by (simp add: chat_step_def)
qed

lemma chat_step_unlisted: "chat_header mm gm k ty = None \<Longrightarrow> chat_step mm gm lr k ty c m = c"
  by (simp add: chat_step_def)

lemma fold_unlisted:
  "foldl (\<lambda>c m. chat_step mm gm lr k (ty m) c m) c ms =
   foldl (\<lambda>c m. chat_step mm gm lr k (ty m) c m) c (filter (\<lambda>m. chat_header mm gm k (ty m) \<noteq> None) ms)"
proof (induction ms arbitrary: c)
  case (Cons m ms)
  then show ?case by (cases "chat_header mm gm k (ty m)") (simp_all add: chat_step_unlisted del: not_None_eq)
qed simp

text \<open>The messages the list shows under an id: not our own, and of a member that was seen.\<close>

definition listed :: "chat_state \<Rightarrow> 'r federation_state \<Rightarrow> string \<Rightarrow> chat_message \<Rightarrow> bool" where
  "listed s fs k m =
     (m \<in> set (selectAllChatMessages s fs None) \<and>
      Some k \<noteq> map_option member_id (selectAuthenticatedMember s fs) \<and>
      (case getChatInfoFromMessage m (my_id (selectAuthenticatedMember s fs)) of
         Inl e \<Rightarrow> False
       | Inr (i, ty) \<Rightarrow> i = k \<and> (ty = direct \<longrightarrow> k \<in> member_id ` set (selectAllChatMembers s fs))))"

lemma map_of_members:
  "obj_get (foldl (\<lambda>prev x. obj_set (f x) x prev) ob xs) k =
   (case find (\<lambda>x. f x = k) (rev xs) of Some x \<Rightarrow> Some x | None \<Rightarrow> obj_get ob k)"
  by (induction xs rule: rev_induct) auto

lemma find_mem: "find P xs = Some x \<Longrightarrow> x \<in> set xs \<and> P x"
  by (induction xs) (auto split: if_splits)

lemma memberMap_None: "obj_get (selectChatMemberMap s fs) k = None \<longleftrightarrow> k \<notin> member_id ` set (selectAllChatMembers s fs)"
  by (auto simp: selectChatMemberMap_def map_of_members find_None_iff split: option.splits dest!: find_mem)

lemma groupMap_None: "obj_get (selectChatGroupMap s fs) k = None \<longleftrightarrow> k \<notin> group_id ` set (selectAllChatGroups s fs)"
  by (auto simp: selectChatGroupMap_def map_of_members find_None_iff split: option.splits dest!: find_mem)

lemma keyed_groupMap: "keyed_by group_id (selectChatGroupMap s fs)"
  by (simp add: selectChatGroupMap_def keyed_by_foldl)

lemma header_None:
  "chat_header (selectChatMemberMap s fs) gm k ty = None \<longleftrightarrow>
   ty = direct \<and> k \<notin> member_id ` set (selectAllChatMembers s fs)"
  by (cases ty) (auto simp: chat_header_def memberMap_None [symmetric])

lemma fold_chat_None:
  "foldl (\<lambda>c m. chat_step mm gm lr k (ty m) c m) c ms = None \<longleftrightarrow>
   c = None \<and> (\<forall>m\<in>set ms. chat_header mm gm k (ty m) = None)"
  by (induction ms arbitrary: c) (auto simp: chat_step_def split: option.splits)

lemma assembled_listed:
  assumes "assemble_chats (selectChatMemberMap s fs) (selectChatGroupMap s fs) (selectAuthenticatedMember s fs)
       lr [] (selectOrderedChatMessages s fs) = Inr chatMap"
  shows "obj_get chatMap k = None \<longleftrightarrow> (\<forall>m. \<not> listed s fs k m)"
  by (auto simp: assemble_chats_get [OF assms] fold_chat_None listed_def in_chat_def type_for_def header_None
      selectOrderedChatMessages_def split: sum.splits prod.splits)

lemma ordered_chat_list_get:
  assumes cs: "selectOrderedChatList s fs = Inr cs"
  obtains chatMap where
    "assemble_chats (selectChatMemberMap s fs) (selectChatGroupMap s fs) (selectAuthenticatedMember s fs)
       (selectChatLastReadMessageTimestamps s fs None) [] (selectOrderedChatMessages s fs) = Inr chatMap"
    and "keyed_by chat_id (add_groups (selectChatGroupMap s fs) chatMap)"
    and "cs = order_desc chat_activity (obj_values (add_groups (selectChatGroupMap s fs) chatMap))"
    and "\<And>c. c \<in> set cs \<longleftrightarrow> obj_get (add_groups (selectChatGroupMap s fs) chatMap) (chat_id c) = Some c"
proof -
  obtain chatMap where a: "assemble_chats (selectChatMemberMap s fs) (selectChatGroupMap s fs)
      (selectAuthenticatedMember s fs) (selectChatLastReadMessageTimestamps s fs None) []
      (selectOrderedChatMessages s fs) = Inr chatMap"
    and v: "cs = order_desc chat_activity (obj_values (add_groups (selectChatGroupMap s fs) chatMap))"
    using cs by (auto simp: selectOrderedChatList_def Let_def split: sum.splits)
  have k: "keyed_by chat_id (add_groups (selectChatGroupMap s fs) chatMap)"
    by (intro add_groups_keyed keyed_groupMap assemble_chats_keyed [OF a]) simp
  have "c \<in> set cs \<longleftrightarrow> obj_get (add_groups (selectChatGroupMap s fs) chatMap) (chat_id c) = Some c" for c
    using k by (auto simp: v in_obj_values keyed_by_def list_all_iff dest: in_obj_get obj_get_in)
  then show ?thesis using that a k v by blast
qed

text \<open>The entry of one chat, from the messages listed under its id.\<close>

lemma assembled_entry:
  assumes "assemble_chats (selectChatMemberMap s fs) (selectChatGroupMap s fs) (selectAuthenticatedMember s fs)
       (selectChatLastReadMessageTimestamps s fs None) [] (selectOrderedChatMessages s fs) = Inr chatMap"
    and "0 \<le> or_zero (obj_get (selectChatLastReadMessageTimestamps s fs None) k)"
  shows "case obj_get chatMap k of
      None \<Rightarrow> \<forall>m. \<not> listed s fs k m
    | Some c \<Rightarrow> \<exists>first. listed s fs k first \<and> (\<forall>m. listed s fs k m \<longrightarrow> msg_sentAt m \<le> msg_sentAt first) \<and>
        chat_entry (or_zero (obj_get (selectChatLastReadMessageTimestamps s fs None) k)) first
          {m. listed s fs k m} c"
proof (cases "Some k = map_option member_id (selectAuthenticatedMember s fs)")
  case True
  then have "\<not> listed s fs k m" for m by (simp add: listed_def)
  then show ?thesis using True assemble_chats_get [OF assms(1), of k] by simp
next
  case False
  let ?my = "my_id (selectAuthenticatedMember s fs)" and ?ms = "selectOrderedChatMessages s fs"
  let ?lr = "or_zero (obj_get (selectChatLastReadMessageTimestamps s fs None) k)"
  let ?step = "\<lambda>c m. chat_step (selectChatMemberMap s fs) (selectChatGroupMap s fs) ?lr k (type_for ?my m) c m"
  let ?L = "filter (\<lambda>m. chat_header (selectChatMemberMap s fs) (selectChatGroupMap s fs) k (type_for ?my m) \<noteq> None)
      (filter (in_chat ?my k) ?ms)"
  have get: "obj_get chatMap k = foldl ?step None ?L"
    using assemble_chats_get [OF assms(1), of k] False fold_unlisted by (simp del: filter_filter)
  have L: "m \<in> set ?L \<longleftrightarrow> listed s fs k m" for m
    using False by (auto simp: listed_def in_chat_def type_for_def header_None selectOrderedChatMessages_def
        split: sum.splits prod.splits)
  have sorted: "sorted_wrt (\<lambda>x y. msg_sentAt x \<ge> msg_sentAt y) ?L"
    using sorted_order_desc [of msg_sentAt "selectAllChatMessages s fs None"]
    by (simp add: selectOrderedChatMessages_def sorted_wrt_map sorted_wrt_filter del: sorted_order_desc)
  show ?thesis
  proof (cases ?L)
    case Nil
    then have "\<not> listed s fs k m" for m using L [of m] by (simp del: filter_filter)
    then show ?thesis using get unfolding Nil by simp
  next
    case (Cons first rest)
    have hd: "chat_header (selectChatMemberMap s fs) (selectChatGroupMap s fs) k (type_for ?my m) \<noteq> None"
      if "m \<in> set (first # rest)" for m
      using that unfolding Cons [symmetric] by simp
    then obtain h where h: "chat_header (selectChatMemberMap s fs) (selectChatGroupMap s fs) k (type_for ?my first) = Some h"
      by (meson list.set_intros(1) not_None_eq)
    have "\<exists>c. foldl ?step (Some (new_chat ?lr k (type_for ?my first) h first)) rest = Some c \<and>
        chat_entry ?lr first ({first} \<union> set rest) c"
      by (rule fold_chat_entry [OF assms(2) new_chat_entry [OF assms(2)]]) (simp add: hd del: not_None_eq)
    then obtain c where c: "foldl ?step (Some (new_chat ?lr k (type_for ?my first) h first)) rest = Some c"
      "chat_entry ?lr first ({first} \<union> set rest) c" by blast
    then have get': "obj_get chatMap k = Some c" using get h unfolding Cons by (simp add: chat_step_def)
    have all: "{m. listed s fs k m} = {first} \<union> set rest"
      using L unfolding Cons by (simp add: set_eq_iff)
    have "\<forall>m\<in>{first} \<union> set rest. msg_sentAt m \<le> msg_sentAt first"
      using sorted unfolding Cons by auto
    then show ?thesis unfolding get' option.case all using c(2) all by blast
  qed
qed

text \<open>The invariant of the loop over the messages.\<close>

definition recent_ok ::
  "int \<Rightarrow> chat_member option \<Rightarrow> chat_member set \<Rightarrow> chat_message set \<Rightarrow> chat_member list \<Rightarrow> bool" where
  "recent_ok limit me known ms recent =
     (int (length recent) \<le> limit \<and> distinct (map member_id recent) \<and>
      (\<forall>a\<in>set recent. a \<in> known \<and> Some (member_id a) \<noteq> map_option member_id me \<and>
         (\<exists>m\<in>ms. \<not> truthy_str (msg_sentIn m) \<and> (msg_sentTo m = Some (member_id a) \<or> msg_sentBy m = member_id a))))"

lemma recent_ok_add:
  assumes "recent_ok limit me known ms recent" and "int (length recent) < limit"
    and "a \<in> known" and "Some (member_id a) \<noteq> map_option member_id me"
    and "\<not> list_ex (\<lambda>b. member_id b = member_id a) recent"
    and "m \<in> ms" and "\<not> truthy_str (msg_sentIn m)" and "msg_sentTo m = Some (member_id a) \<or> msg_sentBy m = member_id a"
  shows "recent_ok limit me known ms (recent @ [a])"
  using assms by (auto simp: recent_ok_def list_ex_iff)

lemma recent_members_spec:
  assumes "keyed_by member_id mm" and "set ms \<subseteq> all"
    and "recent_ok limit me known all recent" and "int (length recent) < limit"
    and "\<forall>k a. obj_get mm k = Some a \<longrightarrow> a \<in> known"
  shows "recent_ok limit me known all (recent_members mm me limit recent ms)"
  using assms(2-4)
proof (induction ms arbitrary: recent)
  case Nil
  then show ?case by simp
next
  case (Cons m ms)
  let ?i = "if truthy_str (msg_sentTo m) \<and> msg_sentTo m \<noteq> map_option member_id me
      then the (msg_sentTo m) else msg_sentBy m"
  show ?case
  proof (cases "obj_get mm ?i")
    case None
    then show ?thesis using Cons by (auto simp: Let_def)
  next
    case (Some a)
    then have a: "member_id a = ?i" "a \<in> known" using keyed_by_get [OF assms(1)] assms(5) by auto
    then have "msg_sentTo m = Some (member_id a) \<or> msg_sentBy m = member_id a"
      by (auto simp: truthy_str_def split: option.splits)
    then have "recent_ok limit me known all (recent @ [a])"
      if "\<not> truthy_str (msg_sentIn m)" "\<not> list_ex (\<lambda>b. member_id b = member_id a) recent"
        "Some (member_id a) \<noteq> map_option member_id me"
      using recent_ok_add [OF Cons.prems(2,3) a(2)] that Cons.prems(1) by auto
    then show ?thesis using Cons Some by (auto simp: Let_def simp del: a(1))
  qed
qed

section \<open>An example\<close>

text \<open>Bob sees a chat with Alice, whose payment was updated after he read it, and an empty group.\<close>

definition shown_chat :: chat_state where
  "shown_chat = [(''fed'', initialFederationChatState\<lparr>
     authenticatedMember := Some \<lparr>member_id = ''bob'', member_username = ''bob'', member_publicKeyHex = None\<rparr>,
     membersSeen := [\<lparr>member_id = ''alice'', member_username = ''alice'', member_publicKeyHex = None\<rparr>],
     groups := [\<lparr>group_id = ''room'', group_name = ''Room'', group_joinedAt = 3, group_broadcastOnly = None\<rparr>],
     lastReadMessageTimestamps := [(''alice'', 50)],
     messages := [(sample_message ''m'' 5)\<lparr>msg_sentIn := None, msg_sentTo := Some ''bob'', msg_payment := Some sample_payment\<rparr>,
                  (sample_message ''n'' 7)\<lparr>msg_sentIn := None, msg_sentTo := Some ''bob''\<rparr>]\<rparr>)]"

definition shown_federations :: "unit federation_state" where
  "shown_federations = initialFederationState\<lparr>federations := [sample_federation ''fed'' []], activeFederationId := Some ''fed''\<rparr>"

definition alice_chat :: chat_with_latest_message where
  "alice_chat = \<lparr>chat_id = ''alice'', chat_name = ''alice'', chat_members = [''alice''], chat_type_of = direct,
     chat_broadcastOnly = False, chat_latestMessage = Some ((sample_message ''n'' 7)\<lparr>msg_sentIn := None, msg_sentTo := Some ''bob''\<rparr>),
     chat_hasNewMessages = True,
     chat_latestPaymentUpdate = Some ((sample_message ''m'' 5)\<lparr>msg_sentIn := None, msg_sentTo := Some ''bob'',
       msg_payment := Some sample_payment\<rparr>), chat_joinedAt = None\<rparr>"

definition room_chat :: chat_with_latest_message where
  "room_chat = \<lparr>chat_id = ''room'', chat_name = ''Room'', chat_members = [], chat_type_of = group,
     chat_broadcastOnly = False, chat_latestMessage = None, chat_hasNewMessages = False,
     chat_latestPaymentUpdate = None, chat_joinedAt = Some 3\<rparr>"

lemma shown_chats: "selectOrderedChatList shown_chat shown_federations = Inr [alice_chat, room_chat]"
  by code_simp

lemma shown_read: "obj_get (selectChatLastReadMessageTimestamps shown_chat shown_federations None) ''alice'' = Some 50"
  by code_simp

section \<open>Properties\<close>

lemma chat_list_entries:
  assumes "selectOrderedChatList s fs = Inr cs"
  shows "distinct (map chat_id cs) \<and> sorted_wrt (\<ge>) (map chat_activity cs) \<and>
    chat_id ` set cs = {k. \<exists>m. listed s fs k m} \<union> group_id ` set (selectAllChatGroups s fs)"
proof -
  obtain chatMap where a: "assemble_chats (selectChatMemberMap s fs) (selectChatGroupMap s fs)
      (selectAuthenticatedMember s fs) (selectChatLastReadMessageTimestamps s fs None) []
      (selectOrderedChatMessages s fs) = Inr chatMap"
    and k: "keyed_by chat_id (add_groups (selectChatGroupMap s fs) chatMap)"
    and v: "cs = order_desc chat_activity (obj_values (add_groups (selectChatGroupMap s fs) chatMap))"
    and mem: "\<And>c. c \<in> set cs \<longleftrightarrow> obj_get (add_groups (selectChatGroupMap s fs) chatMap) (chat_id c) = Some c"
    using ordered_chat_list_get [OF assms] by blast
  have "distinct (map chat_id cs)" unfolding v using k by (simp add: keyed_by_values)
  moreover have "k \<in> chat_id ` set cs \<longleftrightarrow> (\<exists>m. listed s fs k m) \<or> k \<in> group_id ` set (selectAllChatGroups s fs)" for k
  proof -
    have "k \<in> chat_id ` set cs \<longleftrightarrow> obj_get (add_groups (selectChatGroupMap s fs) chatMap) k \<noteq> None"
    proof
      assume "obj_get (add_groups (selectChatGroupMap s fs) chatMap) k \<noteq> None"
      then obtain c where "obj_get (add_groups (selectChatGroupMap s fs) chatMap) k = Some c" by blast
      then have "chat_id c = k" "c \<in> set cs" using mem [of c] keyed_by_get [OF k] by auto
      then show "k \<in> chat_id ` set cs" by blast
    qed (use mem in auto)
    also have "\<dots> \<longleftrightarrow> obj_get chatMap k \<noteq> None \<or> k \<in> group_id ` set (selectAllChatGroups s fs)"
      by (cases "obj_get chatMap k") (simp_all add: add_groups_get groupMap_None)
    also have "obj_get chatMap k \<noteq> None \<longleftrightarrow> (\<exists>m. listed s fs k m)"
      using assembled_listed [OF a] by simp
    finally show ?thesis .
  qed
  then have "chat_id ` set cs = {k. \<exists>m. listed s fs k m} \<union> group_id ` set (selectAllChatGroups s fs)"
    by (simp add: set_eq_iff)
  ultimately show ?thesis unfolding v by simp
qed

text \<open>The assembly fails only with the error of a message that belongs to no chat.\<close>

lemma assemble_chats_error:
  "assemble_chats mm gm me lr cm ms = Inl e \<Longrightarrow> \<exists>m \<in> set ms. getChatInfoFromMessage m (my_id me) = Inl e"
  by (induction mm gm me lr cm ms rule: assemble_chats.induct) (auto simp: my_id_def split: sum.splits)

text \<open>
  C12: The list of chats fails only with the error of a message that belongs to no chat. When every
  message belongs to one, it has one entry per conversation, ordered from the most recent activity
  down: one for every chat some message of a known sender or group belongs to, and one for every
  group joined; the chat with ourselves is never among those of messages.
\<close>

theorem chat_list_complete:
  "case selectOrderedChatList s fs of
     Inl e \<Rightarrow> \<exists>m \<in> set (selectAllChatMessages s fs None).
       getChatInfoFromMessage m (my_id (selectAuthenticatedMember s fs)) = Inl e
   | Inr cs \<Rightarrow>
       (\<forall>m \<in> set (selectAllChatMessages s fs None).
          \<exists>r. getChatInfoFromMessage m (my_id (selectAuthenticatedMember s fs)) = Inr r) \<and>
       distinct (map chat_id cs) \<and> sorted_wrt (\<ge>) (map chat_activity cs) \<and>
       chat_id ` set cs = {k. \<exists>m. listed s fs k m} \<union> group_id ` set (selectAllChatGroups s fs)"
proof (cases "selectOrderedChatList s fs")
  case (Inl e)
  then have "assemble_chats (selectChatMemberMap s fs) (selectChatGroupMap s fs) (selectAuthenticatedMember s fs)
      (selectChatLastReadMessageTimestamps s fs None) [] (selectOrderedChatMessages s fs) = Inl e"
    by (auto simp: selectOrderedChatList_def Let_def split: sum.splits)
  from assemble_chats_error [OF this] show ?thesis
    by (simp add: Inl selectOrderedChatMessages_def)
next
  case (Inr cs)
  then obtain chatMap where "assemble_chats (selectChatMemberMap s fs) (selectChatGroupMap s fs)
      (selectAuthenticatedMember s fs) (selectChatLastReadMessageTimestamps s fs None) []
      (selectOrderedChatMessages s fs) = Inr chatMap"
    using ordered_chat_list_get by blast
  from assemble_chats_valid [OF this] chat_list_entries [OF Inr] show ?thesis
    by (simp add: Inr selectOrderedChatMessages_def)
qed

theorem chat_list_complete_witness:
  "distinct (map chat_id [alice_chat, room_chat]) \<and> sorted_wrt (\<ge>) (map chat_activity [alice_chat, room_chat]) \<and>
   chat_id ` set [alice_chat, room_chat] =
     {k. \<exists>m. listed shown_chat shown_federations k m} \<union> group_id ` set (selectAllChatGroups shown_chat shown_federations)"
  using chat_list_complete [of shown_chat shown_federations] unfolding shown_chats by simp

text \<open>
  C17: An entry of the list of chats shows the latest message of its conversation and the latest update of a
  payment in it, and it is marked as having new messages exactly when some message of the
  conversation was sent, or its payment updated, after what was read last.
\<close>

theorem chat_list_entry:
  assumes "selectOrderedChatList s fs = Inr cs" and "c \<in> set cs"
    and "0 \<le> or_zero (obj_get (selectChatLastReadMessageTimestamps s fs None) (chat_id c))"
  shows "(chat_latestMessage c = None \<longleftrightarrow> (\<forall>m. \<not> listed s fs (chat_id c) m)) \<and>
    (\<forall>m. chat_latestMessage c = Some m \<longrightarrow> listed s fs (chat_id c) m \<and>
       (\<forall>m'. listed s fs (chat_id c) m' \<longrightarrow> msg_sentAt m' \<le> msg_sentAt m)) \<and>
    (\<forall>m. listed s fs (chat_id c) m \<and> payment_updatedAt m > 0 \<longrightarrow>
       (\<exists>u. chat_latestPaymentUpdate c = Some u \<and> listed s fs (chat_id c) u \<and>
          payment_updatedAt m \<le> payment_updatedAt u)) \<and>
    (chat_hasNewMessages c \<longleftrightarrow> (\<exists>m. listed s fs (chat_id c) m \<and>
       newer_than (or_zero (obj_get (selectChatLastReadMessageTimestamps s fs None) (chat_id c))) m))"
proof -
  obtain chatMap where a: "assemble_chats (selectChatMemberMap s fs) (selectChatGroupMap s fs)
      (selectAuthenticatedMember s fs) (selectChatLastReadMessageTimestamps s fs None) []
      (selectOrderedChatMessages s fs) = Inr chatMap"
    and mem: "\<And>c. c \<in> set cs \<longleftrightarrow> obj_get (add_groups (selectChatGroupMap s fs) chatMap) (chat_id c) = Some c"
    using ordered_chat_list_get [OF assms(1)] by blast
  have c: "obj_get (add_groups (selectChatGroupMap s fs) chatMap) (chat_id c) = Some c"
    using mem assms(2) by simp
  note entry = assembled_entry [OF a assms(3)]
  show ?thesis
  proof (cases "obj_get chatMap (chat_id c)")
    case None
    then have "c \<in> range chat_of_group" using c by (auto simp: add_groups_get)
    then show ?thesis using entry None by (auto simp: chat_of_group_def)
  next
    case (Some c')
    then have "c' = c" using c by (simp add: add_groups_get)
    then show ?thesis using entry Some by (fastforce simp: chat_entry_def newer_than_def)
  qed
qed

theorem chat_list_entry_witness:
  "chat_hasNewMessages alice_chat \<longleftrightarrow> (\<exists>m. listed shown_chat shown_federations ''alice'' m \<and> newer_than 50 m)"
  using chat_list_entry [OF shown_chats, of alice_chat] shown_read by (simp add: alice_chat_def)

text \<open>
  The messages of a chat screen are those the list of chats counts to that chat, whenever every
  message belongs to a chat and none names both a group and a recipient.
\<close>

lemma chat_messages_are_listed:
  assumes "\<forall>m\<in>set (selectAllChatMessages s fs None).
      isl (getChatInfoFromMessage m (my_id (selectAuthenticatedMember s fs))) = False \<and>
      (msg_sentIn m = None \<or> msg_sentTo m = None) \<and> msg_sentIn m \<noteq> Some [] \<and> msg_sentBy m \<noteq> []"
    and "Some k \<noteq> map_option member_id (selectAuthenticatedMember s fs)"
  shows "selectChatMessages s fs k =
    filter (in_chat (my_id (selectAuthenticatedMember s fs)) k) (selectAllChatMessages s fs None)"
  unfolding selectChatMessages_def Let_def
proof (rule filter_cong [OF refl])
  fix m assume m: "m \<in> set (selectAllChatMessages s fs None)"
  show "(msg_sentIn m = Some k \<or> msg_sentBy m = k \<and> \<not> truthy_str (msg_sentIn m) \<or>
      Some (msg_sentBy m) = map_option member_id (selectAuthenticatedMember s fs) \<and> msg_sentTo m = Some k) =
    in_chat (my_id (selectAuthenticatedMember s fs)) k m"
    using bspec [OF assms(1) m] assms(2)
    by (cases "selectAuthenticatedMember s fs"; cases "msg_sentIn m"; cases "msg_sentTo m")
      (auto simp: in_chat_def getChatInfoFromMessage_def my_id_def truthy_str_def split: if_splits)
qed

text \<open>
  The recent members are at most as many as asked for (four when nothing is asked), all different,
  none is ourselves, and each was met in a message outside groups.
\<close>

theorem recent_members_bounded:
  assumes "truthy_int limit \<longrightarrow> the limit > 0"
  shows "int (length (selectRecentChatMembers s fs limit)) \<le> (if truthy_int limit then the limit else 4) \<and>
    distinct (map member_id (selectRecentChatMembers s fs limit)) \<and>
    (\<forall>a\<in>set (selectRecentChatMembers s fs limit).
       a \<in> set (selectAllChatMembers s fs) \<and>
       Some (member_id a) \<noteq> map_option member_id (selectAuthenticatedMember s fs) \<and>
       (\<exists>m\<in>set (selectAllChatMessages s fs None).
          \<not> truthy_str (msg_sentIn m) \<and> (msg_sentTo m = Some (member_id a) \<or> msg_sentBy m = member_id a)))"
proof -
  let ?n = "if truthy_int limit then the limit else 4"
  have "recent_ok ?n (selectAuthenticatedMember s fs) (set (selectAllChatMembers s fs))
      (set (selectAllChatMessages s fs None)) (selectRecentChatMembers s fs limit)"
    unfolding selectRecentChatMembers_def
  proof (rule recent_members_spec)
    show "keyed_by member_id (selectChatMemberMap s fs)" by (simp add: selectChatMemberMap_def keyed_by_foldl)
    show "recent_ok ?n (selectAuthenticatedMember s fs) (set (selectAllChatMembers s fs))
        (set (selectAllChatMessages s fs None)) []" using assms by (auto simp: recent_ok_def)
  qed (use assms in \<open>auto simp: selectOrderedChatMessages_def selectChatMemberMap_def map_of_members
      split: option.splits dest!: find_mem\<close>)
  then show ?thesis by (simp add: recent_ok_def)
qed

theorem recent_members_bounded_witness:
  "int (length (selectRecentChatMembers shown_chat shown_federations (Some 2))) \<le> 2"
  using recent_members_bounded [of "Some 2" shown_chat shown_federations] by simp

end
