(* ===== verification/Injections.thy ===== *)
theory Injections
  imports JsPrint
begin

text \<open>
  \<open>ui/injections\<close>: the providers injected into the page of a mod (\<open>window.webln\<close>, \<open>window.nostr\<close>,
  \<open>window.fediInternal\<close>) and the handler of the app they talk to. A provider posts a request with a
  fresh id and waits for an event with the same id and type; the app runs the handler of the type
  and injects a script that dispatches the event. Requests and responses cross in any order: the
  states of a run are the page, the requests the app has not seen, those its handlers are working
  on, and the scripts that have not run. What a handler answers is arbitrary.
\<close>

section \<open>Messages\<close>

datatype injection_type =
    webln_enable | webln_getInfo | webln_sendPayment | webln_keysend | webln_makeInvoice
  | webln_signMessage | webln_verifyMessage | nostr_getPublicKey | nostr_signEvent
  | fedi_generateEcash | fedi_receiveEcash | fedi_getAuthenticatedMember | fedi_getActiveFederation
  | fedi_getCurrencyCode | fedi_getLanguageCode

fun injection_type_name :: "injection_type \<Rightarrow> string" where
  "injection_type_name webln_enable = ''webln_enable''"
| "injection_type_name webln_getInfo = ''webln_getInfo''"
| "injection_type_name webln_sendPayment = ''webln_sendPayment''"
| "injection_type_name webln_keysend = ''webln_keysend''"
| "injection_type_name webln_makeInvoice = ''webln_makeInvoice''"
| "injection_type_name webln_signMessage = ''webln_signMessage''"
| "injection_type_name webln_verifyMessage = ''webln_verifyMessage''"
| "injection_type_name nostr_getPublicKey = ''nostr_getPublicKey''"
| "injection_type_name nostr_signEvent = ''nostr_signEvent''"
| "injection_type_name fedi_generateEcash = ''fedi_generateEcash''"
| "injection_type_name fedi_receiveEcash = ''fedi_receiveEcash''"
| "injection_type_name fedi_getAuthenticatedMember = ''fedi_getAuthenticatedMember''"
| "injection_type_name fedi_getActiveFederation = ''fedi_getActiveFederation''"
| "injection_type_name fedi_getCurrencyCode = ''fedi_getCurrencyCode''"
| "injection_type_name fedi_getLanguageCode = ''fedi_getLanguageCode''"

definition messageTypes :: "injection_type list" where
  "messageTypes =
     [webln_enable, webln_getInfo, webln_sendPayment, webln_keysend, webln_makeInvoice, webln_signMessage,
      webln_verifyMessage, nostr_getPublicKey, nostr_signEvent, fedi_generateEcash, fedi_receiveEcash,
      fedi_getAuthenticatedMember, fedi_getActiveFederation, fedi_getCurrencyCode, fedi_getLanguageCode]"

record 'q injection_request =
  rq_id :: nat
  rq_type :: injection_type
  rq_data :: 'q

text \<open>The detail of an event: the data of the response, or the message of an error.\<close>

record 'r injection_response =
  rs_id :: nat
  rs_type :: injection_type
  rs_body :: "string + 'r"

section \<open>The app\<close>

record injection_config =
  cfg_webln :: bool
  cfg_eruda :: bool
  cfg_nostr :: bool
  cfg_fediInternal :: bool

record injection_code =
  INJECTION_WEBLN :: string
  INJECTION_ERUDA :: string
  INJECTION_NOSTR :: string
  INJECTION_FEDI_INTERNAL :: string

definition generateInjectionJs :: "injection_code \<Rightarrow> injection_config \<Rightarrow> string" where
  "generateInjectionJs env config =
     (let injections =
            (if cfg_webln config then [INJECTION_WEBLN env] else []) @
            (if cfg_eruda config then [INJECTION_ERUDA env] else []) @
            (if cfg_nostr config then [INJECTION_NOSTR env] else []) @
            (if cfg_fediInternal config then [INJECTION_FEDI_INTERNAL env] else [])
      in js_join ''\<newline>'' injections)"

text \<open>What a handler throws: an object with or without a message, or another value.\<close>

datatype thrown = ThrownMessage string | ThrownObject string | ThrownOther

fun thrown_message :: "thrown \<Rightarrow> string" where
  "thrown_message (ThrownMessage m) = m"
| "thrown_message (ThrownObject s) = s"
| "thrown_message ThrownOther = ''Unexpected error''"

text \<open>
  The first part of the callback of \<open>makeWebViewMessageHandler\<close>: \<open>parse\<close> is \<open>JSON.parse\<close> of the data of the event
  (\<open>None\<close> when it throws or gives nothing), with a type that may not be one of the messages.
\<close>

definition accept_message ::
  "(string \<Rightarrow> (nat \<times> string \<times> 'q) option) \<Rightarrow> bool \<Rightarrow> string \<Rightarrow> js_error + 'q injection_request option" where
  "accept_message parse webviewSet data =
     (if \<not> webviewSet
      then Inl (Error ''@fedi/injections: webview ref is not set, cannot handle message'')
      else case parse data of
             None \<Rightarrow> Inr None
           | Some (i, name, d) \<Rightarrow>
               Inr (map_option (\<lambda>ty. \<lparr>rq_id = i, rq_type = ty, rq_data = d\<rparr>)
                 (find (\<lambda>ty. injection_type_name ty = name) messageTypes)))"

text \<open>The second part, when the handler has returned or thrown: the detail of the event.\<close>

definition response_to :: "'q injection_request \<Rightarrow> thrown + 'r \<Rightarrow> 'r injection_response" where
  "response_to request outcome =
     \<lparr>rs_id = rq_id request, rs_type = rq_type request, rs_body = map_sum thrown_message id outcome\<rparr>"

section \<open>The page\<close>

text \<open>
  A promise of \<open>sendInjectorMessage\<close> is the request it posted and, once it is settled, its outcome. It listens
  while it is not settled. The flag and the counters are the fields of the three providers.
\<close>

record ('q, 'r) injected_page =
  isEnabled :: bool
  webln_lastMessageId :: nat
  nostr_lastMessageId :: nat
  fedi_lastMessageId :: nat
  promises :: "('q injection_request \<times> (string + 'r) option) list"

definition fresh_page :: "('q, 'r) injected_page" where
  "fresh_page = \<lparr>isEnabled = False, webln_lastMessageId = 0, nostr_lastMessageId = 0, fedi_lastMessageId = 0,
     promises = []\<rparr>"

datatype provider = WebLN | Nostr | FediInternal

definition provider_of :: "injection_type \<Rightarrow> provider" where
  "provider_of ty =
     (if ty \<in> {webln_enable, webln_getInfo, webln_sendPayment, webln_keysend, webln_makeInvoice,
               webln_signMessage, webln_verifyMessage} then WebLN
      else if ty \<in> {nostr_getPublicKey, nostr_signEvent} then Nostr else FediInternal)"

fun lastMessageId :: "provider \<Rightarrow> ('q, 'r) injected_page \<Rightarrow> nat" where
  "lastMessageId WebLN p = webln_lastMessageId p"
| "lastMessageId Nostr p = nostr_lastMessageId p"
| "lastMessageId FediInternal p = fedi_lastMessageId p"

fun count_message :: "provider \<Rightarrow> ('q, 'r) injected_page \<Rightarrow> ('q, 'r) injected_page" where
  "count_message WebLN p = p\<lparr>webln_lastMessageId := webln_lastMessageId p + 1\<rparr>"
| "count_message Nostr p = p\<lparr>nostr_lastMessageId := nostr_lastMessageId p + 1\<rparr>"
| "count_message FediInternal p = p\<lparr>fedi_lastMessageId := fedi_lastMessageId p + 1\<rparr>"

text \<open>\<open>sendMessage\<close> of a provider, with the \<open>sendInjectorMessage\<close> it calls: the request it posts.\<close>

definition sendMessage ::
  "injection_type \<Rightarrow> 'q \<Rightarrow> ('q, 'r) injected_page \<Rightarrow> ('q, 'r) injected_page \<times> 'q injection_request" where
  "sendMessage ty data p =
     (let pr = provider_of ty;
          message = \<lparr>rq_id = lastMessageId pr p, rq_type = ty, rq_data = data\<rparr>
      in ((count_message pr p)\<lparr>promises := promises p @ [(message, None)]\<rparr>, message))"

text \<open>
  A method of a provider: \<open>Inl\<close> when it throws, else the new page and the request if one was
  posted (its data in the form it is posted in). The methods of WebLN but \<open>enable\<close> call \<open>ensureEnabled\<close>; \<open>enable\<close> does nothing when it has succeeded before.
\<close>

definition call_method ::
  "injection_type \<Rightarrow> 'q \<Rightarrow> ('q, 'r) injected_page \<Rightarrow> js_error + ('q, 'r) injected_page \<times> 'q injection_request option" where
  "call_method ty data p =
     (if ty = webln_enable \<and> isEnabled p then Inr (p, None)
      else if provider_of ty = WebLN \<and> ty \<noteq> webln_enable \<and> \<not> isEnabled p
      then Inl (Error ''Provider must be enabled before use'')
      else let (p, message) = sendMessage ty data p in Inr (p, Some message))"

text \<open>
  An event \<open>fedi:message\<close>: every promise that listens and has the id and the type of the event is settled; the
  continuation of \<open>enable\<close> sets the flag.
\<close>

definition settles :: "'r injection_response \<Rightarrow> 'q injection_request \<times> (string + 'r) option \<Rightarrow> bool" where
  "settles ev pr = (snd pr = None \<and> rq_id (fst pr) = rs_id ev \<and> rq_type (fst pr) = rs_type ev)"

definition messageHandler :: "'r injection_response \<Rightarrow> ('q, 'r) injected_page \<Rightarrow> ('q, 'r) injected_page" where
  "messageHandler ev p =
     p\<lparr>promises := map (\<lambda>pr. if settles ev pr then (fst pr, Some (rs_body ev)) else pr) (promises p),
       isEnabled := (isEnabled p \<or>
         rs_type ev = webln_enable \<and> \<not> isl (rs_body ev) \<and> list_ex (settles ev) (promises p))\<rparr>"

section \<open>Runs\<close>

text \<open>
  The page and the app: requests posted and not seen yet, requests a handler works on, responses whose
  script has not run, and, for the statements, what each handler answered.
\<close>

record ('q, 'r) injected_system =
  page :: "('q, 'r) injected_page"
  inbox :: "'q injection_request list"
  working :: "'q injection_request list"
  scripts :: "'r injection_response list"
  answered :: "('q injection_request \<times> (thrown + 'r)) list"

definition fresh_system :: "('q, 'r) injected_system" where
  "fresh_system = \<lparr>page = fresh_page, inbox = [], working = [], scripts = [], answered = []\<rparr>"

text \<open>
  A step calls a method, hands the first message to its handler, ends a handler (in any order), or runs a
  script. \<open>Navigate\<close> loads another page in the same web view: its providers start anew, while the app keeps
  the handlers that run and the scripts are injected into whatever page is there.
\<close>

datatype ('q, 'r) injected_step =
    CallMethod injection_type 'q
  | TakeMessage
  | EndHandler nat "thrown + 'r"
  | RunScript
  | Navigate

fun run_step :: "('q, 'r) injected_step \<Rightarrow> ('q, 'r) injected_system \<Rightarrow> ('q, 'r) injected_system" where
  "run_step (CallMethod ty data) s =
     (case call_method ty data (page s) of
        Inl e \<Rightarrow> s
      | Inr (p, None) \<Rightarrow> s\<lparr>page := p\<rparr>
      | Inr (p, Some message) \<Rightarrow> s\<lparr>page := p, inbox := inbox s @ [message]\<rparr>)"
| "run_step TakeMessage s =
     (case inbox s of [] \<Rightarrow> s | m # ms \<Rightarrow> s\<lparr>inbox := ms, working := working s @ [m]\<rparr>)"
| "run_step (EndHandler n outcome) s =
     (if n < length (working s)
      then s\<lparr>working := take n (working s) @ drop (Suc n) (working s),
             scripts := scripts s @ [response_to (working s ! n) outcome],
             answered := answered s @ [(working s ! n, outcome)]\<rparr>
      else s)"
| "run_step RunScript s =
     (case scripts s of [] \<Rightarrow> s | ev # evs \<Rightarrow> s\<lparr>scripts := evs, page := messageHandler ev (page s)\<rparr>)"
| "run_step Navigate s = s\<lparr>page := fresh_page\<rparr>"

section \<open>The invariant of a page\<close>

definition request_key :: "'q injection_request \<Rightarrow> nat \<times> injection_type" where
  "request_key r = (rq_id r, rq_type r)"

definition in_flight :: "('q, 'r) injected_system \<Rightarrow> (nat \<times> injection_type) list" where
  "in_flight s = map request_key (inbox s) @ map request_key (working s) @
     map (\<lambda>ev. (rs_id ev, rs_type ev)) (scripts s)"

text \<open>
  The ids of a type are those the counter of its provider has passed, each used once; a promise waits
  exactly while its request or the response to it is under way; a response, and the outcome of
  a settled promise, is what a handler answered to that request.
\<close>

definition injected_ok :: "('q, 'r) injected_system \<Rightarrow> bool" where
  "injected_ok s =
     (distinct (map (request_key \<circ> fst) (promises (page s))) \<and>
      (\<forall>pr\<in>set (promises (page s)). rq_id (fst pr) < lastMessageId (provider_of (rq_type (fst pr))) (page s)) \<and>
      distinct (in_flight s) \<and>
      set (in_flight s) = (request_key \<circ> fst) ` {pr \<in> set (promises (page s)). snd pr = None} \<and>
      set (inbox s) \<union> set (working s) \<union> fst ` set (answered s) \<subseteq> fst ` set (promises (page s)) \<and>
      (\<forall>ev\<in>set (scripts s). \<exists>a\<in>set (answered s). ev = response_to (fst a) (snd a)) \<and>
      (\<forall>pr\<in>set (promises (page s)). \<forall>b. snd pr = Some b \<longrightarrow>
         (\<exists>out. (fst pr, out) \<in> set (answered s) \<and> b = map_sum thrown_message id out)))"

lemma lastMessageId_count [simp]:
  "lastMessageId q (count_message pr p) = lastMessageId q p + (if q = pr then 1 else 0)"
  by (cases q; cases pr) simp_all

lemma lastMessageId_promises [simp]: "lastMessageId q (p\<lparr>promises := ps\<rparr>) = lastMessageId q p"
  by (cases q) simp_all

lemma lastMessageId_handler [simp]: "lastMessageId q (messageHandler ev p) = lastMessageId q p"
  by (cases q) (simp_all add: messageHandler_def)

lemma promises_count [simp]: "promises (count_message pr p) = promises p"
  by (cases pr) simp_all

lemma settled_requests [simp]: "map fst (promises (messageHandler ev p)) = map fst (promises p)"
  by (simp add: messageHandler_def)

lemma request_key_response [simp]: "(rs_id (response_to r out), rs_type (response_to r out)) = request_key r"
  by (simp add: response_to_def request_key_def)

lemma injected_okD:
  assumes "injected_ok s"
  shows "distinct (map (request_key \<circ> fst) (promises (page s)))"
    "pr \<in> set (promises (page s)) \<Longrightarrow> rq_id (fst pr) < lastMessageId (provider_of (rq_type (fst pr))) (page s)"
    "distinct (in_flight s)"
    "set (in_flight s) = (request_key \<circ> fst) ` {pr \<in> set (promises (page s)). snd pr = None}"
    "set (inbox s) \<union> set (working s) \<union> fst ` set (answered s) \<subseteq> fst ` set (promises (page s))"
    "ev \<in> set (scripts s) \<Longrightarrow> \<exists>a\<in>set (answered s). ev = response_to (fst a) (snd a)"
    "pr \<in> set (promises (page s)) \<Longrightarrow> snd pr = Some b \<Longrightarrow>
       \<exists>out. (fst pr, out) \<in> set (answered s) \<and> b = map_sum thrown_message id out"
  using assms unfolding injected_ok_def by blast+

lemma injected_okI:
  assumes "distinct (map (request_key \<circ> fst) (promises (page s)))"
    and "\<And>pr. pr \<in> set (promises (page s)) \<Longrightarrow> rq_id (fst pr) < lastMessageId (provider_of (rq_type (fst pr))) (page s)"
    and "distinct (in_flight s)"
    and "set (in_flight s) = (request_key \<circ> fst) ` {pr \<in> set (promises (page s)). snd pr = None}"
    and "set (inbox s) \<union> set (working s) \<union> fst ` set (answered s) \<subseteq> fst ` set (promises (page s))"
    and "\<And>ev. ev \<in> set (scripts s) \<Longrightarrow> \<exists>a\<in>set (answered s). ev = response_to (fst a) (snd a)"
    and "\<And>pr b. pr \<in> set (promises (page s)) \<Longrightarrow> snd pr = Some b \<Longrightarrow>
       \<exists>out. (fst pr, out) \<in> set (answered s) \<and> b = map_sum thrown_message id out"
  shows "injected_ok s"
  using assms unfolding injected_ok_def by blast

text \<open>Each step but the navigation keeps the invariant.\<close>

lemma injected_ok_send:
  assumes "injected_ok s" and "sendMessage ty data (page s) = (p, m)"
  shows "injected_ok (s\<lparr>page := p, inbox := inbox s @ [m]\<rparr>)"
proof -
  let ?ps = "promises (page s)" and ?s = "s\<lparr>page := p, inbox := inbox s @ [m]\<rparr>"
  note ok = injected_okD [OF assms(1)]
  have p: "promises p = ?ps @ [(m, None)]" "request_key m = (lastMessageId (provider_of ty) (page s), ty)"
    "\<And>q. lastMessageId q p = lastMessageId q (page s) + (if q = provider_of ty then 1 else 0)"
    using assms(2) by (auto simp: sendMessage_def Let_def request_key_def)
  have new: "request_key m \<notin> (request_key \<circ> fst) ` set ?ps"
    using ok(2) unfolding p(2) by (fastforce simp: request_key_def)
  have fl: "mset (in_flight ?s) = add_mset (request_key m) (mset (in_flight s))"
    by (simp add: in_flight_def)
  have "set (in_flight s) \<subseteq> (request_key \<circ> fst) ` set ?ps" using ok(4) by blast
  then have "distinct (request_key m # in_flight s)" using new ok(3) by auto
  then have "distinct (in_flight ?s)" using fl by (metis mset.simps(2) mset_eq_imp_distinct_iff)
  moreover have "set (in_flight ?s) = insert (request_key m) (set (in_flight s))"
    using arg_cong [OF fl, of set_mset] by simp
  moreover have "{pr \<in> set (promises p). snd pr = None} = insert (m, None) {pr \<in> set ?ps. snd pr = None}"
    by (auto simp: p(1))
  ultimately show ?thesis
  proof (intro injected_okI, goal_cases)
    case (2 pr)
    then have "pr = (m, None) \<or> pr \<in> set ?ps" by (auto simp: p(1))
    then show ?case using p(2) ok(2) [of pr] by (auto simp: p(3) request_key_def)
  next
    case 5
    then show ?case using ok(5) by (simp add: p(1)) blast
  qed (use ok new in \<open>auto simp: p(1)\<close>)
qed

lemma injected_ok_call: "injected_ok s \<Longrightarrow> injected_ok (run_step (CallMethod ty data) s)"
  by (auto simp: call_method_def injected_ok_send split: prod.splits)

lemma injected_ok_take:
  assumes "injected_ok s"
  shows "injected_ok (run_step TakeMessage s)"
proof (cases "inbox s")
  case (Cons m ms)
  let ?s = "run_step TakeMessage s"
  note ok = injected_okD [OF assms]
  have fl: "mset (in_flight ?s) = mset (in_flight s)" using Cons by (simp add: in_flight_def)
  have "distinct (in_flight ?s)" "set (in_flight ?s) = set (in_flight s)"
    using fl ok(3) by (metis mset_eq_imp_distinct_iff, metis mset_eq_setD)
  then show ?thesis
    by (intro injected_okI) (use ok Cons in auto)
qed (use assms in simp)

lemma injected_ok_end:
  assumes "injected_ok s"
  shows "injected_ok (run_step (EndHandler n out) s)"
proof (cases "n < length (working s)")
  case True
  let ?s = "run_step (EndHandler n out) s" and ?r = "working s ! n"
  note ok = injected_okD [OF assms]
  have w: "working s = take n (working s) @ ?r # drop (Suc n) (working s)"
    using True by (rule id_take_nth_drop)
  have "mset (map request_key (working s)) =
      add_mset (request_key ?r) (mset (map request_key (take n (working s) @ drop (Suc n) (working s))))"
    by (subst w) simp
  then have fl: "mset (in_flight ?s) = mset (in_flight s)"
    using True by (simp add: in_flight_def)
  have "distinct (in_flight ?s)" "set (in_flight ?s) = set (in_flight s)"
    using fl ok(3) by (metis mset_eq_imp_distinct_iff, metis mset_eq_setD)
  moreover have "set (working ?s) \<subseteq> set (working s)" "?r \<in> set (working s)"
    using True by (auto dest: in_set_takeD in_set_dropD)
  moreover have "page ?s = page s" "inbox ?s = inbox s" "answered ?s = answered s @ [(?r, out)]"
    "scripts ?s = scripts s @ [response_to ?r out]" using True by simp_all
  ultimately show ?thesis
  proof (intro injected_okI, goal_cases)
    case (7 pr b)
    then have "\<exists>out. (fst pr, out) \<in> set (answered s) \<and> b = map_sum thrown_message id out"
      using True by (intro ok(7)) simp_all
    then show ?case using True by auto
  qed (use ok in \<open>auto simp del: run_step.simps dest: subsetD\<close>)
qed (use assms in simp)

lemma settles_key: "settles ev pr \<longleftrightarrow> snd pr = None \<and> request_key (fst pr) = (rs_id ev, rs_type ev)"
  by (auto simp: settles_def request_key_def)

lemma injected_ok_run:
  assumes "injected_ok s"
  shows "injected_ok (run_step RunScript s)"
proof (cases "scripts s")
  case (Cons ev evs)
  let ?s = "run_step RunScript s" and ?k = "(rs_id ev, rs_type ev)" and ?ps = "promises (page s)"
  note ok = injected_okD [OF assms]
  obtain r out where a: "(r, out) \<in> set (answered s)" "ev = response_to r out" using ok(6) [of ev] Cons by auto
  have "r \<in> fst ` set (answered s)" using imageI [OF a(1), of fst] by simp
  then have rk: "request_key r = ?k" "r \<in> fst ` set ?ps" using ok(5) by (simp add: a(2), blast)
  have "mset (in_flight s) = add_mset ?k (mset (in_flight ?s))" using Cons by (simp add: in_flight_def)
  then have fl: "distinct (?k # in_flight ?s)" "set (in_flight s) = insert ?k (set (in_flight ?s))"
    using ok(3) by (metis mset.simps(2) mset_eq_imp_distinct_iff, metis mset_eq_setD mset.simps(2) list.set(2))
  let ?ps' = "promises (page ?s)"
  have ps': "?ps' = map (\<lambda>pr. if settles ev pr then (fst pr, Some (rs_body ev)) else pr) ?ps"
    using Cons by (simp add: messageHandler_def)
  then have fst': "map fst ?ps' = map fst ?ps" by (simp add: comp_def if_distrib)
  show ?thesis
  proof (intro injected_okI, goal_cases)
    case 1
    then show ?case using ok(1) fst' by (metis map_map)
  next
    case (2 pr)
    then have "fst pr \<in> fst ` set ?ps" using fst' by (metis image_eqI set_map)
    then show ?case using ok(2) Cons by auto
  next
    case 3
    then show ?case using fl by simp
  next
    case 4
    have e1: "{pr \<in> set ?ps'. snd pr = None} = {pr \<in> set ?ps. snd pr = None \<and> (request_key \<circ> fst) pr \<noteq> ?k}"
      unfolding ps' by (auto simp: settles_key)
    have e2: "set (in_flight ?s) = set (in_flight s) - {?k}" using fl by (simp del: run_step.simps)
    have gen: "f ` {pr \<in> A. P pr \<and> f pr \<noteq> k} = f ` {pr \<in> A. P pr} - {k}" for f A P and k :: "nat \<times> injection_type"
      by auto
    show ?case unfolding e1 e2 ok(4) by (rule gen [symmetric])
  next
    case 5
    then show ?case using ok(5) fst' Cons by (simp add: set_map [symmetric] del: set_map)
  next
    case (6 e)
    then show ?case using ok(6) [of e] Cons by auto
  next
    case (7 pr b)
    then obtain q where q: "q \<in> set ?ps" "pr = (if settles ev q then (fst q, Some (rs_body ev)) else q)"
      unfolding ps' set_map by (elim imageE) blast
    show ?case
    proof (cases "settles ev q")
      case True
      then have "fst q = r" using q(1) rk ok(1) by (auto simp: settles_key distinct_map inj_on_def)
      then have "fst pr = r" "b = map_sum thrown_message id out" using 7(2) q(2) True a(2) by (auto simp: response_to_def)
      then show ?thesis using a(1) Cons by auto
    next
      case False
      then have "pr = q" using q(2) by simp
      then have "\<exists>out. (fst pr, out) \<in> set (answered s) \<and> b = map_sum thrown_message id out"
        using 7(2) q(1) by (intro ok(7)) simp_all
      then show ?thesis using Cons by simp
    qed
  qed
qed (use assms in simp)

lemma injected_ok_step: "injected_ok s \<Longrightarrow> st \<noteq> Navigate \<Longrightarrow> injected_ok (run_step st s)"
  by (cases st) (simp_all only: injected_ok_call injected_ok_take injected_ok_end injected_ok_run, simp)

lemma injected_ok_fresh: "injected_ok fresh_system"
  by (simp add: injected_ok_def fresh_system_def fresh_page_def in_flight_def)

interpretation injected: reducer fresh_system run_step "\<lambda>st. st \<noteq> Navigate" injected_ok
  by unfold_locales (rule injected_ok_fresh, rule injected_ok_step)

section \<open>Properties\<close>

text \<open>
  C5: As long as the page is not left, however the calls, handlers and scripts interleave, a promise is settled
  only with what a handler answered to that very request; ids are never given twice; and a promise
  whose request and response are not under way any more is settled.
\<close>

theorem injected_replies_match:
  assumes "list_all (\<lambda>st. st \<noteq> Navigate) steps" and "s = fold run_step steps fresh_system"
  shows "distinct (map (request_key \<circ> fst) (promises (page s))) \<and>
    (\<forall>(request, settled)\<in>set (promises (page s)).
       case settled of
         Some body \<Rightarrow> \<exists>out. (request, out) \<in> set (answered s) \<and> body = map_sum thrown_message id out
       | None \<Rightarrow> request_key request \<in> set (in_flight s))"
proof -
  note ok = injected_okD [OF injected.run_invar [OF assms(1), folded assms(2)]]
  have "case settled of
         Some body \<Rightarrow> \<exists>out. (request, out) \<in> set (answered s) \<and> body = map_sum thrown_message id out
       | None \<Rightarrow> request_key request \<in> set (in_flight s)"
    if "(request, settled) \<in> set (promises (page s))" for request settled
    using ok(7) [OF that] that unfolding ok(4) by (cases settled) force+
  then show ?thesis using ok(1) by blast
qed

definition two_calls :: "(string, string) injected_step list" where
  "two_calls = [CallMethod nostr_getPublicKey ''a'', CallMethod fedi_getLanguageCode ''b'', TakeMessage, TakeMessage,
     EndHandler 1 (Inr ''en''), EndHandler 0 (Inl ThrownOther), RunScript, RunScript]"

theorem injected_replies_match_witness:
  "map snd (promises (page (fold run_step two_calls fresh_system))) = [Some (Inl ''Unexpected error''), Some (Inr ''en'')] \<and>
   distinct (map (request_key \<circ> fst) (promises (page (fold run_step two_calls fresh_system))))"
proof
  show "map snd (promises (page (fold run_step two_calls fresh_system))) = [Some (Inl ''Unexpected error''), Some (Inr ''en'')]"
    by code_simp
  have "list_all (\<lambda>st. st \<noteq> Navigate) two_calls" by (simp add: two_calls_def)
  from injected_replies_match [OF this refl]
  show "distinct (map (request_key \<circ> fst) (promises (page (fold run_step two_calls fresh_system))))" by blast
qed

text \<open>
  C11: When the web view navigates while a handler waits for the user, the page that is there when the user
  answers can receive that answer as its own: the providers of every page count from zero, and neither the
  handler nor the script checks which page a request came from.
\<close>

theorem navigation_crosses_replies:
  assumes "s = fold run_step [CallMethod ty asked, TakeMessage, Navigate, CallMethod ty other, EndHandler 0 (Inr answer), RunScript]
      fresh_system"
    and "provider_of ty \<noteq> WebLN" and "asked \<noteq> other"
  shows "promises (page s) = [(\<lparr>rq_id = 0, rq_type = ty, rq_data = other\<rparr>, Some (Inr answer))] \<and>
    answered s = [(\<lparr>rq_id = 0, rq_type = ty, rq_data = asked\<rparr>, Inr answer)]"
proof -
  have "ty \<noteq> webln_enable" using assms(2) by (auto simp: provider_of_def)
  then have "call_method ty d (fresh_page :: ('a, 'b) injected_page) = Inr
      ((count_message (provider_of ty) fresh_page)\<lparr>promises := [(\<lparr>rq_id = 0, rq_type = ty, rq_data = d\<rparr>, None)]\<rparr>,
       Some \<lparr>rq_id = 0, rq_type = ty, rq_data = d\<rparr>)" for d
    using assms(2) by (cases "provider_of ty") (simp_all add: call_method_def sendMessage_def fresh_page_def Let_def)
  then show ?thesis
    by (simp add: assms(1) fresh_system_def response_to_def messageHandler_def settles_def)
qed

theorem navigation_crosses_replies_witness:
  "map snd (promises (page (fold run_step
     [CallMethod fedi_generateEcash ''shop'', TakeMessage, Navigate, CallMethod fedi_generateEcash ''other'',
      EndHandler 0 (Inr ''notes''), RunScript] fresh_system))) = [Some (Inr ''notes'')]"
  using navigation_crosses_replies [OF refl, of fedi_generateEcash "''shop''" "''other''" "''notes''"]
  by (simp add: provider_of_def)

end
