(* ===== verification/ModBrowser.thy ===== *)
theory ModBrowser
  imports InputParser Injections
begin

text \<open>
  The browser of mods of the native app (\<open>ui/native/screens/FediModBrowser.tsx\<close> and the overlays of
  \<open>ui/native/components/feature/fedimods\<close>): the handlers of the messages of the injected providers, the overlays in
  which the user accepts or rejects a request, and the links it handles itself. A handler that has
  to wait for the user stores the two functions that settle its promise in a pair of references, and
  any overlay that is accepted or rejected settles whatever promise is stored there. Layout, toasts and logging are left out.
\<close>

section \<open>Data\<close>

record nostr_event =
  ev_created_at :: int
  ev_kind :: int
  ev_content :: string
  ev_tags :: "string list list"

datatype mod_data = NoData | TextData string | ArgsData request_args | EventData nostr_event

record gateway =
  gw_nodePubKey :: string
  gw_active :: bool

record signed_event =
  se_id :: string
  se_pubkey :: string
  se_event :: nostr_event
  se_sig :: string

text \<open>The values a handler returns; \<open>EcashNotes\<close> is the object the provider declares for \<open>generateEcash\<close>.\<close>

datatype mod_response =
    NoResponse
  | NodeInfo string string
  | PaymentRequest string
  | Preimage string
  | SignedEvent signed_event
  | TextResponse string
  | EcashNotes string
  | ReceivedMsats int
  | MemberInfo string string
  | FederationInfo string string "string option"

text \<open>The response \<open>InjectionMessageResponseMap\<close> declares for each type.\<close>

fun declared_response :: "injection_type \<Rightarrow> mod_response \<Rightarrow> bool" where
  "declared_response ty NoResponse = (ty \<in> {webln_enable, webln_verifyMessage})"
| "declared_response ty (NodeInfo alias pubkey) = (ty = webln_getInfo)"
| "declared_response ty (PaymentRequest p) = (ty = webln_makeInvoice)"
| "declared_response ty (Preimage p) = (ty \<in> {webln_sendPayment, webln_keysend})"
| "declared_response ty (SignedEvent e) = (ty = nostr_signEvent)"
| "declared_response ty (TextResponse s) =
     (ty \<in> {webln_signMessage, nostr_getPublicKey, fedi_getCurrencyCode, fedi_getLanguageCode})"
| "declared_response ty (EcashNotes n) = (ty = fedi_generateEcash)"
| "declared_response ty (ReceivedMsats m) = (ty = fedi_receiveEcash)"
| "declared_response ty (MemberInfo i n) = (ty = fedi_getAuthenticatedMember)"
| "declared_response ty (FederationInfo i n k) = (ty = fedi_getActiveFederation)"

section \<open>State\<close>

text \<open>What the component read from the store when it rendered; a handler keeps what it was made with.\<close>

record browser_env =
  env_recoveryInProgress :: bool
  env_member :: "(string \<times> string) option"
  env_hasSetDisplayName :: bool
  env_activeFederation :: "federation option"
  env_paymentFederation :: "federation option"
  env_nostrPublic :: "string option"
  env_currency :: string
  env_language :: "string option"

text \<open>A handler that runs: waiting for the gateway, the invoice, the user or the bridge, or settled.\<close>

datatype handler_phase =
    AwaitGateway browser_env
  | AwaitDecode federation
  | AwaitUser
  | AwaitReceive
  | Settled "thrown + mod_response"

datatype mod_overlay = InvoiceOverlay | PaymentOverlay | AuthOverlay | NostrOverlay | EcashOverlay

text \<open>
  The handlers in the order they started, the handler whose functions are in \<open>overlayResolveRef\<close> and
  \<open>overlayRejectRef\<close>, the promise of the gateways (made, and then settled) with the number of calls, the state that opens
  the overlays, the confirmations under way, and the overlays whose flag \<open>isLoading\<close> is set.
\<close>

record mod_browser =
  handlers :: "(mod_data injection_request \<times> handler_phase) list"
  overlayRef :: "nat option"
  gatewayPromise :: "(thrown + gateway) option option"
  listGateways_calls :: nat
  requestInvoiceArgs :: "request_args option"
  lnurlWithdrawal :: "parsed option"
  invoiceToPay :: "invoice option"
  lnurlPayment :: "parsed option"
  lnurlAuthRequest :: "parsed option"
  nostrUnsignedEvent :: "nostr_event option"
  ecashRequest :: "request_args option"
  showRecoveryInProgress :: bool
  confirming :: "mod_overlay list"
  loading :: "mod_overlay list"

definition initial_browser :: mod_browser where
  "initial_browser = \<lparr>handlers = [], overlayRef = None, gatewayPromise = None, listGateways_calls = 0,
     requestInvoiceArgs = None, lnurlWithdrawal = None, invoiceToPay = None, lnurlPayment = None,
     lnurlAuthRequest = None, nostrUnsignedEvent = None, ecashRequest = None, showRecoveryInProgress = False,
     confirming = [], loading = []\<rparr>"

fun overlay_shown :: "mod_overlay \<Rightarrow> mod_browser \<Rightarrow> bool" where
  "overlay_shown InvoiceOverlay b = (requestInvoiceArgs b \<noteq> None \<or> lnurlWithdrawal b \<noteq> None)"
| "overlay_shown PaymentOverlay b = (invoiceToPay b \<noteq> None \<or> lnurlPayment b \<noteq> None)"
| "overlay_shown AuthOverlay b = (lnurlAuthRequest b \<noteq> None)"
| "overlay_shown NostrOverlay b = (nostrUnsignedEvent b \<noteq> None)"
| "overlay_shown EcashOverlay b = (ecashRequest b \<noteq> None)"

definition resetOverlay :: "mod_browser \<Rightarrow> mod_browser" where
  "resetOverlay b = b\<lparr>requestInvoiceArgs := None, lnurlWithdrawal := None, invoiceToPay := None,
     lnurlPayment := None, lnurlAuthRequest := None, nostrUnsignedEvent := None,
     showRecoveryInProgress := False, ecashRequest := None\<rparr>"

text \<open>A promise is settled once; later calls of its functions do nothing.\<close>

definition settle :: "nat \<Rightarrow> thrown + mod_response \<Rightarrow> mod_browser \<Rightarrow> mod_browser" where
  "settle n out b =
     (case handlers b ! n of
        (rq, Settled old) \<Rightarrow> b
      | (rq, ph) \<Rightarrow> b\<lparr>handlers := (handlers b)[n := (rq, Settled out)]\<rparr>)"

definition set_phase :: "nat \<Rightarrow> handler_phase \<Rightarrow> mod_browser \<Rightarrow> mod_browser" where
  "set_phase n ph b = b\<lparr>handlers := (handlers b)[n := (fst (handlers b ! n), ph)]\<rparr>"

definition wait_for_user :: "nat \<Rightarrow> mod_browser \<Rightarrow> mod_browser" where
  "wait_for_user n b = (set_phase n AwaitUser b)\<lparr>overlayRef := Some n\<rparr>"

section \<open>Handlers\<close>

text \<open>The \<open>then\<close> of \<open>getActiveGatewayOrThrow\<close> on the answer of \<open>listGateways\<close>.\<close>

definition active_gateway :: "thrown + gateway list \<Rightarrow> thrown + gateway" where
  "active_gateway answer =
     (case answer of
        Inl e \<Rightarrow> Inl e
      | Inr gateways \<Rightarrow>
          if gateways = [] then Inl (ThrownMessage ''No available lightning gateways'')
          else Inr (the (nullish (find gw_active gateways) (first_of gateways))))"

definition empty_args :: request_args where
  "empty_args = \<lparr>ra_amount = None, ra_defaultAmount = None, ra_minimumAmount = None,
     ra_maximumAmount = None, ra_defaultMemo = None\<rparr>"

definition amount_only :: "string \<Rightarrow> request_args" where
  "amount_only s = empty_args\<lparr>ra_amount := Some s\<rparr>"

text \<open>What opens the overlay for an invoice; the data of a request that has none leaves it hidden.\<close>

definition invoice_args :: "mod_data \<Rightarrow> request_args option" where
  "invoice_args d =
     (case d of
        NoData \<Rightarrow> None
      | ArgsData a \<Rightarrow> Some a
      | TextData s \<Rightarrow> Some (amount_only s)
      | _ \<Rightarrow> Some empty_args)"

text \<open>What a handler that awaited the gateway does when the promise is settled.\<close>

definition after_gateway ::
  "(string \<Rightarrow> string list \<Rightarrow> string) \<Rightarrow> thrown + gateway \<Rightarrow> nat \<Rightarrow> browser_env \<Rightarrow> mod_browser \<Rightarrow> mod_browser" where
  "after_gateway t answer n env b =
     (let rq = fst (handlers b ! n)
      in if rq_type rq = webln_getInfo
         then (case answer of
                 Inl e \<Rightarrow> settle n (Inl (ThrownMessage (t ''errors.no-lightning-gateways'' []))) b
               | Inr g \<Rightarrow>
                   settle n (Inr (NodeInfo (case env_member env of None \<Rightarrow> [] | Some (i, name) \<Rightarrow> name) (gw_nodePubKey g))) b)
         else case answer of
                Inl e \<Rightarrow> settle n (Inl e) b
              | Inr g \<Rightarrow>
                  if rq_type rq = webln_makeInvoice
                  then (wait_for_user n b)\<lparr>requestInvoiceArgs := invoice_args (rq_data rq)\<rparr>
                  else set_phase n (AwaitDecode (the (env_paymentFederation env))) b)"

text \<open>\<open>await getActiveGatewayOrThrow()\<close>: the first call asks for the gateways, later ones share its promise.\<close>

definition await_gateway ::
  "(string \<Rightarrow> string list \<Rightarrow> string) \<Rightarrow> nat \<Rightarrow> browser_env \<Rightarrow> mod_browser \<Rightarrow> mod_browser" where
  "await_gateway t n env b =
     (case gatewayPromise b of
        None \<Rightarrow> (set_phase n (AwaitGateway env) b)\<lparr>gatewayPromise := Some None, listGateways_calls := listGateways_calls b + 1\<rparr>
      | Some None \<Rightarrow> set_phase n (AwaitGateway env) b
      | Some (Some answer) \<Rightarrow> after_gateway t answer n env b)"

text \<open>The gateways are there: the handlers that wait go on in the order they started.\<close>

definition gateways_listed ::
  "(string \<Rightarrow> string list \<Rightarrow> string) \<Rightarrow> thrown + gateway list \<Rightarrow> mod_browser \<Rightarrow> mod_browser" where
  "gateways_listed t answer b =
     (if gatewayPromise b = Some None
      then foldl (\<lambda>b n. case snd (handlers b ! n) of
                          AwaitGateway env \<Rightarrow> after_gateway t (active_gateway answer) n env b
                        | _ \<Rightarrow> b)
             (b\<lparr>gatewayPromise := Some (Some (active_gateway answer))\<rparr>) [0..<length (handlers b)]
      else b)"

text \<open>
  The handlers, one per type, for a request that becomes the \<open>n\<close>-th. \<open>t\<close> is the translation.
\<close>

definition run_handler ::
  "(string \<Rightarrow> string list \<Rightarrow> string) \<Rightarrow> browser_env \<Rightarrow> nat \<Rightarrow> mod_data injection_request \<Rightarrow> mod_browser \<Rightarrow> mod_browser"
where
  "run_handler t env n rq b =
     (let throw = (\<lambda>m b. settle n (Inl (ThrownMessage m)) b)
      in case rq_type rq of
           webln_enable \<Rightarrow> settle n (Inr NoResponse) b
         | webln_getInfo \<Rightarrow> await_gateway t n env b
         | webln_makeInvoice \<Rightarrow>
             if env_recoveryInProgress env
             then throw (t ''errors.unknown-error'' []) (b\<lparr>showRecoveryInProgress := True\<rparr>)
             else await_gateway t n env b
         | webln_sendPayment \<Rightarrow>
             if env_recoveryInProgress env
             then throw (t ''errors.unknown-error'' []) (b\<lparr>showRecoveryInProgress := True\<rparr>)
             else if env_paymentFederation env = None then throw ''No active federation'' b
             else await_gateway t n env b
         | webln_signMessage \<Rightarrow> throw (t ''errors.webln-method-not-supported'' [''signMessage'']) b
         | webln_verifyMessage \<Rightarrow> throw (t ''errors.webln-method-not-supported'' [''verifyMessage'']) b
         | webln_keysend \<Rightarrow> throw (t ''errors.webln-method-not-supported'' [''keysend'']) b
         | nostr_getPublicKey \<Rightarrow>
             (case env_nostrPublic env of
                None \<Rightarrow> throw (t ''errors.get-nostr-pubkey-failed'' []) b
              | Some hex \<Rightarrow> settle n (Inr (TextResponse hex)) b)
         | nostr_signEvent \<Rightarrow>
             (wait_for_user n b)\<lparr>nostrUnsignedEvent := (case rq_data rq of EventData e \<Rightarrow> Some e | _ \<Rightarrow> None)\<rparr>
         | fedi_generateEcash \<Rightarrow>
             (wait_for_user n b)\<lparr>ecashRequest := (case rq_data rq of ArgsData a \<Rightarrow> Some a | _ \<Rightarrow> None)\<rparr>
         | fedi_receiveEcash \<Rightarrow>
             if env_activeFederation env = None then throw ''No active federation'' b
             else set_phase n AwaitReceive b
         | fedi_getAuthenticatedMember \<Rightarrow>
             (case env_member env of
                None \<Rightarrow> throw ''No authenticated member'' b
              | Some (i, name) \<Rightarrow>
                  settle n (Inr (MemberInfo i (if env_hasSetDisplayName env then name else ''member''))) b)
         | fedi_getActiveFederation \<Rightarrow>
             (case env_activeFederation env of
                None \<Rightarrow> throw ''No active federation'' b
              | Some f \<Rightarrow>
                  settle n (Inr (FederationInfo (fed_id f) (fed_name f)
                    (if fed_hasWallet f then fed_network f else None))) b)
         | fedi_getCurrencyCode \<Rightarrow> settle n (Inr (TextResponse (env_currency env))) b
         | fedi_getLanguageCode \<Rightarrow>
             settle n (Inr (TextResponse (the (nullish (env_language env) (Some ''en''))))) b)"

definition onMessage ::
  "(string \<Rightarrow> string list \<Rightarrow> string) \<Rightarrow> browser_env \<Rightarrow> mod_data injection_request \<Rightarrow> mod_browser \<Rightarrow> mod_browser" where
  "onMessage t env rq b =
     run_handler t env (length (handlers b)) rq (b\<lparr>handlers := handlers b @ [(rq, AwaitUser)]\<rparr>)"

text \<open>
  \<open>decodeInvoice\<close> answers \<open>webln.sendPayment\<close>: the balance is that of the federation when the handler started.
\<close>

definition invoice_decoded ::
  "(string \<Rightarrow> string list \<Rightarrow> string) \<Rightarrow> nat \<Rightarrow> js_error + invoice \<Rightarrow> mod_browser \<Rightarrow> mod_browser" where
  "invoice_decoded t n answer b =
     (case snd (handlers b ! n) of
        AwaitDecode federation \<Rightarrow>
          (case answer of
             Inl e \<Rightarrow> settle n (Inl (ThrownMessage (t ''phrases.failed-to-decode-invoice'' []))) b
           | Inr invoice \<Rightarrow>
               if fed_balance federation = 0 \<or> js_lt (FinI (fed_balance federation)) (inv_amount invoice)
               then settle n (Inl (ThrownMessage (t ''errors.insufficient-balance''
                      [int_digits (fed_balance federation div 1000) @ '' SATS'']))) b
               else (wait_for_user n b)\<lparr>invoiceToPay := Some invoice\<rparr>)
      | _ \<Rightarrow> b)"

definition ecash_received ::
  "(string \<Rightarrow> string list \<Rightarrow> string) \<Rightarrow> nat \<Rightarrow> js_error + int \<Rightarrow> mod_browser \<Rightarrow> mod_browser" where
  "ecash_received t n answer b =
     (case snd (handlers b ! n) of
        AwaitReceive \<Rightarrow>
          (case answer of
             Inl e \<Rightarrow> settle n (Inl (ThrownMessage (t ''errors.receive-ecash-failed'' []))) b
           | Inr msats \<Rightarrow> settle n (Inr (ReceivedMsats msats)) b)
      | _ \<Rightarrow> b)"

section \<open>Overlays\<close>

text \<open>The two callbacks every overlay is given; nothing settles when no value is passed.\<close>

definition onReject :: "string \<Rightarrow> mod_browser \<Rightarrow> mod_browser" where
  "onReject message b =
     resetOverlay (case overlayRef b of None \<Rightarrow> b | Some n \<Rightarrow> settle n (Inl (ThrownMessage message)) b)"

definition onAccept :: "mod_response option \<Rightarrow> mod_browser \<Rightarrow> mod_browser" where
  "onAccept res b =
     resetOverlay
       (case res of
          None \<Rightarrow> b
        | Some r \<Rightarrow> (case overlayRef b of None \<Rightarrow> b | Some n \<Rightarrow> settle n (Inr r) b))"

text \<open>
  The user confirms an overlay that is shown (with an amount within its bounds): its \<open>handleAccept\<close> calls the
  bridge. The buttons are disabled while \<open>isLoading\<close> is set, the backdrop is not. Three overlays clear the flag
  when the call has ended, the two others when they are shown the next time.
\<close>

definition confirm :: "mod_overlay \<Rightarrow> mod_browser \<Rightarrow> mod_browser" where
  "confirm ov b =
     (if overlay_shown ov b \<and> ov \<notin> set (loading b)
      then b\<lparr>confirming := confirming b @ [ov], loading := loading b @ [ov]\<rparr> else b)"

definition confirmation_ended :: "mod_overlay \<Rightarrow> mod_browser \<Rightarrow> mod_browser" where
  "confirmation_ended ov b =
     b\<lparr>confirming := remove1 ov (confirming b),
       loading := (if ov \<in> {PaymentOverlay, AuthOverlay, NostrOverlay} then removeAll ov (loading b) else loading b)\<rparr>"

definition form_shown :: "mod_browser \<Rightarrow> mod_browser \<Rightarrow> mod_browser" where
  "form_shown old b =
     b\<lparr>loading := filter (\<lambda>ov. \<not> (ov \<in> {InvoiceOverlay, EcashOverlay} \<and> overlay_shown ov b \<and> \<not> overlay_shown ov old))
                    (loading b)\<rparr>"

text \<open>What \<open>handleAccept\<close> passes on: the invoice made, the preimage, nothing, the event signed, the text of the ecash.\<close>

datatype overlay_result =
    InvoiceMade string | Paid string | LoggedIn | Signed signed_event | EcashMade string

fun result_overlay :: "overlay_result \<Rightarrow> mod_overlay" where
  "result_overlay (InvoiceMade p) = InvoiceOverlay"
| "result_overlay (Paid p) = PaymentOverlay"
| "result_overlay LoggedIn = AuthOverlay"
| "result_overlay (Signed e) = NostrOverlay"
| "result_overlay (EcashMade n) = EcashOverlay"

fun result_response :: "overlay_result \<Rightarrow> mod_response option" where
  "result_response (InvoiceMade p) = Some (PaymentRequest p)"
| "result_response (Paid p) = Some (Preimage p)"
| "result_response LoggedIn = None"
| "result_response (Signed e) = Some (SignedEvent e)"
| "result_response (EcashMade n) = (if n = [] then None else Some (TextResponse n))"

definition confirmed :: "overlay_result \<Rightarrow> mod_browser \<Rightarrow> mod_browser" where
  "confirmed res b =
     (if result_overlay res \<in> set (confirming b)
      then confirmation_ended (result_overlay res) (onAccept (result_response res) b)
      else b)"

text \<open>A call of the bridge that fails rejects the request, but for the two overlays that only show a toast.\<close>

definition confirm_failed :: "mod_overlay \<Rightarrow> string \<Rightarrow> mod_browser \<Rightarrow> mod_browser" where
  "confirm_failed ov message b =
     (if ov \<in> set (confirming b)
      then confirmation_ended ov (if ov \<in> {AuthOverlay, NostrOverlay} then b else onReject message b)
      else b)"

text \<open>A press of the reject button (when it is not disabled) or of the backdrop, and the recovery overlay.\<close>

definition reject_message :: "(string \<Rightarrow> string list \<Rightarrow> string) \<Rightarrow> mod_overlay \<Rightarrow> bool \<Rightarrow> string" where
  "reject_message t ov backdrop =
     (if backdrop then t ''errors.webln-canceled'' []
      else case ov of
             PaymentOverlay \<Rightarrow> t ''errors.webln-payment-rejected'' []
           | InvoiceOverlay \<Rightarrow> t ''errors.webln-payment-request-rejected'' []
           | EcashOverlay \<Rightarrow> t ''errors.webln-payment-request-rejected'' []
           | _ \<Rightarrow> ''words.rejected'')"

definition reject_overlay ::
  "(string \<Rightarrow> string list \<Rightarrow> string) \<Rightarrow> mod_overlay \<Rightarrow> bool \<Rightarrow> mod_browser \<Rightarrow> mod_browser" where
  "reject_overlay t ov backdrop b =
     (if overlay_shown ov b \<and> (backdrop \<or> ov \<notin> set (loading b))
      then onReject (reject_message t ov backdrop) b else b)"

definition dismiss_recovery :: "mod_browser \<Rightarrow> mod_browser" where
  "dismiss_recovery b = (if showRecoveryInProgress b then onAccept None b else b)"

section \<open>Links\<close>

definition HANDLED_URI_SCHEMES :: "string list" where
  "HANDLED_URI_SCHEMES = [''fedi'', ''bitcoin'', ''lightning'', ''lnurl'', ''lnurlp'', ''lnurlw'', ''keyauth'']"

text \<open>Whether the web view may load an address itself; else it is parsed.\<close>

definition onShouldStartLoadWithRequest :: "string \<Rightarrow> bool" where
  "onShouldStartLoadWithRequest url =
     (\<not> list_ex (\<lambda>scheme. js_starts_with (js_lower url) (scheme @ '':'')) HANDLED_URI_SCHEMES)"

definition handleParsedLink :: "bool \<Rightarrow> parsed \<Rightarrow> mod_browser \<Rightarrow> mod_browser \<times> bool" where
  "handleParsedLink recoveryInProgress link b =
     (case link of
        LnurlWithdraw _ _ _ _ _ _ \<Rightarrow>
          (if recoveryInProgress then b\<lparr>showRecoveryInProgress := True\<rparr> else b\<lparr>lnurlWithdrawal := Some link\<rparr>, True)
      | Bolt11 invoice _ \<Rightarrow>
          (if recoveryInProgress then b\<lparr>showRecoveryInProgress := True\<rparr> else b\<lparr>invoiceToPay := Some invoice\<rparr>, True)
      | LnurlPay _ _ _ _ \<Rightarrow>
          (if recoveryInProgress then b\<lparr>showRecoveryInProgress := True\<rparr> else b\<lparr>lnurlPayment := Some link\<rparr>, True)
      | LnurlAuth _ _ _ \<Rightarrow> (b\<lparr>lnurlAuthRequest := Some link\<rparr>, True)
      | _ \<Rightarrow> (b, False))"

text \<open>Where a link goes that the browser does not handle itself.\<close>

datatype link_target = HandledHere | SetParsedLink parsed | OpenURL string

definition link_parsed :: "bool \<Rightarrow> string \<Rightarrow> parsed \<Rightarrow> mod_browser \<Rightarrow> mod_browser \<times> link_target" where
  "link_parsed recoveryInProgress url link b =
     (let (b, handled) = handleParsedLink recoveryInProgress link b
      in (b, if handled then HandledHere
             else case link of UnknownData _ \<Rightarrow> OpenURL url | _ \<Rightarrow> SetParsedLink link))"

section \<open>Runs\<close>

datatype browser_event =
    Message browser_env "mod_data injection_request"
  | GatewaysListed "thrown + gateway list"
  | InvoiceDecoded nat "js_error + invoice"
  | EcashReceived nat "js_error + int"
  | Confirm mod_overlay
  | Confirmed overlay_result
  | ConfirmFailed mod_overlay string
  | RejectOverlay mod_overlay bool
  | DismissRecovery
  | LinkParsed bool string parsed

fun handle_event :: "(string \<Rightarrow> string list \<Rightarrow> string) \<Rightarrow> browser_event \<Rightarrow> mod_browser \<Rightarrow> mod_browser" where
  "handle_event t (Message env rq) b = onMessage t env rq b"
| "handle_event t (GatewaysListed answer) b = gateways_listed t answer b"
| "handle_event t (InvoiceDecoded n answer) b = (if n < length (handlers b) then invoice_decoded t n answer b else b)"
| "handle_event t (EcashReceived n answer) b = (if n < length (handlers b) then ecash_received t n answer b else b)"
| "handle_event t (Confirm ov) b = confirm ov b"
| "handle_event t (Confirmed res) b = confirmed res b"
| "handle_event t (ConfirmFailed ov message) b = confirm_failed ov message b"
| "handle_event t (RejectOverlay ov backdrop) b = reject_overlay t ov backdrop b"
| "handle_event t DismissRecovery b = dismiss_recovery b"
| "handle_event t (LinkParsed recoveryInProgress url link) b = fst (link_parsed recoveryInProgress url link b)"

definition browser_step :: "(string \<Rightarrow> string list \<Rightarrow> string) \<Rightarrow> browser_event \<Rightarrow> mod_browser \<Rightarrow> mod_browser" where
  "browser_step t e b = form_shown b (handle_event t e b)"

section \<open>Requests that are overtaken\<close>

text \<open>The \<open>n\<close>-th handler waits for the user, but its functions are not the ones stored.\<close>

definition overtaken :: "nat \<Rightarrow> mod_browser \<Rightarrow> bool" where
  "overtaken n b = (n < length (handlers b) \<and> snd (handlers b ! n) = AwaitUser \<and> overlayRef b \<noteq> Some n)"

lemma overtaken_updates [simp]:
  "overtaken n (b\<lparr>requestInvoiceArgs := a\<rparr>) = overtaken n b"
  "overtaken n (b\<lparr>lnurlWithdrawal := l\<rparr>) = overtaken n b"
  "overtaken n (b\<lparr>invoiceToPay := i\<rparr>) = overtaken n b"
  "overtaken n (b\<lparr>lnurlPayment := l\<rparr>) = overtaken n b"
  "overtaken n (b\<lparr>lnurlAuthRequest := l\<rparr>) = overtaken n b"
  "overtaken n (b\<lparr>nostrUnsignedEvent := e\<rparr>) = overtaken n b"
  "overtaken n (b\<lparr>ecashRequest := a\<rparr>) = overtaken n b"
  "overtaken n (b\<lparr>showRecoveryInProgress := r\<rparr>) = overtaken n b"
  "overtaken n (b\<lparr>gatewayPromise := g, listGateways_calls := k\<rparr>) = overtaken n b"
  "overtaken n (b\<lparr>gatewayPromise := g\<rparr>) = overtaken n b"
  "overtaken n (b\<lparr>confirming := c, loading := ovs\<rparr>) = overtaken n b"
  "overtaken n (b\<lparr>loading := ovs\<rparr>) = overtaken n b"
  "overtaken n (b\<lparr>confirming := c\<rparr>) = overtaken n b"
  "overtaken n (resetOverlay b) = overtaken n b"
  by (simp_all add: overtaken_def resetOverlay_def)

lemma overtaken_settle: "overtaken n b \<Longrightarrow> m \<noteq> n \<Longrightarrow> overtaken n (settle m out b)"
  by (auto simp: overtaken_def settle_def split: prod.split handler_phase.split)

lemma overtaken_set_phase: "overtaken n b \<Longrightarrow> m \<noteq> n \<Longrightarrow> overtaken n (set_phase m ph b)"
  by (simp add: overtaken_def set_phase_def)

lemma overtaken_wait: "overtaken n b \<Longrightarrow> m \<noteq> n \<Longrightarrow> overtaken n (wait_for_user m b)"
  by (simp add: overtaken_def set_phase_def wait_for_user_def)

lemmas overtaken_intros = overtaken_settle overtaken_set_phase overtaken_wait

lemma overtaken_after_gateway: "overtaken n b \<Longrightarrow> m \<noteq> n \<Longrightarrow> overtaken n (after_gateway t answer m env b)"
  by (simp add: after_gateway_def Let_def overtaken_intros split: sum.split)

lemma overtaken_await_gateway: "overtaken n b \<Longrightarrow> m \<noteq> n \<Longrightarrow> overtaken n (await_gateway t m env b)"
  by (simp add: await_gateway_def overtaken_after_gateway overtaken_set_phase split: option.split)

lemma overtaken_run_handler: "overtaken n b \<Longrightarrow> m \<noteq> n \<Longrightarrow> overtaken n (run_handler t env m rq b)"
  by (cases "rq_type rq")
    (simp_all add: run_handler_def Let_def overtaken_intros overtaken_await_gateway split: option.split prod.split)

lemma overtaken_onMessage: "overtaken n b \<Longrightarrow> overtaken n (onMessage t env rq b)"
  unfolding onMessage_def by (intro overtaken_run_handler) (auto simp: overtaken_def nth_append)

lemma overtaken_gateways_listed: "overtaken n b \<Longrightarrow> overtaken n (gateways_listed t answer b)"
proof -
  have "overtaken n (foldl (\<lambda>b n. case snd (handlers b ! n) of
      AwaitGateway env \<Rightarrow> after_gateway t (active_gateway answer) n env b | _ \<Rightarrow> b) b ms)" if "overtaken n b" for b ms
    using that
  proof (induction ms arbitrary: b)
    case (Cons m ms)
    show ?case
    proof (cases "m = n")
      case True
      then have "snd (handlers b ! m) = AwaitUser" using Cons.prems by (simp add: overtaken_def)
      then show ?thesis using Cons by simp
    next
      case False
      then have "overtaken n (case snd (handlers b ! m) of
          AwaitGateway env \<Rightarrow> after_gateway t (active_gateway answer) m env b | _ \<Rightarrow> b)"
        using Cons.prems by (simp add: overtaken_after_gateway split: handler_phase.split)
      then show ?thesis using Cons.IH by simp
    qed
  qed simp
  then show "overtaken n b \<Longrightarrow> ?thesis" by (simp add: gateways_listed_def)
qed

lemma overtaken_invoice_decoded: "overtaken n b \<Longrightarrow> overtaken n (invoice_decoded t m answer b)"
  by (cases "m = n")
    (auto simp: invoice_decoded_def overtaken_intros split: handler_phase.split sum.split, auto simp: overtaken_def)

lemma overtaken_ecash_received: "overtaken n b \<Longrightarrow> overtaken n (ecash_received t m answer b)"
  by (cases "m = n")
    (auto simp: ecash_received_def overtaken_intros split: handler_phase.split sum.split, auto simp: overtaken_def)

lemma overtaken_callbacks:
  "overtaken n b \<Longrightarrow> overtaken n (onReject message b)"
  "overtaken n b \<Longrightarrow> overtaken n (onAccept res b)"
proof -
  have "m \<noteq> n" if "overtaken n b" "overlayRef b = Some m" for m using that by (auto simp: overtaken_def)
  then show "overtaken n b \<Longrightarrow> overtaken n (onReject message b)" "overtaken n b \<Longrightarrow> overtaken n (onAccept res b)"
    by (simp_all add: onReject_def onAccept_def overtaken_settle split: option.split)
qed

lemma overtaken_step:
  assumes "overtaken n b"
  shows "overtaken n (browser_step t e b)"
proof -
  have "overtaken n (handle_event t e b)"
    by (cases e) (use assms in \<open>auto simp: overtaken_onMessage overtaken_gateways_listed overtaken_invoice_decoded
      overtaken_ecash_received overtaken_callbacks confirm_def confirmed_def confirm_failed_def confirmation_ended_def
      reject_overlay_def dismiss_recovery_def link_parsed_def handleParsedLink_def split: parsed.split\<close>)
  then show ?thesis by (simp add: browser_step_def form_shown_def)
qed

text \<open>
  A request that waits for the user is overtaken as soon as another one starts to wait: both overlays are shown,
  and what the user does with either settles the second.
\<close>

definition sign_request :: "nat \<Rightarrow> nostr_event \<Rightarrow> mod_data injection_request" where
  "sign_request i ev = \<lparr>rq_id = i, rq_type = nostr_signEvent, rq_data = EventData ev\<rparr>"

definition ecash_request :: "nat \<Rightarrow> request_args \<Rightarrow> mod_data injection_request" where
  "ecash_request i args = \<lparr>rq_id = i, rq_type = fedi_generateEcash, rq_data = ArgsData args\<rparr>"

definition event_sample :: nostr_event where
  "event_sample = \<lparr>ev_created_at = 0, ev_kind = 1, ev_content = ''hi'', ev_tags = []\<rparr>"

definition args_sample :: request_args where
  "args_sample = amount_only ''100''"

definition browser_sample :: browser_env where
  "browser_sample = \<lparr>env_recoveryInProgress = False, env_member = None, env_hasSetDisplayName = False,
     env_activeFederation = Some (sample_federation ''a'' []),
     env_paymentFederation = Some ((sample_federation ''a'' [])\<lparr>fed_balance := 5000\<rparr>),
     env_nostrPublic = None, env_currency = ''USD'', env_language = None\<rparr>"

lemma two_requests:
  "fold (browser_step t) [Message env (ecash_request i args), Message env (sign_request j ev)] initial_browser =
   initial_browser\<lparr>handlers := [(ecash_request i args, AwaitUser), (sign_request j ev, AwaitUser)],
     overlayRef := Some 1, ecashRequest := Some args, nostrUnsignedEvent := Some ev\<rparr>"
  by (simp add: browser_step_def onMessage_def run_handler_def Let_def ecash_request_def sign_request_def
      initial_browser_def wait_for_user_def set_phase_def form_shown_def)

lemma ecash_answers_signature:
  assumes "notes \<noteq> []"
  shows "handlers (fold (browser_step t)
      [Message env (ecash_request i args), Message env (sign_request j ev), Confirm EcashOverlay, Confirmed (EcashMade notes)]
      initial_browser) =
    [(ecash_request i args, AwaitUser), (sign_request j ev, Settled (Inr (TextResponse notes)))]"
  using two_requests [of t env i args j ev] assms
  by (simp add: browser_step_def confirm_def confirmed_def onAccept_def settle_def resetOverlay_def initial_browser_def
      confirmation_ended_def form_shown_def)

text \<open>
  C10: A request whose overlay is opened while an earlier one still waits for the user takes over the callbacks:
  whatever happens from then on, in whatever order, the earlier request is never answered.
\<close>

theorem overtaken_request_never_settles:
  assumes "n < length (handlers b)" and "snd (handlers b ! n) = AwaitUser" and "overlayRef b \<noteq> Some n"
  shows "snd (handlers (fold (browser_step t) es b) ! n) = AwaitUser"
proof -
  have "overtaken n b \<Longrightarrow> overtaken n (fold (browser_step t) es b)"
    by (induction es arbitrary: b) (simp_all add: overtaken_step)
  then show ?thesis using assms by (simp add: overtaken_def)
qed

theorem overtaken_request_never_settles_witness:
  "\<forall>t es. snd (handlers (fold (browser_step t) es
     (fold (browser_step t) [Message browser_sample (ecash_request 0 args_sample), Message browser_sample (sign_request 0 event_sample)]
       initial_browser)) ! 0) = AwaitUser"
  by (intro allI, rule overtaken_request_never_settles) (unfold two_requests, simp_all add: initial_browser_def)

definition pay_request :: "nat \<Rightarrow> string \<Rightarrow> mod_data injection_request" where
  "pay_request i invoice = \<lparr>rq_id = i, rq_type = webln_sendPayment, rq_data = TextData invoice\<rparr>"

text \<open>
  C4: When the user closes the overlay of a payment that is already being made, the mod is told that the payment was
  cancelled although it goes through; and if the mod has asked for another payment by then, that second
  request is answered with the preimage of the first one without the user confirming it.
\<close>

theorem closed_payment_answers_next:
  assumes "env_paymentFederation env = Some f" and "\<not> env_recoveryInProgress env" and "gateways \<noteq> []"
    and "inv_amount first = FinI a" and "inv_amount second = FinI a'" and "0 < a" and "a \<le> fed_balance f" and "0 < a'" and "a' \<le> fed_balance f"
  shows "handlers (fold (browser_step t)
      [Message env (pay_request 0 (inv_invoice first)), GatewaysListed (Inr gateways), InvoiceDecoded 0 (Inr first),
       Confirm PaymentOverlay, RejectOverlay PaymentOverlay True,
       Message env (pay_request 1 (inv_invoice second)), InvoiceDecoded 1 (Inr second), Confirmed (Paid preimage)]
      initial_browser) =
    [(pay_request 0 (inv_invoice first), Settled (Inl (ThrownMessage (t ''errors.webln-canceled'' [])))),
     (pay_request 1 (inv_invoice second), Settled (Inr (Preimage preimage)))]"
  using assms
  by (simp add: browser_step_def onMessage_def run_handler_def Let_def pay_request_def initial_browser_def set_phase_def
      await_gateway_def gateways_listed_def after_gateway_def active_gateway_def form_shown_def invoice_decoded_def
      wait_for_user_def confirm_def reject_overlay_def reject_message_def onReject_def onAccept_def settle_def resetOverlay_def
      confirmed_def confirmation_ended_def)

theorem closed_payment_answers_next_witness:
  "map snd (handlers (fold (browser_step (\<lambda>k xs. k))
      [Message browser_sample (pay_request 0 ''lnbc1''), GatewaysListed (Inr [\<lparr>gw_nodePubKey = ''k'', gw_active = True\<rparr>]),
       InvoiceDecoded 0 (Inr \<lparr>inv_invoice = ''lnbc1'', inv_amount = FinI 1000, inv_description = []\<rparr>),
       Confirm PaymentOverlay, RejectOverlay PaymentOverlay True,
       Message browser_sample (pay_request 1 ''lnbc2''),
       InvoiceDecoded 1 (Inr \<lparr>inv_invoice = ''lnbc2'', inv_amount = FinI 2000, inv_description = []\<rparr>),
       Confirmed (Paid ''secret'')]
      initial_browser)) =
    [Settled (Inl (ThrownMessage ''errors.webln-canceled'')), Settled (Inr (Preimage ''secret''))]"
  using closed_payment_answers_next [of browser_sample "(sample_federation ''a'' [])\<lparr>fed_balance := 5000\<rparr>"
      "[\<lparr>gw_nodePubKey = ''k'', gw_active = True\<rparr>]" "\<lparr>inv_invoice = ''lnbc1'', inv_amount = FinI 1000, inv_description = []\<rparr>" 1000
      "\<lparr>inv_invoice = ''lnbc2'', inv_amount = FinI 2000, inv_description = []\<rparr>" 2000 "\<lambda>k xs. k" "''secret''"]
  by (simp add: browser_sample_def del: fold_Cons)

section \<open>Requests one at a time\<close>

text \<open>
  The discipline under which the shared callbacks are right: a request that needs the gateway or the user comes only when
  nothing waits for them, no overlay is shown and no confirmation runs, and no link opens an overlay while a
  request waits. Everything else is in any order.
\<close>

fun waits_for_user :: "handler_phase \<Rightarrow> bool" where
  "waits_for_user (AwaitGateway env) = True"
| "waits_for_user (AwaitDecode f) = True"
| "waits_for_user AwaitUser = True"
| "waits_for_user AwaitReceive = False"
| "waits_for_user (Settled out) = False"

definition none_waits :: "mod_browser \<Rightarrow> bool" where
  "none_waits b = list_all (\<lambda>(rq, ph). \<not> waits_for_user ph) (handlers b)"

definition all_overlays :: "mod_overlay list" where
  "all_overlays = [InvoiceOverlay, PaymentOverlay, AuthOverlay, NostrOverlay, EcashOverlay]"

definition quiet :: "mod_browser \<Rightarrow> bool" where
  "quiet b = (none_waits b \<and> list_all (\<lambda>ov. \<not> overlay_shown ov b) all_overlays \<and> confirming b = [])"

fun orderly_event :: "mod_browser \<Rightarrow> browser_event \<Rightarrow> bool" where
  "orderly_event b (Message env rq) =
     (rq_type rq \<in> {webln_getInfo, webln_makeInvoice, webln_sendPayment, nostr_signEvent, fedi_generateEcash} \<longrightarrow> quiet b)"
| "orderly_event b (LinkParsed r url link) = none_waits b"
| "orderly_event b e = True"

fun orderly_run :: "(string \<Rightarrow> string list \<Rightarrow> string) \<Rightarrow> mod_browser \<Rightarrow> browser_event list \<Rightarrow> bool" where
  "orderly_run t b [] = True"
| "orderly_run t b (e # es) = (orderly_event b e \<and> orderly_run t (browser_step t e b) es)"

text \<open>The answer a request gets: the one declared, but for \<open>generateEcash\<close>, which gets the text of the ecash.\<close>

fun is_text :: "mod_response \<Rightarrow> bool" where
  "is_text (TextResponse s) = True"
| "is_text r = False"

definition fits :: "injection_type \<Rightarrow> mod_response \<Rightarrow> bool" where
  "fits ty r = (declared_response ty r \<or> ty = fedi_generateEcash \<and> is_text r)"

fun overlay_for :: "injection_type \<Rightarrow> mod_overlay option" where
  "overlay_for webln_makeInvoice = Some InvoiceOverlay"
| "overlay_for webln_sendPayment = Some PaymentOverlay"
| "overlay_for nostr_signEvent = Some NostrOverlay"
| "overlay_for fedi_generateEcash = Some EcashOverlay"
| "overlay_for ty = None"

text \<open>
  What a phase says of the rest of the state: a request that waits for the user owns the callbacks, the overlay that is
  shown and the confirmation that runs; one that waits for the gateway or an invoice finds nothing shown.
\<close>

definition owns_overlay :: "mod_browser \<Rightarrow> injection_type \<Rightarrow> bool" where
  "owns_overlay b ty =
     (\<exists>ov. overlay_for ty = Some ov \<and> (\<forall>ov'. overlay_shown ov' b \<longrightarrow> ov' = ov) \<and> set (confirming b) \<subseteq> {ov})"

definition nothing_shown :: "mod_browser \<Rightarrow> bool" where
  "nothing_shown b = ((\<forall>ov. \<not> overlay_shown ov b) \<and> confirming b = [])"

fun phase_ok :: "mod_browser \<Rightarrow> nat \<Rightarrow> injection_type \<Rightarrow> handler_phase \<Rightarrow> bool" where
  "phase_ok b n ty (AwaitGateway env) = (nothing_shown b \<and> ty \<in> {webln_getInfo, webln_makeInvoice, webln_sendPayment})"
| "phase_ok b n ty (AwaitDecode f) = (nothing_shown b \<and> ty = webln_sendPayment)"
| "phase_ok b n ty AwaitUser = (overlayRef b = Some n \<and> owns_overlay b ty)"
| "phase_ok b n ty AwaitReceive = (overlayRef b \<noteq> Some n \<and> ty = fedi_receiveEcash)"
| "phase_ok b n ty (Settled out) = (\<forall>r. out = Inr r \<longrightarrow> fits ty r)"

abbreviation phase_at :: "mod_browser \<Rightarrow> nat \<Rightarrow> handler_phase" where
  "phase_at b n \<equiv> snd (handlers b ! n)"

abbreviation type_at :: "mod_browser \<Rightarrow> nat \<Rightarrow> injection_type" where
  "type_at b n \<equiv> rq_type (fst (handlers b ! n))"

definition orderly_ok :: "mod_browser \<Rightarrow> bool" where
  "orderly_ok b =
     ((\<forall>n < length (handlers b). phase_ok b n (type_at b n) (phase_at b n)) \<and>
      (\<forall>n < length (handlers b). \<forall>m < length (handlers b).
         waits_for_user (phase_at b n) \<and> waits_for_user (phase_at b m) \<longrightarrow> n = m) \<and>
      (\<forall>n. overlayRef b = Some n \<longrightarrow> n < length (handlers b)))"

text \<open>A phase that does not wait says nothing of overlays.\<close>

lemma phase_ok_settled_other:
  "\<not> waits_for_user ph \<Longrightarrow> phase_ok b n ty ph \<Longrightarrow> overlayRef b' = overlayRef b \<or> overlayRef b' \<noteq> Some n \<Longrightarrow> phase_ok b' n ty ph"
  by (cases ph) auto

lemma none_waits_iff: "none_waits b \<longleftrightarrow> (\<forall>n < length (handlers b). \<not> waits_for_user (phase_at b n))"
  by (simp add: none_waits_def list_all_length split_beta)

lemma orderly_none_waits:
  assumes "orderly_ok b" and "none_waits b" and "handlers b' = handlers b" and "overlayRef b' = overlayRef b"
  shows "orderly_ok b'"
  using assms unfolding orderly_ok_def none_waits_iff
  by (auto intro: phase_ok_settled_other)

text \<open>The callbacks.\<close>

lemma settle_other [simp]:
  "overlayRef (settle n out b) = overlayRef b" "confirming (settle n out b) = confirming b"
  "overlay_shown ov (settle n out b) = overlay_shown ov b" "length (handlers (settle n out b)) = length (handlers b)"
  "gatewayPromise (settle n out b) = gatewayPromise b" "listGateways_calls (settle n out b) = listGateways_calls b"
  by (cases ov; simp add: settle_def split: prod.split handler_phase.split)+

lemma settle_phase:
  "n < length (handlers b) \<Longrightarrow> phase_at (settle n out b) m =
     (if m = n then (case phase_at b n of Settled old \<Rightarrow> Settled old | _ \<Rightarrow> Settled out) else phase_at b m)"
  by (auto simp: settle_def split: prod.split handler_phase.split)

lemma settle_type: "type_at (settle n out b) m = type_at b m"
  by (cases "n < length (handlers b)"; cases "m = n") (auto simp: settle_def list_update_beyond not_less split: prod.split handler_phase.split)

lemma owns_settle [simp]: "owns_overlay (settle n out b) ty = owns_overlay b ty"
  by (simp add: owns_overlay_def)

lemma nothing_settle [simp]: "nothing_shown (settle n out b) = nothing_shown b"
  by (simp add: nothing_shown_def)

lemma phase_ok_settle [simp]: "phase_ok (settle n out b) m ty ph = phase_ok b m ty ph"
  by (cases ph) simp_all

lemma orderly_settle:
  assumes "orderly_ok b" and "n < length (handlers b)"
    and "\<And>r. out = Inr r \<Longrightarrow> \<forall>old. phase_at b n \<noteq> Settled old \<Longrightarrow> fits (type_at b n) r"
  shows "orderly_ok (settle n out b)"
  using assms unfolding orderly_ok_def
  by (auto simp: settle_phase settle_type split: handler_phase.split if_splits)

text \<open>Hiding overlays and ending confirmations.\<close>

lemma phase_ok_mono:
  assumes "phase_ok b n ty ph" and "\<And>ov. overlay_shown ov b' \<Longrightarrow> overlay_shown ov b"
    and "set (confirming b') \<subseteq> set (confirming b)" and "overlayRef b' = overlayRef b"
  shows "phase_ok b' n ty ph"
  using assms by (cases ph) (auto simp: owns_overlay_def nothing_shown_def)

lemma orderly_mono:
  assumes "orderly_ok b" and "\<And>ov. overlay_shown ov b' \<Longrightarrow> overlay_shown ov b"
    and "set (confirming b') \<subseteq> set (confirming b)" and "overlayRef b' = overlayRef b" and "handlers b' = handlers b"
  shows "orderly_ok b'"
  using assms unfolding orderly_ok_def by (auto intro: phase_ok_mono)

lemma shown_reset [simp]: "\<not> overlay_shown ov (resetOverlay b)"
  by (cases ov) (simp_all add: resetOverlay_def)

lemma reset_fields [simp]:
  "handlers (resetOverlay b) = handlers b" "overlayRef (resetOverlay b) = overlayRef b"
  "confirming (resetOverlay b) = confirming b" "gatewayPromise (resetOverlay b) = gatewayPromise b"
  "listGateways_calls (resetOverlay b) = listGateways_calls b"
  by (simp_all add: resetOverlay_def)

lemma orderly_reset: "orderly_ok b \<Longrightarrow> orderly_ok (resetOverlay b)"
  by (rule orderly_mono) simp_all

lemma orderly_onReject: "orderly_ok b \<Longrightarrow> orderly_ok (onReject message b)"
  by (auto simp: onReject_def orderly_ok_def [of b] intro!: orderly_reset orderly_settle split: option.split)

lemma shown_ended [simp]: "overlay_shown ov (confirmation_ended ov' b) = overlay_shown ov b"
  by (cases ov) (simp_all add: confirmation_ended_def)

lemma ended_fields [simp]:
  "handlers (confirmation_ended ov b) = handlers b" "overlayRef (confirmation_ended ov b) = overlayRef b"
  "confirming (confirmation_ended ov b) = remove1 ov (confirming b)"
  "gatewayPromise (confirmation_ended ov b) = gatewayPromise b"
  "listGateways_calls (confirmation_ended ov b) = listGateways_calls b"
  by (simp_all add: confirmation_ended_def)

lemma orderly_ended: "orderly_ok b \<Longrightarrow> orderly_ok (confirmation_ended ov b)"
  by (rule orderly_mono) (simp_all add: set_remove1_subset)

text \<open>Who confirms an overlay answers the request that opened it.\<close>

lemma confirmed_request:
  assumes "orderly_ok b" and "ov \<in> set (confirming b)" and "overlayRef b = Some n" and "\<forall>old. phase_at b n \<noteq> Settled old"
  shows "overlay_for (type_at b n) = Some ov"
proof -
  have "n < length (handlers b)" using assms(1,3) by (simp add: orderly_ok_def)
  then have "phase_ok b n (type_at b n) (phase_at b n)" using assms(1) by (simp add: orderly_ok_def)
  then show ?thesis using assms(2-4) by (cases "phase_at b n") (auto simp: owns_overlay_def nothing_shown_def)
qed

lemma result_fits: "overlay_for ty = Some (result_overlay res) \<Longrightarrow> result_response res = Some r \<Longrightarrow> fits ty r"
  by (cases ty; cases res) (auto simp: fits_def split: if_splits)

lemma orderly_onAccept:
  assumes "orderly_ok b" and "\<And>r n. res = Some r \<Longrightarrow> overlayRef b = Some n \<Longrightarrow>
      \<forall>old. phase_at b n \<noteq> Settled old \<Longrightarrow> fits (type_at b n) r"
  shows "orderly_ok (onAccept res b)"
proof -
  have "n < length (handlers b)" if "overlayRef b = Some n" for n using assms(1) that by (simp add: orderly_ok_def)
  then show ?thesis
    using assms by (auto simp: onAccept_def intro!: orderly_reset orderly_settle split: option.split)
qed

lemma orderly_closed: "orderly_ok b \<Longrightarrow> orderly_ok (onAccept None b)"
  by (rule orderly_onAccept) simp_all

lemma orderly_confirmed: "orderly_ok b \<Longrightarrow> orderly_ok (confirmed res b)"
  by (auto simp: confirmed_def intro!: orderly_ended orderly_onAccept result_fits confirmed_request)

lemma orderly_confirm: 
  assumes "orderly_ok b"
  shows "orderly_ok (confirm ov b)"
proof (cases "overlay_shown ov b \<and> ov \<notin> set (loading b)")
  case True
  have "phase_ok b n ty ph \<Longrightarrow> phase_ok (confirm ov b) n ty ph" for n ty ph
  proof -
    have sh: "overlay_shown ov' (confirm ov b) = overlay_shown ov' b" for ov'
      by (cases ov') (simp_all add: confirm_def)
    show "phase_ok b n ty ph \<Longrightarrow> ?thesis"
      using True by (cases ph) (auto simp: owns_overlay_def nothing_shown_def sh, auto simp: confirm_def)
  qed
  then show ?thesis using assms True by (auto simp: orderly_ok_def confirm_def)
next
  case False
  then show ?thesis using assms by (auto simp: confirm_def)
qed

text \<open>A handler that waited goes on: no other one waits.\<close>

lemma orderly_replace:
  assumes "orderly_ok b" and "n < length (handlers b)" and "waits_for_user (phase_at b n)"
    and "handlers b' = (handlers b)[n := (fst (handlers b ! n), ph)]"
    and "overlayRef b' = overlayRef b \<or> overlayRef b' = Some n" and "phase_ok b' n (type_at b n) ph"
  shows "orderly_ok b'"
  unfolding orderly_ok_def
proof (intro conjI allI impI)
  have other: "\<not> waits_for_user (phase_at b m)" if "m < length (handlers b)" "m \<noteq> n" for m
    using assms(1-3) that by (auto simp: orderly_ok_def)
  show "phase_ok b' m (type_at b' m) (phase_at b' m)" if "m < length (handlers b')" for m
  proof (cases "m = n")
    case False
    moreover have "m < length (handlers b)" using that assms(4) by simp
    moreover have "overlayRef b' = overlayRef b \<or> overlayRef b' \<noteq> Some m" using assms(5) False by auto
    ultimately show ?thesis
      using assms(1,4) other [of m] by (auto simp: orderly_ok_def intro: phase_ok_settled_other)
  qed (use assms(2,4,6) in simp)
  show "m = k" if "m < length (handlers b')" "k < length (handlers b')"
    "waits_for_user (phase_at b' m) \<and> waits_for_user (phase_at b' k)" for m k
    using that other [of m] other [of k] assms(4) by (cases "m = n"; cases "k = n") auto
  show "m < length (handlers b')" if "overlayRef b' = Some m" for m
    using that assms(1,2,4,5) by (auto simp: orderly_ok_def)
qed

lemma shown_wait [simp]: "overlay_shown ov (wait_for_user n b) = overlay_shown ov b"
  "overlay_shown ov (set_phase n ph b) = overlay_shown ov b"
  by (cases ov; simp add: wait_for_user_def set_phase_def)+

lemma wait_fields [simp]:
  "handlers (set_phase n ph b) = (handlers b)[n := (fst (handlers b ! n), ph)]"
  "handlers (wait_for_user n b) = (handlers b)[n := (fst (handlers b ! n), AwaitUser)]"
  "overlayRef (set_phase n ph b) = overlayRef b" "overlayRef (wait_for_user n b) = Some n"
  "confirming (set_phase n ph b) = confirming b" "confirming (wait_for_user n b) = confirming b"
  "gatewayPromise (set_phase n ph b) = gatewayPromise b" "gatewayPromise (wait_for_user n b) = gatewayPromise b"
  "listGateways_calls (set_phase n ph b) = listGateways_calls b"
  "listGateways_calls (wait_for_user n b) = listGateways_calls b"
  by (simp_all add: set_phase_def wait_for_user_def)

lemma nothing_set_phase [simp]: "nothing_shown (set_phase n ph b) = nothing_shown b"
  by (simp add: nothing_shown_def)

lemma opened_overlay:
  assumes "nothing_shown b"
  shows "owns_overlay ((wait_for_user n b)\<lparr>requestInvoiceArgs := a\<rparr>) webln_makeInvoice"
    "owns_overlay ((wait_for_user n b)\<lparr>invoiceToPay := i\<rparr>) webln_sendPayment"
    "owns_overlay ((wait_for_user n b)\<lparr>nostrUnsignedEvent := e\<rparr>) nostr_signEvent"
    "owns_overlay ((wait_for_user n b)\<lparr>ecashRequest := a\<rparr>) fedi_generateEcash"
proof -
  have none: "\<not> overlay_shown ov b" "confirming b = []" for ov
    using assms by (simp_all add: nothing_shown_def)
  have "ov = InvoiceOverlay" if "overlay_shown ov ((wait_for_user n b)\<lparr>requestInvoiceArgs := a\<rparr>)" for ov
    using that none(1) [of ov] by (cases ov) (auto simp: wait_for_user_def set_phase_def)
  moreover have "ov = PaymentOverlay" if "overlay_shown ov ((wait_for_user n b)\<lparr>invoiceToPay := i\<rparr>)" for ov
    using that none(1) [of ov] by (cases ov) (auto simp: wait_for_user_def set_phase_def)
  moreover have "ov = NostrOverlay" if "overlay_shown ov ((wait_for_user n b)\<lparr>nostrUnsignedEvent := e\<rparr>)" for ov
    using that none(1) [of ov] by (cases ov) (auto simp: wait_for_user_def set_phase_def)
  moreover have "ov = EcashOverlay" if "overlay_shown ov ((wait_for_user n b)\<lparr>ecashRequest := a\<rparr>)" for ov
    using that none(1) [of ov] by (cases ov) (auto simp: wait_for_user_def set_phase_def)
  ultimately show "owns_overlay ((wait_for_user n b)\<lparr>requestInvoiceArgs := a\<rparr>) webln_makeInvoice"
    "owns_overlay ((wait_for_user n b)\<lparr>invoiceToPay := i\<rparr>) webln_sendPayment"
    "owns_overlay ((wait_for_user n b)\<lparr>nostrUnsignedEvent := e\<rparr>) nostr_signEvent"
    "owns_overlay ((wait_for_user n b)\<lparr>ecashRequest := a\<rparr>) fedi_generateEcash"
    using none(2) by (simp_all add: owns_overlay_def)
qed

lemma orderly_after_gateway:
  assumes "orderly_ok b" and "n < length (handlers b)" and "phase_at b n = AwaitGateway env0"
  shows "orderly_ok (after_gateway t answer n env b)"
proof -
  have ph: "nothing_shown b" "type_at b n \<in> {webln_getInfo, webln_makeInvoice, webln_sendPayment}"
    using assms by (auto simp: orderly_ok_def dest: spec [of _ n])
  have settle: "orderly_ok (settle n out b)" if "\<And>r. out = Inr r \<Longrightarrow> fits (type_at b n) r" for out
    using assms(1,2) that by (intro orderly_settle) auto
  have decode: "orderly_ok (set_phase n (AwaitDecode f) b)" if "type_at b n = webln_sendPayment" for f
    by (rule orderly_replace [OF assms(1,2), where ph = "AwaitDecode f"]) (use assms(3) ph that in simp_all)
  have invoice: "orderly_ok ((wait_for_user n b)\<lparr>requestInvoiceArgs := a\<rparr>)" if "type_at b n = webln_makeInvoice" for a
    by (rule orderly_replace [OF assms(1,2), where ph = AwaitUser]) (use assms(3) that opened_overlay(1) [OF ph(1)] in simp_all)
  have info: "orderly_ok (settle n (Inr (NodeInfo a k)) b)" if "type_at b n = webln_getInfo" for a k
    by (rule settle) (use that in \<open>simp add: fits_def\<close>)
  have failed: "orderly_ok (settle n (Inl e) b)" for e
    by (rule settle) simp
  show ?thesis
    using ph(2) info failed decode invoice by (auto simp: after_gateway_def Let_def split: sum.split)
qed

lemma orderly_fields:
  assumes "orderly_ok b"
  shows "orderly_ok (b\<lparr>gatewayPromise := g\<rparr>)" "orderly_ok (b\<lparr>gatewayPromise := g, listGateways_calls := k\<rparr>)"
    "orderly_ok (b\<lparr>showRecoveryInProgress := r\<rparr>)" "orderly_ok (b\<lparr>loading := ovs\<rparr>)"
proof -
  have sh: "overlay_shown ov (b\<lparr>gatewayPromise := g\<rparr>) = overlay_shown ov b"
    "overlay_shown ov (b\<lparr>gatewayPromise := g, listGateways_calls := k\<rparr>) = overlay_shown ov b"
    "overlay_shown ov (b\<lparr>showRecoveryInProgress := r\<rparr>) = overlay_shown ov b"
    "overlay_shown ov (b\<lparr>loading := ovs\<rparr>) = overlay_shown ov b" for ov
    by (cases ov; simp)+
  show "orderly_ok (b\<lparr>gatewayPromise := g\<rparr>)" "orderly_ok (b\<lparr>gatewayPromise := g, listGateways_calls := k\<rparr>)"
    "orderly_ok (b\<lparr>showRecoveryInProgress := r\<rparr>)" "orderly_ok (b\<lparr>loading := ovs\<rparr>)"
    by (rule orderly_mono [OF assms]; simp add: sh)+
qed

lemma orderly_gateways_listed:
  assumes "orderly_ok b"
  shows "orderly_ok (gateways_listed t answer b)"
proof -
  have len: "length (handlers (after_gateway t a n env b)) = length (handlers b)" for a n env b
    by (simp add: after_gateway_def Let_def split: sum.split)
  have "orderly_ok (foldl (\<lambda>b n. case phase_at b n of
      AwaitGateway env \<Rightarrow> after_gateway t (active_gateway answer) n env b | _ \<Rightarrow> b) b ms)"
    if "orderly_ok b" "\<forall>m\<in>set ms. m < length (handlers b)" for b ms
    using that
  proof (induction ms arbitrary: b)
    case (Cons m ms)
    then show ?case by (cases "phase_at b m") (simp_all add: len orderly_after_gateway)
  qed simp
  then show ?thesis using assms orderly_fields(1) [OF assms] by (simp add: gateways_listed_def)
qed

lemma orderly_invoice_decoded:
  assumes "orderly_ok b" and "n < length (handlers b)"
  shows "orderly_ok (invoice_decoded t n answer b)"
proof (cases "phase_at b n")
  case (AwaitDecode f)
  then have ph: "nothing_shown b" "type_at b n = webln_sendPayment"
    using assms by (auto simp: orderly_ok_def dest: spec [of _ n])
  have "orderly_ok ((wait_for_user n b)\<lparr>invoiceToPay := i\<rparr>)" for i
    by (rule orderly_replace [OF assms, where ph = AwaitUser]) (use AwaitDecode ph opened_overlay(2) [OF ph(1)] in simp_all)
  then show ?thesis using AwaitDecode assms by (auto simp: invoice_decoded_def intro!: orderly_settle split: sum.split)
qed (use assms in \<open>simp_all add: invoice_decoded_def\<close>)

lemma orderly_ecash_received:
  assumes "orderly_ok b" and "n < length (handlers b)"
  shows "orderly_ok (ecash_received t n answer b)"
proof (cases "phase_at b n")
  case AwaitReceive
  then have "type_at b n = fedi_receiveEcash" using assms by (auto simp: orderly_ok_def dest: spec [of _ n])
  then show ?thesis
    using AwaitReceive assms by (auto simp: ecash_received_def fits_def intro!: orderly_settle split: sum.split)
qed (use assms in \<open>simp_all add: ecash_received_def\<close>)

text \<open>A request that arrives.\<close>

lemma orderly_append:
  assumes "orderly_ok b" and "handlers b' = handlers b @ [(rq, ph)]"
    and "overlayRef b' = overlayRef b \<or> overlayRef b' = Some (length (handlers b))"
    and "none_waits b \<or> (\<not> waits_for_user ph \<and> overlayRef b' = overlayRef b \<and> confirming b' = confirming b \<and>
           (\<forall>ov. overlay_shown ov b' = overlay_shown ov b))"
    and "phase_ok b' (length (handlers b)) (rq_type rq) ph"
  shows "orderly_ok b'"
  unfolding orderly_ok_def
proof (intro conjI allI impI)
  show "phase_ok b' m (type_at b' m) (phase_at b' m)" if "m < length (handlers b')" for m
  proof (cases "m = length (handlers b)")
    case False
    then have m: "m < length (handlers b)" "phase_ok b m (type_at b m) (phase_at b m)"
      "overlayRef b' = overlayRef b \<or> overlayRef b' \<noteq> Some m"
      using that assms(1,2,3) by (auto simp: orderly_ok_def)
    from assms(4) have "phase_ok b' m (type_at b m) (phase_at b m)"
    proof
      assume "none_waits b"
      then show ?thesis using m by (auto simp: none_waits_iff intro: phase_ok_settled_other)
    qed (use m in \<open>auto intro: phase_ok_mono\<close>)
    then show ?thesis using m(1) assms(2) by (simp add: nth_append)
  qed (use assms(2,5) in simp)
  show "m = k" if "m < length (handlers b')" "k < length (handlers b')"
    "waits_for_user (phase_at b' m) \<and> waits_for_user (phase_at b' k)" for m k
    using that assms(1,2,4) by (auto simp: nth_append none_waits_iff orderly_ok_def split: if_splits)
  show "m < length (handlers b')" if "overlayRef b' = Some m" for m
    using that assms(1,2,3) by (auto simp: orderly_ok_def intro: less_SucI)
qed

text \<open>A request that is answered at once, and the other ones.\<close>

lemma settle_new:
  "settle (length (handlers b)) out (b\<lparr>handlers := handlers b @ [(rq, AwaitUser)]\<rparr>) =
   b\<lparr>handlers := handlers b @ [(rq, Settled out)]\<rparr>"
  by (simp add: settle_def)

lemma shown_handlers [simp]:
  "overlay_shown ov (b\<lparr>handlers := hs\<rparr>) = overlay_shown ov b"
  "overlay_shown ov (b\<lparr>showRecoveryInProgress := r\<rparr>) = overlay_shown ov b"
  "overlay_shown ov (b\<lparr>showRecoveryInProgress := r, handlers := hs\<rparr>) = overlay_shown ov b"
  "overlay_shown ov (b\<lparr>handlers := hs, showRecoveryInProgress := r\<rparr>) = overlay_shown ov b"
  "overlay_shown ov (b\<lparr>gatewayPromise := g, listGateways_calls := k\<rparr>) = overlay_shown ov b"
  by (cases ov; simp)+

lemma orderly_answer:
  assumes "orderly_ok b" and "\<And>r. out = Inr r \<Longrightarrow> fits (rq_type rq) r"
  shows "orderly_ok (b\<lparr>handlers := handlers b @ [(rq, Settled out)]\<rparr>)"
  by (rule orderly_append [OF assms(1), where rq = rq and ph = "Settled out"]) (use assms(2) in simp_all)

lemma quietD: "quiet b \<Longrightarrow> none_waits b" "quiet b \<Longrightarrow> nothing_shown b"
proof -
  assume q: "quiet b"
  then show "none_waits b" by (simp add: quiet_def)
  have "\<not> overlay_shown ov b" for ov using q by (cases ov) (simp_all add: quiet_def all_overlays_def)
  then show "nothing_shown b" using q by (simp add: quiet_def nothing_shown_def)
qed

lemma orderly_wait:
  assumes "orderly_ok b" and "none_waits b" and "handlers b' = handlers b @ [(rq, ph)]"
    and "overlayRef b' = overlayRef b \<or> overlayRef b' = Some (length (handlers b))"
    and "phase_ok b' (length (handlers b)) (rq_type rq) ph"
  shows "orderly_ok b'"
  using orderly_append [OF assms(1,3,4) _ assms(5)] assms(2) by blast

lemma after_gateway_new:
  "after_gateway t answer (length (handlers b)) env (b\<lparr>handlers := handlers b @ [(rq, AwaitUser)]\<rparr>) =
   after_gateway t answer (length (handlers b)) env (b\<lparr>handlers := handlers b @ [(rq, AwaitGateway env)]\<rparr>)"
  by (simp add: after_gateway_def Let_def settle_def set_phase_def wait_for_user_def split: sum.split)

lemma orderly_await:
  assumes "orderly_ok b" and "quiet b" and "rq_type rq \<in> {webln_getInfo, webln_makeInvoice, webln_sendPayment}"
  shows "orderly_ok (await_gateway t (length (handlers b)) env (b\<lparr>handlers := handlers b @ [(rq, AwaitUser)]\<rparr>))"
proof -
  note q = quietD [OF assms(2)]
  have asked: "orderly_ok (b\<lparr>handlers := handlers b @ [(rq, AwaitGateway env)]\<rparr>)"
    by (rule orderly_wait [OF assms(1) q(1), where rq = rq and ph = "AwaitGateway env"])
      (use q(2) assms(3) in \<open>simp_all add: nothing_shown_def\<close>)
  have go_on: "orderly_ok (after_gateway t answer (length (handlers b)) env (b\<lparr>handlers := handlers b @ [(rq, AwaitGateway env)]\<rparr>))"
    for answer by (rule orderly_after_gateway [OF asked]) simp_all
  have "set_phase (length (handlers b)) (AwaitGateway env) (b\<lparr>handlers := handlers b @ [(rq, AwaitUser)]\<rparr>) =
      b\<lparr>handlers := handlers b @ [(rq, AwaitGateway env)]\<rparr>" by (simp add: set_phase_def)
  then show ?thesis
    using asked go_on orderly_fields(2) [OF asked] by (simp add: await_gateway_def after_gateway_new split: option.split)
qed

lemma orderly_onMessage:
  assumes "orderly_ok b" and "orderly_event b (Message env rq)"
  shows "orderly_ok (onMessage t env rq b)"
proof -
  let ?b = "b\<lparr>handlers := handlers b @ [(rq, AwaitUser)]\<rparr>" and ?n = "length (handlers b)"
  have answer: "orderly_ok (settle ?n out ?b)" if "\<And>r. out = Inr r \<Longrightarrow> fits (rq_type rq) r" for out
    unfolding settle_new by (rule orderly_answer [OF assms(1)]) (rule that)
  have recovering: "orderly_ok (settle ?n (Inl e) (?b\<lparr>showRecoveryInProgress := True\<rparr>))" for e
  proof -
    have "settle ?n (Inl e) (?b\<lparr>showRecoveryInProgress := True\<rparr>) = (settle ?n (Inl e) ?b)\<lparr>showRecoveryInProgress := True\<rparr>"
      by (simp add: settle_def)
    then show ?thesis using orderly_fields(3) [OF answer [of "Inl e"]] by simp
  qed
  have receive: "orderly_ok (set_phase ?n AwaitReceive ?b)" if "rq_type rq = fedi_receiveEcash"
    by (rule orderly_append [OF assms(1), where rq = rq and ph = AwaitReceive])
      (use assms(1) that in \<open>auto simp: orderly_ok_def\<close>)
  have q: "quiet b" if "rq_type rq \<in> {webln_getInfo, webln_makeInvoice, webln_sendPayment, nostr_signEvent, fedi_generateEcash}"
    using assms(2) that by auto
  have hidden: "nothing_shown ?b" if "quiet b" using quietD(2) [OF that] by (simp add: nothing_shown_def)
  have sign: "orderly_ok ((wait_for_user ?n ?b)\<lparr>nostrUnsignedEvent := e\<rparr>)" if "rq_type rq = nostr_signEvent" for e
  proof (rule orderly_wait [OF assms(1), where rq = rq and ph = AwaitUser])
    have "quiet b" using q that by simp
    then show "none_waits b" by (rule quietD(1))
    have shown: "nothing_shown ?b" by (rule hidden) fact
    show "phase_ok ((wait_for_user ?n ?b)\<lparr>nostrUnsignedEvent := e\<rparr>) ?n (rq_type rq) AwaitUser"
      using opened_overlay(3) [OF shown, of _ ?n] that by simp
  qed simp_all
  have ecash: "orderly_ok ((wait_for_user ?n ?b)\<lparr>ecashRequest := a\<rparr>)" if "rq_type rq = fedi_generateEcash" for a
  proof (rule orderly_wait [OF assms(1), where rq = rq and ph = AwaitUser])
    have "quiet b" using q that by simp
    then show "none_waits b" by (rule quietD(1))
    have shown: "nothing_shown ?b" by (rule hidden) fact
    show "phase_ok ((wait_for_user ?n ?b)\<lparr>ecashRequest := a\<rparr>) ?n (rq_type rq) AwaitUser"
      using opened_overlay(4) [OF shown, of _ ?n] that by simp
  qed simp_all
  have failed: "orderly_ok (settle ?n (Inl e) ?b)" for e by (rule answer) simp
  have given: "orderly_ok (settle ?n (Inr r) ?b)" if "fits (rq_type rq) r" for r using that by (intro answer) simp
  show ?thesis
    unfolding onMessage_def run_handler_def Let_def
    using failed given recovering receive sign ecash orderly_await [OF assms(1)] q
    by (cases "rq_type rq") (simp_all add: fits_def split: option.split prod.split)
qed

lemma orderly_step:
  assumes "orderly_ok b" and "orderly_event b e"
  shows "orderly_ok (browser_step t e b)"
proof -
  have "orderly_ok (handle_event t e b)"
  proof (cases e)
    case (LinkParsed r url link)
    then show ?thesis
      using assms by (auto simp: link_parsed_def handleParsedLink_def intro: orderly_none_waits [OF assms(1)] split: parsed.split)
  qed (use assms orderly_onMessage in \<open>auto simp: orderly_gateways_listed orderly_invoice_decoded orderly_ecash_received
    orderly_confirm orderly_confirmed confirm_failed_def reject_overlay_def dismiss_recovery_def orderly_ended orderly_onReject
    orderly_closed simp del: orderly_event.simps\<close>)
  then show ?thesis unfolding browser_step_def form_shown_def by (rule orderly_fields(4))
qed

lemma orderly_initial: "orderly_ok initial_browser"
  by (simp add: orderly_ok_def initial_browser_def)

lemma orderly_run_ok: "orderly_ok b \<Longrightarrow> orderly_run t b es \<Longrightarrow> orderly_ok (fold (browser_step t) es b)"
  by (induction es arbitrary: b) (auto simp: orderly_step)

text \<open>
  C3: In a run in which requests for the user come one at a time, every request that is answered gets an answer of
  its own type, however payments, links, failures and dismissals interleave; only \<open>generateEcash\<close> gets the text of the
  ecash where its type declares an object.
\<close>

theorem orderly_requests_get_their_answer:
  assumes "orderly_run t initial_browser es"
    and "(rq, Settled (Inr r)) \<in> set (handlers (fold (browser_step t) es initial_browser))"
  shows "fits (rq_type rq) r"
proof -
  let ?b = "fold (browser_step t) es initial_browser"
  obtain n where "n < length (handlers ?b)" "handlers ?b ! n = (rq, Settled (Inr r))"
    using assms(2) by (metis in_set_conv_nth)
  then show ?thesis
    using orderly_run_ok [OF orderly_initial assms(1)] by (fastforce simp: orderly_ok_def)
qed

definition ecash_run :: "browser_event list" where
  "ecash_run = [Message browser_sample (ecash_request 0 args_sample), Confirm EcashOverlay, Confirmed (EcashMade ''notes''),
     Message browser_sample (sign_request 0 event_sample), RejectOverlay NostrOverlay True]"

theorem orderly_requests_get_their_answer_witness:
  "fits fedi_generateEcash (TextResponse ''notes'')"
proof -
  have "orderly_run (\<lambda>k xs. k) initial_browser ecash_run" by code_simp
  moreover have "(ecash_request 0 args_sample, Settled (Inr (TextResponse ''notes''))) \<in>
      set (handlers (fold (browser_step (\<lambda>k xs. k)) ecash_run initial_browser))" by code_simp
  ultimately have "fits (rq_type (ecash_request 0 args_sample)) (TextResponse ''notes'')"
    by (rule orderly_requests_get_their_answer)
  then show ?thesis by (simp add: ecash_request_def)
qed

section \<open>The gateway\<close>

lemma gateway_kept:
  assumes "gatewayPromise b = Some (Some a)"
  shows "gatewayPromise (browser_step t e b) = Some (Some a) \<and>
    listGateways_calls (browser_step t e b) = listGateways_calls b"
proof -
  have after: "gatewayPromise (after_gateway t answer n env b) = gatewayPromise b"
    "listGateways_calls (after_gateway t answer n env b) = listGateways_calls b" for answer n env b
    by (simp_all add: after_gateway_def Let_def split: sum.split)
  have run: "gatewayPromise (run_handler t env n rq b) = Some (Some a)"
    "listGateways_calls (run_handler t env n rq b) = listGateways_calls b" if "gatewayPromise b = Some (Some a)" for env n rq b
    using that by (cases "rq_type rq";
        simp add: run_handler_def Let_def await_gateway_def after split: option.split prod.split)+
  have "gatewayPromise (handle_event t e b) = Some (Some a) \<and>
      listGateways_calls (handle_event t e b) = listGateways_calls b"
    using assms by (cases e) (auto simp: onMessage_def run gateways_listed_def invoice_decoded_def ecash_received_def
        confirm_def confirmed_def confirm_failed_def reject_overlay_def dismiss_recovery_def onReject_def onAccept_def
        link_parsed_def handleParsedLink_def split: option.split sum.split handler_phase.split parsed.split)
  then show ?thesis by (simp add: browser_step_def form_shown_def)
qed

text \<open>
  C18: Once the gateways could not be listed, or none was there, the browser never asks for them again: every later
  invoice, payment or info request of the mod fails at once, as long as its screen is open.
\<close>

theorem gateway_failure_is_final:
  assumes "gatewayPromise b = Some (Some (Inl e))" and "b' = fold (browser_step t) es b"
    and "rq_type rq \<in> {webln_getInfo, webln_makeInvoice, webln_sendPayment}"
  shows "listGateways_calls b' = listGateways_calls b \<and>
    (\<exists>err. snd (last (handlers (browser_step t (Message env rq) b'))) = Settled (Inl err))"
proof -
  have kept: "gatewayPromise (fold (browser_step t) es b) = Some (Some (Inl e)) \<and>
      listGateways_calls (fold (browser_step t) es b) = listGateways_calls b"
    using assms(1) by (induction es arbitrary: b) (simp_all add: gateway_kept)
  have "\<exists>err. handlers (onMessage t env rq b') = handlers b' @ [(rq, Settled (Inl err))]"
    using assms(3) kept by (auto simp: assms(2) onMessage_def run_handler_def Let_def await_gateway_def after_gateway_def
        settle_def)
  then show ?thesis using kept by (auto simp: assms(2) browser_step_def form_shown_def)
qed

theorem gateway_failure_is_final_witness:
  "\<exists>err. snd (last (handlers (browser_step (\<lambda>k xs. k) (Message browser_sample (pay_request 1 ''lnbc2''))
     (fold (browser_step (\<lambda>k xs. k)) [Message browser_sample (pay_request 0 ''lnbc1''), GatewaysListed (Inr [])]
        initial_browser)))) = Settled (Inl err)"
proof -
  let ?b = "fold (browser_step (\<lambda>k xs. k)) [Message browser_sample (pay_request 0 ''lnbc1''), GatewaysListed (Inr [])]
        initial_browser"
  have "gatewayPromise ?b = Some (Some (Inl (ThrownMessage ''No available lightning gateways'')))" by code_simp
  from gateway_failure_is_final [OF this, of ?b _ "[]" "pay_request 1 ''lnbc2''"] show ?thesis
    by (simp add: pay_request_def del: fold_Cons)
qed

end
