(* ===== verification/Spec2Isabelle.thy ===== *)
theory Spec2Isabelle
  imports AmountUtils Observable ChatState TxText FederationState MatrixPayments StorageLaws MatrixObserverLaws Pay Export LogStore TextDetect Encryption ModMetadata ChatSelectors ModBrowser
begin

text \<open>
  A verification development of the TypeScript core of Fedi, a wallet and community app over Fedimint.
  The core is \<open>ui/common\<close>: a Redux store, the clients of the bridge (the Rust library behind one RPC
  interface) and of Matrix, the hooks the screens of the native and the web app share, and utilities.

  \<^bold>\<open>The program.\<close> The bridge answers RPC calls and sends events. Thunks and clients call it and dispatch
  actions; reducers compute the next state of a slice; selectors and hooks derive what is shown. Part of
  the state is written to the storage of the platform and migrated when it is loaded. Ecash moves
  in three ways: through the wallet slice (stability pool), through chat payments (the legacy XMPP chat
  and Matrix), and through the payment form (invoices, LNURL, on-chain addresses, Cashu tokens).

  \<^bold>\<open>Foundations.\<close>
  \<^item> \<open>Prelude\<close>: truthiness, optional values, errors as a sum, dictionaries, sorting as lodash does it, and the
    interfaces: \<open>reducer\<close> (an initial state, a step and an invariant that every allowed action
    keeps), \<open>keyed_slice\<close> (a state per federation with its get and set laws), \<open>list_upsert\<close> and
    \<open>list_upsert_new\<close> (insertion or update of an entity by its id). The slices interpret them.
  \<^item> \<open>JsNumber\<close>, \<open>JsParse\<close>, \<open>JsPrint\<close>, \<open>JsString\<close>: IEEE 754 doubles as rationals with rounding,
    \<open>Number(s)\<close>, \<open>parseInt\<close>, \<open>parseFloat\<close>, \<open>String(n)\<close>, and the string functions used.
  \<^item> \<open>Grouping\<close>, \<open>RecordUtils\<close> (\<open>utils/redux.ts\<close>), \<open>Observable\<close> (\<open>utils/observable.ts\<close>): grouping of messages,
    upserts, and the vector diffs of the bridge, which commute with mapping their elements.

  \<^bold>\<open>Chat and Matrix.\<close>
  \<^item> \<open>ChatUtils\<close>, \<open>ChatState\<close>, \<open>ChatSelectors\<close> (\<open>types/chat.ts\<close>, \<open>utils/chat.ts\<close>, \<open>redux/chat.ts\<close>): the XMPP
    chat per federation, its limits on stored messages and groups, the payment updates, and the list of
    chats assembled from the messages, which shows of every conversation what is newest.
  \<^item> \<open>MatrixUtils\<close>, \<open>MatrixState\<close> (\<open>utils/matrix.ts\<close>, \<open>types/matrix.ts\<close>, \<open>redux/matrix.ts\<close>): events and their
    validation, links, power levels, the slice with its invariant, the receivable payments.
  \<^item> \<open>MatrixPayments\<close>: the thunks that move ecash as lists of bridge calls with a result, and the claiming of
    received payments as an interleaving step relation; every life of a payment follows its states.
  \<^item> \<open>MatrixClient\<close>, \<open>MatrixObservers\<close>, \<open>MatrixObserverLaws\<close> (\<open>utils/MatrixChatClient.ts\<close>): the client with its
    awaits as tasks of an arbitrary scheduler. The locale \<open>client_invariant\<close> collects what a property has to
    satisfy to survive every step; its interpretations show that a room is observed once, and what a failed
    observation means. The timeline the app holds is the image of the one of the bridge.

  \<^bold>\<open>Wallet, federations, settings.\<close>
  \<^item> \<open>AmountUtils\<close>, \<open>AmountForms\<close>, \<open>Wallet\<close>, \<open>Currency\<close> (\<open>utils/AmountUtils.ts\<close>, \<open>hooks/amount.ts\<close>,
    \<open>redux/wallet.ts\<close>, \<open>redux/currency.ts\<close>): conversions, the keypad, limits, and the stability pool.
  \<^item> \<open>Transactions\<close>, \<open>TxText\<close>, \<open>Export\<close> (\<open>redux/transactions.ts\<close>, \<open>utils/wallet.ts\<close>,
    \<open>hooks/transactions.ts\<close>, \<open>utils/csv.ts\<close>): the history, its texts and fees, and its export.
  \<^item> \<open>FederationUtils\<close>, \<open>FederationState\<close>, \<open>Mods\<close>, \<open>Settings\<close>: federations and communities, their metadata, mods,
    and the small slices.
  \<^item> \<open>StoredState\<close>, \<open>Storage\<close>, \<open>StorageLaws\<close> (\<open>types/storage.ts\<close>, \<open>utils/storage.ts\<close>): one record for the stored
    states of all versions, every migration, and when the state is saved, which the code decides by comparing
    references: the model keeps the references of two states next to their contents. A saved state loads
    unchanged, and every old state of the shape of its version reaches the latest one.

  \<^bold>\<open>Input and payments.\<close>
  \<^item> \<open>Cbor\<close>, \<open>CborLaws\<close>, \<open>Cashu\<close> (\<open>utils/cbor.ts\<close>, \<open>utils/cashu.ts\<close>): the CBOR decoder, total and inverse to the
    encoding of RFC 8949, both formats of Cashu tokens, and their melting.
  \<^item> \<open>InputParser\<close> (\<open>utils/parser.ts\<close>, \<open>utils/validation.ts\<close>): ten parsers that race; the order in which they
    settle is an argument, and for unambiguous input it does not matter.
  \<^item> \<open>Pay\<close> (\<open>hooks/pay.ts\<close>, \<open>utils/lnurl.ts\<close>): the payment form and the LNURL requests.

  \<^bold>\<open>Mods.\<close>
  \<^item> \<open>Injections\<close> (\<open>ui/injections\<close>): the providers in the page of a mod and the handler of the app, exchanging
    requests and responses in any order. While the page stays, answers go to their own requests; after a
    navigation they need not.
  \<^item> \<open>ModBrowser\<close> (\<open>ui/native/screens/FediModBrowser.tsx\<close> and its overlays): the handlers, the callbacks all overlays
    share, and the confirmations that run while the bridge works. Requests that come one at a time get answers of
    their type; overlapping ones are lost or mixed up, and a failed list of gateways is kept for good.

  \<^bold>\<open>Utilities.\<close>
  \<^item> \<open>LogStore\<close> (\<open>utils/log.ts\<close>), \<open>TextDetect\<close> (\<open>utils/istextorbinary.ts\<close>), \<open>Encryption\<close>
    (\<open>utils/EncryptionUtils.ts\<close>), \<open>ModMetadata\<close> (\<open>utils/fedimods.ts\<close>).

  \<^bold>\<open>Conventions.\<close> A definition has the name of the function it models; a part of a function has a name of
  its own. A thrown error is \<open>Inl\<close>. A promise that is awaited is a function from its answer, or a step when
  something else can happen in between. Thunks return the calls they make, in order, so that properties can
  speak of what was paid and when. Code outside the repository (the bridge, \<open>fetch\<close>, \<open>Intl\<close>, \<open>URL\<close>,
  \<open>Buffer\<close>, \<open>TextDecoder\<close>, i18next, TweetNaCl, js-lnurl) is an argument; a property that needs a law of it
  names the law as a hypothesis, and its witness instantiates it.

  \<^bold>\<open>Bounds and fuel.\<close> The CBOR decoder has fuel of two units per byte and two more, shown to be enough for
  every input. Printing a number takes at most 400 steps to find the exponent and 17 digits, which is enough
  for every double. \<open>Encryption.bytes_loop\<close> is a partial function, shown to return. All other recursion
  is structural or has a measure.

  \<^bold>\<open>Simplifications.\<close> Strings are lists of code units below 256. A dictionary has no key \<open>__proto__\<close>. The two
  zeros of IEEE 754 are one value. React states are records and an effect is a function; what React batches
  is one step. The scheduler of the Matrix client may interleave more than JavaScript does.

  \<^bold>\<open>Not modelled.\<close> The screens, components, navigation and styles of \<open>ui/native\<close> and \<open>ui/web\<close> but for the
  browser of mods (React over the hooks, no state of their own beyond inputs), the hooks that only connect a
  screen to thunks and selectors, formatting of dates and colours, the generated types of the bridge beyond those used, the wrappers
  of \<open>utils/fedimint.ts\<close> (one RPC call each), the XML stanzas of the legacy chat and its connection (calls
  to the XMPP library), the word list of BIP 39, themes, translations, scripts and tests, and the Rust and native
  code of the bridge.
\<close>

end
